(* ===== verification/Container_Prelude.thy ===== *)
theory Container_Prelude
  imports Main "HOL-Library.Word"
begin

text \<open>
  Shared vocabulary of the development: the machine types of the C sources, the way an
  operation with effects and an error code is written, the frame predicate that says an
  operation leaves a view of the device alone, and the word and list lemmas the component
  theories use.

  \<^item> \<open>byte\<close>, \<open>u32\<close>, \<open>u64\<close> are \<open>uint8_t\<close>, \<open>uint32_t\<close>, \<open>uint64_t\<close>; their arithmetic wraps.
    A \<open>size_t\<close> is a \<open>nat\<close>: the sources guard every subtraction on a \<open>size_t\<close>, and the theories
    prove the guards, so no wrap-around of a \<open>size_t\<close> is observable.
  \<^item> A C array or buffer is a \<open>byte list\<close>; \<open>memcmp(a, b, n) == 0\<close> on two buffers of \<open>n\<close> bytes
    is equality of the lists.
  \<^item> A call with effects takes the device state and returns it with its result.  The chains
    \<open>if (result == OK) { result = ... }\<close> of the sources are \<open>bindE\<close>: \<open>Inl e\<close> is a result code
    other than OK and skips the rest, \<open>Inr x\<close> is OK with the value of the out-parameter.
\<close>

unbundle bit_operations_syntax

type_synonym byte = "8 word"
type_synonym u32 = "32 word"
type_synonym u64 = "64 word"
type_synonym bytes = "byte list"

named_theorems frame_intros "rules that show that an operation keeps a view of the device"
named_theorems slot_bounds "arithmetic facts of a valid slot geometry"

subsection \<open>Strings and zero buffers\<close>

definition str_bytes :: "string \<Rightarrow> bytes" where
  "str_bytes s = map of_char s"

abbreviation zeros :: "nat \<Rightarrow> bytes" where
  "zeros n \<equiv> replicate n 0"

lemma length_str_bytes [simp]: "length (str_bytes s) = length s"
  by (simp add: str_bytes_def)

subsection \<open>Effects with error codes\<close>

type_synonym ('d, 'e, 'a) act = "'d \<Rightarrow> ('e + 'a) \<times> 'd"

definition retE :: "'a \<Rightarrow> ('d, 'e, 'a) act" where
  "retE x d = (Inr x, d)"

definition failE :: "'e \<Rightarrow> ('d, 'e, 'a) act" where
  "failE e d = (Inl e, d)"

definition bindE :: "('d, 'e, 'a) act \<Rightarrow> ('a \<Rightarrow> ('d, 'e, 'b) act) \<Rightarrow> ('d, 'e, 'b) act" where
  "bindE m f d = (case m d of (Inl e, d') \<Rightarrow> (Inl e, d') | (Inr x, d') \<Rightarrow> f x d')"

definition guardE :: "bool \<Rightarrow> 'e \<Rightarrow> ('d, 'e, unit) act" where
  "guardE b e = (if b then retE () else failE e)"

lemma bindE_OK:
  "bindE m f d = (Inr y, d2) \<longleftrightarrow> (\<exists>x d1. m d = (Inr x, d1) \<and> f x d1 = (Inr y, d2))"
  by (auto simp: bindE_def split: prod.splits sum.splits)

lemma bindE_Err:
  "bindE m f d = (Inl e, d2) \<longleftrightarrow>
     m d = (Inl e, d2) \<or> (\<exists>x d1. m d = (Inr x, d1) \<and> f x d1 = (Inl e, d2))"
  by (auto simp: bindE_def split: prod.splits sum.splits)

lemma bindE_cases:
  assumes "bindE m f d = (r, d')"
  obtains (failed) e where "m d = (Inl e, d')" "r = Inl e"
    | (ok) x d1 where "m d = (Inr x, d1)" "f x d1 = (r, d')"
  using assms by (cases "fst (m d)") (auto simp: bindE_def split: prod.splits)

lemma guardE_OK [simp]: "guardE b e d = (Inr u, d2) \<longleftrightarrow> b \<and> d2 = d"
  by (auto simp: guardE_def retE_def failE_def)

lemma guardE_Err [simp]: "guardE b e d = (Inl e', d2) \<longleftrightarrow> \<not> b \<and> e' = e \<and> d2 = d"
  by (auto simp: guardE_def retE_def failE_def)

lemma retE_eq [simp]: "retE x d = (r, d2) \<longleftrightarrow> r = Inr x \<and> d2 = d"
  by (auto simp: retE_def)

lemma failE_eq [simp]: "failE e d = (r, d2) \<longleftrightarrow> r = Inl e \<and> d2 = d"
  by (auto simp: failE_def)

text \<open>
  \<open>keeps V m\<close>: the operation \<open>m\<close> leaves the view \<open>V\<close> of the device as it was, whatever it
  returns.
\<close>

definition keeps :: "('d \<Rightarrow> 'v) \<Rightarrow> ('d \<Rightarrow> 'r \<times> 'd) \<Rightarrow> bool" where
  "keeps V m \<longleftrightarrow> (\<forall>d. V (snd (m d)) = V d)"

lemma keepsI: "(\<And>d r d'. m d = (r, d') \<Longrightarrow> V d' = V d) \<Longrightarrow> keeps V m"
  by (metis keeps_def prod.collapse)

lemma keepsD: "keeps V m \<Longrightarrow> m d = (r, d') \<Longrightarrow> V d' = V d"
  by (metis keeps_def snd_conv)

lemma keeps_retE [frame_intros]: "keeps V (retE x)"
  by (simp add: keeps_def retE_def)

lemma keeps_failE [frame_intros]: "keeps V (failE e)"
  by (simp add: keeps_def failE_def)

lemma keeps_guardE [frame_intros]: "keeps V (guardE b e)"
  by (simp add: keeps_def guardE_def retE_def failE_def)

lemma keeps_bindE [frame_intros]:
  assumes "keeps V m" and "\<And>x. keeps V (f x)"
  shows "keeps V (bindE m f)"
proof (rule keepsI)
  fix d r d' assume run: "bindE m f d = (r, d')"
  obtain q d1 where q: "m d = (q, d1)" by fastforce
  with assms(1) have "V d1 = V d" by (blast dest: keepsD)
  with run q show "V d' = V d"
    by (cases q) (auto simp: bindE_def dest: keepsD [OF assms(2)])
qed

lemma keeps_if [frame_intros]:
  "(b \<Longrightarrow> keeps V m) \<Longrightarrow> (\<not> b \<Longrightarrow> keeps V n) \<Longrightarrow> keeps V (if b then m else n)"
  by simp

lemma keeps_let [frame_intros]: "(\<And>x. x = a \<Longrightarrow> keeps V (f x)) \<Longrightarrow> keeps V (Let a f)"
  by simp

lemma keeps_compose: "keeps V m \<Longrightarrow> (\<And>d. W d = g (V d)) \<Longrightarrow> keeps W m"
  by (simp add: keeps_def)

text \<open>\<open>codes C m\<close>: when the action \<open>m\<close> fails, it fails with a code in \<open>C\<close>.\<close>

definition codes :: "'e set \<Rightarrow> ('d, 'e, 'a) act \<Rightarrow> bool" where
  "codes C m \<longleftrightarrow> (\<forall>d e d'. m d = (Inl e, d') \<longrightarrow> e \<in> C)"

named_theorems code_intros "the result codes of the actions"

lemma codesI: "(\<And>d e d'. m d = (Inl e, d') \<Longrightarrow> e \<in> C) \<Longrightarrow> codes C m"
  by (auto simp: codes_def)

lemma codesD: "codes C m \<Longrightarrow> m d = (Inl e, d') \<Longrightarrow> e \<in> C"
  by (auto simp: codes_def)

lemma codes_basic [code_intros]:
  "codes C (retE x)" "e \<in> C \<Longrightarrow> codes C (failE e)" "e \<in> C \<Longrightarrow> codes C (guardE b e)"
  by (auto simp: codes_def)

lemma codes_bindE [code_intros]: "codes C m \<Longrightarrow> (\<And>x. codes C (f x)) \<Longrightarrow> codes C (bindE m f)"
  by (rule codesI) (auto simp: bindE_Err dest: codesD)

lemma codes_if [code_intros]: "(b \<Longrightarrow> codes C m) \<Longrightarrow> (\<not> b \<Longrightarrow> codes C n) \<Longrightarrow> codes C (if b then m else n)"
  by simp

subsection \<open>Words\<close>

lemma unat_u32_lt: "unat (x :: u32) < 4294967296"
  using unsigned_less [of x] by simp

lemma unat_ucast_u64 [simp]: "unat (ucast (x :: u32) :: u64) = unat x"
  by (simp add: unsigned_ucast_eq take_bit_nat_eq_self
      order_less_trans [OF unat_u32_lt [of x]])

lemma unat_u64_sum: "unat (ucast (x :: u32) + ucast (y :: u32) :: u64) = unat x + unat y"
proof -
  have "unat x + unat y < 2 ^ 64"
    using unat_u32_lt [of x] unat_u32_lt [of y] by simp
  then show ?thesis by (simp add: unat_word_ariths)
qed

lemma unat_sub_of_nat: "c \<le> unat (x :: u32) \<Longrightarrow> unat (x - of_nat c) = unat x - c"
proof -
  assume c: "c \<le> unat x"
  then have "unat (of_nat c :: u32) = c"
    using unat_u32_lt [of x] by (simp add: unat_of_nat)
  moreover from this c have "(of_nat c :: u32) \<le> x" by (simp add: word_le_nat_alt)
  ultimately show ?thesis by (simp add: unat_sub)
qed

lemma unat_sub_le: "(y :: u32) \<le> x \<Longrightarrow> unat (x - y) = unat x - unat y"
  by (rule unat_sub)

lemma unat_add_of_nat:
  "unat (x :: u32) + c < 4294967296 \<Longrightarrow> unat (x + of_nat c) = unat x + c"
  by (simp add: unat_word_ariths unat_of_nat)

lemma word_pos_iff: "(x :: 'a::len word) \<noteq> 0 \<longleftrightarrow> 0 < unat x"
  by (simp add: unat_gt_0)

subsection \<open>Lists\<close>

lemma list2_cases: "length xs = 2 \<Longrightarrow> (\<And>a b. xs = [a, b] \<Longrightarrow> P) \<Longrightarrow> P"
  by (auto simp: numeral_2_eq_2 length_Suc_conv)

lemma list3_cases: "length xs = 3 \<Longrightarrow> (\<And>a b c. xs = [a, b, c] \<Longrightarrow> P) \<Longrightarrow> P"
  by (auto simp: numeral_3_eq_3 length_Suc_conv)

lemma nat_less_2: "i < (2::nat) \<longleftrightarrow> i = 0 \<or> i = 1"
  by auto

lemma nat_less_3: "i < (3::nat) \<longleftrightarrow> i = 0 \<or> i = 1 \<or> i = 2"
  by auto

lemma take_app: "length xs = n \<Longrightarrow> take n (xs @ ys) = xs"
  by simp

lemma drop_app: "length xs = n \<Longrightarrow> drop n (xs @ ys) = ys"
  by simp

end
