(* ===== verification/Slots_Types.thy ===== *)
theory Slots_Types
  imports Container_Prelude
begin

text \<open>
  The data of the package slot store (\<open>esp_container_slots.h\<close>) and its validity predicates
  (\<open>slots.c\<close>): the geometry of the three Flash slots, the bindings of firmware digests to
  packages, the operation in progress and the state record that is stored in one NVS blob.

  A struct is a record, its fixed-size arrays are lists; \<open>state_shape\<close> and \<open>geometry_shape\<close>
  say that these lists have the lengths the C types give them.  The phase enum is a datatype
  ordered by its C values, so the range checks of the code read as they do in C.
\<close>

subsection \<open>Constants and enums\<close>

definition SLOT_COUNT :: nat where "SLOT_COUNT = 3"
definition SLOT_BINDING_COUNT :: nat where "SLOT_BINDING_COUNT = 2"
definition SLOT_BLOB_BYTES :: nat where "SLOT_BLOB_BYTES = 288"
definition SLOT_IO_BYTES :: nat where "SLOT_IO_BYTES = 256"

datatype slots_result =
    SLOTS_OK | SLOTS_EMPTY | SLOTS_INVALID | SLOTS_IO_FAILED | SLOTS_UNCERTAIN
  | SLOTS_BUSY | SLOTS_NO_SPACE | SLOTS_CONFLICT | SLOTS_UNTRUSTED

datatype slot_phase =
    SLOT_IDLE | SLOT_WRITING | SLOT_PREPARED | SLOT_TRIAL_STARTED
  | SLOT_HEALTH_VERIFIED | SLOT_CONFIRMED | SLOT_ABORTED

fun phase_num :: "slot_phase \<Rightarrow> nat" where
  "phase_num SLOT_IDLE = 0"
| "phase_num SLOT_WRITING = 1"
| "phase_num SLOT_PREPARED = 2"
| "phase_num SLOT_TRIAL_STARTED = 3"
| "phase_num SLOT_HEALTH_VERIFIED = 4"
| "phase_num SLOT_CONFIRMED = 5"
| "phase_num SLOT_ABORTED = 6"

lemma phase_num_inject: "phase_num p = phase_num q \<longleftrightarrow> p = q"
  by (cases p; cases q) simp_all

instantiation slot_phase :: linorder
begin

definition less_eq_slot_phase :: "slot_phase \<Rightarrow> slot_phase \<Rightarrow> bool" where
  "less_eq_slot_phase p q \<longleftrightarrow> phase_num p \<le> phase_num q"

definition less_slot_phase :: "slot_phase \<Rightarrow> slot_phase \<Rightarrow> bool" where
  "less_slot_phase p q \<longleftrightarrow> phase_num p < phase_num q"

instance
  by standard (auto simp: less_eq_slot_phase_def less_slot_phase_def phase_num_inject)

end

datatype boot_decision =
    BOOT_BLOCKED | BOOT_CONFIRMED | BOOT_RECOVER_CONFIRMED
  | BOOT_RECOVER_CONFIRMED_CANDIDATE_INVALID

datatype validation_result = VALIDATION_OK | VALIDATION_UNTRUSTED | VALIDATION_IO_FAILED

subsection \<open>Structs\<close>

record slot_region =
  sr_offset_bytes :: u32
  sr_size_bytes :: u32

record slots_geometry =
  partition_offset_bytes :: u32
  partition_size_bytes :: u32
  erase_unit_bytes :: u32
  write_unit_bytes :: u32
  geometry_slots :: "slot_region list"

record slot_binding =
  sb_present :: bool
  sb_package_present :: bool
  sb_slot :: byte
  sb_firmware_sha256 :: bytes
  sb_package_sha256 :: bytes
  sb_package_size_bytes :: u32
  sb_guest_abi_version :: u32
  sb_data_schema_version :: u32

record slot_operation =
  so_operation_id :: bytes
  so_target_firmware_sha256 :: bytes
  so_package_sha256 :: bytes
  so_slot :: byte
  so_package_size_bytes :: u32
  so_guest_abi_version :: u32
  so_data_schema_version :: u32
  so_trial_boot_id :: bytes

record slots_state =
  ss_sequence :: u32
  ss_bindings :: "slot_binding list"
  ss_phase :: slot_phase
  ss_operation :: slot_operation

record firmware_set =
  bootable_count :: byte
  bootable_firmware_sha256 :: "bytes list"
  running_firmware_sha256 :: bytes

text \<open>The values that \<open>memset(x, 0, sizeof x)\<close> and \<open>= {0}\<close> give.\<close>

definition zero_binding :: slot_binding where
  "zero_binding = \<lparr>sb_present = False, sb_package_present = False, sb_slot = 0,
     sb_firmware_sha256 = zeros 32, sb_package_sha256 = zeros 32,
     sb_package_size_bytes = 0, sb_guest_abi_version = 0, sb_data_schema_version = 0\<rparr>"

definition zero_operation :: slot_operation where
  "zero_operation = \<lparr>so_operation_id = zeros 16, so_target_firmware_sha256 = zeros 32,
     so_package_sha256 = zeros 32, so_slot = 0, so_package_size_bytes = 0,
     so_guest_abi_version = 0, so_data_schema_version = 0, so_trial_boot_id = zeros 16\<rparr>"

definition zero_state :: slots_state where
  "zero_state = \<lparr>ss_sequence = 0, ss_bindings = [zero_binding, zero_binding],
     ss_phase = SLOT_IDLE, ss_operation = zero_operation\<rparr>"

text \<open>The lengths that the array types of the structs fix.\<close>

definition binding_shape :: "slot_binding \<Rightarrow> bool" where
  "binding_shape b \<longleftrightarrow> length (sb_firmware_sha256 b) = 32 \<and> length (sb_package_sha256 b) = 32"

definition operation_shape :: "slot_operation \<Rightarrow> bool" where
  "operation_shape p \<longleftrightarrow> length (so_operation_id p) = 16 \<and>
     length (so_target_firmware_sha256 p) = 32 \<and> length (so_package_sha256 p) = 32 \<and>
     length (so_trial_boot_id p) = 16"

definition state_shape :: "slots_state \<Rightarrow> bool" where
  "state_shape s \<longleftrightarrow> length (ss_bindings s) = SLOT_BINDING_COUNT \<and>
     list_all binding_shape (ss_bindings s) \<and> operation_shape (ss_operation s)"

definition geometry_shape :: "slots_geometry \<Rightarrow> bool" where
  "geometry_shape g \<longleftrightarrow> length (geometry_slots g) = SLOT_COUNT"

subsection \<open>Geometry\<close>

definition all_zero :: "bytes \<Rightarrow> bool" where
  "all_zero bs \<longleftrightarrow> fold (\<lambda>b combined. combined OR b) bs 0 = 0"

definition slot_at :: "slots_geometry \<Rightarrow> nat \<Rightarrow> slot_region" where
  "slot_at g i = geometry_slots g ! i"

definition region_end :: "slot_region \<Rightarrow> u64" where
  "region_end r = ucast (sr_offset_bytes r) + ucast (sr_size_bytes r)"

definition region_fits :: "slots_geometry \<Rightarrow> slot_region \<Rightarrow> bool" where
  "region_fits g r \<longleftrightarrow> \<not> (sr_size_bytes r = 0 \<or>
     sr_offset_bytes r < partition_offset_bytes g \<or>
     sr_offset_bytes r mod erase_unit_bytes g \<noteq> 0 \<or>
     sr_size_bytes r mod erase_unit_bytes g \<noteq> 0 \<or>
     region_end r > ucast (partition_offset_bytes g) + ucast (partition_size_bytes g))"

definition regions_overlap :: "slot_region \<Rightarrow> slot_region \<Rightarrow> bool" where
  "regions_overlap r p \<longleftrightarrow>
     (ucast (sr_offset_bytes r) :: u64) < region_end p \<and> ucast (sr_offset_bytes p) < region_end r"

definition geometry_valid :: "slots_geometry option \<Rightarrow> bool" where
  "geometry_valid geometry = (case geometry of None \<Rightarrow> False | Some g \<Rightarrow>
     if partition_size_bytes g = 0 \<or> erase_unit_bytes g = 0 \<or> write_unit_bytes g = 0 \<or>
        write_unit_bytes g > of_nat SLOT_IO_BYTES \<or>
        of_nat SLOT_IO_BYTES mod write_unit_bytes g \<noteq> 0 \<or>
        erase_unit_bytes g mod write_unit_bytes g \<noteq> 0 \<or>
        erase_unit_bytes g AND (erase_unit_bytes g - 1) \<noteq> 0 \<or>
        write_unit_bytes g AND (write_unit_bytes g - 1) \<noteq> 0 \<or>
        (ucast (partition_offset_bytes g) + ucast (partition_size_bytes g) :: u64) > 0xFFFFFFFF
     then False
     else list_all (\<lambda>index. region_fits g (slot_at g index) \<and>
            list_all (\<lambda>other. \<not> regions_overlap (slot_at g index) (slot_at g other)) [0..<index])
          [0..<SLOT_COUNT])"

subsection \<open>Bindings, operations, states\<close>

definition binding_valid :: "slot_binding \<Rightarrow> slots_geometry \<Rightarrow> bool" where
  "binding_valid b g =
    (if \<not> sb_present b then
       \<not> sb_package_present b \<and> sb_slot b = 0 \<and> all_zero (sb_firmware_sha256 b) \<and>
       all_zero (sb_package_sha256 b) \<and> sb_package_size_bytes b = 0 \<and>
       sb_guest_abi_version b = 0 \<and> sb_data_schema_version b = 0
     else if all_zero (sb_firmware_sha256 b) then False
     else if \<not> sb_package_present b then
       sb_slot b = 0 \<and> all_zero (sb_package_sha256 b) \<and> sb_package_size_bytes b = 0 \<and>
       sb_guest_abi_version b = 0 \<and> sb_data_schema_version b = 0
     else
       unat (sb_slot b) < SLOT_COUNT \<and> \<not> all_zero (sb_package_sha256 b) \<and>
       sb_package_size_bytes b > 0 \<and>
       sb_package_size_bytes b \<le> sr_size_bytes (slot_at g (unat (sb_slot b))) \<and>
       sb_guest_abi_version b > 0 \<and> sb_data_schema_version b > 0)"

definition phase_pending :: "slot_phase \<Rightarrow> bool" where
  "phase_pending p \<longleftrightarrow> p \<ge> SLOT_WRITING \<and> p \<le> SLOT_HEALTH_VERIFIED"

definition operation_valid :: "slots_state \<Rightarrow> slots_geometry \<Rightarrow> bool" where
  "operation_valid s g = (let operation = ss_operation s in
    if ss_phase s = SLOT_IDLE then operation = zero_operation
    else if ss_phase s < SLOT_WRITING \<or> ss_phase s > SLOT_ABORTED \<or>
       all_zero (so_operation_id operation) \<or>
       all_zero (so_target_firmware_sha256 operation) \<or>
       all_zero (so_package_sha256 operation) \<or>
       unat (so_slot operation) \<ge> SLOT_COUNT \<or>
       so_package_size_bytes operation = 0 \<or>
       so_package_size_bytes operation > sr_size_bytes (slot_at g (unat (so_slot operation))) \<or>
       so_guest_abi_version operation = 0 \<or> so_data_schema_version operation = 0
    then False
    else if list_ex (\<lambda>b. phase_pending (ss_phase s) \<and>
            sb_package_present b \<and> sb_slot b = so_slot operation) (ss_bindings s)
    then False
    else if \<not> list_ex (\<lambda>b. sb_present b \<and>
            sb_firmware_sha256 b = so_target_firmware_sha256 operation) (ss_bindings s)
    then False
    else if ss_phase s = SLOT_WRITING \<or> ss_phase s = SLOT_PREPARED
    then all_zero (so_trial_boot_id operation)
    else if ss_phase s = SLOT_TRIAL_STARTED \<or> ss_phase s = SLOT_HEALTH_VERIFIED \<or>
       ss_phase s = SLOT_CONFIRMED
    then \<not> all_zero (so_trial_boot_id operation)
    else True)"

definition binding_confirms :: "slot_binding \<Rightarrow> slot_operation \<Rightarrow> bool" where
  "binding_confirms b p \<longleftrightarrow> sb_present b \<and> sb_package_present b \<and>
     sb_firmware_sha256 b = so_target_firmware_sha256 p \<and> sb_slot b = so_slot p \<and>
     sb_package_size_bytes b = so_package_size_bytes p \<and>
     sb_package_sha256 b = so_package_sha256 p \<and>
     sb_guest_abi_version b = so_guest_abi_version p \<and>
     sb_data_schema_version b = so_data_schema_version p"

definition state_valid :: "slots_state \<Rightarrow> slots_geometry \<Rightarrow> bool" where
  "state_valid s g = (let first = ss_bindings s ! 0; second = ss_bindings s ! 1 in
    if ss_sequence s = 0 \<or> \<not> binding_valid first g \<or> \<not> binding_valid second g \<or>
       (\<not> sb_present first \<and> \<not> sb_present second)
    then False
    else if sb_present first \<and> sb_present second \<and>
       sb_firmware_sha256 first = sb_firmware_sha256 second
    then False
    else if sb_package_present first \<and> sb_package_present second \<and>
       sb_slot first = sb_slot second \<and>
       (sb_package_size_bytes first \<noteq> sb_package_size_bytes second \<or>
        sb_package_sha256 first \<noteq> sb_package_sha256 second \<or>
        sb_guest_abi_version first \<noteq> sb_guest_abi_version second \<or>
        sb_data_schema_version first \<noteq> sb_data_schema_version second)
    then False
    else if \<not> operation_valid s g then False
    else if ss_phase s = SLOT_CONFIRMED
    then list_ex (\<lambda>b. binding_confirms b (ss_operation s)) (ss_bindings s)
    else True)"

subsection \<open>Firmware sets\<close>

definition binding_for_firmware :: "slots_state \<Rightarrow> bytes \<Rightarrow> nat option" where
  "binding_for_firmware s firmware =
     List.find (\<lambda>index. sb_present (ss_bindings s ! index) \<and>
        sb_firmware_sha256 (ss_bindings s ! index) = firmware) [0..<SLOT_BINDING_COUNT]"

definition firmware_set_valid :: "firmware_set option \<Rightarrow> bool" where
  "firmware_set_valid firmware_set = (case firmware_set of None \<Rightarrow> False | Some f \<Rightarrow>
     if bootable_count f = 0 \<or> unat (bootable_count f) > SLOT_BINDING_COUNT \<or>
        all_zero (running_firmware_sha256 f)
     then False
     else list_all (\<lambda>index. let digest = bootable_firmware_sha256 f ! index in
            if index \<ge> unat (bootable_count f) then all_zero digest
            else \<not> all_zero digest \<and>
              list_all (\<lambda>previous. digest \<noteq> bootable_firmware_sha256 f ! previous) [0..<index])
          [0..<SLOT_BINDING_COUNT] \<and>
        list_ex (\<lambda>index. index < unat (bootable_count f) \<and>
            bootable_firmware_sha256 f ! index = running_firmware_sha256 f)
          [0..<SLOT_BINDING_COUNT])"

definition firmware_set_matches :: "slots_state \<Rightarrow> firmware_set \<Rightarrow> bool" where
  "firmware_set_matches s f \<longleftrightarrow>
     list_all (\<lambda>b. sb_present b \<longrightarrow>
        list_ex (\<lambda>member. sb_firmware_sha256 b = bootable_firmware_sha256 f ! member)
          [0..<unat (bootable_count f)]) (ss_bindings s) \<and>
     length (filter sb_present (ss_bindings s)) = unat (bootable_count f)"


subsection \<open>Facts of valid values\<close>

lemma fold_or_zero: "fold (\<lambda>b c. c OR b) bs (a :: byte) = 0 \<longleftrightarrow> a = 0 \<and> (\<forall>b \<in> set bs. b = 0)"
  by (induction bs arbitrary: a) (auto simp: or_eq_0_iff)

lemma all_zero_iff: "all_zero bs \<longleftrightarrow> bs = zeros (length bs)"
  by (simp add: all_zero_def fold_or_zero) (induction bs; simp)

lemma all_zero_zeros [simp]: "all_zero (zeros n)"
  by (simp add: all_zero_iff)

lemma phase_pending_iff:
  "phase_pending p \<longleftrightarrow> p \<in> {SLOT_WRITING, SLOT_PREPARED, SLOT_TRIAL_STARTED, SLOT_HEALTH_VERIFIED}"
  by (cases p) (simp_all add: phase_pending_def less_eq_slot_phase_def)

lemma phase_never_above: "\<not> p > SLOT_ABORTED" and phase_below_writing: "p < SLOT_WRITING \<longleftrightarrow> p = SLOT_IDLE"
  by (cases p; simp add: less_slot_phase_def)+

definition slot_begin :: "slots_geometry \<Rightarrow> nat \<Rightarrow> nat" where
  "slot_begin g i = unat (sr_offset_bytes (slot_at g i))"

definition slot_size :: "slots_geometry \<Rightarrow> nat \<Rightarrow> nat" where
  "slot_size g i = unat (sr_size_bytes (slot_at g i))"

lemma unat_region_end: "unat (region_end r) = unat (sr_offset_bytes r) + unat (sr_size_bytes r)"
  by (simp add: region_end_def unat_u64_sum)

lemma regions_overlap_nat:
  "regions_overlap (slot_at g i) (slot_at g j) \<longleftrightarrow>
     slot_begin g i < slot_begin g j + slot_size g j \<and> slot_begin g j < slot_begin g i + slot_size g i"
  by (simp add: regions_overlap_def word_less_nat_alt unat_region_end slot_begin_def slot_size_def)

lemma word_mod_zero_dvd: "(x :: u32) mod y = 0 \<longleftrightarrow> unat y dvd unat x"
  by (metis dvd_eq_mod_eq_0 unat_eq_0 unat_mod)

lemma geometry_valid_units:
  assumes "geometry_valid (Some g)"
  shows "0 < unat (write_unit_bytes g)" and "unat (write_unit_bytes g) \<le> 256"
    and "unat (write_unit_bytes g) dvd 256"
    and "unat (write_unit_bytes g) dvd unat (erase_unit_bytes g)"
    and "0 < unat (erase_unit_bytes g)"
    and "unat (partition_offset_bytes g) + unat (partition_size_bytes g) < 4294967296"
proof -
  have nat_end: "\<not> (ucast (partition_offset_bytes g) + ucast (partition_size_bytes g) :: u64) > 0xFFFFFFFF"
    using assms by (auto simp: geometry_valid_def split: if_splits)
  then show "unat (partition_offset_bytes g) + unat (partition_size_bytes g) < 4294967296"
    by (simp add: word_less_nat_alt unat_u64_sum not_less)
  have w: "write_unit_bytes g \<noteq> 0" "\<not> write_unit_bytes g > 256" "(256 :: u32) mod write_unit_bytes g = 0"
    "erase_unit_bytes g mod write_unit_bytes g = 0" "erase_unit_bytes g \<noteq> 0"
    using assms by (auto simp: geometry_valid_def SLOT_IO_BYTES_def split: if_splits)
  show "0 < unat (write_unit_bytes g)" "0 < unat (erase_unit_bytes g)"
    using w by (simp_all add: unat_gt_0)
  show "unat (write_unit_bytes g) \<le> 256"
    using w(2) by (simp add: word_less_nat_alt)
  show "unat (write_unit_bytes g) dvd 256"
    using w(3) by (simp add: word_mod_zero_dvd)
  show "unat (write_unit_bytes g) dvd unat (erase_unit_bytes g)"
    using w(4) by (simp add: word_mod_zero_dvd)
qed

lemma geometry_valid_region:
  assumes "geometry_valid (Some g)" and "i < SLOT_COUNT"
  shows "region_fits g (slot_at g i)"
    and "\<And>j. j < i \<Longrightarrow> \<not> regions_overlap (slot_at g i) (slot_at g j)"
  using assms by (auto simp: geometry_valid_def list_all_iff split: if_splits)

lemma geometry_valid_slot [slot_bounds]:
  assumes "geometry_valid (Some g)" and "i < SLOT_COUNT"
  shows "0 < slot_size g i"
    and "unat (erase_unit_bytes g) dvd slot_begin g i"
    and "unat (erase_unit_bytes g) dvd slot_size g i"
    and "unat (partition_offset_bytes g) \<le> slot_begin g i"
    and "slot_begin g i + slot_size g i
           \<le> unat (partition_offset_bytes g) + unat (partition_size_bytes g)"
    and "slot_begin g i + slot_size g i < 4294967296"
proof -
  have fits: "region_fits g (slot_at g i)"
    using assms by (rule geometry_valid_region)
  show "0 < slot_size g i" "unat (erase_unit_bytes g) dvd slot_begin g i"
    "unat (erase_unit_bytes g) dvd slot_size g i"
    "unat (partition_offset_bytes g) \<le> slot_begin g i"
    using fits by (simp_all add: region_fits_def slot_size_def slot_begin_def word_mod_zero_dvd
        unat_gt_0 word_less_nat_alt)
  show *: "slot_begin g i + slot_size g i
           \<le> unat (partition_offset_bytes g) + unat (partition_size_bytes g)"
    using fits by (simp add: region_fits_def slot_size_def slot_begin_def word_less_nat_alt
        unat_region_end unat_u64_sum)
  show "slot_begin g i + slot_size g i < 4294967296"
    using * geometry_valid_units(6) [OF assms(1)] by simp
qed

text \<open>Two different slots of a valid geometry share no byte.\<close>

lemma geometry_valid_disjoint:
  assumes "geometry_valid (Some g)" and "i < SLOT_COUNT" and "j < SLOT_COUNT" and "i \<noteq> j"
  shows "slot_begin g i + slot_size g i \<le> slot_begin g j \<or> slot_begin g j + slot_size g j \<le> slot_begin g i"
proof -
  have "\<not> regions_overlap (slot_at g i) (slot_at g j)"
  proof (cases "j < i")
    case True
    then show ?thesis using geometry_valid_region(2) [OF assms(1,2)] by blast
  next
    case False
    with \<open>i \<noteq> j\<close> have "\<not> regions_overlap (slot_at g j) (slot_at g i)"
      using geometry_valid_region(2) [OF assms(1,3)] by simp
    then show ?thesis by (auto simp: regions_overlap_def)
  qed
  then show ?thesis by (auto simp: regions_overlap_nat)
qed

lemma state_shape_cases:
  assumes "state_shape s"
  obtains first second where "ss_bindings s = [first, second]"
  using assms by (auto simp: state_shape_def SLOT_BINDING_COUNT_def elim: list2_cases)

lemma state_validD:
  assumes "state_valid s g"
  shows "ss_sequence s \<noteq> 0" and "operation_valid s g"
    and "i < SLOT_BINDING_COUNT \<Longrightarrow> binding_valid (ss_bindings s ! i) g"
  using assms by (auto simp: state_valid_def Let_def SLOT_BINDING_COUNT_def nat_less_2 split: if_splits)

lemma binding_valid_package:
  assumes "binding_valid b g" and "sb_package_present b"
  shows "sb_present b" and "unat (sb_slot b) < SLOT_COUNT" and "0 < unat (sb_package_size_bytes b)"
    and "unat (sb_package_size_bytes b) \<le> slot_size g (unat (sb_slot b))"
  using assms by (auto simp: binding_valid_def slot_size_def word_le_nat_alt word_less_nat_alt unat_gt_0
      split: if_splits)

lemma operation_valid_active:
  assumes "operation_valid s g" and "ss_phase s \<noteq> SLOT_IDLE"
  shows "unat (so_slot (ss_operation s)) < SLOT_COUNT"
    and "0 < unat (so_package_size_bytes (ss_operation s))"
    and "unat (so_package_size_bytes (ss_operation s)) \<le> slot_size g (unat (so_slot (ss_operation s)))"
  using assms by (auto simp: operation_valid_def Let_def slot_size_def word_less_nat_alt not_less
      unat_gt_0 split: if_splits)

text \<open>The reserved slot of a pending operation is referenced by no binding.\<close>

lemma operation_valid_unreferenced:
  assumes "operation_valid s g" and "phase_pending (ss_phase s)" and "b \<in> set (ss_bindings s)"
    and "sb_package_present b"
  shows "sb_slot b \<noteq> so_slot (ss_operation s)"
  using assms by (auto simp: operation_valid_def Let_def phase_pending_iff list_ex_iff split: if_splits)

lemma binding_for_firmware_Some:
  "binding_for_firmware s f = Some i \<Longrightarrow>
     i < SLOT_BINDING_COUNT \<and> sb_present (ss_bindings s ! i) \<and> sb_firmware_sha256 (ss_bindings s ! i) = f"
  by (auto simp: binding_for_firmware_def find_Some_iff)

lemma binding_for_firmware_None:
  "binding_for_firmware s f = None \<longleftrightarrow> (\<forall>i < SLOT_BINDING_COUNT.
     \<not> (sb_present (ss_bindings s ! i) \<and> sb_firmware_sha256 (ss_bindings s ! i) = f))"
  by (auto simp: binding_for_firmware_def find_None_iff)

end
