(* ===== verification/Slots_Codec.thy ===== *)
theory Slots_Codec
  imports Slots_Types
begin

text \<open>
  The 288-byte record of the slot store: little-endian words, the CRC-32 and the layout
  written by \<open>encode_state\<close> and read by \<open>decode_state\<close> (\<open>slots.c\<close>).  The lemmas give
  the round trip for every valid state and the rejection of every record in which one byte
  differs from a record that decodes.
\<close>

subsection \<open>Words in little-endian order\<close>

definition store_u32 :: "u32 \<Rightarrow> bytes" where
  "store_u32 value = map (\<lambda>index. ucast (drop_bit (index * 8) value)) [0..<4]"

definition load_u32 :: "bytes \<Rightarrow> u32" where
  "load_u32 source =
     fold (\<lambda>index value. value OR push_bit (index * 8) (ucast (source ! index))) [0..<4] 0"

subsection \<open>CRC-32\<close>

definition crc_bit :: "u32 \<Rightarrow> u32" where
  "crc_bit crc = drop_bit 1 crc XOR (if crc AND 1 \<noteq> 0 then 0xedb88320 else 0)"

definition crc_byte :: "byte \<Rightarrow> u32 \<Rightarrow> u32" where
  "crc_byte b crc = (crc_bit ^^ 8) (crc XOR ucast b)"

definition blob_crc32 :: "bytes \<Rightarrow> u32" where
  "blob_crc32 bs = NOT (fold crc_byte bs 0xFFFFFFFF)"

subsection \<open>Layout\<close>

definition SLOT_HEADER_BYTES :: nat where "SLOT_HEADER_BYTES = 12"
definition SLOT_BINDING_BYTES :: nat where "SLOT_BINDING_BYTES = 80"
definition SLOT_OPERATION_BYTES :: nat where "SLOT_OPERATION_BYTES = 112"
definition SLOT_CRC_OFFSET :: nat where "SLOT_CRC_OFFSET = SLOT_BLOB_BYTES - 4"

definition blob_magic :: bytes where "blob_magic = str_bytes ''ECS1''"

definition encode_binding :: "slot_binding \<Rightarrow> bytes" where
  "encode_binding b =
     [if sb_present b then 1 else 0, if sb_package_present b then 1 else 0, sb_slot b, 0] @
     sb_firmware_sha256 b @ sb_package_sha256 b @ store_u32 (sb_package_size_bytes b) @
     store_u32 (sb_guest_abi_version b) @ store_u32 (sb_data_schema_version b)"

definition encode_operation :: "slot_phase \<Rightarrow> slot_operation \<Rightarrow> bytes" where
  "encode_operation phase p =
     [of_nat (phase_num phase), so_slot p, 0, 0] @ so_operation_id p @
     so_target_firmware_sha256 p @ so_package_sha256 p @ store_u32 (so_package_size_bytes p) @
     store_u32 (so_guest_abi_version p) @ store_u32 (so_data_schema_version p) @
     so_trial_boot_id p"

definition encode_body :: "slots_state \<Rightarrow> bytes" where
  "encode_body s = blob_magic @ store_u32 1 @ store_u32 (ss_sequence s) @
     concat (map encode_binding (ss_bindings s)) @ encode_operation (ss_phase s) (ss_operation s)"

definition encode_state :: "slots_state \<Rightarrow> bytes" where
  "encode_state s = encode_body s @ store_u32 (blob_crc32 (encode_body s))"

definition slice :: "nat \<Rightarrow> nat \<Rightarrow> bytes \<Rightarrow> bytes" where
  "slice offset count bs = take count (drop offset bs)"

definition phase_of_byte :: "byte \<Rightarrow> slot_phase option" where
  "phase_of_byte b = List.find (\<lambda>p. of_nat (phase_num p) = b)
     [SLOT_IDLE, SLOT_WRITING, SLOT_PREPARED, SLOT_TRIAL_STARTED, SLOT_HEALTH_VERIFIED,
      SLOT_CONFIRMED, SLOT_ABORTED]"

definition decode_binding :: "bytes \<Rightarrow> slot_binding option" where
  "decode_binding source =
    (if source ! 0 > 1 \<or> source ! 1 > 1 \<or> source ! 3 \<noteq> 0 then None
     else Some \<lparr>sb_present = (source ! 0 \<noteq> 0), sb_package_present = (source ! 1 \<noteq> 0),
       sb_slot = source ! 2, sb_firmware_sha256 = slice 4 32 source,
       sb_package_sha256 = slice 36 32 source,
       sb_package_size_bytes = load_u32 (drop 68 source),
       sb_guest_abi_version = load_u32 (drop 72 source),
       sb_data_schema_version = load_u32 (drop 76 source)\<rparr>)"

text \<open>
  The C code casts the phase byte to the enum and lets \<open>operation_valid\<close> reject a value
  above \<open>ABORTED\<close>; here such a byte has no phase and the record is rejected at once.  Both
  give \<open>false\<close> for the whole record.
\<close>

definition decode_operation :: "bytes \<Rightarrow> (slot_phase \<times> slot_operation) option" where
  "decode_operation source =
    (if source ! 2 \<noteq> 0 \<or> source ! 3 \<noteq> 0 then None
     else map_option (\<lambda>phase. (phase,
       \<lparr>so_operation_id = slice 4 16 source, so_target_firmware_sha256 = slice 20 32 source,
        so_package_sha256 = slice 52 32 source, so_slot = source ! 1,
        so_package_size_bytes = load_u32 (drop 84 source),
        so_guest_abi_version = load_u32 (drop 88 source),
        so_data_schema_version = load_u32 (drop 92 source),
        so_trial_boot_id = slice 96 16 source\<rparr>)) (phase_of_byte (source ! 0)))"

definition decode_state :: "bytes \<Rightarrow> slots_geometry \<Rightarrow> slots_state option" where
  "decode_state blob g =
    (if slice 0 4 blob \<noteq> blob_magic \<or> load_u32 (drop 4 blob) \<noteq> 1 \<or>
        load_u32 (drop SLOT_CRC_OFFSET blob) \<noteq> blob_crc32 (take SLOT_CRC_OFFSET blob)
     then None
     else case decode_binding (slice SLOT_HEADER_BYTES SLOT_BINDING_BYTES blob) of
         None \<Rightarrow> None
     | Some first \<Rightarrow>
       (case decode_binding
               (slice (SLOT_HEADER_BYTES + SLOT_BINDING_BYTES) SLOT_BINDING_BYTES blob) of
         None \<Rightarrow> None
       | Some second \<Rightarrow>
         (case decode_operation (slice (SLOT_HEADER_BYTES +
                 SLOT_BINDING_COUNT * SLOT_BINDING_BYTES) SLOT_OPERATION_BYTES blob) of
           None \<Rightarrow> None
         | Some (phase, operation) \<Rightarrow>
           (let s = \<lparr>ss_sequence = load_u32 (drop 8 blob), ss_bindings = [first, second],
                     ss_phase = phase, ss_operation = operation\<rparr>
            in if state_valid s g then Some s else None))))"

subsection \<open>Round trip\<close>

lemma upt_4: "[0..<4] = [0, 1, 2, 3::nat]"
  by (simp add: upt_rec)

lemma length_store_u32 [simp]: "length (store_u32 v) = 4"
  by (simp add: store_u32_def)

lemma load_u32_append [simp]: "length bs = 4 \<Longrightarrow> load_u32 (bs @ rest) = load_u32 bs"
  by (simp add: load_u32_def upt_4 nth_append)

lemma bit_load_u32:
  "bit (load_u32 bs) n \<longleftrightarrow> n < 32 \<and> bit (bs ! (n div 8)) (n mod 8)"
proof (cases "n < 32")
  case True
  then have "n div 8 = 0 \<or> n div 8 = 1 \<or> n div 8 = 2 \<or> n div 8 = 3" by arith
  then consider "n < 8" | "8 \<le> n" "n < 16" | "16 \<le> n" "n < 24" | "24 \<le> n" "n < 32"
    using True by fastforce
  then show ?thesis
  proof cases
    case 1
    then show ?thesis
      by (auto simp: load_u32_def upt_4 bit_or_iff bit_push_bit_iff bit_ucast_iff)
  next
    case 2
    then have "n div 8 = 1" "n mod 8 = n - 8" by (simp_all add: div_nat_eqI mod_nat_eqI)
    with 2 show ?thesis
      by (auto simp: load_u32_def upt_4 bit_or_iff bit_push_bit_iff bit_ucast_iff
          dest: bit_imp_le_length)
  next
    case 3
    then have "n div 8 = 2" "n mod 8 = n - 16" by (simp_all add: div_nat_eqI mod_nat_eqI)
    with 3 show ?thesis
      by (auto simp: load_u32_def upt_4 bit_or_iff bit_push_bit_iff bit_ucast_iff
          dest: bit_imp_le_length)
  next
    case 4
    then have "n div 8 = 3" "n mod 8 = n - 24" by (simp_all add: div_nat_eqI mod_nat_eqI)
    with 4 show ?thesis
      by (auto simp: load_u32_def upt_4 bit_or_iff bit_push_bit_iff bit_ucast_iff
          dest: bit_imp_le_length)
  qed
next
  case False
  then show ?thesis by (auto dest: bit_imp_le_length)
qed

lemma nth_store_u32: "i < 4 \<Longrightarrow> store_u32 v ! i = ucast (drop_bit (i * 8) v)"
  by (simp add: store_u32_def)

lemma load_store_u32 [simp]: "load_u32 (store_u32 v) = v"
proof (rule bit_eqI)
  fix n assume "possible_bit TYPE(u32) n"
  then have n: "n < 32" by (simp add: possible_bit_word)
  then have "n div 8 < 4" by simp
  with n show "bit (load_u32 (store_u32 v)) n = bit v n"
    by (simp add: bit_load_u32 nth_store_u32 bit_ucast_iff bit_drop_bit_eq mult.commute)
qed

lemma load_u32_inject:
  assumes "load_u32 xs = load_u32 ys" and "i < 4"
  shows "xs ! i = ys ! i"
proof (rule bit_eqI)
  fix n assume "possible_bit TYPE(byte) n"
  then have n: "n < 8" by (simp add: possible_bit_word)
  from assms(1) have "bit (load_u32 xs) (8 * i + n) = bit (load_u32 ys) (8 * i + n)" by simp
  with n assms(2) show "bit (xs ! i) n = bit (ys ! i) n"
    by (simp add: bit_load_u32)
qed

lemma phase_of_byte_num [simp]: "phase_of_byte (of_nat (phase_num p)) = Some p"
  by (cases p) (simp_all add: phase_of_byte_def)

lemma length_encode_binding: "binding_shape b \<Longrightarrow> length (encode_binding b) = SLOT_BINDING_BYTES"
  by (simp add: binding_shape_def encode_binding_def SLOT_BINDING_BYTES_def)

lemma length_encode_operation:
  "operation_shape p \<Longrightarrow> length (encode_operation phase p) = SLOT_OPERATION_BYTES"
  by (simp add: operation_shape_def encode_operation_def SLOT_OPERATION_BYTES_def)

lemma decode_encode_binding: "binding_shape b \<Longrightarrow> decode_binding (encode_binding b) = Some b"
  by (cases b) (simp add: binding_shape_def encode_binding_def decode_binding_def slice_def)

lemma decode_encode_operation:
  "operation_shape p \<Longrightarrow> decode_operation (encode_operation phase p) = Some (phase, p)"
  by (cases p) (simp add: operation_shape_def encode_operation_def decode_operation_def slice_def)

lemma length_blob_magic [simp]: "length blob_magic = 4"
  by (simp add: blob_magic_def)

lemma length_encode_body:
  assumes "state_shape s"
  shows "length (encode_body s) = SLOT_CRC_OFFSET"
proof -
  obtain first second where "ss_bindings s = [first, second]"
    using assms by (rule state_shape_cases)
  with assms show ?thesis
    by (simp add: state_shape_def encode_body_def length_encode_binding length_encode_operation
        SLOT_BINDING_BYTES_def SLOT_OPERATION_BYTES_def SLOT_CRC_OFFSET_def SLOT_BLOB_BYTES_def)
qed

lemma length_encode_state: "state_shape s \<Longrightarrow> length (encode_state s) = SLOT_BLOB_BYTES"
  by (simp add: encode_state_def length_encode_body SLOT_CRC_OFFSET_def SLOT_BLOB_BYTES_def)

lemma decode_encode_state:
  assumes "state_shape s" and "state_valid s g"
  shows "decode_state (encode_state s) g = Some s"
proof -
  obtain first second where b: "ss_bindings s = [first, second]"
    using assms(1) by (rule state_shape_cases)
  have shapes: "binding_shape first" "binding_shape second" "operation_shape (ss_operation s)"
    using assms(1) b by (simp_all add: state_shape_def)
  let ?e0 = "encode_binding first" and ?e1 = "encode_binding second"
    and ?eo = "encode_operation (ss_phase s) (ss_operation s)"
  have lens: "length ?e0 = 80" "length ?e1 = 80" "length ?eo = 112" "length (encode_body s) = 284"
    using shapes length_encode_body [OF assms(1)]
    by (simp_all add: length_encode_binding length_encode_operation SLOT_BINDING_BYTES_def
        SLOT_OPERATION_BYTES_def SLOT_CRC_OFFSET_def SLOT_BLOB_BYTES_def)
  have blob: "encode_state s = blob_magic @ store_u32 1 @ store_u32 (ss_sequence s) @ ?e0 @ ?e1 @ ?eo @
      store_u32 (blob_crc32 (encode_body s))"
    by (simp add: encode_state_def encode_body_def b)
  have slices: "slice 0 4 (encode_state s) = blob_magic" "load_u32 (drop 4 (encode_state s)) = 1"
    "load_u32 (drop 8 (encode_state s)) = ss_sequence s"
    "slice 12 80 (encode_state s) = ?e0" "slice 92 80 (encode_state s) = ?e1"
    "slice 172 112 (encode_state s) = ?eo"
    by (simp_all add: blob slice_def lens)
  have crc: "take 284 (encode_state s) = encode_body s"
    "load_u32 (drop 284 (encode_state s)) = blob_crc32 (encode_body s)"
    by (simp_all add: encode_state_def lens)
  have s: "\<lparr>ss_sequence = ss_sequence s, ss_bindings = [first, second], ss_phase = ss_phase s,
      ss_operation = ss_operation s\<rparr> = s"
    using b by simp
  show ?thesis
    using assms(2) shapes
    by (simp add: decode_state_def SLOT_HEADER_BYTES_def SLOT_BINDING_BYTES_def
        SLOT_OPERATION_BYTES_def SLOT_BINDING_COUNT_def SLOT_CRC_OFFSET_def SLOT_BLOB_BYTES_def
        slices crc decode_encode_binding decode_encode_operation s)
qed


lemma decode_state_shape:
  assumes "length blob = SLOT_BLOB_BYTES" and "decode_state blob g = Some s"
  shows "state_shape s"
  using assms
  by (auto simp: decode_state_def decode_binding_def decode_operation_def state_shape_def
      binding_shape_def operation_shape_def slice_def SLOT_BLOB_BYTES_def SLOT_BINDING_COUNT_def
      SLOT_HEADER_BYTES_def SLOT_BINDING_BYTES_def SLOT_OPERATION_BYTES_def Let_def
      split: if_splits option.splits)

lemma decode_state_valid: "decode_state blob g = Some s \<Longrightarrow> state_valid s g"
  by (auto simp: decode_state_def Let_def split: if_splits option.splits)

lemma decode_state_intact:
  "decode_state blob g = Some s \<Longrightarrow>
     load_u32 (drop SLOT_CRC_OFFSET blob) = blob_crc32 (take SLOT_CRC_OFFSET blob)"
  by (simp add: decode_state_def split: if_splits)

subsection \<open>What the CRC detects\<close>

text \<open>
  One step of the shift register is a bijection: the polynomial has its top bit set, so the
  top bit of the result tells the bit that was shifted out.
\<close>

lemma crc_bit_top: "bit (crc_bit x) 31 \<longleftrightarrow> x AND 1 \<noteq> 0"
proof -
  have "bit (0xedb88320 :: u32) 31" by simp
  moreover have "\<not> bit (drop_bit 1 x) 31"
    by (auto simp: bit_drop_bit_eq dest: bit_imp_le_length)
  ultimately show ?thesis by (simp add: crc_bit_def bit_xor_iff)
qed

lemma xor_right_inject: "x XOR z = y XOR z \<longleftrightarrow> x = (y :: u32)"
  by (metis xor.assoc xor_self_eq xor.right_neutral)

lemma crc_bit_inject: "crc_bit x = crc_bit y \<longleftrightarrow> x = y"
proof
  assume eq: "crc_bit x = crc_bit y"
  then have odd: "x AND 1 \<noteq> 0 \<longleftrightarrow> y AND 1 \<noteq> 0"
    by (metis crc_bit_top)
  have "drop_bit 1 x = drop_bit 1 y"
    using eq odd by (cases "x AND 1 = 0") (simp_all add: crc_bit_def xor_right_inject)
  then have shifted: "bit x (Suc n) = bit y (Suc n)" for n
    by (metis bit_drop_bit_eq comp_apply plus_1_eq_Suc)
  have lowest: "bit x 0 = bit y 0"
    using odd by (simp add: bit_0 and_one_eq odd_iff_mod_2_eq_one)
  show "x = y"
  proof (rule bit_eqI)
    fix n show "bit x n = bit y n" using shifted lowest by (cases n) auto
  qed
qed simp

lemma crc_bits_inject: "(crc_bit ^^ k) x = (crc_bit ^^ k) y \<longleftrightarrow> x = y"
  by (induction k) (auto simp: crc_bit_inject)

lemma crc_byte_inject: "crc_byte b x = crc_byte b y \<longleftrightarrow> x = y"
  by (simp add: crc_byte_def crc_bits_inject xor_right_inject)

lemma unat_ucast_byte: "unat (ucast (b :: byte) :: u32) = unat b"
proof -
  have "unat b < 256" using unsigned_less [of b] by simp
  then show ?thesis by (simp add: unsigned_ucast_eq take_bit_nat_eq_self)
qed

lemma ucast_byte_inject: "(ucast (b :: byte) :: u32) = ucast c \<longleftrightarrow> b = c"
  by (metis unat_ucast_byte word_unat_eq_iff)

lemma crc_byte_diff: "crc_byte b x = crc_byte c x \<longleftrightarrow> b = c"
  by (metis crc_byte_def crc_bits_inject ucast_byte_inject xor.commute xor_right_inject)

lemma fold_crc_inject: "fold crc_byte bs x = fold crc_byte bs y \<longleftrightarrow> x = y"
  by (induction bs arbitrary: x y) (simp_all add: crc_byte_inject)

lemma NOT_inject: "NOT x = NOT y \<longleftrightarrow> x = (y :: u32)"
  by (metis bit.double_compl)

lemma blob_crc32_byte:
  assumes "i < length bs" and "b \<noteq> bs ! i"
  shows "blob_crc32 (bs[i := b]) \<noteq> blob_crc32 bs"
proof -
  let ?before = "fold crc_byte (take i bs) 0xFFFFFFFF"
  have "fold crc_byte bs 0xFFFFFFFF = fold crc_byte (take i bs @ bs ! i # drop (Suc i) bs) 0xFFFFFFFF"
    using assms(1) by (simp add: id_take_nth_drop [symmetric])
  then have old: "fold crc_byte bs 0xFFFFFFFF =
      fold crc_byte (drop (Suc i) bs) (crc_byte (bs ! i) ?before)"
    by simp
  have new: "fold crc_byte (bs[i := b]) 0xFFFFFFFF =
      fold crc_byte (drop (Suc i) bs) (crc_byte b ?before)"
    using assms(1) by (simp add: upd_conv_take_nth_drop)
  show ?thesis
    using assms(2) by (simp add: blob_crc32_def NOT_inject old new fold_crc_inject crc_byte_diff)
qed

lemma decode_corrupted:
  assumes len: "length blob = SLOT_BLOB_BYTES" and dec: "decode_state blob g = Some s"
    and i: "i < SLOT_BLOB_BYTES" and b: "b \<noteq> blob ! i"
  shows "decode_state (blob[i := b]) g' = None"
proof -
  have bad: "load_u32 (drop SLOT_CRC_OFFSET (blob[i := b])) \<noteq>
      blob_crc32 (take SLOT_CRC_OFFSET (blob[i := b]))"
  proof (cases "i < SLOT_CRC_OFFSET")
    case True
    with len have "blob_crc32 ((take SLOT_CRC_OFFSET blob)[i := b]) \<noteq> blob_crc32 (take SLOT_CRC_OFFSET blob)"
      by (intro blob_crc32_byte) (simp_all add: SLOT_CRC_OFFSET_def b)
    with True decode_state_intact [OF dec] show ?thesis
      by (simp add: take_update_swap)
  next
    case False
    then have k: "i - SLOT_CRC_OFFSET < 4"
      using i by (simp add: SLOT_CRC_OFFSET_def SLOT_BLOB_BYTES_def)
    have "drop SLOT_CRC_OFFSET (blob[i := b]) ! (i - SLOT_CRC_OFFSET) \<noteq>
        drop SLOT_CRC_OFFSET blob ! (i - SLOT_CRC_OFFSET)"
      using False i len b by (simp add: SLOT_CRC_OFFSET_def)
    then have "load_u32 (drop SLOT_CRC_OFFSET (blob[i := b])) \<noteq> load_u32 (drop SLOT_CRC_OFFSET blob)"
      using k load_u32_inject by blast
    with False decode_state_intact [OF dec] show ?thesis by simp
  qed
  then show ?thesis by (simp add: decode_state_def)
qed


subsection \<open>The layout is canonical\<close>

text \<open>
  Every byte of a record that decodes is determined by the decoded state: reserved bytes must
  be zero, flags 0 or 1, and the phase byte one of the enum's values.  So two different
  records never decode to the same state.
\<close>

lemma store_load_u32:
  assumes "4 \<le> length bs"
  shows "store_u32 (load_u32 bs) = take 4 bs"
proof (rule nth_equalityI)
  show "length (store_u32 (load_u32 bs)) = length (take 4 bs)" using assms by simp
  fix i assume "i < length (store_u32 (load_u32 bs))"
  then have i: "i < 4" by simp
  have "(ucast (drop_bit (i * 8) (load_u32 bs)) :: byte) = bs ! i"
  proof (rule bit_eqI)
    fix n assume "possible_bit TYPE(byte) n"
    then have n: "n < 8" by (simp add: possible_bit_word)
    then have "(i * 8 + n) div 8 = i" "(i * 8 + n) mod 8 = n" by simp_all
    with n i show "bit (ucast (drop_bit (i * 8) (load_u32 bs)) :: byte) n = bit (bs ! i) n"
      by (simp add: bit_ucast_iff bit_drop_bit_eq bit_load_u32)
  qed
  with i show "store_u32 (load_u32 bs) ! i = take 4 bs ! i" by (simp add: nth_store_u32)
qed

lemma slice_append: "slice a n xs @ slice (a + n) m xs = slice a (n + m) xs"
  by (simp add: slice_def take_add) (simp add: add.commute)

lemma slice_append_eq:
  "b = a + n \<Longrightarrow> slice a n xs @ slice b m xs @ ys = slice a (n + m) xs @ ys"
  "b = a + n \<Longrightarrow> slice a n xs @ slice b m xs = slice a (n + m) xs"
  using slice_append [of a n xs m] by simp_all

lemma store_load_slice: "a + 4 \<le> length xs \<Longrightarrow> store_u32 (load_u32 (drop a xs)) = slice a 4 xs"
  by (simp add: store_load_u32 slice_def)

lemma slice_first4:
  assumes "4 \<le> length xs"
  shows "[xs ! 0, xs ! 1, xs ! 2, xs ! 3] = slice 0 4 xs"
proof -
  obtain a b c e ys where "xs = a # b # c # e # ys"
    using assms by (metis Suc_le_length_iff numeral_eq_Suc pred_numeral_simps(2) pred_numeral_simps(3)
        semiring_norm(26) semiring_norm(27) eval_nat_numeral(2,3) One_nat_def)
  then show ?thesis by (simp add: slice_def)
qed

lemma byte_flag: "\<not> (b :: byte) > 1 \<Longrightarrow> (if b \<noteq> 0 then 1 else 0) = b"
proof -
  assume "\<not> b > 1"
  then have "unat b \<le> 1" by (simp add: word_less_nat_alt not_less)
  then have "unat b = 0 \<or> unat b = unat (1 :: byte)" by auto
  then have "b = 0 \<or> b = 1" by (metis unat_eq_zero word_unat_eq_iff)
  then show ?thesis by auto
qed

lemma phase_of_byte_Some: "phase_of_byte b = Some p \<Longrightarrow> of_nat (phase_num p) = b"
  unfolding phase_of_byte_def find_Some_iff by blast

lemma encode_decode_binding:
  assumes "length source = SLOT_BINDING_BYTES" and "decode_binding source = Some b"
  shows "encode_binding b = source"
proof -
  have b: "b = \<lparr>sb_present = (source ! 0 \<noteq> 0), sb_package_present = (source ! 1 \<noteq> 0),
       sb_slot = source ! 2, sb_firmware_sha256 = slice 4 32 source,
       sb_package_sha256 = slice 36 32 source,
       sb_package_size_bytes = load_u32 (drop 68 source),
       sb_guest_abi_version = load_u32 (drop 72 source),
       sb_data_schema_version = load_u32 (drop 76 source)\<rparr>"
    and flags: "\<not> source ! 0 > 1" "\<not> source ! 1 > 1" "source ! 3 = 0"
    using assms(2) by (auto simp: decode_binding_def split: if_splits)
  have "encode_binding b = slice 0 4 source @ slice 4 32 source @ slice 36 32 source @
      slice 68 4 source @ slice 72 4 source @ slice 76 4 source"
    using assms(1) flags byte_flag [OF flags(1)] byte_flag [OF flags(2)]
    by (simp add: b encode_binding_def store_load_slice SLOT_BINDING_BYTES_def
        slice_first4 [symmetric] del: One_nat_def)
  also have "\<dots> = source"
    using assms(1) by (simp add: slice_append_eq SLOT_BINDING_BYTES_def) (simp add: slice_def)
  finally show ?thesis .
qed

lemma encode_decode_operation:
  assumes "length source = SLOT_OPERATION_BYTES" and "decode_operation source = Some (phase, p)"
  shows "encode_operation phase p = source"
proof -
  have p: "p = \<lparr>so_operation_id = slice 4 16 source, so_target_firmware_sha256 = slice 20 32 source,
        so_package_sha256 = slice 52 32 source, so_slot = source ! 1,
        so_package_size_bytes = load_u32 (drop 84 source),
        so_guest_abi_version = load_u32 (drop 88 source),
        so_data_schema_version = load_u32 (drop 92 source),
        so_trial_boot_id = slice 96 16 source\<rparr>"
    and flags: "source ! 2 = 0" "source ! 3 = 0" "of_nat (phase_num phase) = source ! 0"
    using assms(2) by (auto simp: decode_operation_def phase_of_byte_Some split: if_splits)
  have "encode_operation phase p = slice 0 4 source @ slice 4 16 source @ slice 20 32 source @
      slice 52 32 source @ slice 84 4 source @ slice 88 4 source @ slice 92 4 source @ slice 96 16 source"
    using assms(1) flags
    by (simp add: p encode_operation_def store_load_slice SLOT_OPERATION_BYTES_def
        slice_first4 [symmetric] del: One_nat_def)
  also have "\<dots> = source"
    using assms(1) by (simp add: slice_append_eq SLOT_OPERATION_BYTES_def) (simp add: slice_def)
  finally show ?thesis .
qed

lemma encode_decode_state:
  assumes len: "length blob = SLOT_BLOB_BYTES" and dec: "decode_state blob g = Some s"
  shows "encode_state s = blob"
proof -
  obtain first second phase operation where
    parts: "decode_binding (slice 12 80 blob) = Some first" "decode_binding (slice 92 80 blob) = Some second"
      "decode_operation (slice 172 112 blob) = Some (phase, operation)"
    and s: "s = \<lparr>ss_sequence = load_u32 (drop 8 blob), ss_bindings = [first, second],
                     ss_phase = phase, ss_operation = operation\<rparr>"
    and head: "slice 0 4 blob = blob_magic" "load_u32 (drop 4 blob) = 1"
    and crc: "load_u32 (drop 284 blob) = blob_crc32 (take 284 blob)"
    using dec by (auto simp: decode_state_def Let_def SLOT_HEADER_BYTES_def SLOT_BINDING_BYTES_def
        SLOT_OPERATION_BYTES_def SLOT_BINDING_COUNT_def SLOT_CRC_OFFSET_def SLOT_BLOB_BYTES_def
        split: if_splits option.splits)
  have lens: "length (slice 12 80 blob) = SLOT_BINDING_BYTES" "length (slice 92 80 blob) = SLOT_BINDING_BYTES"
    "length (slice 172 112 blob) = SLOT_OPERATION_BYTES" "length blob = 288"
    using len by (simp_all add: slice_def SLOT_BINDING_BYTES_def SLOT_OPERATION_BYTES_def SLOT_BLOB_BYTES_def)
  have version: "store_u32 1 = slice 4 4 blob"
    using store_load_slice [of 4 blob] head(2) lens(4) by simp
  have "encode_body s = slice 0 4 blob @ slice 4 4 blob @ slice 8 4 blob @ slice 12 80 blob @
      slice 92 80 blob @ slice 172 112 blob"
    using encode_decode_binding [OF lens(1) parts(1)] encode_decode_binding [OF lens(2) parts(2)]
      encode_decode_operation [OF lens(3) parts(3)] lens(4)
    by (simp add: encode_body_def s head(1) version store_load_slice)
  also have "\<dots> = take 284 blob"
    by (simp add: slice_append_eq) (simp add: slice_def)
  finally have body: "encode_body s = take 284 blob" .
  then show ?thesis
    using lens(4) crc store_load_u32 [of "drop 284 blob"] by (simp add: encode_state_def)
qed

end
