(* ===== verification/Package_Crypto.thy ===== *)
theory Package_Crypto
  imports Container_Prelude
begin

text \<open>
  The digests and the signature check of \<open>package_crypto.c\<close> (its \<open>ESP_PLATFORM\<close> branch) over the PSA Crypto
  hash calls, which are a parameter: a record of functions on a hash operation \<open>'h\<close> and the
  device state \<open>'d\<close>, each of which may fail.  \<open>True\<close> is \<open>PSA_SUCCESS\<close>.

  The signature of a manifest is checked with the PSA key calls, a second record of functions.

  The locale \<open>psa_frame\<close> says that hashing leaves a given view of the device alone;
  \<open>digest_engine\<close> adds what the callers of a digest rely on: an operation that reports success
  has absorbed exactly the bytes it was given, and a finished operation yields the digest of
  what it absorbed.  \<open>signature_engine\<close> adds that a verification that succeeds was one under
  the key that was imported.
\<close>

record ('d, 'h) psa_api =
  psa_crypto_init :: "'d \<Rightarrow> bool \<times> 'd"
  psa_hash_operation_init :: 'h
  psa_hash_setup :: "'h \<Rightarrow> 'd \<Rightarrow> (bool \<times> 'h) \<times> 'd"
  psa_hash_update :: "'h \<Rightarrow> bytes \<Rightarrow> 'd \<Rightarrow> (bool \<times> 'h) \<times> 'd"
  psa_hash_finish :: "'h \<Rightarrow> 'd \<Rightarrow> (bytes option \<times> 'h) \<times> 'd"
  psa_hash_abort :: "'h \<Rightarrow> 'd \<Rightarrow> 'h \<times> 'd"

definition digest_abort :: "('d, 'h) psa_api \<Rightarrow> 'h \<Rightarrow> 'd \<Rightarrow> 'd" where
  "digest_abort psa digest d = snd (psa_hash_abort psa digest d)"

definition digest_start :: "('d, 'h) psa_api \<Rightarrow> 'd \<Rightarrow> 'h option \<times> 'd" where
  "digest_start psa d =
    (case psa_crypto_init psa d of (ok, d1) \<Rightarrow>
     if \<not> ok then (None, digest_abort psa (psa_hash_operation_init psa) d1)
     else case psa_hash_setup psa (psa_hash_operation_init psa) d1 of ((ok, digest), d2) \<Rightarrow>
     if \<not> ok then (None, digest_abort psa digest d2)
     else (Some digest, d2))"

definition digest_update :: "('d, 'h) psa_api \<Rightarrow> 'h \<Rightarrow> bytes \<Rightarrow> 'd \<Rightarrow> (bool \<times> 'h) \<times> 'd" where
  "digest_update psa digest data d = psa_hash_update psa digest data d"

definition digest_finish :: "('d, 'h) psa_api \<Rightarrow> 'h \<Rightarrow> 'd \<Rightarrow> bytes option \<times> 'd" where
  "digest_finish psa digest d =
    (case psa_hash_finish psa digest d of ((output, digest), d1) \<Rightarrow>
     (case output of
        None \<Rightarrow> None
      | Some hash \<Rightarrow> if length hash = 32 then Some hash else None,
      digest_abort psa digest d1))"

text \<open>
  A key identifier is a number, 0 the null identifier.  The attributes the C code sets (an
  RSA public key of 3072 bits that may verify hashes with RSA-PSS and SHA-256) are part of
  \<open>psa_import_key\<close> and \<open>psa_verify_hash\<close>.
\<close>

record 'd psa_keys =
  psa_import_key :: "bytes \<Rightarrow> 'd \<Rightarrow> (bool \<times> nat) \<times> 'd"
  psa_verify_hash :: "nat \<Rightarrow> bytes \<Rightarrow> bytes \<Rightarrow> 'd \<Rightarrow> bool \<times> 'd"
  psa_destroy_key :: "nat \<Rightarrow> 'd \<Rightarrow> bool \<times> 'd"

definition package_domain :: bytes where
  "package_domain = str_bytes ''ESP-CONTAINER-PRODUCT-V1'' @ [0]"

text \<open>The digest of the domain and the manifest.\<close>

definition manifest_hash :: "('d, 'h) psa_api \<Rightarrow> bytes \<Rightarrow> 'd \<Rightarrow> bytes option \<times> 'd" where
  "manifest_hash psa manifest d =
    (case digest_start psa d of
       (None, d1) \<Rightarrow> (None, d1)
     | (Some digest, d1) \<Rightarrow>
         (case digest_update psa digest package_domain d1 of
            ((False, digest), d2) \<Rightarrow> (None, digest_abort psa digest d2)
          | ((True, digest), d2) \<Rightarrow>
              (case digest_update psa digest manifest d2 of
                 ((False, digest), d3) \<Rightarrow> (None, digest_abort psa digest d3)
               | ((True, digest), d3) \<Rightarrow> digest_finish psa digest d3)))"

definition signature_verify :: "('d, 'h) psa_api \<Rightarrow> 'd psa_keys \<Rightarrow> bytes \<Rightarrow> bytes \<Rightarrow> bytes \<Rightarrow> 'd \<Rightarrow>
    bool \<times> 'd" where
  "signature_verify psa keys public_key manifest signature d =
    (case manifest_hash psa manifest d of
       (None, d1) \<Rightarrow> (False, d1)
     | (Some hash, d1) \<Rightarrow>
         (case psa_import_key keys public_key d1 of ((imported, key_id), d2) \<Rightarrow>
          case (if imported then psa_verify_hash keys key_id hash signature d2 else (False, d2)) of
            (success, d3) \<Rightarrow>
          if key_id \<noteq> 0
          then (case psa_destroy_key keys key_id d3 of (destroyed, d4) \<Rightarrow>
                  (if \<not> destroyed then False else success, d4))
          else (success, d3)))"

subsection \<open>What the callers rely on\<close>

locale psa_frame =
  fixes psa :: "('d, 'h) psa_api"
    and view :: "'d \<Rightarrow> 'v"
  assumes init_keeps: "keeps view (psa_crypto_init psa)"
    and setup_keeps: "keeps view (psa_hash_setup psa h)"
    and update_keeps: "keeps view (psa_hash_update psa h bs)"
    and finish_keeps: "keeps view (psa_hash_finish psa h)"
    and abort_keeps: "keeps view (psa_hash_abort psa h)"
begin

lemma view_abort [simp]: "view (digest_abort psa h d) = view d"
  using abort_keeps [of h] by (simp add: digest_abort_def keeps_def)

lemma digest_start_keeps: "keeps view (digest_start psa)"
  by (rule keepsI)
     (auto simp: digest_start_def split: prod.splits if_splits
       dest!: keepsD [OF init_keeps] keepsD [OF setup_keeps])

lemma digest_update_keeps: "keeps view (digest_update psa h bs)"
  unfolding digest_update_def [abs_def] by (rule update_keeps)

lemma digest_finish_keeps: "keeps view (digest_finish psa h)"
  by (rule keepsI)
     (auto simp: digest_finish_def split: prod.splits dest: keepsD [OF finish_keeps])

lemma manifest_hash_keeps: "keeps view (manifest_hash psa manifest)"
  by (rule keepsI)
     (auto simp: manifest_hash_def split: prod.splits option.splits bool.splits
       dest!: keepsD [OF digest_start_keeps] keepsD [OF digest_update_keeps] keepsD [OF digest_finish_keeps])

end

locale digest_engine = psa_frame psa view
  for psa :: "('d, 'h) psa_api"
    and absorbed :: "'h \<Rightarrow> bytes"
    and sha256 :: "bytes \<Rightarrow> bytes"
    and view :: "'d \<Rightarrow> 'v" +
  assumes setup_absorbed:
      "psa_hash_setup psa h d = ((True, h'), d') \<Longrightarrow> absorbed h' = []"
    and update_absorbed:
      "psa_hash_update psa h bs d = ((True, h'), d') \<Longrightarrow> absorbed h' = absorbed h @ bs"
    and finish_sha256:
      "psa_hash_finish psa h d = ((Some out, h'), d') \<Longrightarrow> out = sha256 (absorbed h)"
begin

lemma digest_start_absorbed: "digest_start psa d = (Some h, d') \<Longrightarrow> absorbed h = []"
  by (auto simp: digest_start_def split: prod.splits if_splits dest: setup_absorbed)

lemma digest_update_absorbed:
  "digest_update psa h bs d = ((True, h'), d') \<Longrightarrow> absorbed h' = absorbed h @ bs"
  unfolding digest_update_def by (rule update_absorbed)

lemma digest_finish_sha256:
  "digest_finish psa h d = (Some out, d') \<Longrightarrow> out = sha256 (absorbed h) \<and> length out = 32"
  by (auto simp: digest_finish_def split: prod.splits option.splits if_splits dest: finish_sha256)

lemma digest_finish_run:
  "digest_finish psa h d = (r, d') \<Longrightarrow>
     view d' = view d \<and> (\<forall>out. r = Some out \<longrightarrow> out = sha256 (absorbed h) \<and> length out = 32)"
  using keepsD [OF digest_finish_keeps] digest_finish_sha256 by blast

lemma manifest_hash_sha256:
  "manifest_hash psa manifest d = (Some hash, d') \<Longrightarrow> hash = sha256 (package_domain @ manifest)"
  by (auto simp: manifest_hash_def split: prod.splits option.splits bool.splits
      dest!: digest_start_absorbed digest_update_absorbed digest_finish_sha256)

end

text \<open>An engine that does not fail while the device is healthy.\<close>

locale live_engine = digest_engine psa absorbed sha256 view
  for psa :: "('d, 'h) psa_api" and absorbed sha256 and view :: "'d \<Rightarrow> 'v" +
  fixes healthy :: "'d \<Rightarrow> bool"
  assumes init_healthy: "healthy d \<Longrightarrow> \<exists>d'. psa_crypto_init psa d = (True, d') \<and> healthy d'"
    and setup_healthy: "healthy d \<Longrightarrow> \<exists>h' d'. psa_hash_setup psa h d = ((True, h'), d') \<and> healthy d'"
    and update_healthy: "healthy d \<Longrightarrow> \<exists>h' d'. psa_hash_update psa h bs d = ((True, h'), d') \<and> healthy d'"
    and finish_healthy: "healthy d \<Longrightarrow> \<exists>out h' d'. psa_hash_finish psa h d = ((Some out, h'), d') \<and>
      length out = 32 \<and> healthy d'"
    and abort_healthy: "healthy d \<Longrightarrow> healthy (snd (psa_hash_abort psa h d))"
begin

lemma digest_start_live: "healthy d \<Longrightarrow> \<exists>h d'. digest_start psa d = (Some h, d') \<and> healthy d'"
proof -
  assume "healthy d"
  then obtain d1 where i: "psa_crypto_init psa d = (True, d1)" "healthy d1" using init_healthy by blast
  then obtain h d2 where "psa_hash_setup psa (psa_hash_operation_init psa) d1 = ((True, h), d2)" "healthy d2"
    using setup_healthy by blast
  with i show ?thesis by (simp add: digest_start_def)
qed

lemma digest_update_live: "healthy d \<Longrightarrow> \<exists>h' d'. digest_update psa h bs d = ((True, h'), d') \<and> healthy d'"
  using update_healthy by (simp add: digest_update_def)

lemma digest_finish_live: "healthy d \<Longrightarrow> \<exists>d'. digest_finish psa h d = (Some (sha256 (absorbed h)), d') \<and> healthy d'"
proof -
  assume "healthy d"
  then obtain out h' d' where f: "psa_hash_finish psa h d = ((Some out, h'), d')" "length out = 32" "healthy d'"
    using finish_healthy by blast
  then show ?thesis
    using finish_sha256 [OF f(1)] abort_healthy [OF f(3)] by (simp add: digest_finish_def digest_abort_def)
qed

lemma manifest_hash_live:
  assumes "healthy d"
  shows "\<exists>d'. manifest_hash psa manifest d = (Some (sha256 (package_domain @ manifest)), d') \<and> healthy d'"
proof -
  obtain h d1 where start: "digest_start psa d = (Some h, d1)" "healthy d1" using digest_start_live [OF assms] by blast
  obtain h2 d2 where one: "digest_update psa h package_domain d1 = ((True, h2), d2)" "healthy d2"
    using digest_update_live [OF start(2)] by blast
  obtain h3 d3 where two: "digest_update psa h2 manifest d2 = ((True, h3), d3)" "healthy d3"
    using digest_update_live [OF one(2)] by blast
  have "absorbed h3 = package_domain @ manifest"
    using digest_start_absorbed [OF start(1)] digest_update_absorbed [OF one(1)] digest_update_absorbed [OF two(1)]
    by simp
  with digest_finish_live [OF two(2), of h3] start(1) one(1) two(1) show ?thesis
    by (auto simp: manifest_hash_def)
qed

end

text \<open>\<open>verifies key hash signature\<close> is the RSA-PSS predicate; \<open>key_of\<close> the keys the PSA core holds.\<close>

locale signature_engine = digest_engine psa absorbed sha256 view
  for psa :: "('d, 'h) psa_api"
    and keys :: "'d psa_keys"
    and absorbed :: "'h \<Rightarrow> bytes"
    and sha256 :: "bytes \<Rightarrow> bytes"
    and verifies :: "bytes \<Rightarrow> bytes \<Rightarrow> bytes \<Rightarrow> bool"
    and key_of :: "'d \<Rightarrow> nat \<Rightarrow> bytes option"
    and view :: "'d \<Rightarrow> 'v" +
  assumes import_holds: "psa_import_key keys key d = ((True, key_id), d') \<Longrightarrow> key_of d' key_id = Some key"
    and verify_hash_sound: "psa_verify_hash keys key_id hash signature d = (True, d') \<Longrightarrow>
      \<exists>key. key_of d key_id = Some key \<and> verifies key hash signature"
    and import_keeps: "keeps view (psa_import_key keys key)"
    and verify_keeps: "keeps view (psa_verify_hash keys key_id hash signature)"
    and destroy_keeps: "keeps view (psa_destroy_key keys key_id)"
begin

lemma signature_verify_keeps: "keeps view (signature_verify psa keys key manifest signature)"
  by (rule keepsI)
     (auto simp: signature_verify_def split: prod.splits option.splits if_splits
       dest!: keepsD [OF manifest_hash_keeps] keepsD [OF import_keeps] keepsD [OF verify_keeps]
         keepsD [OF destroy_keeps])

lemma signature_verify_sound:
  "signature_verify psa keys key manifest signature d = (True, d') \<Longrightarrow>
     verifies key (sha256 (package_domain @ manifest)) signature"
  by (auto simp: signature_verify_def split: prod.splits option.splits if_splits
      dest!: manifest_hash_sha256 import_holds verify_hash_sound)

end

text \<open>Keys that the PSA core can import, and that it can then use and destroy.\<close>

locale live_signature =
  signature_engine psa keys absorbed sha256 verifies key_of view +
  live_engine psa absorbed sha256 view healthy
  for psa :: "('d, 'h) psa_api" and keys absorbed sha256 verifies key_of and view :: "'d \<Rightarrow> 'v" and healthy +
  fixes importable :: "bytes \<Rightarrow> bool"
  assumes import_healthy: "healthy d \<Longrightarrow> importable key \<Longrightarrow>
      \<exists>key_id d'. psa_import_key keys key d = ((True, key_id), d') \<and> healthy d'"
    and verify_hash_healthy: "healthy d \<Longrightarrow> key_of d key_id = Some key \<Longrightarrow> verifies key hash signature \<Longrightarrow>
      \<exists>d'. psa_verify_hash keys key_id hash signature d = (True, d') \<and> healthy d'"
    and destroy_healthy: "healthy d \<Longrightarrow> \<exists>d'. psa_destroy_key keys key_id d = (True, d') \<and> healthy d'"
begin

lemma signature_verify_live:
  assumes "healthy d" and "importable key" and "verifies key (sha256 (package_domain @ manifest)) signature"
  shows "\<exists>d'. signature_verify psa keys key manifest signature d = (True, d') \<and> healthy d'"
proof -
  obtain d1 where hash: "manifest_hash psa manifest d = (Some (sha256 (package_domain @ manifest)), d1)" "healthy d1"
    using manifest_hash_live [OF assms(1)] by blast
  obtain key_id d2 where key: "psa_import_key keys key d1 = ((True, key_id), d2)" "healthy d2"
    using import_healthy [OF hash(2) assms(2)] by blast
  obtain d3 where ok: "psa_verify_hash keys key_id (sha256 (package_domain @ manifest)) signature d2 = (True, d3)"
      "healthy d3"
    using verify_hash_healthy [OF key(2) import_holds [OF key(1)] assms(3)] by blast
  obtain d4 where "psa_destroy_key keys key_id d3 = (True, d4)" "healthy d4"
    using destroy_healthy [OF ok(2)] by blast
  with hash(1) key(1) ok show ?thesis by (simp add: signature_verify_def)
qed

end

end
