(* ===== verification/Slots_Io.thy ===== *)
theory Slots_Io
  imports Slots_Codec Package_Crypto
begin

text \<open>
  The storage primitives under the operations of the slot store (\<open>slots.c\<close>): the callback
  record \<open>econtainer_slots_io_t\<close>, loading and persisting the state blob, bounded Flash reads,
  hashing a slot and checking every referenced package.

  The callbacks are functions on the device state \<open>'d\<close>.  The locale \<open>slot_device\<close> holds the
  contract the header states for them, over three views of the device: the Flash bytes by
  absolute address, the committed NVS blob and whether the lock is held.  Nothing is assumed
  about when a callback succeeds: the laws say what a reported success or failure means, so
  the lemmas hold under every failure of the device.
\<close>

subsection \<open>Callbacks\<close>

datatype blob_result = BLOB_FOUND bytes | BLOB_NOT_FOUND | BLOB_READ_FAILED

record 'd slots_io =
  io_lock :: "'d \<Rightarrow> bool \<times> 'd"
  io_unlock :: "'d \<Rightarrow> 'd"
  io_read_blob :: "'d \<Rightarrow> blob_result \<times> 'd"
  io_write_blob :: "bytes \<Rightarrow> 'd \<Rightarrow> bool \<times> 'd"
  io_flash_read :: "u32 \<Rightarrow> nat \<Rightarrow> 'd \<Rightarrow> bytes option \<times> 'd"
  io_flash_erase :: "u32 \<Rightarrow> u32 \<Rightarrow> 'd \<Rightarrow> bool \<times> 'd"
  io_flash_write :: "u32 \<Rightarrow> bytes \<Rightarrow> 'd \<Rightarrow> bool \<times> 'd"

text \<open>
  The struct as the caller passes it: every function pointer may be NULL.  The operations
  test \<open>io_valid\<close> first and then call through \<open>io_calls\<close>.
\<close>

record 'd slots_io_ptrs =
  lock_ptr :: "('d \<Rightarrow> bool \<times> 'd) option"
  unlock_ptr :: "('d \<Rightarrow> 'd) option"
  read_blob_ptr :: "('d \<Rightarrow> blob_result \<times> 'd) option"
  write_blob_ptr :: "(bytes \<Rightarrow> 'd \<Rightarrow> bool \<times> 'd) option"
  flash_read_ptr :: "(u32 \<Rightarrow> nat \<Rightarrow> 'd \<Rightarrow> bytes option \<times> 'd) option"
  flash_erase_ptr :: "(u32 \<Rightarrow> u32 \<Rightarrow> 'd \<Rightarrow> bool \<times> 'd) option"
  flash_write_ptr :: "(u32 \<Rightarrow> bytes \<Rightarrow> 'd \<Rightarrow> bool \<times> 'd) option"

definition io_valid :: "'d slots_io_ptrs option \<Rightarrow> bool" where
  "io_valid io = (case io of None \<Rightarrow> False | Some p \<Rightarrow>
     lock_ptr p \<noteq> None \<and> unlock_ptr p \<noteq> None \<and> read_blob_ptr p \<noteq> None \<and>
     write_blob_ptr p \<noteq> None \<and> flash_read_ptr p \<noteq> None \<and> flash_erase_ptr p \<noteq> None \<and>
     flash_write_ptr p \<noteq> None)"

definition io_calls :: "'d slots_io_ptrs option \<Rightarrow> 'd slots_io" where
  "io_calls io = (let p = the io in
     \<lparr>io_lock = the (lock_ptr p), io_unlock = the (unlock_ptr p),
      io_read_blob = the (read_blob_ptr p), io_write_blob = the (write_blob_ptr p),
      io_flash_read = the (flash_read_ptr p), io_flash_erase = the (flash_erase_ptr p),
      io_flash_write = the (flash_write_ptr p)\<rparr>)"

definition io_ptrs :: "'d slots_io \<Rightarrow> 'd slots_io_ptrs" where
  "io_ptrs io = \<lparr>lock_ptr = Some (io_lock io), unlock_ptr = Some (io_unlock io),
     read_blob_ptr = Some (io_read_blob io), write_blob_ptr = Some (io_write_blob io),
     flash_read_ptr = Some (io_flash_read io), flash_erase_ptr = Some (io_flash_erase io),
     flash_write_ptr = Some (io_flash_write io)\<rparr>"

lemma io_valid_ptrs [simp]: "io_valid (Some (io_ptrs io))"
  by (simp add: io_valid_def io_ptrs_def)

lemma io_calls_ptrs [simp]: "io_calls (Some (io_ptrs io)) = io"
  by (cases io) (simp add: io_calls_def io_ptrs_def)

subsection \<open>The state blob\<close>

definition load_locked ::
    "'d slots_io \<Rightarrow> slots_geometry \<Rightarrow> ('d, slots_result, slots_state) act" where
  "load_locked io g d =
    (case io_read_blob io d of
       (BLOB_NOT_FOUND, d1) \<Rightarrow> (Inl SLOTS_EMPTY, d1)
     | (BLOB_READ_FAILED, d1) \<Rightarrow> (Inl SLOTS_IO_FAILED, d1)
     | (BLOB_FOUND blob, d1) \<Rightarrow>
         (case decode_state blob g of None \<Rightarrow> Inl SLOTS_INVALID | Some s \<Rightarrow> Inr s, d1))"

text \<open>\<open>before\<close> is \<open>None\<close> for the first record, where the C code passes NULL.\<close>

definition persist_locked ::
    "'d slots_io \<Rightarrow> slots_state option \<Rightarrow> slots_state \<Rightarrow> ('d, slots_result, slots_state) act" where
  "persist_locked io before after d =
    (let desired = encode_state after in
     case io_write_blob io desired d of (committed, d1) \<Rightarrow>
     (case io_read_blob io d1 of
        (BLOB_FOUND observed, d2) \<Rightarrow>
          if observed = desired then
            (if \<not> committed then (Inl SLOTS_UNCERTAIN, d2) else (Inr after, d2))
          else if before \<noteq> None \<and> observed = encode_state (the before)
          then (Inl SLOTS_IO_FAILED, d2)
          else (Inl SLOTS_UNCERTAIN, d2)
      | (_, d2) \<Rightarrow> (Inl SLOTS_UNCERTAIN, d2)))"

definition commit_next :: "'d slots_io \<Rightarrow> slots_geometry \<Rightarrow> slots_state \<Rightarrow> slots_state \<Rightarrow>
    ('d, slots_result, slots_state) act" where
  "commit_next io g before after =
    (if ss_sequence before = 0xFFFFFFFF then failE SLOTS_INVALID
     else let after = after\<lparr>ss_sequence := ss_sequence before + 1\<rparr> in
       if \<not> state_valid after g then failE SLOTS_INVALID
       else persist_locked io (Some before) after)"

definition begin_locked ::
    "'d slots_io \<Rightarrow> slots_geometry \<Rightarrow> u32 \<Rightarrow> ('d, slots_result, slots_state) act" where
  "begin_locked io g expected_sequence =
    bindE (load_locked io g) (\<lambda>current.
    bindE (guardE (ss_sequence current = expected_sequence) SLOTS_CONFLICT) (\<lambda>_.
    retE current))"

subsection \<open>Reading and hashing a slot\<close>

text \<open>The reader struct: base address and length of the bytes that may be read.\<close>

record slot_reader =
  rd_offset_bytes :: u32
  rd_size_bytes :: u32

definition flash_relative_read ::
    "'d slots_io \<Rightarrow> slot_reader \<Rightarrow> nat \<Rightarrow> nat \<Rightarrow> 'd \<Rightarrow> bytes option \<times> 'd" where
  "flash_relative_read io reader relative_offset count d =
    (if relative_offset > unat (rd_size_bytes reader) \<or>
        count > unat (rd_size_bytes reader) - relative_offset \<or>
        relative_offset > unat (0xFFFFFFFF - rd_offset_bytes reader)
     then (None, d)
     else io_flash_read io (rd_offset_bytes reader + of_nat relative_offset) count d)"

definition io_chunk :: "u32 \<Rightarrow> u32 \<Rightarrow> nat" where
  "io_chunk size_bytes offset =
    (if unat (size_bytes - offset) > SLOT_IO_BYTES then SLOT_IO_BYTES else unat (size_bytes - offset))"

lemma io_chunk_bounds:
  assumes "offset < size_bytes"
  shows "0 < io_chunk size_bytes offset" and "io_chunk size_bytes offset \<le> SLOT_IO_BYTES"
    and "unat offset + io_chunk size_bytes offset \<le> unat size_bytes"
    and "unat (offset + of_nat (io_chunk size_bytes offset)) = unat offset + io_chunk size_bytes offset"
    and "io_chunk size_bytes offset < SLOT_IO_BYTES \<Longrightarrow> unat offset + io_chunk size_bytes offset = unat size_bytes"
proof -
  have diff: "unat (size_bytes - offset) = unat size_bytes - unat offset" "unat offset < unat size_bytes"
    using assms by (auto simp: word_less_nat_alt unat_sub_le order_less_imp_le)
  then show "0 < io_chunk size_bytes offset" "io_chunk size_bytes offset \<le> SLOT_IO_BYTES"
    "io_chunk size_bytes offset < SLOT_IO_BYTES \<Longrightarrow> unat offset + io_chunk size_bytes offset = unat size_bytes"
    by (auto simp: io_chunk_def SLOT_IO_BYTES_def)
  show sum: "unat offset + io_chunk size_bytes offset \<le> unat size_bytes"
    using diff by (auto simp: io_chunk_def SLOT_IO_BYTES_def)
  then have "unat offset + io_chunk size_bytes offset < 4294967296"
    using unat_u32_lt [of size_bytes] by simp
  then show "unat (offset + of_nat (io_chunk size_bytes offset)) = unat offset + io_chunk size_bytes offset"
    by (rule unat_add_of_nat)
qed

lemma io_chunk_decreases:
  assumes "offset < size_bytes"
  shows "unat size_bytes - unat (offset + of_nat (io_chunk size_bytes offset))
           < unat size_bytes - unat offset"
  using io_chunk_bounds [OF assms] assms by (simp add: word_less_nat_alt)

lemma io_chunk_induct [case_names chunk]:
  assumes "\<And>offset. (offset < size_bytes \<Longrightarrow> P (offset + of_nat (io_chunk size_bytes offset))) \<Longrightarrow> P offset"
  shows "P offset"
  by (induction "unat size_bytes - unat offset" arbitrary: offset rule: less_induct)
     (blast intro: assms io_chunk_decreases)

function hash_loop :: "'d slots_io \<Rightarrow> ('d, 'h) psa_api \<Rightarrow> slot_reader \<Rightarrow> u32 \<Rightarrow> 'h \<Rightarrow>
    ('d, slots_result, 'h) act" where
  "hash_loop io psa reader offset digest d =
    (if offset < rd_size_bytes reader then
       let count = io_chunk (rd_size_bytes reader) offset in
       case flash_relative_read io reader (unat offset) count d of
         (None, d1) \<Rightarrow> (Inl SLOTS_IO_FAILED, digest_abort psa digest d1)
       | (Some buffer, d1) \<Rightarrow>
         (case digest_update psa digest buffer d1 of ((ok, digest), d2) \<Rightarrow>
          if \<not> ok then (Inl SLOTS_IO_FAILED, digest_abort psa digest d2)
          else hash_loop io psa reader (offset + of_nat count) digest d2)
     else (Inr digest, d))"
  by pat_completeness auto
termination
  by (relation "measure (\<lambda>(io, psa, reader, offset, digest, d).
        unat (rd_size_bytes reader) - unat offset)")
     (simp_all add: io_chunk_decreases)

declare hash_loop.simps [simp del]

definition hash_flash :: "'d slots_io \<Rightarrow> ('d, 'h) psa_api \<Rightarrow> slots_geometry \<Rightarrow> byte \<Rightarrow> u32 \<Rightarrow>
    bytes \<Rightarrow> ('d, slots_result, unit) act" where
  "hash_flash io psa g slot size_bytes expected_sha256 d =
    (if unat slot \<ge> SLOT_COUNT \<or> size_bytes = 0 \<or> size_bytes > sr_size_bytes (slot_at g (unat slot))
     then (Inl SLOTS_INVALID, d)
     else case digest_start psa d of
       (None, d1) \<Rightarrow> (Inl SLOTS_IO_FAILED, d1)
     | (Some digest, d1) \<Rightarrow>
       (case hash_loop io psa \<lparr>rd_offset_bytes = sr_offset_bytes (slot_at g (unat slot)),
               rd_size_bytes = size_bytes\<rparr> 0 digest d1 of
          (Inl e, d2) \<Rightarrow> (Inl e, d2)
        | (Inr digest, d2) \<Rightarrow>
          (case digest_finish psa digest d2 of
             (None, d3) \<Rightarrow> (Inl SLOTS_IO_FAILED, d3)
           | (Some actual, d3) \<Rightarrow>
             (if actual = expected_sha256 then Inr () else Inl SLOTS_UNTRUSTED, d3))))"

fun check_bindings :: "'d slots_io \<Rightarrow> ('d, 'h) psa_api \<Rightarrow> slots_geometry \<Rightarrow>
    slot_binding list \<Rightarrow> ('d, slots_result, unit) act" where
  "check_bindings io psa g [] = retE ()"
| "check_bindings io psa g (b # bs) =
     bindE (if sb_package_present b
            then hash_flash io psa g (sb_slot b) (sb_package_size_bytes b) (sb_package_sha256 b)
            else retE ()) (\<lambda>_.
     check_bindings io psa g bs)"

definition hash_candidate :: "'d slots_io \<Rightarrow> ('d, 'h) psa_api \<Rightarrow> slots_geometry \<Rightarrow>
    slots_state \<Rightarrow> ('d, slots_result, unit) act" where
  "hash_candidate io psa g s = hash_flash io psa g (so_slot (ss_operation s))
     (so_package_size_bytes (ss_operation s)) (so_package_sha256 (ss_operation s))"

definition check_references :: "'d slots_io \<Rightarrow> ('d, 'h) psa_api \<Rightarrow> slots_geometry \<Rightarrow>
    slots_state \<Rightarrow> bool \<Rightarrow> ('d, slots_result, unit) act" where
  "check_references io psa g s check_candidate =
     bindE (check_bindings io psa g (ss_bindings s)) (\<lambda>_.
     if check_candidate \<and> ss_phase s \<ge> SLOT_PREPARED \<and> ss_phase s \<le> SLOT_HEALTH_VERIFIED
     then hash_candidate io psa g s
     else retE ())"

subsection \<open>The contract of the callbacks\<close>

definition device_view :: "('d \<Rightarrow> nat \<Rightarrow> byte) \<Rightarrow> ('d \<Rightarrow> bytes option) \<Rightarrow> ('d \<Rightarrow> bool) \<Rightarrow>
    'd \<Rightarrow> (nat \<Rightarrow> byte) \<times> bytes option \<times> bool" where
  "device_view flash nvs held d = (flash d, nvs d, held d)"

definition content :: "(nat \<Rightarrow> byte) \<Rightarrow> nat \<Rightarrow> nat \<Rightarrow> bytes" where
  "content bytes_at begin count = map bytes_at [begin..<begin + count]"

definition slot_content :: "(nat \<Rightarrow> byte) \<Rightarrow> slots_geometry \<Rightarrow> byte \<Rightarrow> u32 \<Rightarrow> bytes" where
  "slot_content bytes_at g slot count = content bytes_at (slot_begin g (unat slot)) (unat count)"

lemma content_append: "content f a n @ content f (a + n) m = content f a (n + m)"
proof -
  have "[a..<a + (n + m)] = [a..<a + n] @ [a + n..<a + n + m]"
    using upt_add_eq_append [of a "a + n" m] by (simp add: add.assoc)
  then show ?thesis by (simp add: content_def add.assoc)
qed

lemma length_content [simp]: "length (content f a n) = n"
  by (simp add: content_def)

text \<open>
  A binding, or the candidate of the operation in progress, is intact when the bytes in its
  slot have the recorded digest.  \<open>stored\<close>: the committed record is one that loads as \<open>s\<close>.
\<close>

definition binding_intact :: "(bytes \<Rightarrow> bytes) \<Rightarrow> (nat \<Rightarrow> byte) \<Rightarrow> slots_geometry \<Rightarrow>
    slot_binding \<Rightarrow> bool" where
  "binding_intact sha256 bytes_at g b \<longleftrightarrow> (sb_package_present b \<longrightarrow>
     sha256 (slot_content bytes_at g (sb_slot b) (sb_package_size_bytes b)) = sb_package_sha256 b)"

definition candidate_intact :: "(bytes \<Rightarrow> bytes) \<Rightarrow> (nat \<Rightarrow> byte) \<Rightarrow> slots_geometry \<Rightarrow>
    slots_state \<Rightarrow> bool" where
  "candidate_intact sha256 bytes_at g s \<longleftrightarrow>
     sha256 (slot_content bytes_at g (so_slot (ss_operation s)) (so_package_size_bytes (ss_operation s)))
       = so_package_sha256 (ss_operation s)"

definition stored :: "('d \<Rightarrow> bytes option) \<Rightarrow> slots_geometry \<Rightarrow> 'd \<Rightarrow> slots_state \<Rightarrow> bool" where
  "stored nvs g d s \<longleftrightarrow> (\<exists>blob. nvs d = Some blob \<and> length blob = SLOT_BLOB_BYTES \<and>
     decode_state blob g = Some s)"

lemma storedD:
  assumes "stored nvs g d s"
  shows "state_shape s" and "state_valid s g"
  using assms decode_state_shape decode_state_valid by (auto simp: stored_def)

lemma stored_unique: "stored nvs g d s \<Longrightarrow> stored nvs g d t \<Longrightarrow> s = t"
  by (auto simp: stored_def)

lemma stored_encode:
  "nvs d = Some (encode_state s) \<Longrightarrow> state_shape s \<Longrightarrow> state_valid s g \<Longrightarrow> stored nvs g d s"
  by (simp add: stored_def length_encode_state decode_encode_state)

lemma stored_nvs_eq: "stored nvs g d s \<Longrightarrow> nvs d = Some (encode_state s)"
  by (auto simp: stored_def encode_decode_state)

lemma stored_nvs: "nvs d' = nvs d \<Longrightarrow> stored nvs g d' s = stored nvs g d s"
  by (simp add: stored_def)

locale slot_device =
  fixes io :: "'d slots_io"
    and flash :: "'d \<Rightarrow> nat \<Rightarrow> byte"
    and nvs :: "'d \<Rightarrow> bytes option"
    and held :: "'d \<Rightarrow> bool"
  assumes lock_taken:
      "io_lock io d = (True, d') \<Longrightarrow> \<not> held d \<and> held d' \<and> flash d' = flash d \<and> nvs d' = nvs d"
    and lock_refused:
      "io_lock io d = (False, d') \<Longrightarrow> device_view flash nvs held d' = device_view flash nvs held d"
    and unlock: "\<not> held (io_unlock io d) \<and> flash (io_unlock io d) = flash d \<and> nvs (io_unlock io d) = nvs d"
    and read_blob_keeps: "keeps (device_view flash nvs held) (io_read_blob io)"
    and read_blob_found:
      "io_read_blob io d = (BLOB_FOUND blob, d') \<Longrightarrow> nvs d = Some blob \<and> length blob = SLOT_BLOB_BYTES"
    and read_blob_absent: "io_read_blob io d = (BLOB_NOT_FOUND, d') \<Longrightarrow> nvs d = None"
    and write_blob_frame: "keeps (\<lambda>d. (flash d, held d)) (io_write_blob io blob)"
    and write_blob_atomic:
      "io_write_blob io blob d = (ok, d') \<Longrightarrow> nvs d' = Some blob \<or> \<not> ok \<and> nvs d' = nvs d"
    and flash_read_keeps: "keeps (device_view flash nvs held) (io_flash_read io offset count)"
    and flash_read_bytes:
      "io_flash_read io offset count d = (Some bs, d') \<Longrightarrow> bs = content (flash d) (unat offset) count"
    and flash_erase_frame: "keeps (\<lambda>d. (nvs d, held d)) (io_flash_erase io offset size_bytes)"
    and flash_erase_outside:
      "io_flash_erase io offset size_bytes d = (ok, d') \<Longrightarrow>
         a < unat offset \<or> unat offset + unat size_bytes \<le> a \<Longrightarrow> flash d' a = flash d a"
    and flash_write_frame: "keeps (\<lambda>d. (nvs d, held d)) (io_flash_write io offset bs)"
    and flash_write_outside:
      "io_flash_write io offset bs d = (ok, d') \<Longrightarrow>
         a < unat offset \<or> unat offset + length bs \<le> a \<Longrightarrow> flash d' a = flash d a"

text \<open>
  The environment of the slot store: a device and a digest engine whose hashing does not
  touch the device.
\<close>

locale slot_env =
  slot_device io flash nvs held +
  digest_engine psa absorbed sha256 "device_view flash nvs held"
  for io :: "'d slots_io" and flash nvs held and psa :: "('d, 'h) psa_api" and absorbed sha256
begin

lemma viewD:
  assumes "keeps (device_view flash nvs held) m" and "m d = (r, d')"
  shows "flash d' = flash d" and "nvs d' = nvs d" and "held d' = held d"
  using keepsD [OF assms] by (simp_all add: device_view_def)

lemma flash_relative_read_keeps [frame_intros]:
  "keeps (device_view flash nvs held) (flash_relative_read io reader offset count)"
  by (rule keepsI)
     (auto simp: flash_relative_read_def split: if_splits dest: keepsD [OF flash_read_keeps])

lemma flash_relative_read_bytes:
  assumes "flash_relative_read io reader offset count d = (Some bs, d')"
  shows "bs = content (flash d) (unat (rd_offset_bytes reader) + offset) count"
    and "offset + count \<le> unat (rd_size_bytes reader)"
proof -
  from assms have run: "io_flash_read io (rd_offset_bytes reader + of_nat offset) count d = (Some bs, d')"
    and fits: "offset + count \<le> unat (rd_size_bytes reader)"
    and low: "offset \<le> unat (0xFFFFFFFF - rd_offset_bytes reader)"
    by (auto simp: flash_relative_read_def split: if_splits)
  show "offset + count \<le> unat (rd_size_bytes reader)" by (rule fits)
  have "rd_offset_bytes reader \<le> 0xFFFFFFFF"
    using unat_u32_lt [of "rd_offset_bytes reader"] by (simp add: word_le_nat_alt)
  then have "unat (rd_offset_bytes reader) + offset < 4294967296"
    using low unat_u32_lt [of "rd_offset_bytes reader"] by (simp add: unat_sub_le)
  then show "bs = content (flash d) (unat (rd_offset_bytes reader) + offset) count"
    using flash_read_bytes [OF run] by (simp add: unat_add_of_nat)
qed

lemma hash_loop_run:
  "hash_loop io psa reader offset digest d = (r, d') \<Longrightarrow>
     device_view flash nvs held d' = device_view flash nvs held d \<and>
     (\<forall>digest'. r = Inr digest' \<and> unat offset \<le> unat (rd_size_bytes reader) \<longrightarrow>
       absorbed digest' = absorbed digest @
         content (flash d) (unat (rd_offset_bytes reader) + unat offset)
           (unat (rd_size_bytes reader) - unat offset))"
proof (induction offset arbitrary: digest d rule: io_chunk_induct [where size_bytes = "rd_size_bytes reader"])
  case (chunk offset)
  show ?case
  proof (cases "offset < rd_size_bytes reader")
    case False
    with chunk.prems show ?thesis
      by (auto simp: hash_loop.simps word_less_nat_alt content_def)
  next
    case True
    let ?n = "io_chunk (rd_size_bytes reader) offset"
    obtain b d1 where read: "flash_relative_read io reader (unat offset) ?n d = (b, d1)"
      by fastforce
    have v1: "device_view flash nvs held d1 = device_view flash nvs held d"
      using flash_relative_read_keeps read by (rule keepsD)
    show ?thesis
    proof (cases b)
      case None
      with chunk.prems True read v1 show ?thesis by (auto simp: hash_loop.simps)
    next
      case (Some buffer)
      obtain ok dg d2 where upd: "digest_update psa digest buffer d1 = ((ok, dg), d2)"
        by (metis prod.exhaust)
      have v2: "device_view flash nvs held d2 = device_view flash nvs held d"
        using keepsD [OF digest_update_keeps upd] v1 by simp
      show ?thesis
      proof (cases ok)
        case False
        with chunk.prems True read Some upd v2 show ?thesis by (auto simp: hash_loop.simps)
      next
        case ok: True
        have run: "hash_loop io psa reader (offset + of_nat ?n) dg d2 = (r, d')"
          using chunk.prems True read Some upd ok by (simp add: hash_loop.simps [of _ _ _ offset])
        have dg: "absorbed dg = absorbed digest @
            content (flash d) (unat (rd_offset_bytes reader) + unat offset) ?n"
          using digest_update_absorbed [of digest buffer d1 dg d2] upd ok
            flash_relative_read_bytes(1) [of reader "unat offset" ?n d buffer d1] read Some by simp
        have "flash d2 = flash d" using v2 by (simp add: device_view_def)
        with chunk.IH [OF True run] v2 dg io_chunk_bounds(3,4) [OF True] show ?thesis
          by (auto simp: content_append add.assoc [symmetric])
      qed
    qed
  qed
qed

lemma hash_flash_step:
  assumes "hash_flash io psa g slot size_bytes expected d = (r, d')"
  shows "device_view flash nvs held d' = device_view flash nvs held d \<and>
     (r = Inr () \<longrightarrow> sha256 (slot_content (flash d) g slot size_bytes) = expected)"
proof (cases "unat slot \<ge> SLOT_COUNT \<or> size_bytes = 0 \<or>
    size_bytes > sr_size_bytes (slot_at g (unat slot))")
  case True
  with assms show ?thesis by (auto simp: hash_flash_def)
next
  case valid: False
  let ?reader = "\<lparr>rd_offset_bytes = sr_offset_bytes (slot_at g (unat slot)), rd_size_bytes = size_bytes\<rparr>"
  obtain dgo d1 where start: "digest_start psa d = (dgo, d1)" by fastforce
  have v1: "device_view flash nvs held d1 = device_view flash nvs held d"
    using digest_start_keeps start by (rule keepsD)
  show ?thesis
  proof (cases dgo)
    case None
    with assms valid start v1 show ?thesis by (auto simp: hash_flash_def)
  next
    case (Some dg)
    obtain q d2 where loop: "hash_loop io psa ?reader 0 dg d1 = (q, d2)" by fastforce
    note run = hash_loop_run [OF loop]
    have v2: "device_view flash nvs held d2 = device_view flash nvs held d" using run v1 by simp
    show ?thesis
    proof (cases q)
      case (Inl e)
      with assms valid start Some loop v2 show ?thesis by (auto simp: hash_flash_def)
    next
      case (Inr dg')
      have "absorbed dg = []" using start Some digest_start_absorbed by blast
      then have abs: "absorbed dg' = slot_content (flash d) g slot size_bytes"
        using run Inr v1 by (simp add: slot_content_def slot_begin_def device_view_def)
      obtain out d3 where fin: "digest_finish psa dg' d2 = (out, d3)" by fastforce
      have "r = (case out of None \<Rightarrow> Inl SLOTS_IO_FAILED
               | Some actual \<Rightarrow> if actual = expected then Inr () else Inl SLOTS_UNTRUSTED) \<and> d' = d3"
        using assms valid start Some loop Inr fin by (auto simp: hash_flash_def split: option.splits)
      with digest_finish_run [OF fin] v2 abs show ?thesis
        by (auto split: option.splits if_splits)
    qed
  qed
qed

lemmas hash_flash_run = hash_flash_step [THEN conjunct1]
  and hash_flash_digest = hash_flash_step [THEN conjunct2, rule_format]

lemma hash_flash_keeps [frame_intros]:
  "keeps (device_view flash nvs held) (hash_flash io psa g slot size_bytes expected)"
  by (rule keepsI) (rule hash_flash_run)

lemma check_bindings_keeps [frame_intros]:
  "keeps (device_view flash nvs held) (check_bindings io psa g bs)"
  by (induction bs) (auto intro!: frame_intros)

lemma hash_candidate_keeps [frame_intros]:
  "keeps (device_view flash nvs held) (hash_candidate io psa g s)"
  unfolding hash_candidate_def by (rule hash_flash_keeps)

lemma check_references_keeps [frame_intros]:
  "keeps (device_view flash nvs held) (check_references io psa g s check_candidate)"
  unfolding check_references_def by (intro frame_intros)

lemma load_locked_keeps [frame_intros]: "keeps (device_view flash nvs held) (load_locked io g)"
  by (rule keepsI)
     (auto simp: load_locked_def split: prod.splits blob_result.splits dest: keepsD [OF read_blob_keeps])

lemma begin_locked_keeps [frame_intros]:
  "keeps (device_view flash nvs held) (begin_locked io g expected_sequence)"
  unfolding begin_locked_def by (intro frame_intros)

subsubsection \<open>What a successful check says\<close>

lemma check_bindings_intact:
  "check_bindings io psa g bs d = (Inr u, d') \<Longrightarrow> b \<in> set bs \<Longrightarrow> binding_intact sha256 (flash d) g b"
proof (induction bs arbitrary: d)
  case Nil
  then show ?case by simp
next
  case (Cons a bs)
  from Cons.prems(1) obtain d1 where
    first: "(if sb_package_present a
       then hash_flash io psa g (sb_slot a) (sb_package_size_bytes a) (sb_package_sha256 a)
       else retE ()) d = (Inr (), d1)"
    and rest: "check_bindings io psa g bs d1 = (Inr u, d')"
    by (auto simp: bindE_OK)
  have "flash d1 = flash d"
    using first hash_flash_run by (auto split: if_splits simp: device_view_def)
  moreover have "binding_intact sha256 (flash d) g a"
    using first hash_flash_digest by (auto split: if_splits simp: binding_intact_def)
  ultimately show ?case
    using Cons.IH [OF rest] Cons.prems(2) by auto
qed

lemma hash_candidate_intact:
  "hash_candidate io psa g s d = (Inr u, d') \<Longrightarrow> candidate_intact sha256 (flash d) g s"
  using hash_flash_digest by (simp add: hash_candidate_def candidate_intact_def)

lemma check_references_intact:
  assumes "check_references io psa g s check_candidate d = (Inr u, d')"
  shows "b \<in> set (ss_bindings s) \<Longrightarrow> binding_intact sha256 (flash d) g b"
    and "check_candidate \<Longrightarrow> ss_phase s \<in> {SLOT_PREPARED, SLOT_TRIAL_STARTED, SLOT_HEALTH_VERIFIED}
         \<Longrightarrow> candidate_intact sha256 (flash d) g s"
proof -
  from assms obtain d1 where first: "check_bindings io psa g (ss_bindings s) d = (Inr (), d1)"
    and rest: "(if check_candidate \<and> ss_phase s \<ge> SLOT_PREPARED \<and> ss_phase s \<le> SLOT_HEALTH_VERIFIED
        then hash_candidate io psa g s else retE ()) d1 = (Inr u, d')"
    by (auto simp: check_references_def bindE_OK)
  show "b \<in> set (ss_bindings s) \<Longrightarrow> binding_intact sha256 (flash d) g b"
    using first by (rule check_bindings_intact)
  have "flash d1 = flash d" using check_bindings_keeps first by (rule viewD)
  then show "check_candidate \<Longrightarrow>
      ss_phase s \<in> {SLOT_PREPARED, SLOT_TRIAL_STARTED, SLOT_HEALTH_VERIFIED}
         \<Longrightarrow> candidate_intact sha256 (flash d) g s"
    using rest hash_candidate_intact [of g s d1 u d']
    by (auto simp: less_eq_slot_phase_def split: if_splits)
qed

subsubsection \<open>Loading and persisting the record\<close>

lemma load_locked_OK:
  assumes "load_locked io g d = (Inr s, d')"
  shows "\<exists>blob. nvs d = Some blob \<and> length blob = SLOT_BLOB_BYTES \<and> decode_state blob g = Some s"
    and "state_shape s" and "state_valid s g"
proof -
  from assms obtain blob where "io_read_blob io d = (BLOB_FOUND blob, d')" "decode_state blob g = Some s"
    by (auto simp: load_locked_def split: prod.splits blob_result.splits option.splits)
  then show "\<exists>blob. nvs d = Some blob \<and> length blob = SLOT_BLOB_BYTES \<and> decode_state blob g = Some s"
    "state_shape s" "state_valid s g"
    using read_blob_found decode_state_shape decode_state_valid by blast+
qed

lemma load_locked_EMPTY: "load_locked io g d = (Inl SLOTS_EMPTY, d') \<Longrightarrow> nvs d = None"
  by (auto simp: load_locked_def split: prod.splits blob_result.splits option.splits
      dest: read_blob_absent)

lemma begin_locked_OK:
  assumes "begin_locked io g expected_sequence d = (Inr s, d')"
  shows "stored nvs g d s" and "ss_sequence s = expected_sequence"
    and "device_view flash nvs held d' = device_view flash nvs held d"
proof -
  from assms have load: "load_locked io g d = (Inr s, d')"
    by (auto simp: begin_locked_def bindE_OK)
  then show "stored nvs g d s"
    using load_locked_OK [OF load] by (auto simp: stored_def)
  show "ss_sequence s = expected_sequence"
    using assms by (auto simp: begin_locked_def bindE_OK)
  show "device_view flash nvs held d' = device_view flash nvs held d"
    using begin_locked_keeps assms by (rule keepsD)
qed

lemma persist_locked_frame [frame_intros]:
  "keeps (\<lambda>d. (flash d, held d)) (persist_locked io before after)"
proof (rule keepsI)
  fix d r d' assume run: "persist_locked io before after d = (r, d')"
  obtain ok d1 where w: "io_write_blob io (encode_state after) d = (ok, d1)" by fastforce
  obtain b d2 where rd: "io_read_blob io d1 = (b, d2)" by fastforce
  have "d' = d2"
    using run w rd by (auto simp: persist_locked_def split: blob_result.splits if_splits)
  then show "(flash d', held d') = (flash d, held d)"
    using keepsD [OF write_blob_frame w] viewD [OF read_blob_keeps rd] by simp
qed

text \<open>
  The result code of \<open>persist_locked\<close> tells what is durable: OK means the new record,
  \<open>IO_FAILED\<close> the old one, and \<open>UNCERTAIN\<close> one of the two.
\<close>

lemma persist_locked_outcome:
  assumes "persist_locked io before after d = (r, d')"
  shows "nvs d' = Some (encode_state after) \<or> nvs d' = nvs d"
    and "r = Inr s \<Longrightarrow> s = after \<and> nvs d' = Some (encode_state after)"
    and "r = Inl e \<Longrightarrow> e = SLOTS_IO_FAILED \<or> e = SLOTS_UNCERTAIN"
    and "r = Inl SLOTS_IO_FAILED \<Longrightarrow>
      \<exists>old. before = Some old \<and> nvs d' = Some (encode_state old) \<and> encode_state old \<noteq> encode_state after"
proof -
  obtain ok d1 where w: "io_write_blob io (encode_state after) d = (ok, d1)" by fastforce
  obtain b d2 where rd: "io_read_blob io d1 = (b, d2)" by fastforce
  have d': "d' = d2" "nvs d2 = nvs d1"
    using assms w rd viewD [OF read_blob_keeps rd]
    by (auto simp: persist_locked_def split: blob_result.splits if_splits)
  show "nvs d' = Some (encode_state after) \<or> nvs d' = nvs d"
    using write_blob_atomic [OF w] d' by auto
  show "r = Inr s \<Longrightarrow> s = after \<and> nvs d' = Some (encode_state after)"
    "r = Inl e \<Longrightarrow> e = SLOTS_IO_FAILED \<or> e = SLOTS_UNCERTAIN"
    "r = Inl SLOTS_IO_FAILED \<Longrightarrow>
      \<exists>old. before = Some old \<and> nvs d' = Some (encode_state old) \<and> encode_state old \<noteq> encode_state after"
    using assms w rd d' read_blob_found
    by (auto simp: persist_locked_def split: blob_result.splits if_splits)
qed

lemma commit_next_frame [frame_intros]:
  "keeps (\<lambda>d. (flash d, held d)) (commit_next io g before after)"
  unfolding commit_next_def by (intro frame_intros)

lemma commit_next_outcome:
  assumes "commit_next io g before after d = (r, d')"
  shows "nvs d' = nvs d \<or> nvs d' = Some (encode_state (after\<lparr>ss_sequence := ss_sequence before + 1\<rparr>)) \<and>
       state_valid (after\<lparr>ss_sequence := ss_sequence before + 1\<rparr>) g"
    and "r = Inr s \<Longrightarrow> s = after\<lparr>ss_sequence := ss_sequence before + 1\<rparr> \<and>
       ss_sequence before \<noteq> 0xFFFFFFFF \<and> state_valid s g \<and> nvs d' = Some (encode_state s)"
    and "r = Inl e \<Longrightarrow> e \<in> {SLOTS_INVALID, SLOTS_IO_FAILED, SLOTS_UNCERTAIN}"
    and "r = Inl SLOTS_IO_FAILED \<Longrightarrow> nvs d' = Some (encode_state before)"
  using assms persist_locked_outcome
    [of "Some before" "after\<lparr>ss_sequence := ss_sequence before + 1\<rparr>" d r d']
  by (auto simp: commit_next_def Let_def split: if_splits)

end

end
