(* ===== verification/Slots_Ops.thy ===== *)
theory Slots_Ops
  imports Slots_Io
begin

text \<open>
  The public operations of the slot store (\<open>slots.c\<close>), each as the C function has it: the
  checks of the arguments, the lock, the guards in order, the Flash and NVS effects, the next
  state and the unlock.  A pointer argument that may be NULL is an \<open>option\<close>; the result is the
  result code, the caller's \<open>state\<close> buffer as the call leaves it, and the device.

  The callbacks \<open>source_fn\<close>, \<open>validate_fn\<close> and \<open>trial_stopped_fn\<close> belong to the caller and are
  arguments.
\<close>

type_synonym 'd slot_read_fn = "nat \<Rightarrow> nat \<Rightarrow> 'd \<Rightarrow> bytes option \<times> 'd"
type_synonym 'd slot_source_fn = "nat \<Rightarrow> nat \<Rightarrow> 'd \<Rightarrow> bytes option \<times> 'd"
type_synonym 'd slot_validate_fn =
  "slot_operation \<Rightarrow> 'd slot_read_fn \<Rightarrow> nat \<Rightarrow> 'd \<Rightarrow> validation_result \<times> 'd"
type_synonym 'd trial_stopped_fn = "bytes \<Rightarrow> 'd \<Rightarrow> bool \<times> 'd"

text \<open>
  The frame every operation shares: take the lock or report BUSY, run the body, store the new
  state through \<open>state\<close> on OK only, release the lock.
\<close>

definition report :: "slots_state option \<Rightarrow> slots_result + slots_state \<Rightarrow>
    slots_result \<times> slots_state option" where
  "report state result = (case result of Inl e \<Rightarrow> (e, state) | Inr s \<Rightarrow> (SLOTS_OK, Some s))"

definition with_lock :: "'d slots_io \<Rightarrow> slots_state option \<Rightarrow> ('d, slots_result, slots_state) act \<Rightarrow>
    'd \<Rightarrow> (slots_result \<times> slots_state option) \<times> 'd" where
  "with_lock io state body d =
    (case io_lock io d of
       (False, d1) \<Rightarrow> ((SLOTS_BUSY, state), d1)
     | (True, d1) \<Rightarrow> (case body d1 of (result, d2) \<Rightarrow> (report state result, io_unlock io d2)))"

subsection \<open>Initialize, load, reconcile\<close>

definition initial_state :: "slot_binding list \<Rightarrow> slots_state" where
  "initial_state bindings = zero_state\<lparr>ss_sequence := 1, ss_bindings := bindings\<rparr>"

definition initialize_locked :: "'d slots_io \<Rightarrow> ('d, 'h) psa_api \<Rightarrow> slots_geometry \<Rightarrow> firmware_set \<Rightarrow>
    slot_binding list \<Rightarrow> ('d, slots_result, slots_state) act" where
  "initialize_locked io psa g firmware_set bindings d =
    (case load_locked io g d of
       (Inl e, d1) \<Rightarrow>
         if e = SLOTS_EMPTY then
           (let initial = initial_state bindings in
            if \<not> state_valid initial g \<or> \<not> firmware_set_matches initial firmware_set
            then (Inl SLOTS_INVALID, d1)
            else bindE (check_references io psa g initial False)
                   (\<lambda>_. persist_locked io None initial) d1)
         else (Inl e, d1)
     | (Inr _, d1) \<Rightarrow> (Inl SLOTS_CONFLICT, d1))"

definition slots_initialize :: "'d slots_io_ptrs option \<Rightarrow> ('d, 'h) psa_api \<Rightarrow> slots_geometry option \<Rightarrow>
    firmware_set option \<Rightarrow> slot_binding list option \<Rightarrow> 'd \<Rightarrow> slots_result \<times> 'd" where
  "slots_initialize io psa geometry firmware_set bindings d =
    (if \<not> io_valid io \<or> \<not> geometry_valid geometry \<or> \<not> firmware_set_valid firmware_set \<or>
        bindings = None
     then (SLOTS_INVALID, d)
     else case with_lock (io_calls io) None
            (initialize_locked (io_calls io) psa (the geometry) (the firmware_set) (the bindings)) d
          of ((result, _), d1) \<Rightarrow> (result, d1))"

definition slots_load :: "'d slots_io_ptrs option \<Rightarrow> slots_geometry option \<Rightarrow> slots_state option \<Rightarrow>
    'd \<Rightarrow> (slots_result \<times> slots_state option) \<times> 'd" where
  "slots_load io geometry state d =
    (if \<not> io_valid io \<or> \<not> geometry_valid geometry \<or> state = None
     then ((SLOTS_INVALID, state), d)
     else with_lock (io_calls io) (Some zero_state) (load_locked (io_calls io) (the geometry)) d)"

definition reconcile_locked :: "'d slots_io \<Rightarrow> ('d, 'h) psa_api \<Rightarrow> slots_geometry \<Rightarrow> firmware_set \<Rightarrow>
    'd \<Rightarrow> (slots_result \<times> slots_state \<times> boot_decision) \<times> 'd" where
  "reconcile_locked io psa g firmware_set d =
    (case bindE (load_locked io g) (\<lambda>s.
          bindE (guardE (firmware_set_matches s firmware_set) SLOTS_CONFLICT) (\<lambda>_.
          bindE (check_references io psa g s False) (\<lambda>_.
          retE s))) d of
       (Inl e, d1) \<Rightarrow> ((e, zero_state, BOOT_BLOCKED), d1)
     | (Inr s, d1) \<Rightarrow>
         (case (if ss_phase s \<ge> SLOT_PREPARED \<and> ss_phase s \<le> SLOT_HEALTH_VERIFIED
                then hash_candidate io psa g s d1 else (Inr (), d1)) of
            (Inl e, d2) \<Rightarrow> ((e, s, BOOT_RECOVER_CONFIRMED_CANDIDATE_INVALID), d2)
          | (Inr _, d2) \<Rightarrow>
              ((SLOTS_OK, s, if ss_phase s \<ge> SLOT_WRITING \<and> ss_phase s \<le> SLOT_HEALTH_VERIFIED
                            then BOOT_RECOVER_CONFIRMED else BOOT_CONFIRMED), d2)))"

text \<open>The out-parameters are written first: the decision to BLOCKED, the state to zero.\<close>

definition slots_reconcile :: "'d slots_io_ptrs option \<Rightarrow> ('d, 'h) psa_api \<Rightarrow> slots_geometry option \<Rightarrow>
    firmware_set option \<Rightarrow> slots_state option \<Rightarrow> boot_decision option \<Rightarrow> 'd \<Rightarrow>
    (slots_result \<times> slots_state option \<times> boot_decision option) \<times> 'd" where
  "slots_reconcile io psa geometry firmware_set state decision d =
    (let decision = map_option (\<lambda>_. BOOT_BLOCKED) decision;
         state = map_option (\<lambda>_. zero_state) state in
     if \<not> io_valid io \<or> \<not> geometry_valid geometry \<or> \<not> firmware_set_valid firmware_set \<or>
        state = None \<or> decision = None
     then ((SLOTS_INVALID, state, decision), d)
     else case io_lock (io_calls io) d of
       (False, d1) \<Rightarrow> ((SLOTS_BUSY, state, decision), d1)
     | (True, d1) \<Rightarrow>
       (case reconcile_locked (io_calls io) psa (the geometry) (the firmware_set) d1 of
          ((result, s, dec), d2) \<Rightarrow> ((result, Some s, Some dec), io_unlock (io_calls io) d2)))"

subsection \<open>Reserve\<close>

definition protected_slots :: "slots_state \<Rightarrow> bool list" where
  "protected_slots s = fold (\<lambda>b protected_slot.
      if sb_package_present b then protected_slot[unat (sb_slot b) := True] else protected_slot)
    (ss_bindings s) (replicate SLOT_COUNT False)"

definition select_slot :: "slots_state \<Rightarrow> slots_geometry \<Rightarrow> u32 \<Rightarrow> nat option" where
  "select_slot s g package_size_bytes =
     List.find (\<lambda>index. \<not> protected_slots s ! index \<and>
        package_size_bytes \<le> sr_size_bytes (slot_at g index)) [0..<SLOT_COUNT]"

definition same_request :: "slot_operation \<Rightarrow> slot_operation \<Rightarrow> bool" where
  "same_request p q \<longleftrightarrow> so_target_firmware_sha256 p = so_target_firmware_sha256 q \<and>
     so_package_sha256 p = so_package_sha256 q \<and>
     so_package_size_bytes p = so_package_size_bytes q \<and>
     so_guest_abi_version p = so_guest_abi_version q \<and>
     so_data_schema_version p = so_data_schema_version q"

definition schema_compatible :: "slots_state \<Rightarrow> bytes \<Rightarrow> slot_operation \<Rightarrow> bool" where
  "schema_compatible s running operation =
    (case binding_for_firmware s running of
       None \<Rightarrow> False
     | Some index \<Rightarrow> \<not> (sb_package_present (ss_bindings s ! index) \<and>
         sb_data_schema_version (ss_bindings s ! index) \<noteq> so_data_schema_version operation))"

definition reserve_locked :: "'d slots_io \<Rightarrow> ('d, 'h) psa_api \<Rightarrow> slots_geometry \<Rightarrow> u32 \<Rightarrow>
    firmware_set \<Rightarrow> slot_operation \<Rightarrow> ('d, slots_result, slots_state) act" where
  "reserve_locked io psa g expected_sequence firmware_set operation =
    bindE (begin_locked io g expected_sequence) (\<lambda>current.
    bindE (guardE (firmware_set_matches current firmware_set) SLOTS_CONFLICT) (\<lambda>_.
    bindE (guardE (schema_compatible current (running_firmware_sha256 firmware_set) operation)
             SLOTS_CONFLICT) (\<lambda>_.
    bindE (check_references io psa g current True) (\<lambda>_.
    bindE (if ss_phase current \<noteq> SLOT_IDLE \<and>
              so_operation_id (ss_operation current) = so_operation_id operation
           then failE (if same_request (ss_operation current) operation
                       then SLOTS_BUSY else SLOTS_CONFLICT)
           else retE ()) (\<lambda>_.
    bindE (guardE (\<not> (ss_phase current \<ge> SLOT_WRITING \<and> ss_phase current \<le> SLOT_HEALTH_VERIFIED))
             SLOTS_BUSY) (\<lambda>_.
    case select_slot current g (so_package_size_bytes operation) of
      None \<Rightarrow> failE SLOTS_NO_SPACE
    | Some selected \<Rightarrow> commit_next io g current
        (current\<lparr>ss_phase := SLOT_WRITING,
                 ss_operation := operation\<lparr>so_slot := of_nat selected\<rparr>\<rparr>)))))))"

definition slots_reserve :: "'d slots_io_ptrs option \<Rightarrow> ('d, 'h) psa_api \<Rightarrow> slots_geometry option \<Rightarrow> u32 \<Rightarrow>
    firmware_set option \<Rightarrow> slot_operation option \<Rightarrow> slots_state option \<Rightarrow> 'd \<Rightarrow>
    (slots_result \<times> slots_state option) \<times> 'd" where
  "slots_reserve io psa geometry expected_sequence firmware_set operation state d =
    (if \<not> io_valid io \<or> \<not> geometry_valid geometry \<or> \<not> firmware_set_valid firmware_set \<or>
        operation = None \<or> state = None \<or>
        all_zero (so_operation_id (the operation)) \<or>
        all_zero (so_package_sha256 (the operation)) \<or>
        so_target_firmware_sha256 (the operation) \<noteq> running_firmware_sha256 (the firmware_set) \<or>
        so_slot (the operation) \<noteq> 0 \<or> so_package_size_bytes (the operation) = 0 \<or>
        so_guest_abi_version (the operation) = 0 \<or> so_data_schema_version (the operation) = 0 \<or>
        \<not> all_zero (so_trial_boot_id (the operation))
     then ((SLOTS_INVALID, state), d)
     else with_lock (io_calls io) state
       (reserve_locked (io_calls io) psa (the geometry) expected_sequence (the firmware_set)
          (the operation)) d)"

subsection \<open>Write and prepare\<close>

definition aligned_count :: "slots_geometry \<Rightarrow> nat \<Rightarrow> nat" where
  "aligned_count g actual = (actual + unat (write_unit_bytes g) - 1) div
     unat (write_unit_bytes g) * unat (write_unit_bytes g)"

text \<open>
  The 256-byte buffer starts as \<open>0xff\<close>, the source fills its first \<open>actual\<close> bytes and the
  first \<open>aligned\<close> bytes are written.
\<close>

definition write_buffer :: "nat \<Rightarrow> nat \<Rightarrow> bytes \<Rightarrow> bytes" where
  "write_buffer actual aligned bs = take aligned (take actual bs @ replicate SLOT_IO_BYTES 0xff)"

function write_loop :: "'d slots_io \<Rightarrow> slots_geometry \<Rightarrow> 'd slot_source_fn \<Rightarrow> u32 \<Rightarrow> u32 \<Rightarrow> u32 \<Rightarrow>
    ('d, slots_result, unit) act" where
  "write_loop io g source_fn slot_offset total_bytes offset d =
    (if offset < total_bytes then
       let actual = io_chunk total_bytes offset; aligned = aligned_count g actual in
       case source_fn (unat offset) actual d of
         (None, d1) \<Rightarrow> (Inl SLOTS_IO_FAILED, d1)
       | (Some bs, d1) \<Rightarrow>
         (case io_flash_write io (slot_offset + offset) (write_buffer actual aligned bs) d1 of
            (False, d2) \<Rightarrow> (Inl SLOTS_IO_FAILED, d2)
          | (True, d2) \<Rightarrow> write_loop io g source_fn slot_offset total_bytes (offset + of_nat actual) d2)
     else (Inr (), d))"
  by pat_completeness auto
termination
  by (relation "measure (\<lambda>(io, g, source_fn, slot_offset, total_bytes, offset, d).
        unat total_bytes - unat offset)")
     (simp_all add: io_chunk_decreases)

declare write_loop.simps [simp del]

definition write_candidate :: "'d slots_io \<Rightarrow> slots_geometry \<Rightarrow> 'd slot_source_fn \<Rightarrow> slots_state \<Rightarrow>
    ('d, slots_result, unit) act" where
  "write_candidate io g source_fn current d =
    (let slot = slot_at g (unat (so_slot (ss_operation current))) in
     case io_flash_erase io (sr_offset_bytes slot) (sr_size_bytes slot) d of
       (False, d1) \<Rightarrow> (Inl SLOTS_IO_FAILED, d1)
     | (True, d1) \<Rightarrow> write_loop io g source_fn (sr_offset_bytes slot)
         (so_package_size_bytes (ss_operation current)) 0 d1)"

definition validate_candidate :: "'d slots_io \<Rightarrow> slots_geometry \<Rightarrow> 'd slot_validate_fn \<Rightarrow> slots_state \<Rightarrow>
    ('d, slots_result, unit) act" where
  "validate_candidate io g validate_fn current d =
    (let operation = ss_operation current;
         reader = \<lparr>rd_offset_bytes = sr_offset_bytes (slot_at g (unat (so_slot operation))),
                   rd_size_bytes = so_package_size_bytes operation\<rparr> in
     case validate_fn operation (flash_relative_read io reader)
            (unat (so_package_size_bytes operation)) d of
       (validation, d1) \<Rightarrow>
         (if validation = VALIDATION_IO_FAILED then Inl SLOTS_IO_FAILED
          else if validation \<noteq> VALIDATION_OK then Inl SLOTS_UNTRUSTED else Inr (), d1))"

definition write_and_prepare_locked :: "'d slots_io \<Rightarrow> ('d, 'h) psa_api \<Rightarrow> slots_geometry \<Rightarrow> u32 \<Rightarrow>
    'd slot_source_fn \<Rightarrow> 'd slot_validate_fn \<Rightarrow> ('d, slots_result, slots_state) act" where
  "write_and_prepare_locked io psa g expected_sequence source_fn validate_fn =
    bindE (begin_locked io g expected_sequence) (\<lambda>current.
    bindE (guardE (ss_phase current = SLOT_WRITING) SLOTS_CONFLICT) (\<lambda>_.
    bindE (check_references io psa g current False) (\<lambda>_.
    bindE (write_candidate io g source_fn current) (\<lambda>_.
    bindE (hash_candidate io psa g current) (\<lambda>_.
    bindE (validate_candidate io g validate_fn current) (\<lambda>_.
    commit_next io g current (current\<lparr>ss_phase := SLOT_PREPARED\<rparr>)))))))"

definition slots_write_and_prepare :: "'d slots_io_ptrs option \<Rightarrow> ('d, 'h) psa_api \<Rightarrow>
    slots_geometry option \<Rightarrow> u32 \<Rightarrow> 'd slot_source_fn option \<Rightarrow> 'd slot_validate_fn option \<Rightarrow>
    slots_state option \<Rightarrow> 'd \<Rightarrow> (slots_result \<times> slots_state option) \<times> 'd" where
  "slots_write_and_prepare io psa geometry expected_sequence source_fn validate_fn state d =
    (if \<not> io_valid io \<or> \<not> geometry_valid geometry \<or> source_fn = None \<or> validate_fn = None \<or>
        state = None
     then ((SLOTS_INVALID, state), d)
     else with_lock (io_calls io) state
       (write_and_prepare_locked (io_calls io) psa (the geometry) expected_sequence
          (the source_fn) (the validate_fn)) d)"

subsection \<open>Trial, health, confirmation, cancellation\<close>

definition begin_trial_locked :: "'d slots_io \<Rightarrow> ('d, 'h) psa_api \<Rightarrow> slots_geometry \<Rightarrow> u32 \<Rightarrow>
    bytes \<Rightarrow> bytes \<Rightarrow> ('d, slots_result, slots_state) act" where
  "begin_trial_locked io psa g expected_sequence running_firmware boot_id =
    bindE (begin_locked io g expected_sequence) (\<lambda>current.
    bindE (guardE (\<not> (ss_phase current \<noteq> SLOT_PREPARED \<or>
             so_target_firmware_sha256 (ss_operation current) \<noteq> running_firmware))
             SLOTS_CONFLICT) (\<lambda>_.
    bindE (check_references io psa g current True) (\<lambda>_.
    commit_next io g current
      (current\<lparr>ss_phase := SLOT_TRIAL_STARTED,
               ss_operation := (ss_operation current)\<lparr>so_trial_boot_id := boot_id\<rparr>\<rparr>))))"

definition slots_begin_trial :: "'d slots_io_ptrs option \<Rightarrow> ('d, 'h) psa_api \<Rightarrow> slots_geometry option \<Rightarrow>
    u32 \<Rightarrow> bytes option \<Rightarrow> bytes option \<Rightarrow> slots_state option \<Rightarrow> 'd \<Rightarrow>
    (slots_result \<times> slots_state option) \<times> 'd" where
  "slots_begin_trial io psa geometry expected_sequence running_firmware boot_id state d =
    (if \<not> io_valid io \<or> \<not> geometry_valid geometry \<or> running_firmware = None \<or> boot_id = None \<or>
        state = None \<or> all_zero (the boot_id)
     then ((SLOTS_INVALID, state), d)
     else with_lock (io_calls io) state
       (begin_trial_locked (io_calls io) psa (the geometry) expected_sequence
          (the running_firmware) (the boot_id)) d)"

definition mark_healthy_locked :: "'d slots_io \<Rightarrow> ('d, 'h) psa_api \<Rightarrow> slots_geometry \<Rightarrow> u32 \<Rightarrow>
    bytes \<Rightarrow> ('d, slots_result, slots_state) act" where
  "mark_healthy_locked io psa g expected_sequence boot_id =
    bindE (begin_locked io g expected_sequence) (\<lambda>current.
    bindE (guardE (\<not> (ss_phase current \<noteq> SLOT_TRIAL_STARTED \<or>
             so_trial_boot_id (ss_operation current) \<noteq> boot_id)) SLOTS_CONFLICT) (\<lambda>_.
    bindE (check_references io psa g current True) (\<lambda>_.
    commit_next io g current (current\<lparr>ss_phase := SLOT_HEALTH_VERIFIED\<rparr>))))"

definition slots_mark_healthy :: "'d slots_io_ptrs option \<Rightarrow> ('d, 'h) psa_api \<Rightarrow> slots_geometry option \<Rightarrow>
    u32 \<Rightarrow> bytes option \<Rightarrow> slots_state option \<Rightarrow> 'd \<Rightarrow> (slots_result \<times> slots_state option) \<times> 'd" where
  "slots_mark_healthy io psa geometry expected_sequence boot_id state d =
    (if \<not> io_valid io \<or> \<not> geometry_valid geometry \<or> boot_id = None \<or> state = None
     then ((SLOTS_INVALID, state), d)
     else with_lock (io_calls io) state
       (mark_healthy_locked (io_calls io) psa (the geometry) expected_sequence (the boot_id)) d)"

definition confirmed_binding :: "slot_binding \<Rightarrow> slot_operation \<Rightarrow> slot_binding" where
  "confirmed_binding b p = b\<lparr>sb_package_present := True, sb_slot := so_slot p,
     sb_package_size_bytes := so_package_size_bytes p, sb_package_sha256 := so_package_sha256 p,
     sb_guest_abi_version := so_guest_abi_version p,
     sb_data_schema_version := so_data_schema_version p\<rparr>"

definition confirmed_state :: "slots_state \<Rightarrow> nat \<Rightarrow> slots_state" where
  "confirmed_state s index = s\<lparr>ss_phase := SLOT_CONFIRMED,
     ss_bindings := (ss_bindings s)[index :=
       confirmed_binding (ss_bindings s ! index) (ss_operation s)]\<rparr>"

definition confirm_locked :: "'d slots_io \<Rightarrow> ('d, 'h) psa_api \<Rightarrow> slots_geometry \<Rightarrow> u32 \<Rightarrow>
    bytes \<Rightarrow> bytes \<Rightarrow> ('d, slots_result, slots_state) act" where
  "confirm_locked io psa g expected_sequence running_firmware boot_id =
    bindE (begin_locked io g expected_sequence) (\<lambda>current.
    bindE (guardE (\<not> (ss_phase current \<noteq> SLOT_HEALTH_VERIFIED \<or>
             binding_for_firmware current running_firmware = None \<or>
             so_target_firmware_sha256 (ss_operation current) \<noteq> running_firmware \<or>
             so_trial_boot_id (ss_operation current) \<noteq> boot_id)) SLOTS_CONFLICT) (\<lambda>_.
    bindE (check_references io psa g current True) (\<lambda>_.
    commit_next io g current
      (confirmed_state current (the (binding_for_firmware current running_firmware))))))"

definition slots_confirm :: "'d slots_io_ptrs option \<Rightarrow> ('d, 'h) psa_api \<Rightarrow> slots_geometry option \<Rightarrow>
    u32 \<Rightarrow> bytes option \<Rightarrow> bytes option \<Rightarrow> slots_state option \<Rightarrow> 'd \<Rightarrow>
    (slots_result \<times> slots_state option) \<times> 'd" where
  "slots_confirm io psa geometry expected_sequence running_firmware boot_id state d =
    (if \<not> io_valid io \<or> \<not> geometry_valid geometry \<or> running_firmware = None \<or> boot_id = None \<or>
        state = None
     then ((SLOTS_INVALID, state), d)
     else with_lock (io_calls io) state
       (confirm_locked (io_calls io) psa (the geometry) expected_sequence
          (the running_firmware) (the boot_id)) d)"

definition stop_check :: "slots_state \<Rightarrow> bytes \<Rightarrow> 'd trial_stopped_fn option \<Rightarrow>
    ('d, slots_result, unit) act" where
  "stop_check current boot_id trial_stopped_fn d =
    (if ss_phase current \<ge> SLOT_TRIAL_STARTED \<and> so_trial_boot_id (ss_operation current) = boot_id
     then case trial_stopped_fn of
            None \<Rightarrow> (Inl SLOTS_BUSY, d)
          | Some stopped \<Rightarrow>
             (case stopped (so_operation_id (ss_operation current)) d of (yes, d1) \<Rightarrow>
                (if \<not> yes then Inl SLOTS_BUSY else Inr (), d1))
     else (Inr (), d))"

definition abandon_locked :: "'d slots_io \<Rightarrow> ('d, 'h) psa_api \<Rightarrow> slots_geometry \<Rightarrow> u32 \<Rightarrow>
    bytes \<Rightarrow> 'd trial_stopped_fn option \<Rightarrow> ('d, slots_result, slots_state) act" where
  "abandon_locked io psa g expected_sequence boot_id trial_stopped_fn =
    bindE (begin_locked io g expected_sequence) (\<lambda>current.
    bindE (guardE (\<not> (ss_phase current < SLOT_WRITING \<or> ss_phase current > SLOT_HEALTH_VERIFIED))
             SLOTS_CONFLICT) (\<lambda>_.
    bindE (stop_check current boot_id trial_stopped_fn) (\<lambda>_.
    bindE (check_references io psa g current False) (\<lambda>_.
    commit_next io g current (current\<lparr>ss_phase := SLOT_ABORTED\<rparr>)))))"

definition slots_abandon :: "'d slots_io_ptrs option \<Rightarrow> ('d, 'h) psa_api \<Rightarrow> slots_geometry option \<Rightarrow>
    u32 \<Rightarrow> bytes option \<Rightarrow> 'd trial_stopped_fn option \<Rightarrow> slots_state option \<Rightarrow> 'd \<Rightarrow>
    (slots_result \<times> slots_state option) \<times> 'd" where
  "slots_abandon io psa geometry expected_sequence boot_id trial_stopped_fn state d =
    (if \<not> io_valid io \<or> \<not> geometry_valid geometry \<or> boot_id = None \<or> state = None
     then ((SLOTS_INVALID, state), d)
     else with_lock (io_calls io) state
       (abandon_locked (io_calls io) psa (the geometry) expected_sequence (the boot_id)
          trial_stopped_fn) d)"

end
