(* ===== verification/Slots_Machine.thy ===== *)
theory Slots_Machine
  imports Slots_Ops
begin

text \<open>
  The abstract contract of the slot store and the proof that the operations implement it.

  \<open>slot_move\<close> is the state machine the header describes: reserve, prepare, begin trial, mark
  healthy, confirm, abandon.  \<open>slot_step\<close> is a move with the next sequence number.  The lemmas
  of the first part are about the machine alone: a step keeps every record valid, so the
  validity check before each commit never refuses one.  The second part is the refinement:
  every operation, under every failure of its callbacks, leaves the committed record as it
  was or replaces it by the result of one step.
\<close>

subsection \<open>The machine\<close>

text \<open>
  The events are the operations with the arguments that decide the next record.  The slot that
  reserving picks is not part of the event: the machine allows every free slot that fits.
\<close>

datatype slot_event =
    EV_RESERVE slot_operation | EV_PREPARE | EV_BEGIN_TRIAL bytes | EV_MARK_HEALTHY
  | EV_CONFIRM | EV_ABANDON

inductive slot_move :: "slots_geometry \<Rightarrow> slot_event \<Rightarrow> slots_state \<Rightarrow> slots_state \<Rightarrow> bool" for g where
  move_reserve:
    "\<not> phase_pending (ss_phase s) \<Longrightarrow> operation_shape p \<Longrightarrow>
     \<not> all_zero (so_operation_id p) \<Longrightarrow> \<not> all_zero (so_target_firmware_sha256 p) \<Longrightarrow>
     \<not> all_zero (so_package_sha256 p) \<Longrightarrow> unat (so_slot p) < SLOT_COUNT \<Longrightarrow>
     so_package_size_bytes p \<noteq> 0 \<Longrightarrow>
     so_package_size_bytes p \<le> sr_size_bytes (slot_at g (unat (so_slot p))) \<Longrightarrow>
     so_guest_abi_version p \<noteq> 0 \<Longrightarrow> so_data_schema_version p \<noteq> 0 \<Longrightarrow>
     all_zero (so_trial_boot_id p) \<Longrightarrow>
     \<exists>b \<in> set (ss_bindings s). sb_present b \<and> sb_firmware_sha256 b = so_target_firmware_sha256 p \<Longrightarrow>
     \<forall>b \<in> set (ss_bindings s). sb_package_present b \<longrightarrow> sb_slot b \<noteq> so_slot p \<Longrightarrow>
     slot_move g (EV_RESERVE (p\<lparr>so_slot := 0\<rparr>)) s (s\<lparr>ss_phase := SLOT_WRITING, ss_operation := p\<rparr>)"
| move_prepare:
    "ss_phase s = SLOT_WRITING \<Longrightarrow> slot_move g EV_PREPARE s (s\<lparr>ss_phase := SLOT_PREPARED\<rparr>)"
| move_begin_trial:
    "ss_phase s = SLOT_PREPARED \<Longrightarrow> length boot_id = 16 \<Longrightarrow> \<not> all_zero boot_id \<Longrightarrow>
     slot_move g (EV_BEGIN_TRIAL boot_id) s (s\<lparr>ss_phase := SLOT_TRIAL_STARTED,
                      ss_operation := (ss_operation s)\<lparr>so_trial_boot_id := boot_id\<rparr>\<rparr>)"
| move_mark_healthy:
    "ss_phase s = SLOT_TRIAL_STARTED \<Longrightarrow> slot_move g EV_MARK_HEALTHY s (s\<lparr>ss_phase := SLOT_HEALTH_VERIFIED\<rparr>)"
| move_confirm:
    "ss_phase s = SLOT_HEALTH_VERIFIED \<Longrightarrow>
     binding_for_firmware s (so_target_firmware_sha256 (ss_operation s)) = Some index \<Longrightarrow>
     slot_move g EV_CONFIRM s (confirmed_state s index)"
| move_abandon:
    "phase_pending (ss_phase s) \<Longrightarrow> slot_move g EV_ABANDON s (s\<lparr>ss_phase := SLOT_ABORTED\<rparr>)"

inductive_cases slot_moveE: "slot_move g ev s t"

definition numbered :: "slots_state \<Rightarrow> slots_state \<Rightarrow> slots_state" where
  "numbered s t = t\<lparr>ss_sequence := ss_sequence s + 1\<rparr>"

definition slot_step :: "slots_geometry \<Rightarrow> slot_event \<Rightarrow> slots_state \<Rightarrow> slots_state \<Rightarrow> bool" where
  "slot_step g ev s t \<longleftrightarrow> ss_sequence s \<noteq> 0xFFFFFFFF \<and> (\<exists>u. slot_move g ev s u \<and> t = numbered s u)"

subsection \<open>Moves keep records well formed\<close>

lemma u32_succ_nonzero: "(x :: u32) \<noteq> 0xFFFFFFFF \<Longrightarrow> x + 1 \<noteq> 0"
proof
  assume "x \<noteq> 0xFFFFFFFF" and "x + 1 = 0"
  then have "x = - 1" by (simp add: eq_neg_iff_add_eq_0)
  with \<open>x \<noteq> 0xFFFFFFFF\<close> show False by simp
qed

lemma phase_less_simps [simp]:
  "\<not> (SLOT_IDLE :: slot_phase) > SLOT_ABORTED" "\<not> p > SLOT_ABORTED"
  by (simp_all add: phase_never_above)

lemma numbered_simps [simp]:
  "ss_sequence (numbered s t) = ss_sequence s + 1" "ss_bindings (numbered s t) = ss_bindings t"
  "ss_phase (numbered s t) = ss_phase t" "ss_operation (numbered s t) = ss_operation t"
  by (simp_all add: numbered_def)

lemma slot_move_shape:
  assumes "slot_move g ev s t" and "state_shape s"
  shows "state_shape t"
  using assms
proof (cases rule: slot_move.cases)
  case (move_confirm index)
  obtain first second where "ss_bindings s = [first, second]"
    using assms(2) by (rule state_shape_cases)
  with move_confirm assms(2) show ?thesis
    by (auto simp: state_shape_def confirmed_state_def confirmed_binding_def binding_shape_def
        operation_shape_def SLOT_BINDING_COUNT_def nat_less_2 dest!: binding_for_firmware_Some)
qed (auto simp: state_shape_def operation_shape_def)

lemma operation_valid_cong:
  "ss_phase t = ss_phase s \<Longrightarrow> ss_operation t = ss_operation s \<Longrightarrow> ss_bindings t = ss_bindings s \<Longrightarrow>
     operation_valid t g = operation_valid s g"
  by (simp add: operation_valid_def)

text \<open>
  \<open>bindings_valid\<close> is the part of \<open>state_valid\<close> that does not depend on the operation: only
  confirming changes it.
\<close>

definition bindings_valid :: "slots_state \<Rightarrow> slots_geometry \<Rightarrow> bool" where
  "bindings_valid s g \<longleftrightarrow> state_valid (s\<lparr>ss_sequence := 1, ss_phase := SLOT_IDLE,
     ss_operation := zero_operation\<rparr>) g"

lemma operation_valid_idle:
  "ss_phase s = SLOT_IDLE \<Longrightarrow> operation_valid s g \<longleftrightarrow> ss_operation s = zero_operation"
  by (simp add: operation_valid_def Let_def)

lemma state_valid_split:
  "state_valid s g \<longleftrightarrow> ss_sequence s \<noteq> 0 \<and> bindings_valid s g \<and> operation_valid s g \<and>
     (ss_phase s = SLOT_CONFIRMED \<longrightarrow>
       list_ex (\<lambda>b. binding_confirms b (ss_operation s)) (ss_bindings s))"
  by (auto simp: state_valid_def bindings_valid_def operation_valid_idle Let_def split: if_splits)

lemma bindings_valid_cong:
  "ss_bindings t = ss_bindings s \<Longrightarrow> bindings_valid t g = bindings_valid s g"
  by (cases s; cases t) (simp add: bindings_valid_def)

lemma valid_numbered [simp]:
  "bindings_valid (numbered s t) g = bindings_valid t g"
  "operation_valid (numbered s t) g = operation_valid t g"
  by (rule bindings_valid_cong, simp) (rule operation_valid_cong, simp_all)

lemma operation_valid_activeI:
  assumes "ss_phase s \<noteq> SLOT_IDLE"
    and "\<not> all_zero (so_operation_id (ss_operation s))"
    and "\<not> all_zero (so_target_firmware_sha256 (ss_operation s))"
    and "\<not> all_zero (so_package_sha256 (ss_operation s))"
    and "unat (so_slot (ss_operation s)) < SLOT_COUNT"
    and "so_package_size_bytes (ss_operation s) \<noteq> 0"
    and "so_package_size_bytes (ss_operation s)
           \<le> sr_size_bytes (slot_at g (unat (so_slot (ss_operation s))))"
    and "so_guest_abi_version (ss_operation s) \<noteq> 0" and "so_data_schema_version (ss_operation s) \<noteq> 0"
    and "phase_pending (ss_phase s) \<Longrightarrow>
           \<forall>b \<in> set (ss_bindings s). sb_package_present b \<longrightarrow> sb_slot b \<noteq> so_slot (ss_operation s)"
    and "\<exists>b \<in> set (ss_bindings s). sb_present b \<and>
           sb_firmware_sha256 b = so_target_firmware_sha256 (ss_operation s)"
    and "ss_phase s \<in> {SLOT_WRITING, SLOT_PREPARED} \<Longrightarrow> all_zero (so_trial_boot_id (ss_operation s))"
    and "ss_phase s \<in> {SLOT_TRIAL_STARTED, SLOT_HEALTH_VERIFIED, SLOT_CONFIRMED} \<Longrightarrow>
           \<not> all_zero (so_trial_boot_id (ss_operation s))"
  shows "operation_valid s g"
  using assms
  by (auto simp: operation_valid_def Let_def list_ex_iff phase_below_writing not_less)

text \<open>What \<open>operation_valid\<close> says of an operation that is not idle, field by field.\<close>

lemma operation_valid_fields:
  assumes "operation_valid s g" and "ss_phase s \<noteq> SLOT_IDLE"
  shows "\<not> all_zero (so_operation_id (ss_operation s))"
    and "\<not> all_zero (so_target_firmware_sha256 (ss_operation s))"
    and "\<not> all_zero (so_package_sha256 (ss_operation s))"
    and "unat (so_slot (ss_operation s)) < SLOT_COUNT"
    and "so_package_size_bytes (ss_operation s) \<noteq> 0"
    and "so_package_size_bytes (ss_operation s)
           \<le> sr_size_bytes (slot_at g (unat (so_slot (ss_operation s))))"
    and "so_guest_abi_version (ss_operation s) \<noteq> 0" and "so_data_schema_version (ss_operation s) \<noteq> 0"
    and "\<exists>b \<in> set (ss_bindings s). sb_present b \<and>
           sb_firmware_sha256 b = so_target_firmware_sha256 (ss_operation s)"
    and "ss_phase s \<in> {SLOT_WRITING, SLOT_PREPARED} \<Longrightarrow> all_zero (so_trial_boot_id (ss_operation s))"
    and "ss_phase s \<in> {SLOT_TRIAL_STARTED, SLOT_HEALTH_VERIFIED, SLOT_CONFIRMED} \<Longrightarrow>
           \<not> all_zero (so_trial_boot_id (ss_operation s))"
  using assms by (auto simp: operation_valid_def Let_def list_ex_iff split: if_splits)


lemma bindings_valid_package:
  assumes "bindings_valid s g" and "state_shape s" and "b \<in> set (ss_bindings s)" and "sb_package_present b"
  shows "unat (sb_slot b) < SLOT_COUNT" and "sb_present b"
proof -
  obtain first second where "ss_bindings s = [first, second]"
    using assms(2) by (rule state_shape_cases)
  with assms have "binding_valid b g"
    by (auto simp: bindings_valid_def state_valid_def Let_def split: if_splits)
  then show "unat (sb_slot b) < SLOT_COUNT" "sb_present b"
    using assms(4) binding_valid_package by auto
qed

text \<open>Confirming installs the operation's package in the binding of its target firmware.\<close>

lemma binding_valid_confirmed:
  assumes "binding_valid b g" and "sb_present b" and "operation_valid s g" and "ss_phase s \<noteq> SLOT_IDLE"
  shows "binding_valid (confirmed_binding b (ss_operation s)) g"
  using assms(1,2) operation_valid_fields [OF assms(3,4)]
  by (auto simp: binding_valid_def confirmed_binding_def word_gt_0 split: if_splits)

lemma confirmed_binding_simps [simp]:
  "sb_present (confirmed_binding b p) = sb_present b"
  "sb_firmware_sha256 (confirmed_binding b p) = sb_firmware_sha256 b"
  "sb_package_present (confirmed_binding b p)" "sb_slot (confirmed_binding b p) = so_slot p"
  "sb_package_size_bytes (confirmed_binding b p) = so_package_size_bytes p"
  "sb_package_sha256 (confirmed_binding b p) = so_package_sha256 p"
  "sb_guest_abi_version (confirmed_binding b p) = so_guest_abi_version p"
  "sb_data_schema_version (confirmed_binding b p) = so_data_schema_version p"
  by (simp_all add: confirmed_binding_def)

lemma bindings_valid_confirmed:
  assumes shape: "state_shape s" and valid: "state_valid s g"
    and phase: "ss_phase s = SLOT_HEALTH_VERIFIED"
    and index: "binding_for_firmware s (so_target_firmware_sha256 (ss_operation s)) = Some index"
  shows "bindings_valid (confirmed_state s index) g"
proof -
  obtain first second where b: "ss_bindings s = [first, second]"
    using shape by (rule state_shape_cases)
  let ?p = "ss_operation s"
  have op: "operation_valid s g" using valid by (rule state_validD)
  have free: "sb_package_present a \<Longrightarrow> sb_slot a \<noteq> so_slot ?p" if "a \<in> set (ss_bindings s)" for a
    using operation_valid_unreferenced [OF op _ that] phase by (simp add: phase_pending_iff)
  have target: "index = 0 \<and> sb_present first \<or> index = 1 \<and> sb_present second"
    using binding_for_firmware_Some [OF index] b by (auto simp: SLOT_BINDING_COUNT_def nat_less_2)
  have old: "binding_valid first g" "binding_valid second g"
    "\<not> (sb_present first \<and> sb_present second \<and> sb_firmware_sha256 first = sb_firmware_sha256 second)"
    using valid b by (auto simp: state_valid_def Let_def split: if_splits)
  have new: "sb_present first \<Longrightarrow> binding_valid (confirmed_binding first ?p) g"
    "sb_present second \<Longrightarrow> binding_valid (confirmed_binding second ?p) g"
    using binding_valid_confirmed [OF _ _ op] old phase by auto
  show ?thesis
    using target
  proof (elim disjE conjE)
    assume "index = 0" "sb_present first"
    with b old new free [of second] show ?thesis
      by (auto simp: bindings_valid_def confirmed_state_def state_valid_def operation_valid_idle Let_def)
  next
    assume "index = 1" "sb_present second"
    with b old new free [of first] show ?thesis
      by (auto simp: bindings_valid_def confirmed_state_def state_valid_def operation_valid_idle Let_def)
  qed
qed

text \<open>An operation stays valid while its phase advances.\<close>

lemma slot_step_operation:
  assumes op: "operation_valid s g" and pending: "phase_pending (ss_phase s)"
    and phase: "ss_phase t \<noteq> SLOT_IDLE" and bindings: "ss_bindings t = ss_bindings s"
    and same: "ss_operation t = (ss_operation s)\<lparr>so_trial_boot_id := so_trial_boot_id (ss_operation t)\<rparr>"
    and boot: "ss_phase t \<in> {SLOT_WRITING, SLOT_PREPARED} \<Longrightarrow> all_zero (so_trial_boot_id (ss_operation t))"
    "ss_phase t \<in> {SLOT_TRIAL_STARTED, SLOT_HEALTH_VERIFIED, SLOT_CONFIRMED} \<Longrightarrow>
           \<not> all_zero (so_trial_boot_id (ss_operation t))"
  shows "operation_valid t g"
proof -
  have "ss_phase s \<noteq> SLOT_IDLE" using pending by (auto simp: phase_pending_iff)
  note fields = operation_valid_fields [OF op this]
  have eqs: "so_operation_id (ss_operation t) = so_operation_id (ss_operation s)"
    "so_target_firmware_sha256 (ss_operation t) = so_target_firmware_sha256 (ss_operation s)"
    "so_package_sha256 (ss_operation t) = so_package_sha256 (ss_operation s)"
    "so_slot (ss_operation t) = so_slot (ss_operation s)"
    "so_package_size_bytes (ss_operation t) = so_package_size_bytes (ss_operation s)"
    "so_guest_abi_version (ss_operation t) = so_guest_abi_version (ss_operation s)"
    "so_data_schema_version (ss_operation t) = so_data_schema_version (ss_operation s)"
    by (subst same, simp)+
  show ?thesis
    using fields(1-9) operation_valid_unreferenced [OF op pending] phase boot
    by (intro operation_valid_activeI) (simp_all add: eqs bindings)
qed

lemma confirmed_operation:
  assumes shape: "state_shape s" and op: "operation_valid s g"
    and phase: "ss_phase s = SLOT_HEALTH_VERIFIED"
    and index: "binding_for_firmware s (so_target_firmware_sha256 (ss_operation s)) = Some index"
  shows "operation_valid (confirmed_state s index) g \<and>
    list_ex (\<lambda>b. binding_confirms b (ss_operation s)) (ss_bindings (confirmed_state s index))"
proof -
  have i: "index < length (ss_bindings s)" "sb_present (ss_bindings s ! index)"
    "sb_firmware_sha256 (ss_bindings s ! index) = so_target_firmware_sha256 (ss_operation s)"
    using binding_for_firmware_Some [OF index] shape by (auto simp: state_shape_def)
  let ?b = "confirmed_binding (ss_bindings s ! index) (ss_operation s)"
  have member: "?b \<in> set (ss_bindings (confirmed_state s index))"
    using i by (simp add: confirmed_state_def set_update_memI)
  then have "list_ex (\<lambda>b. binding_confirms b (ss_operation s)) (ss_bindings (confirmed_state s index))"
    using i member by (auto simp: list_ex_iff binding_confirms_def intro!: bexI [of _ ?b])
  moreover have found: "\<exists>b \<in> set (ss_bindings (confirmed_state s index)). sb_present b \<and>
      sb_firmware_sha256 b = so_target_firmware_sha256 (ss_operation s)"
    using i member by (intro bexI [of _ ?b]) simp_all
  moreover have "operation_valid (confirmed_state s index) g"
    using operation_valid_fields [OF op] phase found
    by (intro operation_valid_activeI) (simp_all add: confirmed_state_def phase_pending_iff)
  ultimately show ?thesis by blast
qed

lemma slot_move_valid:
  assumes move: "slot_move g ev s t" and shape: "state_shape s" and valid: "state_valid s g"
    and room: "ss_sequence s \<noteq> 0xFFFFFFFF"
  shows "state_valid (numbered s t) g"
proof -
  have sequence: "ss_sequence s + 1 \<noteq> 0"
    using room by (rule u32_succ_nonzero)
  have bindings: "bindings_valid s g" and op: "operation_valid s g"
    using valid by (simp_all add: state_valid_split)
  have kept: "ss_bindings t = ss_bindings s \<Longrightarrow> bindings_valid (numbered s t) g"
    using bindings bindings_valid_cong [of t s g] by simp
  note boot = operation_valid_fields(10,11) [OF op]
  show ?thesis
    using move
  proof (cases rule: slot_move.cases)
    case (move_reserve p)
    have "operation_valid (numbered s t) g"
      using move_reserve by (intro operation_valid_activeI) auto
    moreover have "bindings_valid (numbered s t) g"
      by (rule kept) (simp add: move_reserve(2))
    ultimately show ?thesis
      using sequence move_reserve(2) by (simp add: state_valid_split)
  next
    case move_prepare
    then have "operation_valid (numbered s t) g"
      using boot by (intro slot_step_operation [OF op]) (simp_all add: phase_pending_iff)
    moreover have "bindings_valid (numbered s t) g" by (rule kept) (simp add: move_prepare(2))
    ultimately show ?thesis
      using sequence move_prepare(2) by (simp add: state_valid_split)
  next
    case (move_begin_trial boot_id)
    then have "operation_valid (numbered s t) g"
      by (intro slot_step_operation [OF op]) (simp_all add: phase_pending_iff)
    moreover have "bindings_valid (numbered s t) g" by (rule kept) (simp add: move_begin_trial(2))
    ultimately show ?thesis
      using sequence move_begin_trial(2) by (simp add: state_valid_split)
  next
    case move_mark_healthy
    then have "operation_valid (numbered s t) g"
      using boot by (intro slot_step_operation [OF op]) (simp_all add: phase_pending_iff)
    moreover have "bindings_valid (numbered s t) g" by (rule kept) (simp add: move_mark_healthy(2))
    ultimately show ?thesis
      using sequence move_mark_healthy(2) by (simp add: state_valid_split)
  next
    case move_abandon
    then have "operation_valid (numbered s t) g"
      by (intro slot_step_operation [OF op]) simp_all
    moreover have "bindings_valid (numbered s t) g" by (rule kept) (simp add: move_abandon(2))
    ultimately show ?thesis
      using sequence move_abandon(2) by (simp add: state_valid_split)
  next
    case (move_confirm index)
    have "bindings_valid (confirmed_state s index) g"
      using shape valid move_confirm(3,4) by (rule bindings_valid_confirmed)
    then have "bindings_valid (numbered s t) g"
      using move_confirm(2) by simp
    moreover have "operation_valid (numbered s t) g \<and>
        list_ex (\<lambda>b. binding_confirms b (ss_operation s)) (ss_bindings t)"
      using confirmed_operation [OF shape op move_confirm(3,4)] move_confirm(2) by simp
    ultimately show ?thesis
      using sequence move_confirm(2) by (simp add: state_valid_split confirmed_state_def)
  qed
qed

end
