(* ===== verification/Slots_Refine.thy ===== *)
theory Slots_Refine
  imports Slots_Machine
begin

text \<open>
  Every operation of the slot store implements one step of the machine of
  \<open>Slots_Machine\<close>, whatever its callbacks report.

  \<open>durable_outcome\<close> is the contract of the result code: OK means the committed record is the
  one of the returned state, which is a step from the record committed before; UNCERTAIN means
  it is the old record or such a successor; every other code means the record is untouched.
\<close>

definition durable_outcome :: "('d \<Rightarrow> bytes option) \<Rightarrow> slots_geometry \<Rightarrow> slot_event \<Rightarrow> 'd \<Rightarrow> 'd \<Rightarrow>
    slots_result + slots_state \<Rightarrow> bool" where
  "durable_outcome nvs g ev d d' r =
    (case r of
       Inr t \<Rightarrow> nvs d' = Some (encode_state t) \<and> (\<exists>s. stored nvs g d s \<and> slot_step g ev s t)
     | Inl e \<Rightarrow> nvs d' = nvs d \<or>
         e = SLOTS_UNCERTAIN \<and>
         (\<exists>s t. stored nvs g d s \<and> slot_step g ev s t \<and> nvs d' = Some (encode_state t)))"

lemma slot_step_stored:
  assumes "stored nvs g d s" and "slot_step g ev s t" and "nvs d' = Some (encode_state t)"
  shows "stored nvs g d' t"
proof -
  from assms(2) obtain u where u: "slot_move g ev s u" "t = numbered s u" "ss_sequence s \<noteq> 0xFFFFFFFF"
    by (auto simp: slot_step_def)
  have "state_shape t"
    using slot_move_shape [OF u(1)] storedD [OF assms(1)] u(2) by (simp add: state_shape_def)
  moreover have "state_valid t g"
    using slot_move_valid [OF u(1)] storedD [OF assms(1)] u(2,3) by simp
  ultimately show ?thesis using assms(3) by (intro stored_encode)
qed

lemma durable_bind:
  assumes run: "bindE m f d = (r, d')" and m: "\<And>q d1. m d = (q, d1) \<Longrightarrow> nvs d1 = nvs d"
    and f: "\<And>x d1. m d = (Inr x, d1) \<Longrightarrow> f x d1 = (r, d') \<Longrightarrow> durable_outcome nvs g ev d1 d' r"
  shows "durable_outcome nvs g ev d d' r"
proof -
  obtain q d1 where q: "m d = (q, d1)" by fastforce
  have same: "nvs d1 = nvs d" using q by (rule m)
  show ?thesis
  proof (cases q)
    case (Inl e)
    with run q same show ?thesis by (auto simp: bindE_def durable_outcome_def)
  next
    case (Inr x)
    with run q have "f x d1 = (r, d')" by (simp add: bindE_def)
    with q Inr have "durable_outcome nvs g ev d1 d' r" by (intro f) simp_all
    then show ?thesis using same by (cases r) (simp_all add: durable_outcome_def stored_def)
  qed
qed

lemma durable_fail [simp]: "durable_outcome nvs g ev d d (Inl e)"
  by (simp add: durable_outcome_def)

subsection \<open>Choosing a slot\<close>

lemma protected_fold:
  "i < length xs \<Longrightarrow>
     fold (\<lambda>b protected_slot. if sb_package_present b then protected_slot[unat (sb_slot b) := True]
        else protected_slot) bs xs ! i
     \<longleftrightarrow> xs ! i \<or> (\<exists>b \<in> set bs. sb_package_present b \<and> unat (sb_slot b) = i)"
proof (induction bs arbitrary: xs)
  case Nil
  then show ?case by simp
next
  case (Cons b bs)
  let ?xs = "if sb_package_present b then xs[unat (sb_slot b) := True] else xs"
  have "i < length ?xs" using Cons.prems by simp
  moreover have "?xs ! i \<longleftrightarrow> xs ! i \<or> sb_package_present b \<and> unat (sb_slot b) = i"
    using Cons.prems by (cases "unat (sb_slot b) = i") auto
  ultimately show ?case using Cons.IH [of ?xs] by auto
qed

lemma protected_slots_nth:
  "i < SLOT_COUNT \<Longrightarrow> protected_slots s ! i \<longleftrightarrow>
     (\<exists>b \<in> set (ss_bindings s). sb_package_present b \<and> unat (sb_slot b) = i)"
  by (simp add: protected_slots_def protected_fold)

lemma select_slot_Some:
  assumes "select_slot s g n = Some i"
  shows "i < SLOT_COUNT" and "n \<le> sr_size_bytes (slot_at g i)"
    and "b \<in> set (ss_bindings s) \<Longrightarrow> sb_package_present b \<Longrightarrow> unat (sb_slot b) \<noteq> i"
    and "j < i \<Longrightarrow> protected_slots s ! j \<or> n > sr_size_bytes (slot_at g j)"
proof -
  from assms have i: "i < SLOT_COUNT" "\<not> protected_slots s ! i" "n \<le> sr_size_bytes (slot_at g i)"
    and first: "\<And>j. j < i \<Longrightarrow> protected_slots s ! j \<or> n > sr_size_bytes (slot_at g j)"
    by (fastforce simp: select_slot_def find_Some_iff)+
  then show "i < SLOT_COUNT" "n \<le> sr_size_bytes (slot_at g i)"
    "b \<in> set (ss_bindings s) \<Longrightarrow> sb_package_present b \<Longrightarrow> unat (sb_slot b) \<noteq> i"
    "j < i \<Longrightarrow> protected_slots s ! j \<or> n > sr_size_bytes (slot_at g j)"
    by (auto simp: protected_slots_nth)
qed

lemma select_slot_None:
  "select_slot s g n = None \<longleftrightarrow>
     (\<forall>i < SLOT_COUNT. protected_slots s ! i \<or> n > sr_size_bytes (slot_at g i))"
  by (auto simp: select_slot_def find_None_iff not_le)

text \<open>Two bindings cannot protect three slots.\<close>

lemma some_slot_free:
  assumes "state_shape s"
  shows "\<exists>i < SLOT_COUNT. \<not> protected_slots s ! i"
proof -
  obtain first second where b: "ss_bindings s = [first, second]"
    using assms by (rule state_shape_cases)
  have "\<exists>i < (3::nat). i \<noteq> unat (sb_slot first) \<and> i \<noteq> unat (sb_slot second)"
    by presburger
  then show ?thesis
    using b by (auto simp: protected_slots_nth SLOT_COUNT_def)
qed

text \<open>A slot no confirmed package occupies, and one that an operation may be given.\<close>

definition slot_free :: "slots_state \<Rightarrow> nat \<Rightarrow> bool" where
  "slot_free s i \<longleftrightarrow> i < SLOT_COUNT \<and>
    (\<forall>b \<in> set (ss_bindings s). sb_package_present b \<longrightarrow> unat (sb_slot b) \<noteq> i)"

definition slot_fits :: "slots_state \<Rightarrow> slots_geometry \<Rightarrow> slot_operation \<Rightarrow> nat \<Rightarrow> bool" where
  "slot_fits s g operation i \<longleftrightarrow>
    slot_free s i \<and> so_package_size_bytes operation \<le> sr_size_bytes (slot_at g i)"

lemma slot_free_iff: "slot_free s i \<longleftrightarrow> i < SLOT_COUNT \<and> \<not> protected_slots s ! i"
  by (auto simp: slot_free_def protected_slots_nth)

lemma select_slot_first_fit:
  "select_slot s g (so_package_size_bytes operation) = Some i \<Longrightarrow>
     slot_fits s g operation i \<and> (\<forall>j < i. \<not> slot_fits s g operation j)"
  using select_slot_Some [of s g "so_package_size_bytes operation" i]
  by (auto simp: slot_fits_def slot_free_def protected_slots_nth not_le)

lemma select_slot_no_fit:
  "select_slot s g (so_package_size_bytes operation) = None \<Longrightarrow> \<not> slot_fits s g operation j"
  by (auto simp: slot_fits_def slot_free_iff select_slot_None)

definition operation_requestable :: "firmware_set \<Rightarrow> slot_operation \<Rightarrow> bool" where
  "operation_requestable f p \<longleftrightarrow> operation_shape p \<and> \<not> all_zero (so_operation_id p) \<and>
     \<not> all_zero (so_package_sha256 p) \<and> \<not> all_zero (running_firmware_sha256 f) \<and>
     so_target_firmware_sha256 p = running_firmware_sha256 f \<and> so_slot p = 0 \<and>
     so_package_size_bytes p \<noteq> 0 \<and> so_guest_abi_version p \<noteq> 0 \<and>
     so_data_schema_version p \<noteq> 0 \<and> all_zero (so_trial_boot_id p)"

lemma firmware_set_running: "firmware_set_valid (Some f) \<Longrightarrow> \<not> all_zero (running_firmware_sha256 f)"
  by (auto simp: firmware_set_valid_def split: if_splits)

lemma reserve_is_move:
  assumes "\<not> phase_pending (ss_phase s)" and "operation_requestable f p"
    and "schema_compatible s (running_firmware_sha256 f) p"
    and "state_shape s"
    and "select_slot s g (so_package_size_bytes p) = Some i"
  shows "slot_move g (EV_RESERVE p) s (s\<lparr>ss_phase := SLOT_WRITING, ss_operation := p\<lparr>so_slot := of_nat i\<rparr>\<rparr>)"
proof -
  have i: "unat (of_nat i :: byte) = i"
    using select_slot_Some(1) [OF assms(5)] by (simp add: SLOT_COUNT_def unat_of_nat)
  obtain index where "binding_for_firmware s (running_firmware_sha256 f) = Some index"
    using assms(3) by (auto simp: schema_compatible_def split: option.splits)
  then have found: "\<exists>b \<in> set (ss_bindings s). sb_present b \<and>
      sb_firmware_sha256 b = running_firmware_sha256 f"
    using assms(4) by (force dest!: binding_for_firmware_Some simp: state_shape_def)
  have free: "\<forall>b \<in> set (ss_bindings s). sb_package_present b \<longrightarrow> sb_slot b \<noteq> of_nat i"
    using select_slot_Some(3) [OF assms(5)] i by metis
  have same: "p\<lparr>so_slot := 0\<rparr> = p"
    using assms(2) by (cases p) (simp add: operation_requestable_def)
  have "operation_shape p" using assms(2) by (simp add: operation_requestable_def)
  then have shape: "operation_shape (p\<lparr>so_slot := of_nat i\<rparr>)" by (simp add: operation_shape_def)
  show ?thesis
    using assms(1,2) found free select_slot_Some(1,2) [OF assms(5)]
    by (intro shape move_reserve [where p = "p\<lparr>so_slot := of_nat i\<rparr>", simplified, unfolded same])
       (simp_all add: operation_requestable_def i)
qed

lemma round_up_le:
  assumes "0 < w" and "w dvd n" and "a \<le> (n :: nat)"
  shows "(a + w - 1) div w * w \<le> n"
proof -
  from assms(2) obtain k where n: "n = k * w" by (auto simp: dvd_def mult.commute)
  have "a + w - 1 < (k + 1) * w" using assms n by simp
  then have "(a + w - 1) div w < k + 1" by (simp only: less_mult_imp_div_less)
  then have "(a + w - 1) div w \<le> k" by simp
  then show ?thesis unfolding n by (rule mult_le_mono1)
qed

lemma length_write_buffer: "length (write_buffer actual aligned bs) \<le> aligned"
  by (simp add: write_buffer_def)

text \<open>The Flash addresses outside slot \<open>i\<close>.\<close>

definition outside_slot :: "slots_geometry \<Rightarrow> nat \<Rightarrow> nat \<Rightarrow> bool" where
  "outside_slot g i a \<longleftrightarrow> a < slot_begin g i \<or> slot_begin g i + slot_size g i \<le> a"

subsection \<open>What each operation leaves in storage\<close>

context slot_env
begin

text \<open>
  Committing a move: the only refusal that storage does not cause is the exhausted sequence
  number, because \<open>slot_move_valid\<close> makes the validity check pass.
\<close>

lemma commit_durable:
  assumes before: "stored nvs g d s" and move: "slot_move g ev s t"
    and run: "commit_next io g s t d = (r, d')"
  shows "durable_outcome nvs g ev d d' r"
proof (cases "ss_sequence s = 0xFFFFFFFF")
  case True
  with run show ?thesis by (auto simp: commit_next_def)
next
  case room: False
  then have step: "slot_step g ev s (numbered s t)"
    using move by (auto simp: slot_step_def)
  have valid: "state_valid (numbered s t) g"
    using slot_move_valid [OF move storedD [OF before] room] .
  have persist: "persist_locked io (Some s) (numbered s t) d = (r, d')"
    using run room valid by (simp add: commit_next_def numbered_def Let_def)
  note outcome = persist_locked_outcome [OF persist]
  show ?thesis
  proof (cases r)
    case (Inr x)
    with outcome(2) [of x] before step show ?thesis by (auto simp: durable_outcome_def)
  next
    case (Inl e)
    from outcome(3) [OF Inl] consider "e = SLOTS_IO_FAILED" | "e = SLOTS_UNCERTAIN" by blast
    then show ?thesis
    proof cases
      case 1
      with outcome(4) Inl have "nvs d' = nvs d"
        using stored_nvs_eq [OF before] by auto
      with Inl show ?thesis by (simp add: durable_outcome_def)
    next
      case 2
      with outcome(1) Inl before step show ?thesis by (auto simp: durable_outcome_def)
    qed
  qed
qed

lemma commit_refused:
  assumes before: "stored nvs g d s" and move: "slot_move g ev s t"
    and run: "commit_next io g s t d = (Inl SLOTS_INVALID, d')"
  shows "ss_sequence s = 0xFFFFFFFF"
proof (rule ccontr)
  assume room: "ss_sequence s \<noteq> 0xFFFFFFFF"
  have "state_valid (numbered s t) g"
    using slot_move_valid [OF move storedD [OF before] room] .
  then have "persist_locked io (Some s) (numbered s t) d = (Inl SLOTS_INVALID, d')"
    using run room by (simp add: commit_next_def numbered_def Let_def)
  then show False using persist_locked_outcome(3) by blast
qed

text \<open>
  The two shapes of every body: an action that keeps the view runs first, and the rest runs
  on an unchanged view.
\<close>

lemma durable_view:
  assumes run: "bindE m f d = (r, d')" and keep: "keeps (device_view flash nvs held) m"
    and rest: "\<And>x d1. m d = (Inr x, d1) \<Longrightarrow> f x d1 = (r, d') \<Longrightarrow> durable_outcome nvs g ev d1 d' r"
  shows "durable_outcome nvs g ev d d' r"
  by (rule durable_bind [OF run viewD(2) [OF keep] rest])

lemma durable_stored:
  assumes run: "bindE m f d = (r, d')" and keep: "keeps (device_view flash nvs held) m"
    and before: "stored nvs g d s"
    and rest: "\<And>x d1. stored nvs g d1 s \<Longrightarrow> m d = (Inr x, d1) \<Longrightarrow> f x d1 = (r, d') \<Longrightarrow>
           durable_outcome nvs g ev d1 d' r"
  shows "durable_outcome nvs g ev d d' r"
proof (rule durable_bind [OF run viewD(2) [OF keep]])
  fix x d1 assume m: "m d = (Inr x, d1)" and f: "f x d1 = (r, d')"
  have "stored nvs g d1 s"
    using viewD(2) [OF keep m] before by (simp add: stored_def)
  then show "durable_outcome nvs g ev d1 d' r" using m f by (rule rest)
qed

lemma durable_begin:
  assumes run: "bindE (begin_locked io g n) f d = (r, d')"
    and rest: "\<And>s d1. stored nvs g d1 s \<Longrightarrow> ss_sequence s = n \<Longrightarrow> f s d1 = (r, d') \<Longrightarrow>
           durable_outcome nvs g ev d1 d' r"
  shows "durable_outcome nvs g ev d d' r"
proof (rule durable_view [OF run begin_locked_keeps])
  fix s d1 assume m: "begin_locked io g n d = (Inr s, d1)" and f: "f s d1 = (r, d')"
  have "nvs d1 = nvs d" using begin_locked_keeps m by (rule viewD)
  then have "stored nvs g d1 s" using begin_locked_OK(1) [OF m] by (simp add: stored_def)
  then show "durable_outcome nvs g ev d1 d' r"
    using begin_locked_OK(2) [OF m] f by (rule rest)
qed

lemma durable_guard:
  assumes run: "bindE (guardE b e) f d = (r, d')"
    and rest: "b \<Longrightarrow> f () d = (r, d') \<Longrightarrow> durable_outcome nvs g ev d d' r"
  shows "durable_outcome nvs g ev d d' r"
proof (cases b)
  case True
  with run have "f () d = (r, d')" by (simp add: bindE_def guardE_def retE_def)
  with True show ?thesis by (rule rest)
next
  case False
  with run have "r = Inl e" "d' = d" by (simp_all add: bindE_def guardE_def failE_def)
  then show ?thesis by simp
qed

text \<open>
  Writing the candidate.  Each write starts at a multiple of the write unit and is rounded up
  to it, and a slot is a whole number of write units, so no write leaves the slot.
\<close>

definition kept_outside :: "slots_geometry \<Rightarrow> nat \<Rightarrow> 'd \<Rightarrow> 'd \<Rightarrow> bool" where
  "kept_outside g i d d' \<longleftrightarrow> nvs d' = nvs d \<and> held d' = held d \<and>
     (\<forall>a. outside_slot g i a \<longrightarrow> flash d' a = flash d a)"

lemma kept_outside_trans: "kept_outside g i d d1 \<Longrightarrow> kept_outside g i d1 d2 \<Longrightarrow> kept_outside g i d d2"
  by (simp add: kept_outside_def)

lemma kept_outside_view: "keeps (device_view flash nvs held) m \<Longrightarrow> m d = (r, d') \<Longrightarrow> kept_outside g i d d'"
  by (simp add: kept_outside_def viewD)

lemma flash_write_confined:
  assumes geometry: "geometry_valid (Some g)" and i: "i < SLOT_COUNT"
    and fits: "unat offset + length bs \<le> slot_size g i"
    and run: "io_flash_write io (sr_offset_bytes (slot_at g i) + offset) bs d = (ok, d')"
  shows "kept_outside g i d d'"
proof -
  have "unat (sr_offset_bytes (slot_at g i)) + unat offset < 4294967296"
    using geometry_valid_slot(6) [OF geometry i] fits by (simp add: slot_begin_def)
  then have "unat (sr_offset_bytes (slot_at g i) + offset) = slot_begin g i + unat offset"
    using unat_add_of_nat [of "sr_offset_bytes (slot_at g i)" "unat offset"]
    by (simp add: slot_begin_def)
  then show ?thesis
    using flash_write_outside [OF run] keepsD [OF flash_write_frame run] fits
    by (auto simp: kept_outside_def outside_slot_def)
qed

lemma write_loop_confined:
  assumes geometry: "geometry_valid (Some g)" and i: "i < SLOT_COUNT"
    and source: "\<And>off n. keeps (device_view flash nvs held) (source_fn off n)"
    and fits: "unat total_bytes \<le> slot_size g i"
  shows "unat (write_unit_bytes g) dvd unat offset \<or> total_bytes \<le> offset \<Longrightarrow>
     write_loop io g source_fn (sr_offset_bytes (slot_at g i)) total_bytes offset d = (r, d') \<Longrightarrow>
     kept_outside g i d d'"
proof (induction offset arbitrary: d rule: io_chunk_induct [where size_bytes = total_bytes])
  case (chunk offset)
  note unit = geometry_valid_units [OF geometry] and slot = geometry_valid_slot [OF geometry i]
  show ?case
  proof (cases "offset < total_bytes")
    case False
    with chunk.prems show ?thesis by (simp add: write_loop.simps kept_outside_def)
  next
    case True
    let ?n = "io_chunk total_bytes offset"
    let ?w = "unat (write_unit_bytes g)"
    note bounds = io_chunk_bounds [OF True]
    have aligned: "?w dvd unat offset" using chunk.prems(1) True by auto
    have w_slot: "?w dvd slot_size g i" using unit(4) slot(3) by (rule dvd_trans)
    have "aligned_count g ?n \<le> slot_size g i - unat offset"
      unfolding aligned_count_def
      using unit(1) dvd_diff_nat [OF w_slot aligned] bounds(3) fits by (intro round_up_le) simp_all
    moreover have "unat offset \<le> slot_size g i" using bounds(3) fits by simp
    ultimately have room: "unat offset + length (write_buffer ?n (aligned_count g ?n) bs) \<le> slot_size g i" for bs
      using length_write_buffer [of ?n "aligned_count g ?n" bs] by simp
    obtain b d1 where src: "source_fn (unat offset) ?n d = (b, d1)" by fastforce
    have k1: "kept_outside g i d d1" using source src by (rule kept_outside_view)
    show ?thesis
    proof (cases b)
      case None
      with chunk.prems(2) True src k1 show ?thesis by (simp add: write_loop.simps [of _ _ _ _ _ offset])
    next
      case (Some bs)
      let ?buffer = "write_buffer ?n (aligned_count g ?n) bs"
      obtain ok d2 where wr: "io_flash_write io (sr_offset_bytes (slot_at g i) + offset) ?buffer d1 = (ok, d2)"
        by fastforce
      have k2: "kept_outside g i d d2"
        using k1 flash_write_confined [OF geometry i room wr] by (rule kept_outside_trans)
      show ?thesis
      proof (cases ok)
        case False
        with chunk.prems(2) True src Some wr k2 show ?thesis
          by (simp add: write_loop.simps [of _ _ _ _ _ offset] Let_def)
      next
        case ok: True
        have rest: "write_loop io g source_fn (sr_offset_bytes (slot_at g i)) total_bytes
            (offset + of_nat ?n) d2 = (r, d')"
          using chunk.prems(2) True src Some wr ok
          by (simp add: write_loop.simps [of _ _ _ _ _ offset] Let_def)
        have "?w dvd unat (offset + of_nat ?n) \<or> total_bytes \<le> offset + of_nat ?n"
        proof (cases "?n < SLOT_IO_BYTES")
          case True
          then show ?thesis using bounds by (simp add: word_le_nat_alt)
        next
          case False
          then have "?n = 256" using bounds by (simp add: SLOT_IO_BYTES_def)
          then show ?thesis using bounds(4) aligned unit(3) by (simp add: dvd_add)
        qed
        then have "kept_outside g i d2 d'" using rest by (rule chunk.IH [OF True])
        with k2 show ?thesis by (rule kept_outside_trans)
      qed
    qed
  qed
qed

lemma write_candidate_confined:
  assumes geometry: "geometry_valid (Some g)" and state: "stored nvs g d0 s" "ss_phase s \<noteq> SLOT_IDLE"
    and source: "\<And>off n. keeps (device_view flash nvs held) (source_fn off n)"
    and run: "write_candidate io g source_fn s d = (r, d')"
  shows "kept_outside g (unat (so_slot (ss_operation s))) d d'"
proof -
  let ?i = "unat (so_slot (ss_operation s))"
  have i: "?i < SLOT_COUNT" and fits: "unat (so_package_size_bytes (ss_operation s)) \<le> slot_size g ?i"
    using operation_valid_active [OF state_validD(2) [OF storedD(2) [OF state(1)]] state(2)] by simp_all
  obtain ok d1 where erase: "io_flash_erase io (sr_offset_bytes (slot_at g ?i))
      (sr_size_bytes (slot_at g ?i)) d = (ok, d1)" by fastforce
  have k1: "kept_outside g ?i d d1"
    using flash_erase_outside [OF erase] keepsD [OF flash_erase_frame erase]
    by (auto simp: kept_outside_def outside_slot_def slot_begin_def slot_size_def)
  show ?thesis
  proof (cases ok)
    case False
    with run erase k1 show ?thesis by (simp add: write_candidate_def Let_def)
  next
    case True
    with run erase have "write_loop io g source_fn (sr_offset_bytes (slot_at g ?i))
        (so_package_size_bytes (ss_operation s)) 0 d1 = (r, d')"
      by (simp add: write_candidate_def Let_def)
    then have "kept_outside g ?i d1 d'"
      using write_loop_confined [OF geometry i source fits, of 0] by simp
    with k1 show ?thesis by (rule kept_outside_trans)
  qed
qed

end

end
