(* ===== verification/Slots_Durable.thy ===== *)
theory Slots_Durable
  imports Slots_Refine
begin

text \<open>
  The body of every operation against the machine: what the result code says of the committed
  record (\<open>durable_outcome\<close>), what the body leaves of the Flash, and what an OK result
  guarantees of the packages.
\<close>

text \<open>
  The caller's callbacks run with the lock held.  A well-behaved one does not touch the
  slot store's Flash, record or lock, whatever it returns; a validator may read through the
  function it is given.
\<close>

definition quiet_source :: "('d \<Rightarrow> 'v) \<Rightarrow> 'd slot_source_fn \<Rightarrow> bool" where
  "quiet_source view source_fn \<longleftrightarrow> (\<forall>offset count. keeps view (source_fn offset count))"

definition quiet_validator :: "('d \<Rightarrow> 'v) \<Rightarrow> 'd slot_validate_fn \<Rightarrow> bool" where
  "quiet_validator view validate_fn \<longleftrightarrow> (\<forall>operation read_fn count.
     (\<forall>offset n. keeps view (read_fn offset n)) \<longrightarrow> keeps view (validate_fn operation read_fn count))"

definition quiet_stop :: "('d \<Rightarrow> 'v) \<Rightarrow> 'd trial_stopped_fn option \<Rightarrow> bool" where
  "quiet_stop view stop_fn \<longleftrightarrow> (\<forall>stopped identity. stop_fn = Some stopped \<longrightarrow> keeps view (stopped identity))"

context slot_env
begin

lemma quiet_sourceD: "quiet_source view source_fn \<Longrightarrow> keeps view (source_fn offset count)"
  by (simp add: quiet_source_def)

lemma validate_candidate_keeps:
  assumes "quiet_validator (device_view flash nvs held) validate_fn"
  shows "keeps (device_view flash nvs held) (validate_candidate io g validate_fn s)"
proof (rule keepsI)
  fix d r d' assume run: "validate_candidate io g validate_fn s d = (r, d')"
  let ?reader = "\<lparr>rd_offset_bytes = sr_offset_bytes (slot_at g (unat (so_slot (ss_operation s)))),
      rd_size_bytes = so_package_size_bytes (ss_operation s)\<rparr>"
  have "keeps (device_view flash nvs held) (validate_fn (ss_operation s)
      (flash_relative_read io ?reader) (unat (so_package_size_bytes (ss_operation s))))"
    using assms flash_relative_read_keeps by (simp add: quiet_validator_def)
  then show "device_view flash nvs held d' = device_view flash nvs held d"
    using run by (auto simp: validate_candidate_def Let_def split: prod.splits dest: keepsD)
qed

lemma stop_check_keeps:
  assumes "quiet_stop (device_view flash nvs held) stop_fn"
  shows "keeps (device_view flash nvs held) (stop_check s boot_id stop_fn)"
  using assms
  by (intro keepsI)
     (auto simp: stop_check_def quiet_stop_def split: if_splits option.splits prod.splits dest: keepsD)

subsection \<open>Storage\<close>

lemma reserve_durable:
  assumes request: "operation_requestable f p"
    and run: "reserve_locked io psa g n f p d = (r, d')"
  shows "durable_outcome nvs g (EV_RESERVE p) d d' r"
  using run unfolding reserve_locked_def
proof (elim durable_begin durable_guard durable_stored [OF _ check_references_keeps])
  fix s d1 assume s: "stored nvs g d1 s" "schema_compatible s (running_firmware_sha256 f) p"
  fix u d2 assume s2: "stored nvs g d2 s"
  assume "bindE (if ss_phase s \<noteq> SLOT_IDLE \<and> so_operation_id (ss_operation s) = so_operation_id p
      then failE (if same_request (ss_operation s) p then SLOTS_BUSY else SLOTS_CONFLICT) else retE ())
      (\<lambda>_. bindE (guardE (\<not> (SLOT_WRITING \<le> ss_phase s \<and> ss_phase s \<le> SLOT_HEALTH_VERIFIED)) SLOTS_BUSY)
      (\<lambda>_. case select_slot s g (so_package_size_bytes p) of None \<Rightarrow> failE SLOTS_NO_SPACE
        | Some selected \<Rightarrow> commit_next io g s (s\<lparr>ss_phase := SLOT_WRITING,
            ss_operation := p\<lparr>so_slot := of_nat selected\<rparr>\<rparr>))) d2 = (r, d')"
  moreover have "keeps (device_view flash nvs held)
      (if ss_phase s \<noteq> SLOT_IDLE \<and> so_operation_id (ss_operation s) = so_operation_id p
      then failE (if same_request (ss_operation s) p then SLOTS_BUSY else SLOTS_CONFLICT) else retE ())"
    by (intro frame_intros)
  ultimately show "durable_outcome nvs g (EV_RESERVE p) d2 d' r"
  proof (elim durable_stored [OF _ _ s2] durable_guard)
    fix d3 assume s3: "stored nvs g d3 s"
    assume idle: "\<not> (SLOT_WRITING \<le> ss_phase s \<and> ss_phase s \<le> SLOT_HEALTH_VERIFIED)"
    assume run: "(case select_slot s g (so_package_size_bytes p) of None \<Rightarrow> failE SLOTS_NO_SPACE
        | Some selected \<Rightarrow> commit_next io g s (s\<lparr>ss_phase := SLOT_WRITING,
            ss_operation := p\<lparr>so_slot := of_nat selected\<rparr>\<rparr>)) d3 = (r, d')"
    show "durable_outcome nvs g (EV_RESERVE p) d3 d' r"
    proof (cases "select_slot s g (so_package_size_bytes p)")
      case None
      with run show ?thesis by auto
    next
      case (Some i)
      have "slot_move g (EV_RESERVE p) s (s\<lparr>ss_phase := SLOT_WRITING, ss_operation := p\<lparr>so_slot := of_nat i\<rparr>\<rparr>)"
        using idle request s(2) storedD(1) [OF s(1)] Some
        by (intro reserve_is_move) (simp_all add: phase_pending_def)
      then show ?thesis
        using run Some by (intro commit_durable [OF s3]) simp_all
    qed
  qed
qed

lemma prepare_durable:
  assumes geometry: "geometry_valid (Some g)"
    and source: "quiet_source (device_view flash nvs held) source_fn"
    and validator: "quiet_validator (device_view flash nvs held) validate_fn"
    and run: "write_and_prepare_locked io psa g n source_fn validate_fn d = (r, d')"
  shows "durable_outcome nvs g EV_PREPARE d d' r"
  using run unfolding write_and_prepare_locked_def
proof (elim durable_begin durable_guard durable_stored [OF _ check_references_keeps])
  fix s u d2 assume s: "stored nvs g d2 s" and phase: "ss_phase s = SLOT_WRITING"
  assume "bindE (write_candidate io g source_fn s) (\<lambda>_. bindE (hash_candidate io psa g s)
      (\<lambda>_. bindE (validate_candidate io g validate_fn s)
      (\<lambda>_. commit_next io g s (s\<lparr>ss_phase := SLOT_PREPARED\<rparr>)))) d2 = (r, d')"
  then show "durable_outcome nvs g EV_PREPARE d2 d' r"
  proof (rule durable_bind)
    fix q d3 assume "write_candidate io g source_fn s d2 = (q, d3)"
    then show same: "nvs d3 = nvs d2"
      using write_candidate_confined [OF geometry s _ quiet_sourceD [OF source]] phase
      by (simp add: kept_outside_def)
  next
    fix x d3 assume "write_candidate io g source_fn s d2 = (Inr x, d3)"
    then have "nvs d3 = nvs d2"
      using write_candidate_confined [OF geometry s _ quiet_sourceD [OF source]] phase
      by (simp add: kept_outside_def)
    then have s3: "stored nvs g d3 s" using s by (simp add: stored_def)
    assume "bindE (hash_candidate io psa g s) (\<lambda>_. bindE (validate_candidate io g validate_fn s)
      (\<lambda>_. commit_next io g s (s\<lparr>ss_phase := SLOT_PREPARED\<rparr>))) d3 = (r, d')"
    then show "durable_outcome nvs g EV_PREPARE d3 d' r"
    proof (elim durable_stored [OF _ hash_candidate_keeps s3]
        durable_stored [OF _ validate_candidate_keeps [OF validator]])
      fix d4 assume "stored nvs g d4 s"
        and "commit_next io g s (s\<lparr>ss_phase := SLOT_PREPARED\<rparr>) d4 = (r, d')"
      with move_prepare [OF phase] show "durable_outcome nvs g EV_PREPARE d4 d' r"
        by (intro commit_durable)
    qed
  qed
qed

lemma begin_trial_durable:
  assumes boot: "length boot_id = 16" "\<not> all_zero boot_id"
    and run: "begin_trial_locked io psa g n running boot_id d = (r, d')"
  shows "durable_outcome nvs g (EV_BEGIN_TRIAL boot_id) d d' r"
  using run unfolding begin_trial_locked_def
proof (elim durable_begin durable_guard durable_stored [OF _ check_references_keeps])
  fix s d2
  assume s: "stored nvs g d2 s"
    and phase: "\<not> (ss_phase s \<noteq> SLOT_PREPARED \<or> so_target_firmware_sha256 (ss_operation s) \<noteq> running)"
    and commit: "commit_next io g s (s\<lparr>ss_phase := SLOT_TRIAL_STARTED,
       ss_operation := (ss_operation s)\<lparr>so_trial_boot_id := boot_id\<rparr>\<rparr>) d2 = (r, d')"
  then show "durable_outcome nvs g (EV_BEGIN_TRIAL boot_id) d2 d' r"
    using move_begin_trial [OF _ boot, of s] by (intro commit_durable) simp_all
qed

lemma mark_healthy_durable:
  assumes run: "mark_healthy_locked io psa g n boot_id d = (r, d')"
  shows "durable_outcome nvs g EV_MARK_HEALTHY d d' r"
  using run unfolding mark_healthy_locked_def
proof (elim durable_begin durable_guard durable_stored [OF _ check_references_keeps])
  fix s d2
  assume s: "stored nvs g d2 s"
    and phase: "\<not> (ss_phase s \<noteq> SLOT_TRIAL_STARTED \<or> so_trial_boot_id (ss_operation s) \<noteq> boot_id)"
    and commit: "commit_next io g s (s\<lparr>ss_phase := SLOT_HEALTH_VERIFIED\<rparr>) d2 = (r, d')"
  then show "durable_outcome nvs g EV_MARK_HEALTHY d2 d' r"
    using move_mark_healthy [of s g] by (intro commit_durable) simp_all
qed

lemma confirm_durable:
  assumes run: "confirm_locked io psa g n running boot_id d = (r, d')"
  shows "durable_outcome nvs g EV_CONFIRM d d' r"
  using run unfolding confirm_locked_def
proof (elim durable_begin durable_guard durable_stored [OF _ check_references_keeps])
  fix s d2
  assume s: "stored nvs g d2 s"
    and guard: "\<not> (ss_phase s \<noteq> SLOT_HEALTH_VERIFIED \<or> binding_for_firmware s running = None \<or>
        so_target_firmware_sha256 (ss_operation s) \<noteq> running \<or>
        so_trial_boot_id (ss_operation s) \<noteq> boot_id)"
    and commit: "commit_next io g s (confirmed_state s (the (binding_for_firmware s running))) d2 = (r, d')"
  from guard have "slot_move g EV_CONFIRM s (confirmed_state s (the (binding_for_firmware s running)))"
    by (intro move_confirm) auto
  then show "durable_outcome nvs g EV_CONFIRM d2 d' r"
    using commit by (intro commit_durable [OF s])
qed

lemma abandon_durable:
  assumes stop: "quiet_stop (device_view flash nvs held) stop_fn"
    and run: "abandon_locked io psa g n boot_id stop_fn d = (r, d')"
  shows "durable_outcome nvs g EV_ABANDON d d' r"
  using run unfolding abandon_locked_def
proof (elim durable_begin durable_guard durable_stored [OF _ stop_check_keeps [OF stop]]
    durable_stored [OF _ check_references_keeps])
  fix s d2
  assume s: "stored nvs g d2 s"
    and phase: "\<not> (ss_phase s < SLOT_WRITING \<or> SLOT_HEALTH_VERIFIED < ss_phase s)"
    and commit: "commit_next io g s (s\<lparr>ss_phase := SLOT_ABORTED\<rparr>) d2 = (r, d')"
  from phase have "phase_pending (ss_phase s)" by (simp add: phase_pending_def not_less)
  then show "durable_outcome nvs g EV_ABANDON d2 d' r"
    using commit move_abandon [of s g] by (intro commit_durable [OF s])
qed

subsection \<open>Flash and lock\<close>

text \<open>No body but the one of \<open>write_and_prepare\<close> writes Flash, and none touches the lock.\<close>

lemma view_frame: "keeps (device_view flash nvs held) m \<Longrightarrow> keeps (\<lambda>d. (flash d, held d)) m"
  by (erule keeps_compose [where g = "\<lambda>v. (fst v, snd (snd v))"]) (simp add: device_view_def)

lemmas body_frames = frame_intros view_frame [OF begin_locked_keeps]
  view_frame [OF check_references_keeps] view_frame [OF stop_check_keeps]

lemma reserve_frame: "keeps (\<lambda>d. (flash d, held d)) (reserve_locked io psa g n f p)"
proof -
  have "keeps (\<lambda>d. (flash d, held d)) (case i of None \<Rightarrow> failE SLOTS_NO_SPACE
      | Some selected \<Rightarrow> commit_next io g s (u selected))" for i :: "nat option" and s u
    by (cases i) (auto intro: frame_intros)
  then show ?thesis unfolding reserve_locked_def by (intro body_frames)
qed

lemma begin_trial_frame: "keeps (\<lambda>d. (flash d, held d)) (begin_trial_locked io psa g n running boot_id)"
  unfolding begin_trial_locked_def by (intro body_frames)

lemma mark_healthy_frame: "keeps (\<lambda>d. (flash d, held d)) (mark_healthy_locked io psa g n boot_id)"
  unfolding mark_healthy_locked_def by (intro body_frames)

lemma confirm_frame: "keeps (\<lambda>d. (flash d, held d)) (confirm_locked io psa g n running boot_id)"
  unfolding confirm_locked_def by (intro body_frames)

lemma abandon_frame:
  "quiet_stop (device_view flash nvs held) stop_fn \<Longrightarrow>
     keeps (\<lambda>d. (flash d, held d)) (abandon_locked io psa g n boot_id stop_fn)"
  unfolding abandon_locked_def by (intro body_frames)

text \<open>
  \<open>write_and_prepare\<close> changes bytes of the reserved slot only, and only in phase WRITING.  A
  new record is committed only if the slot then holds a package with the recorded digest.
\<close>

lemma prepare_tail:
  assumes k: "kept_outside g i d d2"
    and writes: "\<And>q d3. write_candidate io g source_fn s d2 = (q, d3) \<Longrightarrow> kept_outside g i d2 d3"
    and validator: "quiet_validator (device_view flash nvs held) validate_fn"
    and run: "bindE (write_candidate io g source_fn s) (\<lambda>_. bindE (hash_candidate io psa g s)
       (\<lambda>_. bindE (validate_candidate io g validate_fn s) (\<lambda>_. commit_next io g s t))) d2 = (r, d')"
  shows "held d' = held d \<and> (\<forall>a. outside_slot g i a \<longrightarrow> flash d' a = flash d a) \<and>
    (nvs d' \<noteq> nvs d \<longrightarrow> candidate_intact sha256 (flash d') g s)"
  using run
proof (cases rule: bindE_cases)
  case failed
  then show ?thesis using kept_outside_trans [OF k writes] by (auto simp: kept_outside_def)
next
  case (ok u3 d3)
  have k3: "kept_outside g i d d3" using k writes [OF ok(1)] by (rule kept_outside_trans)
  from ok(2) show ?thesis
  proof (cases rule: bindE_cases)
    case failed
    then show ?thesis
      using kept_outside_trans [OF k3 kept_outside_view [OF hash_candidate_keeps]]
      by (auto simp: kept_outside_def)
  next
    case (ok u4 d4)
    have k4: "kept_outside g i d d4"
      using k3 kept_outside_view [OF hash_candidate_keeps ok(1)] by (rule kept_outside_trans)
    have intact: "candidate_intact sha256 (flash d4) g s"
      using hash_candidate_intact [OF ok(1)] viewD(1) [OF hash_candidate_keeps ok(1)] by simp
    note check = validate_candidate_keeps [OF validator]
    from ok(2) show ?thesis
    proof (cases rule: bindE_cases)
      case failed
      then show ?thesis
        using kept_outside_trans [OF k4 kept_outside_view [OF check]] by (auto simp: kept_outside_def)
    next
      case (ok u5 d5)
      from ok(2) have "(flash d', held d') = (flash d5, held d5)"
        by (rule keepsD [OF commit_next_frame])
      then show ?thesis
        using kept_outside_trans [OF k4 kept_outside_view [OF check ok(1)]] intact viewD(1) [OF check ok(1)]
        by (simp add: kept_outside_def)
    qed
  qed
qed

lemma prepare_flash:
  assumes geometry: "geometry_valid (Some g)"
    and source: "quiet_source (device_view flash nvs held) source_fn"
    and validator: "quiet_validator (device_view flash nvs held) validate_fn"
    and run: "write_and_prepare_locked io psa g n source_fn validate_fn d = (r, d')"
  shows "held d' = held d \<and>
    (flash d' = flash d \<and> nvs d' = nvs d \<or>
     (\<exists>s. stored nvs g d s \<and> ss_phase s = SLOT_WRITING \<and>
        (\<forall>a. outside_slot g (unat (so_slot (ss_operation s))) a \<longrightarrow> flash d' a = flash d a) \<and>
        (nvs d' \<noteq> nvs d \<longrightarrow> candidate_intact sha256 (flash d') g s)))"
  using run unfolding write_and_prepare_locked_def
proof (cases rule: bindE_cases)
  case failed
  then show ?thesis using viewD [OF begin_locked_keeps] by auto
next
  case (ok s d1)
  note first = begin_locked_OK [OF ok(1)] and v1 = viewD [OF begin_locked_keeps ok(1)]
  from ok(2) show ?thesis
  proof (cases rule: bindE_cases)
    case failed
    then show ?thesis using v1 by auto
  next
    case (ok u d2)
    then have phase: "ss_phase s = SLOT_WRITING" and d2: "d2 = d1" by auto
    from ok(2) show ?thesis
    proof (cases rule: bindE_cases)
      case failed
      then show ?thesis using viewD [OF check_references_keeps] v1 d2 by auto
    next
      case (ok u d3)
      note v3 = viewD [OF check_references_keeps ok(1)]
      let ?i = "unat (so_slot (ss_operation s))"
      have "kept_outside g ?i d d3" using v1 v3 d2 by (simp add: kept_outside_def)
      moreover have "kept_outside g ?i d3 d4" if "write_candidate io g source_fn s d3 = (q, d4)" for q d4
        using write_candidate_confined [OF geometry first(1) _ quiet_sourceD [OF source] that] phase by simp
      ultimately have "held d' = held d \<and> (\<forall>a. outside_slot g ?i a \<longrightarrow> flash d' a = flash d a) \<and>
          (nvs d' \<noteq> nvs d \<longrightarrow> candidate_intact sha256 (flash d') g s)"
        using validator ok(2) by (rule prepare_tail)
      then show ?thesis using first(1) phase by blast
    qed
  qed
qed

end

end
