(* ===== verification/Slots_Safety.thy ===== *)
theory Slots_Safety
  imports Slots_Durable
begin

text \<open>
  The guarantee the three-slot design exists for, over whole runs: \<open>slots_call\<close> is one call of
  the public interface with any arguments of the C types, and \<open>store_safe\<close> holds after every
  sequence of calls, whatever the callbacks report.

  A power cut needs no step of its own.  What is left in storage after one is what an
  operation leaves whose callbacks fail from that point on: after a failed Flash or NVS call
  no operation writes storage again, and a failed write may have had any partial effect inside
  its range.
\<close>

definition state_packages_intact :: "(bytes \<Rightarrow> bytes) \<Rightarrow> (nat \<Rightarrow> byte) \<Rightarrow> slots_geometry \<Rightarrow>
    slots_state \<Rightarrow> bool" where
  "state_packages_intact sha256 bytes_at g s \<longleftrightarrow>
     (\<forall>b \<in> set (ss_bindings s). binding_intact sha256 bytes_at g b) \<and>
     (ss_phase s \<in> {SLOT_PREPARED, SLOT_TRIAL_STARTED, SLOT_HEALTH_VERIFIED} \<longrightarrow>
       candidate_intact sha256 bytes_at g s)"

definition store_safe :: "(bytes \<Rightarrow> bytes) \<Rightarrow> ('d \<Rightarrow> nat \<Rightarrow> byte) \<Rightarrow> ('d \<Rightarrow> bytes option) \<Rightarrow>
    slots_geometry \<Rightarrow> 'd \<Rightarrow> bool" where
  "store_safe sha256 flash nvs g d \<longleftrightarrow>
     (\<forall>s. stored nvs g d s \<longrightarrow> state_packages_intact sha256 (flash d) g s)"

lemma content_cong: "(\<And>a. begin \<le> a \<Longrightarrow> a < begin + n \<Longrightarrow> f a = f' a) \<Longrightarrow> content f begin n = content f' begin n"
  by (simp add: content_def)

text \<open>A change inside one slot leaves the packages in the others intact.\<close>

lemma binding_intact_other_slot:
  assumes geometry: "geometry_valid (Some g)" and b: "binding_valid b g" and i: "i < SLOT_COUNT"
    and other: "sb_package_present b \<Longrightarrow> unat (sb_slot b) \<noteq> i"
    and same: "\<And>a. outside_slot g i a \<Longrightarrow> bytes' a = bytes_at a"
    and intact: "binding_intact sha256 bytes_at g b"
  shows "binding_intact sha256 bytes' g b"
proof (cases "sb_package_present b")
  case False
  then show ?thesis by (simp add: binding_intact_def)
next
  case True
  note package = binding_valid_package [OF b True]
  have "bytes' a = bytes_at a"
    if "slot_begin g (unat (sb_slot b)) \<le> a"
      "a < slot_begin g (unat (sb_slot b)) + unat (sb_package_size_bytes b)" for a
    using geometry_valid_disjoint [OF geometry package(2) i other [OF True]] that package(4)
    by (intro same) (auto simp: outside_slot_def)
  then have "slot_content bytes' g (sb_slot b) (sb_package_size_bytes b)
      = slot_content bytes_at g (sb_slot b) (sb_package_size_bytes b)"
    unfolding slot_content_def by (intro content_cong)
  with intact show ?thesis by (simp add: binding_intact_def)
qed

text \<open>Steps other than preparing keep the packages of the record intact on unchanged Flash.\<close>

lemma step_packages_intact:
  assumes step: "slot_step g ev s t" and not_prepare: "ev \<noteq> EV_PREPARE"
    and intact: "state_packages_intact sha256 bytes_at g s"
  shows "state_packages_intact sha256 bytes_at g t"
proof -
  from step obtain u where move: "slot_move g ev s u" and t: "t = numbered s u"
    by (auto simp: slot_step_def)
  from move have "state_packages_intact sha256 bytes_at g u"
  proof (cases rule: slot_move.cases)
    case (move_confirm index)
    then have "candidate_intact sha256 bytes_at g s"
      using intact by (simp add: state_packages_intact_def)
    then have "binding_intact sha256 bytes_at g (confirmed_binding (ss_bindings s ! index) (ss_operation s))"
      by (simp add: binding_intact_def candidate_intact_def)
    moreover have "set (ss_bindings u) \<subseteq>
        insert (confirmed_binding (ss_bindings s ! index) (ss_operation s)) (set (ss_bindings s))"
      using move_confirm(2) by (simp add: confirmed_state_def set_update_subset_insert)
    ultimately show ?thesis
      using intact move_confirm(2) by (auto simp: state_packages_intact_def confirmed_state_def)
  qed (use not_prepare intact in \<open>simp_all add: state_packages_intact_def candidate_intact_def\<close>)
  then show ?thesis
    by (simp add: t state_packages_intact_def candidate_intact_def)
qed

lemma prepare_packages_intact:
  assumes geometry: "geometry_valid (Some g)" and s: "state_shape s" "state_valid s g"
    and phase: "ss_phase s = SLOT_WRITING"
    and same: "\<And>a. outside_slot g (unat (so_slot (ss_operation s))) a \<Longrightarrow> bytes' a = bytes_at a"
    and intact: "state_packages_intact sha256 bytes_at g s" and b: "b \<in> set (ss_bindings s)"
  shows "binding_intact sha256 bytes' g b"
proof -
  have op: "operation_valid s g" using s(2) by (rule state_validD)
  have "binding_valid b g"
    using b state_validD(3) [OF s(2)] s(1) by (auto simp: in_set_conv_nth state_shape_def)
  moreover have "unat (so_slot (ss_operation s)) < SLOT_COUNT"
    using operation_valid_active(1) [OF op] phase by simp
  moreover have "sb_package_present b \<Longrightarrow> unat (sb_slot b) \<noteq> unat (so_slot (ss_operation s))"
    using operation_valid_unreferenced [OF op _ b] phase
    by (auto simp: phase_pending_iff dest: word_unat_eq_iff [THEN iffD2])
  moreover have "binding_intact sha256 bytes_at g b"
    using intact b by (simp add: state_packages_intact_def)
  ultimately show ?thesis
    using same by (intro binding_intact_other_slot [OF geometry, of b _ bytes' bytes_at]) 
qed

context slot_env
begin

abbreviation "safe \<equiv> store_safe sha256 flash nvs"

lemma durable_cases:
  assumes durable: "durable_outcome nvs g ev d d' r"
  obtains (same) "nvs d' = nvs d"
    | (step) s t where "stored nvs g d s" "slot_step g ev s t" "stored nvs g d' t"
proof (cases "nvs d' = nvs d")
  case False
  then obtain s t where s: "stored nvs g d s" and step: "slot_step g ev s t"
    and blob: "nvs d' = Some (encode_state t)"
    using durable by (auto simp: durable_outcome_def split: sum.splits)
  show ?thesis
    using that(2) [OF s step slot_step_stored [of nvs, OF s step blob]] .
qed (rule that(1))

lemma safeD: "safe g d \<Longrightarrow> stored nvs g d s \<Longrightarrow> state_packages_intact sha256 (flash d) g s"
  by (simp add: store_safe_def)

lemma safeI: "stored nvs g d s \<Longrightarrow> state_packages_intact sha256 (flash d) g s \<Longrightarrow> safe g d"
  by (auto simp: store_safe_def dest: stored_unique)

lemma safe_same: "nvs d' = nvs d \<Longrightarrow> flash d' = flash d \<Longrightarrow> safe g d \<Longrightarrow> safe g d'"
  by (simp add: store_safe_def stored_def)

lemma stored_same: "nvs d' = nvs d \<Longrightarrow> stored nvs g d s \<Longrightarrow> stored nvs g d' s"
  by (simp add: stored_def)

lemma durable_safe:
  assumes durable: "durable_outcome nvs g ev d d' r" and "ev \<noteq> EV_PREPARE"
    and flash: "flash d' = flash d" and safe: "safe g d"
  shows "safe g d'"
  using durable
proof (cases rule: durable_cases)
  case same
  then show ?thesis using flash safe by (rule safe_same)
next
  case (step s t)
  have "state_packages_intact sha256 (flash d') g t"
    unfolding flash using step(2) assms(2) safeD [OF safe step(1)] by (rule step_packages_intact)
  with step(3) show ?thesis by (rule safeI)
qed

lemma prepare_safe:
  assumes geometry: "geometry_valid (Some g)"
    and source: "quiet_source (device_view flash nvs held) source_fn"
    and validator: "quiet_validator (device_view flash nvs held) validate_fn"
    and run: "write_and_prepare_locked io psa g n source_fn validate_fn d = (r, d')"
    and safe: "safe g d"
  shows "safe g d'"
proof -
  note result = prepare_flash [OF geometry source validator run, THEN conjunct2]
    and durable = prepare_durable [OF geometry source validator run]
  from result show ?thesis
  proof (elim disjE exE conjE)
    assume same: "flash d' = flash d" "nvs d' = nvs d"
    from same(2,1) safe show ?thesis by (rule safe_same)
  next
    fix s
    assume s: "stored nvs g d s" and phase: "ss_phase s = SLOT_WRITING"
      and same: "\<forall>a. outside_slot g (unat (so_slot (ss_operation s))) a \<longrightarrow> flash d' a = flash d a"
      and candidate: "nvs d' \<noteq> nvs d \<longrightarrow> candidate_intact sha256 (flash d') g s"
    have bindings: "\<forall>b \<in> set (ss_bindings s). binding_intact sha256 (flash d') g b"
      using prepare_packages_intact [OF geometry storedD [OF s] phase _ safeD [OF safe s]] same by blast
    from durable show ?thesis
    proof (cases rule: durable_cases)
      case same
      have "state_packages_intact sha256 (flash d') g s"
        using bindings phase by (simp add: state_packages_intact_def)
      with stored_same [OF same s] show ?thesis by (rule safeI)
    next
      case (step s' t)
      have "s' = s" using step(1) s by (rule stored_unique)
      then obtain u where "slot_move g EV_PREPARE s u" and t: "t = numbered s u"
        using step(2) by (auto simp: slot_step_def)
      then have u: "u = s\<lparr>ss_phase := SLOT_PREPARED\<rparr>" by (cases rule: slot_move.cases) simp
      have "candidate_intact sha256 (flash d') g s"
      proof (cases "nvs d' = nvs d")
        case True
        then have "t = s" using stored_same [OF _ s] step(3) by (intro stored_unique)
        moreover have "ss_phase t = SLOT_PREPARED" using t u by simp
        ultimately show ?thesis using phase by simp
      qed (use candidate in blast)
      then have "state_packages_intact sha256 (flash d') g t"
        using bindings t u by (simp add: state_packages_intact_def candidate_intact_def)
      with step(3) show ?thesis by (rule safeI)
    qed
  qed
qed

text \<open>The first record is written only over an empty store, and only for packages that are intact.\<close>

lemma initialize_outcome:
  assumes bindings: "length bindings = SLOT_BINDING_COUNT" "list_all binding_shape bindings"
    and run: "initialize_locked io psa g f bindings d = (r, d')"
  shows "flash d' = flash d \<and> held d' = held d \<and>
    (nvs d' = nvs d \<or> nvs d = None \<and> stored nvs g d' (initial_state bindings) \<and>
       firmware_set_matches (initial_state bindings) f \<and>
       (\<forall>b \<in> set bindings. binding_intact sha256 (flash d) g b)) \<and>
    (\<forall>s. r = Inr s \<longrightarrow> s = initial_state bindings \<and> nvs d = None \<and>
       stored nvs g d' (initial_state bindings) \<and>
       (\<forall>b \<in> set bindings. binding_intact sha256 (flash d) g b))"
proof -
  let ?s = "initial_state bindings"
  obtain q d1 where load: "load_locked io g d = (q, d1)" by fastforce
  note v1 = viewD [OF load_locked_keeps load]
  show ?thesis
  proof (cases "q = Inl SLOTS_EMPTY \<and> state_valid ?s g \<and> firmware_set_matches ?s f")
    case False
    then show ?thesis
      using run load v1 by (auto simp: initialize_locked_def Let_def split: sum.splits if_splits)
  next
    case True
    have empty: "nvs d = None" using True load load_locked_EMPTY by blast
    have shape: "state_shape ?s"
      using bindings by (simp add: state_shape_def initial_state_def zero_state_def zero_operation_def
          operation_shape_def)
    from True run load have "bindE (check_references io psa g ?s False)
        (\<lambda>_. persist_locked io None ?s) d1 = (r, d')"
      by (simp add: initialize_locked_def Let_def)
    then show ?thesis
    proof (cases rule: bindE_cases)
      case failed
      then show ?thesis using v1 viewD [OF check_references_keeps failed(1)] by auto
    next
      case (ok u d2)
      note v2 = viewD [OF check_references_keeps ok(1)] and outcome = persist_locked_outcome [OF ok(2)]
      have intact: "\<forall>b \<in> set bindings. binding_intact sha256 (flash d) g b"
        using check_references_intact(1) [OF ok(1)] v1 by (simp add: initial_state_def)
      have frame: "flash d' = flash d" "held d' = held d"
        using keepsD [OF persist_locked_frame ok(2)] v1 v2 by simp_all
      have saved: "stored nvs g d' ?s" if "nvs d' = Some (encode_state ?s)"
        using that shape True by (intro stored_encode) simp_all
      show ?thesis
        using frame intact empty saved True outcome(1,2) v1 v2 by auto
    qed
  qed
qed

lemma initialize_safe:
  assumes bindings: "length bindings = SLOT_BINDING_COUNT" "list_all binding_shape bindings"
    and run: "initialize_locked io psa g f bindings d = (r, d')" and safe: "safe g d"
  shows "safe g d'"
proof -
  note outcome = initialize_outcome [OF bindings run]
  show ?thesis
  proof (cases "nvs d' = nvs d")
    case True
    then show ?thesis using outcome safe by (auto intro: safe_same)
  next
    case False
    then have "state_packages_intact sha256 (flash d') g (initial_state bindings)"
      using outcome by (auto simp: state_packages_intact_def initial_state_def zero_state_def)
    then show ?thesis using outcome False by (auto intro: safeI)
  qed
qed

text \<open>The lock around a body.\<close>

lemma with_lock_cases:
  assumes "with_lock io state body d = ((res, st), d')"
  obtains (busy) "res = SLOTS_BUSY" "st = state" "device_view flash nvs held d' = device_view flash nvs held d"
    | (ran) d1 r d2 where "\<not> held d" "held d1" "flash d1 = flash d" "nvs d1 = nvs d" "body d1 = (r, d2)"
        "(res, st) = report state r" "flash d' = flash d2" "nvs d' = nvs d2" "\<not> held d'"
proof -
  obtain ok d1 where l: "io_lock io d = (ok, d1)" by fastforce
  obtain r d2 where b: "body d1 = (r, d2)" by fastforce
  show thesis
  proof (cases ok)
    case True
    with assms l b lock_taken [of d d1] unlock [of d2] show ?thesis
      by (intro ran [of d1 r d2]) (auto simp: with_lock_def)
  next
    case False
    with assms l lock_refused [of d d1] show ?thesis
      by (intro busy) (auto simp: with_lock_def)
  qed
qed

lemma with_lock_safe:
  assumes run: "with_lock io state body d = (out, d')"
    and body: "\<And>d1 r d2. body d1 = (r, d2) \<Longrightarrow> safe g d1 \<Longrightarrow> safe g d2"
    and safe: "safe g d"
  shows "safe g d'"
proof -
  obtain res st where "with_lock io state body d = ((res, st), d')" using run by (cases out) simp
  then show ?thesis
  proof (cases rule: with_lock_cases)
    case busy
    then show ?thesis using safe by (auto simp: device_view_def intro: safe_same)
  next
    case (ran d1 r d2)
    then have "safe g d1" using safe by (blast intro: safe_same)
    then show ?thesis using body ran by (blast intro: safe_same)
  qed
qed

end

end
