(* ===== verification/Slots_Reach.thy ===== *)
theory Slots_Reach
  imports Slots_Safety
begin

text \<open>
  Runs of the slot store: \<open>api_call\<close> is one call of the public interface, and
  \<open>slots_run\<close> any sequence of them with reboots in between.  The lemmas say what every call
  does to the storage.
\<close>

text \<open>
  One call with any arguments of the C types: a fixed-size array argument has its length, a
  callback leaves the slot storage alone, and a pointer may be NULL.
\<close>

inductive api_call :: "'d slots_io \<Rightarrow> ('d, 'h) psa_api \<Rightarrow> slots_geometry \<Rightarrow> ('d \<Rightarrow> nat \<Rightarrow> byte) \<Rightarrow>
    ('d \<Rightarrow> bytes option) \<Rightarrow> ('d \<Rightarrow> bool) \<Rightarrow> 'd \<Rightarrow> 'd \<Rightarrow> bool"
  for io psa g flash nvs held where
  call_initialize:
    "slots_initialize (Some (io_ptrs io)) psa (Some g) f bindings d = (r, d') \<Longrightarrow>
     pred_option (\<lambda>bs. length bs = SLOT_BINDING_COUNT \<and> list_all binding_shape bs) bindings \<Longrightarrow>
     api_call io psa g flash nvs held d d'"
| call_load:
    "slots_load (Some (io_ptrs io)) (Some g) state d = (r, d') \<Longrightarrow>
     api_call io psa g flash nvs held d d'"
| call_reconcile:
    "slots_reconcile (Some (io_ptrs io)) psa (Some g) f state decision d = (r, d') \<Longrightarrow>
     api_call io psa g flash nvs held d d'"
| call_reserve:
    "slots_reserve (Some (io_ptrs io)) psa (Some g) n f operation state d = (r, d') \<Longrightarrow>
     pred_option operation_shape operation \<Longrightarrow>
     api_call io psa g flash nvs held d d'"
| call_write_and_prepare:
    "slots_write_and_prepare (Some (io_ptrs io)) psa (Some g) n source_fn validate_fn state d = (r, d') \<Longrightarrow>
     pred_option (quiet_source (device_view flash nvs held)) source_fn \<Longrightarrow>
     pred_option (quiet_validator (device_view flash nvs held)) validate_fn \<Longrightarrow>
     api_call io psa g flash nvs held d d'"
| call_begin_trial:
    "slots_begin_trial (Some (io_ptrs io)) psa (Some g) n running boot_id state d = (r, d') \<Longrightarrow>
     pred_option (\<lambda>b. length b = 16) boot_id \<Longrightarrow>
     api_call io psa g flash nvs held d d'"
| call_mark_healthy:
    "slots_mark_healthy (Some (io_ptrs io)) psa (Some g) n boot_id state d = (r, d') \<Longrightarrow>
     api_call io psa g flash nvs held d d'"
| call_confirm:
    "slots_confirm (Some (io_ptrs io)) psa (Some g) n running boot_id state d = (r, d') \<Longrightarrow>
     api_call io psa g flash nvs held d d'"
| call_abandon:
    "slots_abandon (Some (io_ptrs io)) psa (Some g) n boot_id stop_fn state d = (r, d') \<Longrightarrow>
     quiet_stop (device_view flash nvs held) stop_fn \<Longrightarrow>
     api_call io psa g flash nvs held d d'"

text \<open>
  Between two calls anything may happen that keeps Flash and the record, a reboot among it,
  which says nothing of the lock.
\<close>

definition slots_call :: "'d slots_io \<Rightarrow> ('d, 'h) psa_api \<Rightarrow> slots_geometry \<Rightarrow> ('d \<Rightarrow> nat \<Rightarrow> byte) \<Rightarrow>
    ('d \<Rightarrow> bytes option) \<Rightarrow> ('d \<Rightarrow> bool) \<Rightarrow> 'd \<Rightarrow> 'd \<Rightarrow> bool" where
  "slots_call io psa g flash nvs held d d' \<longleftrightarrow>
     api_call io psa g flash nvs held d d' \<or> flash d' = flash d \<and> nvs d' = nvs d"

abbreviation slots_run where
  "slots_run io psa g flash nvs held \<equiv> (slots_call io psa g flash nvs held)\<^sup>*\<^sup>*"

text \<open>
  How a call may change the storage: not at all, one step of the machine, or the first record.
\<close>

definition record_change :: "('d \<Rightarrow> bytes option) \<Rightarrow> slots_geometry \<Rightarrow> 'd \<Rightarrow> 'd \<Rightarrow> bool" where
  "record_change nvs g d d' \<longleftrightarrow> nvs d' = nvs d \<or>
     (\<exists>ev s t. stored nvs g d s \<and> slot_step g ev s t \<and> stored nvs g d' t) \<or>
     (nvs d = None \<and> (\<exists>bindings. stored nvs g d' (initial_state bindings)))"

context slot_env
begin

lemma reconcile_locked_keeps: "keeps (device_view flash nvs held) (reconcile_locked io psa g f)"
proof (rule keepsI)
  fix d r d' assume run: "reconcile_locked io psa g f d = (r, d')"
  let ?m = "bindE (load_locked io g) (\<lambda>s. bindE (guardE (firmware_set_matches s f) SLOTS_CONFLICT)
      (\<lambda>_. bindE (check_references io psa g s False) (\<lambda>_. retE s)))"
  have keep: "keeps (device_view flash nvs held) ?m" by (intro frame_intros)
  obtain q d1 where m: "?m d = (q, d1)" by fastforce
  have "device_view flash nvs held d' = device_view flash nvs held d1"
    using run m keepsD [OF hash_candidate_keeps]
    by (auto simp: reconcile_locked_def split: sum.splits if_splits prod.splits)
  then show "device_view flash nvs held d' = device_view flash nvs held d"
    using keepsD [OF keep m] by simp
qed

text \<open>A call runs nothing, or one body with the lock held, or is a reconcile.\<close>

lemma reconcile_view:
  assumes "slots_reconcile (Some (io_ptrs io)) psa geometry f state decision d = (r, d')"
  shows "flash d' = flash d" and "nvs d' = nvs d" and "held d \<Longrightarrow> held d'" and "\<not> held d \<Longrightarrow> \<not> held d'"
proof -
  have "flash d' = flash d \<and> nvs d' = nvs d \<and> held d' = held d"
  proof (cases "io_valid (Some (io_ptrs io)) \<and> geometry_valid geometry \<and> firmware_set_valid f \<and>
      state \<noteq> None \<and> decision \<noteq> None")
    case False
    then show ?thesis using assms by (auto simp: slots_reconcile_def Let_def)
  next
    case True
    obtain ok d1 where l: "io_lock io d = (ok, d1)" by fastforce
    obtain q d2 where b: "reconcile_locked io psa (the geometry) (the f) d1 = (q, d2)" by fastforce
    note v = viewD [OF reconcile_locked_keeps b]
    have "d' = (if ok then io_unlock io d2 else d1)"
      using assms True l b by (auto simp: slots_reconcile_def Let_def split: prod.splits)
    then show ?thesis
      using l lock_taken [of d d1] lock_refused [of d d1] unlock [of d2] v
      by (cases ok) (auto simp: device_view_def)
  qed
  then show "flash d' = flash d" "nvs d' = nvs d" "held d \<Longrightarrow> held d'" "\<not> held d \<Longrightarrow> \<not> held d'"
    by simp_all
qed

inductive body_run :: "slots_geometry \<Rightarrow> 'd \<Rightarrow> 'd \<Rightarrow> bool" for g d d' where
  run_load: "load_locked io g d = (r, d') \<Longrightarrow> body_run g d d'"
| run_initialize: "initialize_locked io psa g f bindings d = (r, d') \<Longrightarrow>
     length bindings = SLOT_BINDING_COUNT \<Longrightarrow> list_all binding_shape bindings \<Longrightarrow> body_run g d d'"
| run_reserve: "reserve_locked io psa g n f p d = (r, d') \<Longrightarrow> operation_requestable f p \<Longrightarrow>
     body_run g d d'"
| run_prepare: "write_and_prepare_locked io psa g n source_fn validate_fn d = (r, d') \<Longrightarrow>
     quiet_source (device_view flash nvs held) source_fn \<Longrightarrow>
     quiet_validator (device_view flash nvs held) validate_fn \<Longrightarrow> body_run g d d'"
| run_begin_trial: "begin_trial_locked io psa g n running boot_id d = (r, d') \<Longrightarrow>
     length boot_id = 16 \<Longrightarrow> \<not> all_zero boot_id \<Longrightarrow> body_run g d d'"
| run_mark_healthy: "mark_healthy_locked io psa g n boot_id d = (r, d') \<Longrightarrow> body_run g d d'"
| run_confirm: "confirm_locked io psa g n running boot_id d = (r, d') \<Longrightarrow> body_run g d d'"
| run_abandon: "abandon_locked io psa g n boot_id stop_fn d = (r, d') \<Longrightarrow>
     quiet_stop (device_view flash nvs held) stop_fn \<Longrightarrow> body_run g d d'"

lemma body_safe:
  assumes geometry: "geometry_valid (Some g)" and body: "body_run g d d'" and safe: "safe g d"
  shows "safe g d'"
  using body
proof (cases rule: body_run.cases)
  case (run_load r)
  then show ?thesis using viewD [OF load_locked_keeps] safe_same [OF _ _ safe] by blast
qed (use initialize_safe [OF _ _ _ safe] prepare_safe [OF geometry _ _ _ safe] in
  \<open>blast intro: durable_safe [OF reserve_durable _ _ safe] durable_safe [OF begin_trial_durable _ _ safe]
      durable_safe [OF mark_healthy_durable _ _ safe] durable_safe [OF confirm_durable _ _ safe]
      durable_safe [OF abandon_durable _ _ safe]
    dest: keepsD [OF reserve_frame] keepsD [OF begin_trial_frame] keepsD [OF mark_healthy_frame]
      keepsD [OF confirm_frame] keepsD [OF abandon_frame]\<close>)+

lemma durable_change: "durable_outcome nvs g ev d d' r \<Longrightarrow> record_change nvs g d d'"
  by (erule durable_cases) (auto simp: record_change_def)

lemma body_change:
  assumes geometry: "geometry_valid (Some g)" and body: "body_run g d d'"
  shows "record_change nvs g d d'"
  using body
proof (cases rule: body_run.cases)
  case (run_load r)
  then show ?thesis using viewD(2) [OF load_locked_keeps] by (auto simp: record_change_def)
next
  case (run_initialize f bindings r)
  then show ?thesis using initialize_outcome [of bindings g f d r d'] by (auto simp: record_change_def)
qed (blast intro: durable_change reserve_durable prepare_durable [OF geometry] begin_trial_durable
    mark_healthy_durable confirm_durable abandon_durable)+

lemma body_held:
  assumes geometry: "geometry_valid (Some g)" and body: "body_run g d d'"
  shows "held d' = held d"
  using body
proof (cases rule: body_run.cases)
  case (run_load r)
  then show ?thesis by (intro viewD [OF load_locked_keeps])
next
  case (run_initialize f bindings r)
  then show ?thesis using initialize_outcome [of bindings g f d r d'] by auto
next
  case (run_prepare n source_fn validate_fn r)
  then show ?thesis using prepare_flash [OF geometry] by blast
qed (auto dest!: keepsD [OF reserve_frame] keepsD [OF begin_trial_frame] keepsD [OF mark_healthy_frame]
    keepsD [OF confirm_frame] keepsD [OF abandon_frame])

text \<open>
  Every call of the interface: it changes nothing that is stored and leaves the lock as it
  was, or it found the lock free, ran one body and released it.
\<close>

definition call_effect :: "slots_geometry \<Rightarrow> 'd \<Rightarrow> 'd \<Rightarrow> bool" where
  "call_effect g d d' \<longleftrightarrow> device_view flash nvs held d' = device_view flash nvs held d \<or>
     (\<exists>d1 d2. \<not> held d \<and> flash d1 = flash d \<and> nvs d1 = nvs d \<and> body_run g d1 d2 \<and>
        flash d' = flash d2 \<and> nvs d' = nvs d2 \<and> \<not> held d')"

lemma with_lock_effect:
  assumes "with_lock io state body d = (out, d')" and "\<And>d1 r d2. body d1 = (r, d2) \<Longrightarrow> body_run g d1 d2"
  shows "call_effect g d d'"
proof -
  obtain res st where "with_lock io state body d = ((res, st), d')" using assms(1) by (cases out) simp
  then show ?thesis
  proof (cases rule: with_lock_cases)
    case busy
    then show ?thesis by (simp add: call_effect_def)
  next
    case (ran d1 r d2)
    then show ?thesis using assms(2) [OF ran(5)] by (auto simp: call_effect_def)
  qed
qed

lemma call_effectI:
  assumes "(if bad then (out0, d) else with_lock io state body d) = (out, d')"
    and "\<And>d1 r d2. \<not> bad \<Longrightarrow> body d1 = (r, d2) \<Longrightarrow> body_run g d1 d2"
  shows "call_effect g d d'"
proof (cases bad)
  case True
  with assms(1) show ?thesis by (simp add: call_effect_def)
next
  case False
  with assms(1) have "with_lock io state body d = (out, d')" by simp
  then show ?thesis using assms(2) [OF False] by (rule with_lock_effect)
qed

lemma reserve_requestable:
  assumes "firmware_set_valid (Some f)" and "operation_shape p"
    and "\<not> all_zero (so_operation_id p)" and "\<not> all_zero (so_package_sha256 p)"
    and "so_target_firmware_sha256 p = running_firmware_sha256 f" and "so_slot p = 0"
    and "so_package_size_bytes p \<noteq> 0" and "so_guest_abi_version p \<noteq> 0"
    and "so_data_schema_version p \<noteq> 0" and "all_zero (so_trial_boot_id p)"
  shows "operation_requestable f p"
  using assms firmware_set_running by (simp add: operation_requestable_def)

lemma initialize_effect:
  assumes "slots_initialize (Some (io_ptrs io)) psa (Some g) f bindings d = (r, d')"
    and "pred_option (\<lambda>bs. length bs = SLOT_BINDING_COUNT \<and> list_all binding_shape bs) bindings"
  shows "call_effect g d d'"
proof (cases "\<not> geometry_valid (Some g) \<or> \<not> firmware_set_valid f \<or> bindings = None")
  case True
  then have "d' = d" using assms(1) by (auto simp: slots_initialize_def)
  then show ?thesis by (simp add: call_effect_def)
next
  case False
  then obtain bs where bs: "bindings = Some bs" by auto
  let ?body = "initialize_locked io psa g (the f) bs"
  obtain out where "with_lock io None ?body d = (out, d')"
    using assms(1) False bs by (auto simp: slots_initialize_def split: prod.splits)
  then show ?thesis
    by (rule with_lock_effect) (use assms(2) bs in \<open>auto intro: body_run.intros\<close>)
qed

lemma load_effect:
  "slots_load (Some (io_ptrs io)) (Some g) state d = (out, d') \<Longrightarrow> call_effect g d d'"
  unfolding slots_load_def io_calls_ptrs option.sel
  by (erule call_effectI) (auto intro: body_run.intros)

lemma reserve_effect:
  assumes "slots_reserve (Some (io_ptrs io)) psa (Some g) n f operation state d = (out, d')"
    and "pred_option operation_shape operation"
  shows "call_effect g d d'"
  using assms(1) unfolding slots_reserve_def io_calls_ptrs option.sel
proof (rule call_effectI)
  fix d1 r d2
  let ?p = "the operation" and ?f = "the f"
  assume args: "\<not> (\<not> io_valid (Some (io_ptrs io)) \<or> \<not> geometry_valid (Some g) \<or> \<not> firmware_set_valid f \<or>
      operation = None \<or> state = None \<or> all_zero (so_operation_id ?p) \<or> all_zero (so_package_sha256 ?p) \<or>
      so_target_firmware_sha256 ?p \<noteq> running_firmware_sha256 ?f \<or> so_slot ?p \<noteq> 0 \<or>
      so_package_size_bytes ?p = 0 \<or> so_guest_abi_version ?p = 0 \<or> so_data_schema_version ?p = 0 \<or>
      \<not> all_zero (so_trial_boot_id ?p))"
    and run: "reserve_locked io psa g n ?f ?p d1 = (r, d2)"
  have "firmware_set_valid (Some ?f)"
    using args by (cases f) (auto simp: firmware_set_valid_def)
  then have "operation_requestable ?f ?p"
    using args assms(2) by (intro reserve_requestable) auto
  with run show "body_run g d1 d2" by (rule run_reserve)
qed

lemma prepare_effect:
  assumes "slots_write_and_prepare (Some (io_ptrs io)) psa (Some g) n source_fn validate_fn state d = (out, d')"
    and "pred_option (quiet_source (device_view flash nvs held)) source_fn"
    and "pred_option (quiet_validator (device_view flash nvs held)) validate_fn"
  shows "call_effect g d d'"
  using assms(1) unfolding slots_write_and_prepare_def io_calls_ptrs option.sel
proof (rule call_effectI)
  fix d1 r d2
  assume args: "\<not> (\<not> io_valid (Some (io_ptrs io)) \<or> \<not> geometry_valid (Some g) \<or> source_fn = None \<or>
      validate_fn = None \<or> state = None)"
    and run: "write_and_prepare_locked io psa g n (the source_fn) (the validate_fn) d1 = (r, d2)"
  then have "quiet_source (device_view flash nvs held) (the source_fn)"
    "quiet_validator (device_view flash nvs held) (the validate_fn)"
    using assms(2,3) by auto
  with run show "body_run g d1 d2" by (rule run_prepare)
qed

lemma begin_trial_effect:
  assumes "slots_begin_trial (Some (io_ptrs io)) psa (Some g) n running boot_id state d = (out, d')"
    and "pred_option (\<lambda>b. length b = 16) boot_id"
  shows "call_effect g d d'"
  using assms(1) unfolding slots_begin_trial_def io_calls_ptrs option.sel
  by (rule call_effectI) (use assms(2) in \<open>auto intro: body_run.intros\<close>)

lemma mark_healthy_effect:
  "slots_mark_healthy (Some (io_ptrs io)) psa (Some g) n boot_id state d = (out, d') \<Longrightarrow> call_effect g d d'"
  unfolding slots_mark_healthy_def io_calls_ptrs option.sel
  by (erule call_effectI) (auto intro: body_run.intros)

lemma confirm_effect:
  "slots_confirm (Some (io_ptrs io)) psa (Some g) n running boot_id state d = (out, d') \<Longrightarrow> call_effect g d d'"
  unfolding slots_confirm_def io_calls_ptrs option.sel
  by (erule call_effectI) (auto intro: body_run.intros)

lemma abandon_effect:
  "slots_abandon (Some (io_ptrs io)) psa (Some g) n boot_id stop_fn state d = (out, d') \<Longrightarrow>
     quiet_stop (device_view flash nvs held) stop_fn \<Longrightarrow> call_effect g d d'"
  unfolding slots_abandon_def io_calls_ptrs option.sel
  by (erule call_effectI) (auto intro: body_run.intros)

lemma api_call_effect:
  assumes geometry: "geometry_valid (Some g)" and call: "api_call io psa g flash nvs held d d'"
  shows "call_effect g d d'"
  using call
proof (cases rule: api_call.cases)
  case (call_reconcile f state decision r)
  then show ?thesis using reconcile_view [OF call_reconcile] by (auto simp: call_effect_def device_view_def)
qed (blast intro: initialize_effect load_effect reserve_effect prepare_effect begin_trial_effect
    mark_healthy_effect confirm_effect abandon_effect)+

text \<open>A call that finds the lock taken changes nothing; one that finds it free leaves it free.\<close>

lemma api_call_lock:
  assumes "geometry_valid (Some g)" and "api_call io psa g flash nvs held d d'"
  shows "held d' = held d" and "held d \<Longrightarrow> flash d' = flash d \<and> nvs d' = nvs d"
  using api_call_effect [OF assms] by (auto simp: call_effect_def device_view_def)

lemma slots_call_effect:
  assumes "geometry_valid (Some g)" and "slots_call io psa g flash nvs held d d'"
  shows "call_effect g d d' \<or> flash d' = flash d \<and> nvs d' = nvs d"
  using assms api_call_effect by (auto simp: slots_call_def)

lemma slots_call_safe:
  assumes geometry: "geometry_valid (Some g)" and call: "slots_call io psa g flash nvs held d d'"
    and safe: "safe g d"
  shows "safe g d'"
proof -
  consider "flash d' = flash d" "nvs d' = nvs d"
    | d1 d2 where "flash d1 = flash d" "nvs d1 = nvs d" "body_run g d1 d2" "flash d' = flash d2" "nvs d' = nvs d2"
    using slots_call_effect [OF geometry call] by (auto simp: call_effect_def device_view_def)
  then show ?thesis
  proof cases
    case 1
    then show ?thesis using safe by (blast intro: safe_same)
  next
    case 2
    then show ?thesis using safe body_safe [OF geometry] by (blast intro: safe_same)
  qed
qed

lemma slots_call_change:
  assumes geometry: "geometry_valid (Some g)" and call: "slots_call io psa g flash nvs held d d'"
  shows "record_change nvs g d d'"
proof -
  consider "nvs d' = nvs d" | d1 d2 where "nvs d1 = nvs d" "body_run g d1 d2" "nvs d' = nvs d2"
    using slots_call_effect [OF geometry call] by (auto simp: call_effect_def device_view_def)
  then show ?thesis
  proof cases
    case 1
    then show ?thesis by (simp add: record_change_def)
  next
    case 2
    then show ?thesis
      using body_change [OF geometry 2(2)] by (simp add: record_change_def stored_def)
  qed
qed

lemma slots_run_safe:
  assumes "geometry_valid (Some g)" and "slots_run io psa g flash nvs held d d'" and "safe g d"
  shows "safe g d'"
  using assms(2,3) by (induction rule: rtranclp_induct) (auto intro: slots_call_safe [OF assms(1)])

end

text \<open>A step numbers the record: the sequence of a later record is larger.\<close>

lemma slot_step_sequence: "slot_step g ev s t \<Longrightarrow> unat (ss_sequence t) = unat (ss_sequence s) + 1"
proof -
  assume step: "slot_step g ev s t"
  then have t: "ss_sequence t = ss_sequence s + 1" and room: "ss_sequence s \<noteq> 0xFFFFFFFF"
    by (auto simp: slot_step_def)
  then have "ss_sequence s + 1 \<noteq> 0" using u32_succ_nonzero by blast
  then show ?thesis unfolding t by (simp add: unatSuc add.commute)
qed

context slot_env
begin

lemma slots_run_record:
  assumes geometry: "geometry_valid (Some g)" and run: "slots_run io psa g flash nvs held d d'"
    and s: "stored nvs g d s"
  shows "\<exists>t. stored nvs g d' t \<and> (\<lambda>s t. \<exists>ev. slot_step g ev s t)\<^sup>*\<^sup>* s t"
  using run
proof (induction rule: rtranclp_induct)
  case base
  then show ?case using s by blast
next
  case (step d1 d2)
  then obtain t where t: "stored nvs g d1 t" "(\<lambda>s t. \<exists>ev. slot_step g ev s t)\<^sup>*\<^sup>* s t" by blast
  from slots_call_change [OF geometry step(2)] show ?case
    unfolding record_change_def
  proof (elim disjE exE conjE)
    assume "nvs d2 = nvs d1"
    then have "stored nvs g d2 t" using t(1) by (rule stored_same)
    then show ?case using t(2) by blast
  next
    fix ev s' t' assume "stored nvs g d1 s'" "slot_step g ev s' t'" "stored nvs g d2 t'"
    moreover from this t(1) have "s' = t" by (blast intro: stored_unique)
    ultimately have "(\<lambda>s t. \<exists>ev. slot_step g ev s t)\<^sup>*\<^sup>* s t'"
      using t(2) by (blast intro: rtranclp.rtrancl_into_rtrancl)
    with \<open>stored nvs g d2 t'\<close> show ?case by blast
  next
    assume "nvs d1 = None"
    then show ?case using t(1) by (simp add: stored_def)
  qed
qed

end

lemma slot_steps_sequence:
  "(\<lambda>s t. \<exists>ev. slot_step g ev s t)\<^sup>*\<^sup>* s t \<Longrightarrow>
     ss_sequence s \<le> ss_sequence t \<and> (ss_sequence s = ss_sequence t \<longrightarrow> s = t)"
proof (induction rule: rtranclp_induct)
  case base
  then show ?case by simp
next
  case (step t u)
  then have "unat (ss_sequence u) = unat (ss_sequence t) + 1" by (blast dest: slot_step_sequence)
  with step.IH show ?case by (auto simp: word_le_nat_alt)
qed

end
