(* ===== verification/Slots_Idf.thy ===== *)
theory Slots_Idf
  imports Slots_Reach
begin

text \<open>
  The ESP-IDF provider of the slot store (\<open>slots_idf.c\<close>): binding to the partition table and
  the seven callbacks over the partition, NVS and semaphore calls of ESP-IDF.

  ESP-IDF is not part of the repository.  Its calls are the record \<open>esp_api\<close>, a parameter, and
  the locale \<open>esp_platform\<close> states their documented behaviour: a partition call touches the
  bytes it names, an NVS blob is replaced as a whole, a semaphore is taken by one owner.  Any
  call may fail.  From this contract the theory derives that the provider's callbacks satisfy
  the contract \<open>slot_device\<close> the slot store relies on.
\<close>

subsection \<open>Partitions, configuration, provider\<close>

text \<open>\<open>part_id\<close> is the identity of the partition-table entry, which the C code compares by pointer.\<close>

record esp_partition =
  part_id :: nat
  part_address :: u32
  part_size :: u32
  part_erase_size :: u32
  part_encrypted :: bool
  part_readonly :: bool

datatype partition_subtype = SUBTYPE_DATA_UNDEFINED | SUBTYPE_DATA_NVS

record 's slots_idf_config =
  package_partition_label :: "string option"
  package_partition_offset_bytes :: u32
  package_partition_size_bytes :: u32
  config_slots :: "slot_region list"
  nvs_partition_label :: "string option"
  nvs_partition_offset_bytes :: u32
  nvs_partition_size_bytes :: u32
  nvs_namespace :: "string option"
  nvs_key :: "string option"
  config_storage_lock :: "'s option"

record 's slots_idf_provider =
  pv_geometry :: slots_geometry
  pv_partition :: esp_partition
  pv_storage_lock :: 's
  pv_nvs_partition_label :: string
  pv_nvs_namespace :: string
  pv_nvs_key :: string

text \<open>
  A C string is a list of characters; it ends at its first NUL or, the list being all there is,
  after its last character, where the terminator reads as 0.  \<open>c_string\<close> is what
  \<open>memcpy(dst, src, strlen(src) + 1)\<close> copies.
\<close>

definition char_code :: "string \<Rightarrow> nat \<Rightarrow> nat" where
  "char_code value index = (if index < length value then of_char (value ! index) else 0)"

definition c_string :: "string \<Rightarrow> string" where
  "c_string value = takeWhile (\<lambda>c. c \<noteq> CHR 0x00) value"

definition name_start :: "nat \<Rightarrow> bool" where
  "name_start character \<longleftrightarrow> of_char (CHR ''a'') \<le> character \<and> character \<le> of_char (CHR ''z'')"

definition name_character :: "nat \<Rightarrow> bool" where
  "name_character character \<longleftrightarrow> name_start character \<or>
     of_char (CHR ''0'') \<le> character \<and> character \<le> of_char (CHR ''9'') \<or>
     character = of_char (CHR ''_'')"

fun name_valid_from :: "string \<Rightarrow> nat list \<Rightarrow> bool" where
  "name_valid_from value [] = False"
| "name_valid_from value (index # rest) =
    (if char_code value index = 0 then True
     else if \<not> name_character (char_code value index) then False
     else name_valid_from value rest)"

definition name_valid :: "string option \<Rightarrow> bool" where
  "name_valid value = (case value of None \<Rightarrow> False
     | Some cs \<Rightarrow> name_start (char_code cs 0) \<and> name_valid_from cs [1..<16])"

definition partitions_overlap :: "esp_partition \<Rightarrow> esp_partition \<Rightarrow> bool" where
  "partitions_overlap p q \<longleftrightarrow>
     (ucast (part_address p) :: u64) < ucast (part_address q) + ucast (part_size q) \<and>
     (ucast (part_address q) :: u64) < ucast (part_address p) + ucast (part_size p)"

definition bound_geometry :: "esp_partition \<Rightarrow> slot_region list \<Rightarrow> slots_geometry" where
  "bound_geometry package slots = \<lparr>partition_offset_bytes = part_address package,
     partition_size_bytes = part_size package, erase_unit_bytes = part_erase_size package,
     write_unit_bytes = (if part_encrypted package then 16 else 4), geometry_slots = slots\<rparr>"

text \<open>\<open>None\<close> is the result false, with the provider left zeroed.\<close>

definition slots_idf_bind :: "(partition_subtype \<Rightarrow> string \<Rightarrow> esp_partition option) \<Rightarrow>
    's slots_idf_config option \<Rightarrow> 's slots_idf_provider option" where
  "slots_idf_bind find_first config =
    (case config of None \<Rightarrow> None | Some c \<Rightarrow>
     if config_storage_lock c = None \<or> \<not> name_valid (package_partition_label c) \<or>
        \<not> name_valid (nvs_partition_label c) \<or> \<not> name_valid (nvs_namespace c) \<or>
        \<not> name_valid (nvs_key c) \<or> package_partition_offset_bytes c = 0 \<or>
        package_partition_size_bytes c = 0 \<or> nvs_partition_size_bytes c = 0
     then None
     else case (find_first SUBTYPE_DATA_UNDEFINED (the (package_partition_label c)),
                find_first SUBTYPE_DATA_NVS (the (nvs_partition_label c))) of
       (Some package, Some nvs) \<Rightarrow>
         if part_id package = part_id nvs \<or> part_readonly package \<or> part_readonly nvs \<or>
            part_address package \<noteq> package_partition_offset_bytes c \<or>
            part_size package \<noteq> package_partition_size_bytes c \<or>
            part_address nvs \<noteq> nvs_partition_offset_bytes c \<or>
            part_size nvs \<noteq> nvs_partition_size_bytes c \<or>
            partitions_overlap package nvs \<or> part_erase_size package = 0
         then None
         else let geometry = bound_geometry package (config_slots c) in
           if \<not> geometry_valid (Some geometry) then None
           else Some \<lparr>pv_geometry = geometry, pv_partition = package,
                  pv_storage_lock = the (config_storage_lock c),
                  pv_nvs_partition_label = c_string (the (nvs_partition_label c)),
                  pv_nvs_namespace = c_string (the (nvs_namespace c)),
                  pv_nvs_key = c_string (the (nvs_key c))\<rparr>
     | _ \<Rightarrow> None)"

lemma name_valid_from_ends: "name_valid_from value indices \<Longrightarrow> \<exists>j \<in> set indices. char_code value j = 0"
  by (induction indices) (auto split: if_splits)

lemma char_code_end: "char_code value j = 0 \<Longrightarrow> length (c_string value) \<le> j"
proof (cases "j < length value")
  case True
  assume "char_code value j = 0"
  with True have "of_char (value ! j) = (0 :: nat)" by (simp add: char_code_def)
  moreover have "of_char (CHR 0x00) = (0 :: nat)" by simp
  ultimately have "of_char (value ! j) = (of_char (CHR 0x00) :: nat)" by (simp only:)
  then have nul: "value ! j = CHR 0x00" by (simp only: of_char_eq_iff)
  show ?thesis
  proof (rule ccontr)
    assume "\<not> length (c_string value) \<le> j"
    then have j: "j < length (c_string value)" by simp
    have "c_string value ! j \<noteq> CHR 0x00"
      using nth_mem [OF j] by (auto simp: c_string_def dest: set_takeWhileD)
    then show False using nul j by (simp add: c_string_def takeWhile_nth)
  qed
next
  case False
  then show ?thesis using length_takeWhile_le [of "\<lambda>c. c \<noteq> CHR 0x00" "value"] by (simp add: c_string_def)
qed

lemma name_valid_length: "name_valid (Some value) \<Longrightarrow> length (c_string value) \<le> 15"
  by (auto simp: name_valid_def dest!: name_valid_from_ends char_code_end)

lemma slots_idf_bind_checks:
  assumes "slots_idf_bind find_first (Some c) = Some p"
  shows "geometry_valid (Some (pv_geometry p)) \<and> geometry_slots (pv_geometry p) = config_slots c \<and>
    part_address (pv_partition p) = package_partition_offset_bytes c \<and>
    part_size (pv_partition p) = package_partition_size_bytes c \<and>
    \<not> part_readonly (pv_partition p) \<and>
    partition_offset_bytes (pv_geometry p) = part_address (pv_partition p) \<and>
    partition_size_bytes (pv_geometry p) = part_size (pv_partition p) \<and>
    (\<exists>nvs. find_first SUBTYPE_DATA_NVS (the (nvs_partition_label c)) = Some nvs \<and> \<not> part_readonly nvs \<and>
       \<not> partitions_overlap (pv_partition p) nvs) \<and>
    length (pv_nvs_partition_label p) \<le> 15 \<and> length (pv_nvs_namespace p) \<le> 15 \<and>
    length (pv_nvs_key p) \<le> 15"
proof -
  have names: "name_valid (nvs_partition_label c)" "name_valid (nvs_namespace c)" "name_valid (nvs_key c)"
    using assms by (auto simp: slots_idf_bind_def split: if_splits)
  have short: "length (c_string (the v)) \<le> 15" if "name_valid v" for v
    using that name_valid_length by (cases v) (simp_all add: name_valid_def)
  show ?thesis
    using assms names [THEN short]
    by (auto simp: slots_idf_bind_def bound_geometry_def Let_def split: if_splits option.splits)
qed

subsection \<open>The ESP-IDF calls\<close>

datatype nvs_status = NVS_OK | NVS_NOT_FOUND | NVS_FAILED

record ('w, 'h, 's) esp_api =
  semaphore_take :: "'s \<Rightarrow> 'w \<Rightarrow> bool \<times> 'w"
  semaphore_give :: "'s \<Rightarrow> 'w \<Rightarrow> 'w"
  nvs_open :: "string \<Rightarrow> string \<Rightarrow> bool \<Rightarrow> 'w \<Rightarrow> (nvs_status \<times> 'h) \<times> 'w"
  nvs_blob_size :: "'h \<Rightarrow> string \<Rightarrow> 'w \<Rightarrow> (nvs_status \<times> nat) \<times> 'w"
  nvs_get_blob :: "'h \<Rightarrow> string \<Rightarrow> nat \<Rightarrow> 'w \<Rightarrow> bytes option \<times> 'w"
  nvs_set_blob :: "'h \<Rightarrow> string \<Rightarrow> bytes \<Rightarrow> 'w \<Rightarrow> bool \<times> 'w"
  nvs_commit :: "'h \<Rightarrow> 'w \<Rightarrow> bool \<times> 'w"
  nvs_close :: "'h \<Rightarrow> 'w \<Rightarrow> 'w"
  partition_read :: "esp_partition \<Rightarrow> u32 \<Rightarrow> nat \<Rightarrow> 'w \<Rightarrow> bytes option \<times> 'w"
  partition_erase :: "esp_partition \<Rightarrow> u32 \<Rightarrow> nat \<Rightarrow> 'w \<Rightarrow> bool \<times> 'w"
  partition_write :: "esp_partition \<Rightarrow> u32 \<Rightarrow> bytes \<Rightarrow> 'w \<Rightarrow> bool \<times> 'w"

subsection \<open>The callbacks\<close>

definition range_valid :: "'s slots_idf_provider \<Rightarrow> u32 \<Rightarrow> nat \<Rightarrow> bool" where
  "range_valid provider offset_bytes size_bytes \<longleftrightarrow>
     (let partition = pv_partition provider in
      size_bytes > 0 \<and> size_bytes \<le> unat (part_size partition) \<and>
      offset_bytes \<ge> part_address partition \<and>
      unat (offset_bytes - part_address partition) \<le> unat (part_size partition) - size_bytes)"

definition provider_lock :: "('w, 'h, 's) esp_api \<Rightarrow> 's slots_idf_provider \<Rightarrow> 'w \<Rightarrow> bool \<times> 'w" where
  "provider_lock api provider = semaphore_take api (pv_storage_lock provider)"

definition provider_unlock :: "('w, 'h, 's) esp_api \<Rightarrow> 's slots_idf_provider \<Rightarrow> 'w \<Rightarrow> 'w" where
  "provider_unlock api provider = semaphore_give api (pv_storage_lock provider)"

definition provider_read_blob :: "('w, 'h, 's) esp_api \<Rightarrow> 's slots_idf_provider \<Rightarrow>
    'w \<Rightarrow> blob_result \<times> 'w" where
  "provider_read_blob api provider w =
    (case nvs_open api (pv_nvs_partition_label provider) (pv_nvs_namespace provider) False w of
       ((status, handle), w1) \<Rightarrow>
     if status = NVS_NOT_FOUND then (BLOB_NOT_FOUND, w1)
     else if status \<noteq> NVS_OK then (BLOB_READ_FAILED, w1)
     else case nvs_blob_size api handle (pv_nvs_key provider) w1 of ((status, size_bytes), w2) \<Rightarrow>
     if status = NVS_NOT_FOUND then (BLOB_NOT_FOUND, nvs_close api handle w2)
     else if status \<noteq> NVS_OK \<or> size_bytes \<noteq> SLOT_BLOB_BYTES
     then (BLOB_READ_FAILED, nvs_close api handle w2)
     else case nvs_get_blob api handle (pv_nvs_key provider) size_bytes w2 of (blob, w3) \<Rightarrow>
     (case blob of
        Some bs \<Rightarrow> if length bs = SLOT_BLOB_BYTES then BLOB_FOUND bs else BLOB_READ_FAILED
      | None \<Rightarrow> BLOB_READ_FAILED, nvs_close api handle w3))"

definition provider_write_blob :: "('w, 'h, 's) esp_api \<Rightarrow> 's slots_idf_provider \<Rightarrow>
    bytes \<Rightarrow> 'w \<Rightarrow> bool \<times> 'w" where
  "provider_write_blob api provider blob w =
    (case nvs_open api (pv_nvs_partition_label provider) (pv_nvs_namespace provider) True w of
       ((status, handle), w1) \<Rightarrow>
     if status \<noteq> NVS_OK then (False, w1)
     else case nvs_set_blob api handle (pv_nvs_key provider) blob w1 of (ok, w2) \<Rightarrow>
     case (if ok then nvs_commit api handle w2 else (False, w2)) of (ok, w3) \<Rightarrow>
     (ok, nvs_close api handle w3))"

definition provider_flash_read :: "('w, 'h, 's) esp_api \<Rightarrow> 's slots_idf_provider \<Rightarrow>
    u32 \<Rightarrow> nat \<Rightarrow> 'w \<Rightarrow> bytes option \<times> 'w" where
  "provider_flash_read api provider offset_bytes size_bytes w =
    (if range_valid provider offset_bytes size_bytes
     then partition_read api (pv_partition provider)
            (offset_bytes - part_address (pv_partition provider)) size_bytes w
     else (None, w))"

definition provider_flash_erase :: "('w, 'h, 's) esp_api \<Rightarrow> 's slots_idf_provider \<Rightarrow>
    u32 \<Rightarrow> u32 \<Rightarrow> 'w \<Rightarrow> bool \<times> 'w" where
  "provider_flash_erase api provider offset_bytes size_bytes w =
    (let erase_size = erase_unit_bytes (pv_geometry provider) in
     if range_valid provider offset_bytes (unat size_bytes) \<and>
        offset_bytes mod erase_size = 0 \<and> size_bytes mod erase_size = 0
     then partition_erase api (pv_partition provider)
            (offset_bytes - part_address (pv_partition provider)) (unat size_bytes) w
     else (False, w))"

definition provider_flash_write :: "('w, 'h, 's) esp_api \<Rightarrow> 's slots_idf_provider \<Rightarrow>
    u32 \<Rightarrow> bytes \<Rightarrow> 'w \<Rightarrow> bool \<times> 'w" where
  "provider_flash_write api provider offset_bytes source w =
    (let write_size = write_unit_bytes (pv_geometry provider) in
     if range_valid provider offset_bytes (length source) \<and>
        offset_bytes mod write_size = 0 \<and> length source mod unat write_size = 0
     then partition_write api (pv_partition provider)
            (offset_bytes - part_address (pv_partition provider)) source w
     else (False, w))"

definition provider_io :: "('w, 'h, 's) esp_api \<Rightarrow> 's slots_idf_provider \<Rightarrow> 'w slots_io" where
  "provider_io api provider =
     \<lparr>io_lock = provider_lock api provider, io_unlock = provider_unlock api provider,
      io_read_blob = provider_read_blob api provider,
      io_write_blob = provider_write_blob api provider,
      io_flash_read = provider_flash_read api provider,
      io_flash_erase = provider_flash_erase api provider,
      io_flash_write = provider_flash_write api provider\<rparr>"

subsection \<open>What the provider relies on\<close>

text \<open>
  Views of the platform: the bytes of a partition, the committed NVS blobs by partition label,
  namespace and key, which semaphores are taken, the place an NVS handle was opened on and
  the blob it has set.
\<close>

locale esp_platform =
  fixes api :: "('w, 'h, 's) esp_api"
    and part_bytes :: "'w \<Rightarrow> nat \<Rightarrow> nat \<Rightarrow> byte"
    and kv :: "'w \<Rightarrow> string \<times> string \<times> string \<Rightarrow> bytes option"
    and taken :: "'w \<Rightarrow> 's \<Rightarrow> bool"
    and place :: "'h \<Rightarrow> string \<times> string"
    and pending :: "'w \<Rightarrow> 'h \<Rightarrow> string \<Rightarrow> bytes option"
  assumes take_ok:
      "semaphore_take api sem w = (True, w') \<Longrightarrow> \<not> taken w sem \<and> taken w' sem \<and>
         part_bytes w' = part_bytes w \<and> kv w' = kv w"
    and take_refused:
      "semaphore_take api sem w = (False, w') \<Longrightarrow>
         (part_bytes w', kv w', taken w') = (part_bytes w, kv w, taken w)"
    and give:
      "\<not> taken (semaphore_give api sem w) sem \<and>
         part_bytes (semaphore_give api sem w) = part_bytes w \<and> kv (semaphore_give api sem w) = kv w"
    and open_keeps: "keeps (\<lambda>w. (part_bytes w, kv w, taken w)) (nvs_open api label ns rw)"
    and open_place: "nvs_open api label ns rw w = ((NVS_OK, h), w') \<Longrightarrow> place h = (label, ns)"
    and open_missing:
      "nvs_open api label ns rw w = ((NVS_NOT_FOUND, h), w') \<Longrightarrow> kv w (label, ns, key) = None"
    and size_keeps: "keeps (\<lambda>w. (part_bytes w, kv w, taken w)) (nvs_blob_size api h key)"
    and size_missing:
      "nvs_blob_size api h key w = ((NVS_NOT_FOUND, n), w') \<Longrightarrow>
         kv w (fst (place h), snd (place h), key) = None"
    and get_keeps: "keeps (\<lambda>w. (part_bytes w, kv w, taken w)) (nvs_get_blob api h key n)"
    and get_bytes:
      "nvs_get_blob api h key n w = (Some bs, w') \<Longrightarrow>
         kv w (fst (place h), snd (place h), key) = Some bs"
    and set_frame: "keeps (\<lambda>w. (part_bytes w, taken w)) (nvs_set_blob api h key bs)"
    and set_value:
      "nvs_set_blob api h key bs w = (ok, w') \<Longrightarrow>
         kv w' = kv w \<or> kv w' = (kv w)((fst (place h), snd (place h), key) \<mapsto> bs)"
    and set_pending: "nvs_set_blob api h key bs w = (True, w') \<Longrightarrow> pending w' h key = Some bs"
    and commit_frame: "keeps (\<lambda>w. (part_bytes w, taken w)) (nvs_commit api h)"
    and commit_value:
      "nvs_commit api h w = (ok, w') \<Longrightarrow> pending w h key = Some bs \<Longrightarrow>
         kv w' (fst (place h), snd (place h), key) = Some bs \<or>
         \<not> ok \<and> kv w' (fst (place h), snd (place h), key) = kv w (fst (place h), snd (place h), key)"
    and close_keeps:
      "part_bytes (nvs_close api h w) = part_bytes w \<and> kv (nvs_close api h w) = kv w \<and>
         taken (nvs_close api h w) = taken w"
    and read_keeps: "keeps (\<lambda>w. (part_bytes w, kv w, taken w)) (partition_read api pt off n)"
    and read_bytes:
      "partition_read api pt off n w = (Some bs, w') \<Longrightarrow>
         bs = content (part_bytes w (part_id pt)) (unat off) n"
    and erase_frame: "keeps (\<lambda>w. (kv w, taken w)) (partition_erase api pt off n)"
    and erase_outside:
      "partition_erase api pt off n w = (ok, w') \<Longrightarrow> a < unat off \<or> unat off + n \<le> a \<Longrightarrow>
         part_bytes w' (part_id pt) a = part_bytes w (part_id pt) a"
    and write_frame: "keeps (\<lambda>w. (kv w, taken w)) (partition_write api pt off bs)"
    and write_outside:
      "partition_write api pt off bs w = (ok, w') \<Longrightarrow> a < unat off \<or> unat off + length bs \<le> a \<Longrightarrow>
         part_bytes w' (part_id pt) a = part_bytes w (part_id pt) a"

text \<open>The provider's view: Flash by absolute address, its own record, its own lock.\<close>

definition provider_flash :: "('w \<Rightarrow> nat \<Rightarrow> nat \<Rightarrow> byte) \<Rightarrow> 's slots_idf_provider \<Rightarrow> 'w \<Rightarrow> nat \<Rightarrow> byte" where
  "provider_flash part_bytes provider w a =
     (if unat (part_address (pv_partition provider)) \<le> a
      then part_bytes w (part_id (pv_partition provider)) (a - unat (part_address (pv_partition provider)))
      else 0)"

definition provider_nvs :: "('w \<Rightarrow> string \<times> string \<times> string \<Rightarrow> bytes option) \<Rightarrow>
    's slots_idf_provider \<Rightarrow> 'w \<Rightarrow> bytes option" where
  "provider_nvs kv provider w =
     kv w (pv_nvs_partition_label provider, pv_nvs_namespace provider, pv_nvs_key provider)"

definition provider_held :: "('w \<Rightarrow> 's \<Rightarrow> bool) \<Rightarrow> 's slots_idf_provider \<Rightarrow> 'w \<Rightarrow> bool" where
  "provider_held taken provider w = taken w (pv_storage_lock provider)"

lemma range_valid_bounds:
  assumes "range_valid provider offset_bytes size_bytes"
  shows "part_address (pv_partition provider) \<le> offset_bytes" and "0 < size_bytes"
    and "unat (offset_bytes - part_address (pv_partition provider))
           = unat offset_bytes - unat (part_address (pv_partition provider))"
    and "unat offset_bytes + size_bytes
           \<le> unat (part_address (pv_partition provider)) + unat (part_size (pv_partition provider))"
proof -
  have r: "part_address (pv_partition provider) \<le> offset_bytes" "0 < size_bytes"
    "size_bytes \<le> unat (part_size (pv_partition provider))"
    "unat (offset_bytes - part_address (pv_partition provider))
       \<le> unat (part_size (pv_partition provider)) - size_bytes"
    using assms by (simp_all add: range_valid_def Let_def)
  then show "part_address (pv_partition provider) \<le> offset_bytes" "0 < size_bytes" by simp_all
  show sub: "unat (offset_bytes - part_address (pv_partition provider))
           = unat offset_bytes - unat (part_address (pv_partition provider))"
    using r(1) by (rule unat_sub_le)
  show "unat offset_bytes + size_bytes
      \<le> unat (part_address (pv_partition provider)) + unat (part_size (pv_partition provider))"
    using r sub by (simp add: word_le_nat_alt)
qed

context esp_platform
begin

abbreviation "provider_view p \<equiv>
  device_view (provider_flash part_bytes p) (provider_nvs kv p) (provider_held taken p)"

lemma provider_keeps:
  assumes "keeps (\<lambda>w. (part_bytes w, kv w, taken w)) m"
  shows "keeps (provider_view p) m"
  by (rule keeps_compose [OF assms, where g = "\<lambda>(b, k, t).
        (provider_flash (\<lambda>_. b) p undefined, provider_nvs (\<lambda>_. k) p undefined,
         provider_held (\<lambda>_. t) p undefined)"])
     (simp add: device_view_def provider_flash_def provider_nvs_def provider_held_def fun_eq_iff)

lemma read_blob_view:
  assumes "provider_read_blob api p w = (r, w')"
  shows "(part_bytes w', kv w', taken w') = (part_bytes w, kv w, taken w)"
  using assms close_keeps
  by (auto simp: provider_read_blob_def split: prod.splits if_splits
      dest!: keepsD [OF open_keeps] keepsD [OF size_keeps] keepsD [OF get_keeps])

lemma read_blob_value:
  assumes "provider_read_blob api p w = (r, w')"
  shows "r = BLOB_FOUND bs \<Longrightarrow> provider_nvs kv p w = Some bs \<and> length bs = SLOT_BLOB_BYTES"
    and "r = BLOB_NOT_FOUND \<Longrightarrow> provider_nvs kv p w = None"
proof -
  obtain st h w1 where o: "nvs_open api (pv_nvs_partition_label p) (pv_nvs_namespace p) False w = ((st, h), w1)"
    by (metis prod.exhaust)
  obtain st2 n w2 where sz: "nvs_blob_size api h (pv_nvs_key p) w1 = ((st2, n), w2)"
    by (metis prod.exhaust)
  obtain b w3 where get: "nvs_get_blob api h (pv_nvs_key p) n w2 = (b, w3)" by fastforce
  have kv: "kv w1 = kv w" "kv w2 = kv w"
    using keepsD [OF open_keeps o] keepsD [OF size_keeps sz] by simp_all
  show "r = BLOB_FOUND bs \<Longrightarrow> provider_nvs kv p w = Some bs \<and> length bs = SLOT_BLOB_BYTES"
    using assms o sz get kv open_place [of _ _ False w h w1] get_bytes [of h _ n w2 bs w3]
    by (auto simp: provider_read_blob_def provider_nvs_def split: if_splits option.splits)
  show "r = BLOB_NOT_FOUND \<Longrightarrow> provider_nvs kv p w = None"
    using assms o sz get kv open_place [of _ _ False w h w1] open_missing [of _ _ False w h w1]
      size_missing [of h _ w1 n w2]
    by (auto simp: provider_read_blob_def provider_nvs_def split: if_splits option.splits)
qed

lemma write_blob_run:
  assumes "provider_write_blob api p blob w = (ok, w')"
  shows "(part_bytes w', taken w') = (part_bytes w, taken w)"
    and "provider_nvs kv p w' = Some blob \<or> \<not> ok \<and> provider_nvs kv p w' = provider_nvs kv p w"
proof -
  let ?key = "(pv_nvs_partition_label p, pv_nvs_namespace p, pv_nvs_key p)"
  obtain st h w1 where o: "nvs_open api (pv_nvs_partition_label p) (pv_nvs_namespace p) True w = ((st, h), w1)"
    by (metis prod.exhaust)
  obtain ok2 w2 where set: "nvs_set_blob api h (pv_nvs_key p) blob w1 = (ok2, w2)" by fastforce
  obtain ok3 w3 where cm: "nvs_commit api h w2 = (ok3, w3)" by fastforce
  have w': "w' = (if st \<noteq> NVS_OK then w1 else nvs_close api h (if ok2 then w3 else w2))"
    and ok: "ok \<longleftrightarrow> st = NVS_OK \<and> ok2 \<and> ok3"
    using assms o set cm by (auto simp: provider_write_blob_def split: if_splits)
  show "(part_bytes w', taken w') = (part_bytes w, taken w)"
    using keepsD [OF open_keeps o] keepsD [OF set_frame set] keepsD [OF commit_frame cm] close_keeps
    by (simp add: w')
  have kv1: "kv w1 = kv w" using keepsD [OF open_keeps o] by simp
  have kv2: "st = NVS_OK \<Longrightarrow> kv w2 ?key = kv w ?key \<or> kv w2 ?key = Some blob"
    using set_value [OF set] open_place [of _ _ True w h w1] o kv1 by auto
  have kv3: "st = NVS_OK \<Longrightarrow> ok2 \<Longrightarrow> kv w3 ?key = Some blob \<or> \<not> ok3 \<and> kv w3 ?key = kv w2 ?key"
    using commit_value [OF cm] set_pending [of h _ blob w1 w2] set open_place [of _ _ True w h w1] o by auto
  show "provider_nvs kv p w' = Some blob \<or> \<not> ok \<and> provider_nvs kv p w' = provider_nvs kv p w"
    using kv1 kv2 kv3 close_keeps by (auto simp: w' ok provider_nvs_def)
qed

lemma outside_range:
  assumes range: "range_valid p off n"
    and a: "a < unat off \<or> unat off + n \<le> a"
    and same: "\<And>b. b < unat (off - part_address (pv_partition p)) \<or>
        unat (off - part_address (pv_partition p)) + n \<le> b \<Longrightarrow>
        part_bytes w' (part_id (pv_partition p)) b = part_bytes w (part_id (pv_partition p)) b"
  shows "provider_flash part_bytes p w' a = provider_flash part_bytes p w a"
proof (cases "unat (part_address (pv_partition p)) \<le> a")
  case True
  note bounds = range_valid_bounds [OF range]
  have "unat (part_address (pv_partition p)) \<le> unat off" using bounds(1) by (simp add: word_le_nat_alt)
  then have "part_bytes w' (part_id (pv_partition p)) (a - unat (part_address (pv_partition p)))
      = part_bytes w (part_id (pv_partition p)) (a - unat (part_address (pv_partition p)))"
    using a True bounds(3) by (intro same) auto
  then show ?thesis by (simp add: provider_flash_def)
qed (simp add: provider_flash_def)

lemma content_provider_flash:
  assumes "range_valid p off n"
  shows "content (part_bytes w (part_id (pv_partition p))) (unat (off - part_address (pv_partition p))) n
           = content (provider_flash part_bytes p w) (unat off) n"
proof -
  note bounds = range_valid_bounds [OF assms]
  have le: "unat (part_address (pv_partition p)) \<le> unat off" using bounds(1) by (simp add: word_le_nat_alt)
  show ?thesis
    unfolding content_def
    by (rule nth_equalityI) (use le bounds(3) in \<open>simp_all add: provider_flash_def\<close>)
qed

text \<open>The callbacks of a provider satisfy the contract of the slot store.\<close>

lemma provider_device:
  "slot_device (provider_io api p) (provider_flash part_bytes p) (provider_nvs kv p) (provider_held taken p)"
proof
  fix d d' assume "io_lock (provider_io api p) d = (True, d')"
  then show "\<not> provider_held taken p d \<and> provider_held taken p d' \<and>
      provider_flash part_bytes p d' = provider_flash part_bytes p d \<and>
      provider_nvs kv p d' = provider_nvs kv p d"
    using take_ok by (auto simp: provider_io_def provider_lock_def provider_held_def provider_flash_def
        provider_nvs_def fun_eq_iff)
next
  fix d d' assume "io_lock (provider_io api p) d = (False, d')"
  then show "provider_view p d' = provider_view p d"
    using take_refused by (auto simp: provider_io_def provider_lock_def provider_held_def
        provider_flash_def provider_nvs_def device_view_def fun_eq_iff)
next
  fix d show "\<not> provider_held taken p (io_unlock (provider_io api p) d) \<and>
      provider_flash part_bytes p (io_unlock (provider_io api p) d) = provider_flash part_bytes p d \<and>
      provider_nvs kv p (io_unlock (provider_io api p) d) = provider_nvs kv p d"
    using give by (simp add: provider_io_def provider_unlock_def provider_held_def provider_flash_def
        provider_nvs_def fun_eq_iff)
next
  show "keeps (provider_view p) (io_read_blob (provider_io api p))"
    by (rule provider_keeps, rule keepsI) (simp add: provider_io_def read_blob_view)
next
  fix d blob d' assume "io_read_blob (provider_io api p) d = (BLOB_FOUND blob, d')"
  then show "provider_nvs kv p d = Some blob \<and> length blob = SLOT_BLOB_BYTES"
    using read_blob_value(1) by (simp add: provider_io_def)
next
  fix d d' assume "io_read_blob (provider_io api p) d = (BLOB_NOT_FOUND, d')"
  then show "provider_nvs kv p d = None"
    using read_blob_value(2) by (simp add: provider_io_def)
next
  fix blob show "keeps (\<lambda>d. (provider_flash part_bytes p d, provider_held taken p d))
      (io_write_blob (provider_io api p) blob)"
    using write_blob_run(1)
    by (intro keepsI) (auto simp: provider_io_def provider_flash_def provider_held_def fun_eq_iff)
next
  fix blob d ok d' assume "io_write_blob (provider_io api p) blob d = (ok, d')"
  then show "provider_nvs kv p d' = Some blob \<or> \<not> ok \<and> provider_nvs kv p d' = provider_nvs kv p d"
    using write_blob_run(2) by (simp add: provider_io_def)
next
  fix off n show "keeps (provider_view p) (io_flash_read (provider_io api p) off n)"
    by (rule provider_keeps, rule keepsI)
       (auto simp: provider_io_def provider_flash_read_def split: if_splits dest: keepsD [OF read_keeps])
next
  fix off n d bs d' assume "io_flash_read (provider_io api p) off n d = (Some bs, d')"
  then show "bs = content (provider_flash part_bytes p d) (unat off) n"
    using content_provider_flash [of p off n d]
    by (auto simp: provider_io_def provider_flash_read_def split: if_splits dest!: read_bytes)
next
  fix off n show "keeps (\<lambda>d. (provider_nvs kv p d, provider_held taken p d))
      (io_flash_erase (provider_io api p) off n)"
    by (rule keepsI) (auto simp: provider_io_def provider_flash_erase_def provider_nvs_def
        provider_held_def Let_def split: if_splits dest: keepsD [OF erase_frame])
next
  fix off n d ok d' a
  assume "io_flash_erase (provider_io api p) off n d = (ok, d')" "a < unat off \<or> unat off + unat n \<le> a"
  then show "provider_flash part_bytes p d' a = provider_flash part_bytes p d a"
    using outside_range [of p off "unat n" a d' d] erase_outside [of "pv_partition p" _ "unat n" d ok d']
    by (simp add: provider_io_def provider_flash_erase_def Let_def split: if_splits)
next
  fix off bs show "keeps (\<lambda>d. (provider_nvs kv p d, provider_held taken p d))
      (io_flash_write (provider_io api p) off bs)"
    by (rule keepsI) (auto simp: provider_io_def provider_flash_write_def provider_nvs_def
        provider_held_def Let_def split: if_splits dest: keepsD [OF write_frame])
next
  fix off bs d ok d' a
  assume "io_flash_write (provider_io api p) off bs d = (ok, d')" "a < unat off \<or> unat off + length bs \<le> a"
  then show "provider_flash part_bytes p d' a = provider_flash part_bytes p d a"
    using outside_range [of p off "length bs" a d' d] write_outside [of "pv_partition p" _ bs d ok d']
    by (simp add: provider_io_def provider_flash_write_def Let_def split: if_splits)
qed

end

sublocale esp_platform \<subseteq> provider: slot_device "provider_io api p" "provider_flash part_bytes p"
    "provider_nvs kv p" "provider_held taken p" for p
  by (rule provider_device)

text \<open>The platform with a digest engine is the environment of the slot store.\<close>

locale provider_env =
  esp_platform api part_bytes kv taken place pending +
  digest_engine psa absorbed sha256 "\<lambda>w. (part_bytes w, kv w, taken w)"
  for api :: "('w, 'h, 's) esp_api" and part_bytes kv taken place pending
    and psa :: "('w, 'g) psa_api" and absorbed sha256

sublocale provider_env \<subseteq> store: slot_env "provider_io api p" "provider_flash part_bytes p"
    "provider_nvs kv p" "provider_held taken p" psa absorbed sha256 for p
proof
  show "keeps (provider_view p) (psa_crypto_init psa)" by (rule provider_keeps [OF init_keeps])
  show "keeps (provider_view p) (psa_hash_setup psa h)" for h by (rule provider_keeps [OF setup_keeps])
  show "keeps (provider_view p) (psa_hash_update psa h bs)" for h bs
    by (rule provider_keeps [OF update_keeps])
  show "keeps (provider_view p) (psa_hash_finish psa h)" for h by (rule provider_keeps [OF finish_keeps])
  show "keeps (provider_view p) (psa_hash_abort psa h)" for h by (rule provider_keeps [OF abort_keeps])
qed (rule setup_absorbed update_absorbed finish_sha256, assumption)+

end
