(* ===== verification/Sim_Platform.thy ===== *)
theory Sim_Platform
  imports Slots_Idf
begin

text \<open>
  A simulated ESP-IDF platform: NOR Flash that writes by clearing bits, NVS with a commit step,
  semaphores, and a script of faults, in which \<open>True\<close> makes the next call fail after half of
  its effect.  It satisfies the contract of \<open>Slots_Idf\<close>, so the contract can hold and the
  theorems about the provider can be applied to runs that evaluate.  The digest engine is
  the same for every digest function.
\<close>

record sim_world =
  sim_parts :: "nat \<Rightarrow> nat \<Rightarrow> byte"
  sim_kv :: "string \<times> string \<times> string \<Rightarrow> bytes option"
  sim_pending :: "string \<times> string \<Rightarrow> string \<Rightarrow> bytes option"
  sim_taken :: "nat \<Rightarrow> bool"
  sim_faults :: "bool list"

definition next_fault :: "sim_world \<Rightarrow> bool \<times> sim_world" where
  "next_fault w = (case sim_faults w of [] \<Rightarrow> (False, w) | f # fs \<Rightarrow> (f, w\<lparr>sim_faults := fs\<rparr>))"

definition fault_or :: "(bool \<Rightarrow> sim_world \<Rightarrow> 'a \<times> sim_world) \<Rightarrow> sim_world \<Rightarrow> 'a \<times> sim_world" where
  "fault_or call w = (case next_fault w of (f, w1) \<Rightarrow> call f w1)"

text \<open>Programming Flash clears bits; erasing sets the bytes to \<open>0xff\<close>.\<close>

definition program_bytes :: "(nat \<Rightarrow> byte) \<Rightarrow> nat \<Rightarrow> bytes \<Rightarrow> nat \<Rightarrow> byte" where
  "program_bytes f off bs a = (if off \<le> a \<and> a < off + length bs then f a AND bs ! (a - off) else f a)"

definition erase_bytes :: "(nat \<Rightarrow> byte) \<Rightarrow> nat \<Rightarrow> nat \<Rightarrow> nat \<Rightarrow> byte" where
  "erase_bytes f off n a = (if off \<le> a \<and> a < off + n then 0xff else f a)"

definition sim_api :: "(sim_world, string \<times> string, nat) esp_api" where
  "sim_api = \<lparr>
     semaphore_take = (\<lambda>sem w. if sim_taken w sem then (False, w)
       else (True, w\<lparr>sim_taken := (sim_taken w)(sem := True)\<rparr>)),
     semaphore_give = (\<lambda>sem w. w\<lparr>sim_taken := (sim_taken w)(sem := False)\<rparr>),
     nvs_open = (\<lambda>label ns rw. fault_or (\<lambda>f w. ((if f then NVS_FAILED else NVS_OK, (label, ns)), w))),
     nvs_blob_size = (\<lambda>h key. fault_or (\<lambda>f w.
       (if f then (NVS_FAILED, 0) else case sim_kv w (fst h, snd h, key) of
          None \<Rightarrow> (NVS_NOT_FOUND, 0) | Some bs \<Rightarrow> (NVS_OK, length bs), w))),
     nvs_get_blob = (\<lambda>h key n. fault_or (\<lambda>f w.
       (if f then None else sim_kv w (fst h, snd h, key), w))),
     nvs_set_blob = (\<lambda>h key bs. fault_or (\<lambda>f w. if f then (False, w)
       else (True, w\<lparr>sim_pending := (sim_pending w)(h := (sim_pending w h)(key \<mapsto> bs))\<rparr>))),
     nvs_commit = (\<lambda>h. fault_or (\<lambda>f w. if f then (False, w)
       else (True, w\<lparr>sim_kv := (\<lambda>(label, ns, key).
         if (label, ns) = h \<and> sim_pending w h key \<noteq> None then sim_pending w h key
         else sim_kv w (label, ns, key))\<rparr>))),
     nvs_close = (\<lambda>h w. w),
     partition_read = (\<lambda>pt off n. fault_or (\<lambda>f w.
       (if f then None else Some (content (sim_parts w (part_id pt)) (unat off) n), w))),
     partition_erase = (\<lambda>pt off n. fault_or (\<lambda>f w. (\<not> f, w\<lparr>sim_parts := (sim_parts w)
       (part_id pt := erase_bytes (sim_parts w (part_id pt)) (unat off) (if f then n div 2 else n))\<rparr>))),
     partition_write = (\<lambda>pt off bs. fault_or (\<lambda>f w. (\<not> f, w\<lparr>sim_parts := (sim_parts w)
       (part_id pt := program_bytes (sim_parts w (part_id pt)) (unat off)
         (if f then take (length bs div 2) bs else bs))\<rparr>)))\<rparr>"

text \<open>A digest engine that computes the given digest of the bytes it absorbed.\<close>

definition reference_psa :: "(bytes \<Rightarrow> bytes) \<Rightarrow> ('d, bytes) psa_api" where
  "reference_psa sha = \<lparr>
     psa_crypto_init = (\<lambda>d. (True, d)), psa_hash_operation_init = [],
     psa_hash_setup = (\<lambda>h d. ((True, []), d)),
     psa_hash_update = (\<lambda>h bs d. ((True, h @ bs), d)),
     psa_hash_finish = (\<lambda>h d. ((Some (sha h), []), d)),
     psa_hash_abort = (\<lambda>h d. ([], d))\<rparr>"

lemma next_fault_simps [simp]:
  "sim_parts (snd (next_fault w)) = sim_parts w" "sim_kv (snd (next_fault w)) = sim_kv w"
  "sim_taken (snd (next_fault w)) = sim_taken w" "sim_pending (snd (next_fault w)) = sim_pending w"
  by (simp_all add: next_fault_def split: list.split)

lemma fault_or_eq: "fault_or call w = call (fst (next_fault w)) (snd (next_fault w))"
  by (simp add: fault_or_def split: prod.split)

interpretation reference: digest_engine "reference_psa sha" "\<lambda>h. h" sha view for sha view
  by unfold_locales (auto simp: reference_psa_def keeps_def)

interpretation sim: provider_env sim_api sim_parts sim_kv sim_taken "\<lambda>h. h" sim_pending
    "reference_psa sha" "\<lambda>h. h" sha for sha
proof (unfold_locales, goal_cases)
  case (10 h key n w w')
  then show ?case by (auto simp: sim_api_def fault_or_eq split: if_splits option.splits)
qed (auto simp: sim_api_def reference_psa_def keeps_def fault_or_eq program_bytes_def erase_bytes_def
    split: if_splits option.splits)

end
