(* ===== verification/Slots_Api.thy ===== *)
theory Slots_Api
  imports Slots_Reach
begin

text \<open>
  What the public operations promise their caller: the result code and the caller's \<open>state\<close>
  buffer against the record that is committed, and the conditions an OK result certifies.
\<close>

subsection \<open>The result codes of an action\<close>

lemma bindE_basic:
  "bindE (guardE b e) f d = (if b then f () d else (Inl e, d))"
  "bindE (if b then failE e else retE ()) f d = (if b then (Inl e, d) else f () d)"
  by (simp_all add: bindE_def guardE_def retE_def failE_def)

lemma codes_load [code_intros]:
  "{SLOTS_EMPTY, SLOTS_INVALID, SLOTS_IO_FAILED} \<subseteq> C \<Longrightarrow> codes C (load_locked io g)"
  by (rule codesI) (auto simp: load_locked_def split: prod.splits blob_result.splits option.splits)

lemma codes_begin [code_intros]:
  "{SLOTS_EMPTY, SLOTS_INVALID, SLOTS_IO_FAILED, SLOTS_CONFLICT} \<subseteq> C \<Longrightarrow> codes C (begin_locked io g n)"
  unfolding begin_locked_def by (intro code_intros) simp_all

lemma codes_persist [code_intros]:
  "{SLOTS_IO_FAILED, SLOTS_UNCERTAIN} \<subseteq> C \<Longrightarrow> codes C (persist_locked io before after)"
  by (rule codesI) (auto simp: persist_locked_def Let_def split: prod.splits blob_result.splits if_splits)

lemma codes_commit [code_intros]:
  "{SLOTS_INVALID, SLOTS_IO_FAILED, SLOTS_UNCERTAIN} \<subseteq> C \<Longrightarrow> codes C (commit_next io g s t)"
  unfolding commit_next_def Let_def by (intro code_intros) simp_all

lemma codes_hash_loop: "codes {SLOTS_IO_FAILED} (hash_loop io psa reader offset digest)"
proof (rule codesI)
  fix d e d'
  show "hash_loop io psa reader offset digest d = (Inl e, d') \<Longrightarrow> e \<in> {SLOTS_IO_FAILED}"
  proof (induction offset arbitrary: digest d rule: io_chunk_induct [where size_bytes = "rd_size_bytes reader"])
    case (chunk offset)
    from chunk.prems show ?case
      by (subst (asm) hash_loop.simps)
         (auto simp: Let_def split: prod.splits option.splits if_splits dest: chunk.IH)
  qed
qed

lemma codes_hash_flash [code_intros]:
  "{SLOTS_INVALID, SLOTS_IO_FAILED, SLOTS_UNTRUSTED} \<subseteq> C \<Longrightarrow> codes C (hash_flash io psa g slot n expected)"
  by (rule codesI)
     (auto simp: hash_flash_def split: prod.splits option.splits sum.splits if_splits
       dest!: codesD [OF codes_hash_loop])

lemma codes_check_bindings [code_intros]:
  "{SLOTS_INVALID, SLOTS_IO_FAILED, SLOTS_UNTRUSTED} \<subseteq> C \<Longrightarrow> codes C (check_bindings io psa g bs)"
  by (induction bs) (auto intro!: code_intros)

lemma codes_hash_candidate [code_intros]:
  "{SLOTS_INVALID, SLOTS_IO_FAILED, SLOTS_UNTRUSTED} \<subseteq> C \<Longrightarrow> codes C (hash_candidate io psa g s)"
  unfolding hash_candidate_def by (intro code_intros)

lemma codes_check_references [code_intros]:
  "{SLOTS_INVALID, SLOTS_IO_FAILED, SLOTS_UNTRUSTED} \<subseteq> C \<Longrightarrow> codes C (check_references io psa g s c)"
  unfolding check_references_def by (intro code_intros)

lemma codes_write_loop: "codes {SLOTS_IO_FAILED} (write_loop io g source_fn slot_offset total_bytes offset)"
proof (rule codesI)
  fix d e d'
  show "write_loop io g source_fn slot_offset total_bytes offset d = (Inl e, d') \<Longrightarrow> e \<in> {SLOTS_IO_FAILED}"
  proof (induction offset arbitrary: d rule: io_chunk_induct [where size_bytes = total_bytes])
    case (chunk offset)
    from chunk.prems show ?case
      by (subst (asm) write_loop.simps)
         (auto simp: Let_def split: prod.splits option.splits bool.splits if_splits dest: chunk.IH)
  qed
qed

lemma codes_write_candidate [code_intros]:
  "SLOTS_IO_FAILED \<in> C \<Longrightarrow> codes C (write_candidate io g source_fn s)"
  by (rule codesI)
     (auto simp: write_candidate_def Let_def split: prod.splits bool.splits
       dest!: codesD [OF codes_write_loop])

lemma codes_validate [code_intros]:
  "{SLOTS_IO_FAILED, SLOTS_UNTRUSTED} \<subseteq> C \<Longrightarrow> codes C (validate_candidate io g validate_fn s)"
  by (rule codesI) (auto simp: validate_candidate_def Let_def split: prod.splits if_splits)

lemma codes_stop [code_intros]: "SLOTS_BUSY \<in> C \<Longrightarrow> codes C (stop_check s boot_id stop_fn)"
  by (rule codesI) (auto simp: stop_check_def split: prod.splits option.splits if_splits)

abbreviation "storage_codes \<equiv> {SLOTS_EMPTY, SLOTS_INVALID, SLOTS_IO_FAILED, SLOTS_UNCERTAIN,
  SLOTS_CONFLICT, SLOTS_UNTRUSTED}"

lemma codes_reserve: "codes (storage_codes \<union> {SLOTS_BUSY, SLOTS_NO_SPACE}) (reserve_locked io psa g n f p)"
proof -
  have "codes (storage_codes \<union> {SLOTS_BUSY, SLOTS_NO_SPACE})
      (case i of None \<Rightarrow> failE SLOTS_NO_SPACE | Some k \<Rightarrow> commit_next io g s (u k))"
    for i :: "nat option" and s u
    by (cases i) (auto intro: code_intros)
  then show ?thesis unfolding reserve_locked_def by (intro code_intros) auto
qed

lemma codes_prepare: "codes storage_codes (write_and_prepare_locked io psa g n source_fn validate_fn)"
  unfolding write_and_prepare_locked_def by (intro code_intros) simp_all

lemma codes_begin_trial: "codes storage_codes (begin_trial_locked io psa g n running boot_id)"
  unfolding begin_trial_locked_def by (intro code_intros) simp_all

lemma codes_mark_healthy: "codes storage_codes (mark_healthy_locked io psa g n boot_id)"
  unfolding mark_healthy_locked_def by (intro code_intros) simp_all

lemma codes_confirm: "codes storage_codes (confirm_locked io psa g n running boot_id)"
  unfolding confirm_locked_def by (intro code_intros) simp_all

lemma codes_abandon: "codes (insert SLOTS_BUSY storage_codes) (abandon_locked io psa g n boot_id stop_fn)"
  unfolding abandon_locked_def by (intro code_intros) simp_all

text \<open>No body fails with the code OK.\<close>

definition never_ok :: "('d, slots_result, 'a) act \<Rightarrow> bool" where
  "never_ok m \<longleftrightarrow> (\<forall>d d'. m d \<noteq> (Inl SLOTS_OK, d'))"

lemma never_okD: "m d = (Inl SLOTS_OK, d') \<Longrightarrow> never_ok m \<Longrightarrow> False"
  by (simp add: never_ok_def)

lemma codes_never_ok: "codes C m \<Longrightarrow> SLOTS_OK \<notin> C \<Longrightarrow> never_ok m"
  by (auto simp: never_ok_def codes_def)

lemmas never_ok_bodies =
  codes_reserve [THEN codes_never_ok, simplified] codes_prepare [THEN codes_never_ok, simplified]
  codes_begin_trial [THEN codes_never_ok, simplified] codes_mark_healthy [THEN codes_never_ok, simplified]
  codes_confirm [THEN codes_never_ok, simplified] codes_abandon [THEN codes_never_ok, simplified]

subsection \<open>Result code, caller's buffer and committed record\<close>

definition api_outcome :: "('d \<Rightarrow> bytes option) \<Rightarrow> slots_geometry \<Rightarrow> slot_event \<Rightarrow>
    slots_state option \<Rightarrow> 'd \<Rightarrow> 'd \<Rightarrow> slots_result \<Rightarrow> slots_state option \<Rightarrow> bool" where
  "api_outcome nvs g ev state d d' res st =
    (if res = SLOTS_OK
     then \<exists>s t. stored nvs g d s \<and> slot_step g ev s t \<and> st = Some t \<and> stored nvs g d' t
     else st = state \<and>
       (nvs d' = nvs d \<or>
        res = SLOTS_UNCERTAIN \<and> (\<exists>s t. stored nvs g d s \<and> slot_step g ev s t \<and> stored nvs g d' t)))"

context slot_env
begin

lemma api_outcomeI:
  assumes call: "(if bad then ((SLOTS_INVALID, state), d) else with_lock io state body d) = ((res, st), d')"
    and body: "\<And>d1 r d2. \<not> bad \<Longrightarrow> body d1 = (r, d2) \<Longrightarrow> durable_outcome nvs g ev d1 d2 r"
    and errors: "never_ok body"
  shows "api_outcome nvs g ev state d d' res st"
proof (cases bad)
  case True
  with call show ?thesis by (auto simp: api_outcome_def)
next
  case False
  with call have "with_lock io state body d = ((res, st), d')" by simp
  then show ?thesis
  proof (cases rule: with_lock_cases)
    case busy
    then show ?thesis by (simp add: api_outcome_def device_view_def)
  next
    case (ran d1 r d2)
    have stored: "stored nvs g d1 = stored nvs g d" "stored nvs g d' = stored nvs g d2"
      using ran by (simp_all add: stored_def fun_eq_iff)
    have durable: "durable_outcome nvs g ev d1 d2 r" using False ran(5) by (rule body)
    show ?thesis
    proof (cases r)
      case (Inr t)
      with durable obtain s where "stored nvs g d1 s" "slot_step g ev s t" "nvs d2 = Some (encode_state t)"
        by (auto simp: durable_outcome_def)
      moreover from this have "stored nvs g d2 t" by (rule slot_step_stored)
      ultimately show ?thesis using ran(6) Inr by (auto simp: report_def api_outcome_def stored)
    next
      case (Inl e)
      then have "e \<noteq> SLOTS_OK" using never_okD [OF _ errors] ran(5) by blast
      then show ?thesis
        using ran(6) Inl durable_cases [OF durable] ran(4,8) durable slot_step_stored [of nvs g d1 _ ev _ d2]
        by (auto simp: report_def api_outcome_def stored durable_outcome_def)
    qed
  qed
qed

lemma reserve_outcome:
  assumes "slots_reserve (Some (io_ptrs io)) psa (Some g) n f operation state d = ((res, st), d')"
    and "pred_option operation_shape operation"
  shows "api_outcome nvs g (EV_RESERVE (the operation)) state d d' res st"
  using assms(1) unfolding slots_reserve_def io_calls_ptrs option.sel
proof (rule api_outcomeI)
  fix d1 r d2
  let ?p = "the operation" and ?f = "the f"
  assume args: "\<not> (\<not> io_valid (Some (io_ptrs io)) \<or> \<not> geometry_valid (Some g) \<or> \<not> firmware_set_valid f \<or>
      operation = None \<or> state = None \<or> all_zero (so_operation_id ?p) \<or> all_zero (so_package_sha256 ?p) \<or>
      so_target_firmware_sha256 ?p \<noteq> running_firmware_sha256 ?f \<or> so_slot ?p \<noteq> 0 \<or>
      so_package_size_bytes ?p = 0 \<or> so_guest_abi_version ?p = 0 \<or> so_data_schema_version ?p = 0 \<or>
      \<not> all_zero (so_trial_boot_id ?p))"
    and run: "reserve_locked io psa g n ?f ?p d1 = (r, d2)"
  have "firmware_set_valid (Some ?f)"
    using args by (cases f) (auto simp: firmware_set_valid_def)
  then have "operation_requestable ?f ?p"
    using args assms(2) by (intro reserve_requestable) auto
  then show "durable_outcome nvs g (EV_RESERVE ?p) d1 d2 r" using run by (rule reserve_durable)
qed (rule never_ok_bodies)

lemma prepare_outcome:
  assumes "slots_write_and_prepare (Some (io_ptrs io)) psa (Some g) n source_fn validate_fn state d
      = ((res, st), d')"
    and "pred_option (quiet_source (device_view flash nvs held)) source_fn"
    and "pred_option (quiet_validator (device_view flash nvs held)) validate_fn"
  shows "api_outcome nvs g EV_PREPARE state d d' res st"
  using assms(1) unfolding slots_write_and_prepare_def io_calls_ptrs option.sel
  by (rule api_outcomeI)
     (use assms(2,3) in \<open>auto intro!: prepare_durable never_ok_bodies\<close>)

lemma begin_trial_outcome:
  assumes "slots_begin_trial (Some (io_ptrs io)) psa (Some g) n running boot_id state d = ((res, st), d')"
    and "pred_option (\<lambda>b. length b = 16) boot_id"
  shows "api_outcome nvs g (EV_BEGIN_TRIAL (the boot_id)) state d d' res st"
  using assms(1) unfolding slots_begin_trial_def io_calls_ptrs option.sel
  by (rule api_outcomeI) (use assms(2) in \<open>auto intro!: begin_trial_durable never_ok_bodies\<close>)

lemma mark_healthy_outcome:
  "slots_mark_healthy (Some (io_ptrs io)) psa (Some g) n boot_id state d = ((res, st), d') \<Longrightarrow>
     api_outcome nvs g EV_MARK_HEALTHY state d d' res st"
  unfolding slots_mark_healthy_def io_calls_ptrs option.sel
  by (erule api_outcomeI) (rule mark_healthy_durable, assumption, rule never_ok_bodies)

lemma confirm_outcome:
  "slots_confirm (Some (io_ptrs io)) psa (Some g) n running boot_id state d = ((res, st), d') \<Longrightarrow>
     api_outcome nvs g EV_CONFIRM state d d' res st"
  unfolding slots_confirm_def io_calls_ptrs option.sel
  by (erule api_outcomeI) (rule confirm_durable, assumption, rule never_ok_bodies)

lemma abandon_outcome:
  "slots_abandon (Some (io_ptrs io)) psa (Some g) n boot_id stop_fn state d = ((res, st), d') \<Longrightarrow>
     quiet_stop (device_view flash nvs held) stop_fn \<Longrightarrow>
     api_outcome nvs g EV_ABANDON state d d' res st"
  unfolding slots_abandon_def io_calls_ptrs option.sel
  by (erule api_outcomeI) (auto intro!: abandon_durable never_ok_bodies)

subsection \<open>What an OK result certifies\<close>

end

text \<open>
  The facts common to trial, health and confirmation: the record the caller named by its
  sequence number was committed, every package it references was intact, and the candidate
  too where the code checks it.
\<close>

definition certified :: "(bytes \<Rightarrow> bytes) \<Rightarrow> ('d \<Rightarrow> nat \<Rightarrow> byte) \<Rightarrow> ('d \<Rightarrow> bytes option) \<Rightarrow>
    slots_geometry \<Rightarrow> u32 \<Rightarrow> 'd \<Rightarrow> slots_state \<Rightarrow> bool" where
  "certified sha256 flash nvs g n d s \<longleftrightarrow> stored nvs g d s \<and> ss_sequence s = n \<and>
     state_packages_intact sha256 (flash d) g s"

context slot_env
begin

lemma with_lock_OK:
  assumes "with_lock io state body d = ((SLOTS_OK, st), d')" and "never_ok body"
  obtains d1 t d2 where "flash d1 = flash d" "nvs d1 = nvs d" "body d1 = (Inr t, d2)" "st = Some t"
    "flash d' = flash d2" "nvs d' = nvs d2"
  using assms(1)
proof (cases rule: with_lock_cases)
  case (ran d1 r d2)
  then obtain t where r: "r = Inr t"
    using never_okD [OF _ assms(2)] by (cases r) (auto simp: report_def)
  have "st = Some t" using ran(6) r by (simp add: report_def)
  then show thesis using ran r by (intro that) simp_all
qed simp

lemma begin_check_OK:
  assumes "bindE (begin_locked io g n) (\<lambda>s. bindE (guardE (ok s) e) (\<lambda>_.
      bindE (check_references io psa g s c) (\<lambda>_. f s))) d = (Inr t, d')"
  obtains s d1 where "stored nvs g d s" "ss_sequence s = n" "ok s"
    "\<And>b. b \<in> set (ss_bindings s) \<Longrightarrow> binding_intact sha256 (flash d) g b"
    "c \<Longrightarrow> state_packages_intact sha256 (flash d) g s" "f s d1 = (Inr t, d')"
    "device_view flash nvs held d1 = device_view flash nvs held d"
proof -
  from assms obtain s d1 d2 u where first: "begin_locked io g n d = (Inr s, d1)" and ok: "ok s"
    and check: "check_references io psa g s c d1 = (Inr u, d2)" and rest: "f s d2 = (Inr t, d')"
    by (auto simp: bindE_OK)
  note v1 = begin_locked_OK(3) [OF first]
  have same: "flash d1 = flash d" "device_view flash nvs held d2 = device_view flash nvs held d"
    using v1 keepsD [OF check_references_keeps check] by (simp_all add: device_view_def)
  show thesis
    using begin_locked_OK(1,2) [OF first] ok check_references_intact [OF check] same rest
    by (intro that [of s d2]) (auto simp: state_packages_intact_def)
qed

lemma certified_view:
  assumes "stored nvs g d1 s" "ss_sequence s = n" "state_packages_intact sha256 (flash d1) g s"
    and "flash d1 = flash d" "nvs d1 = nvs d"
  shows "certified sha256 flash nvs g n d s"
  using assms by (simp add: certified_def stored_def)

lemma commit_OK:
  assumes "commit_next io g s t d = (Inr x, d')"
  shows "x = numbered s t" and "nvs d' = Some (encode_state (numbered s t))"
    and "ss_sequence s \<noteq> 0xFFFFFFFF"
  using commit_next_outcome(2) [OF assms] by (auto simp: numbered_def)

lemma begin_trial_certifies:
  assumes "slots_begin_trial (Some (io_ptrs io)) psa (Some g) n running boot_id state d = ((SLOTS_OK, st), d')"
  shows "\<exists>s. certified sha256 flash nvs g n d s \<and> ss_phase s = SLOT_PREPARED \<and>
    running = Some (so_target_firmware_sha256 (ss_operation s)) \<and>
    st = Some (numbered s (s\<lparr>ss_phase := SLOT_TRIAL_STARTED,
      ss_operation := (ss_operation s)\<lparr>so_trial_boot_id := the boot_id\<rparr>\<rparr>))"
proof -
  from assms have args: "running \<noteq> None"
    and "with_lock io state (begin_trial_locked io psa g n (the running) (the boot_id)) d = ((SLOTS_OK, st), d')"
    by (auto simp: slots_begin_trial_def split: if_splits)
  from this(2) never_ok_bodies(3) obtain d1 t d2 where ran: "flash d1 = flash d" "nvs d1 = nvs d"
    "begin_trial_locked io psa g n (the running) (the boot_id) d1 = (Inr t, d2)" "st = Some t"
    by (rule with_lock_OK)
  from ran(3) [unfolded begin_trial_locked_def] obtain s d3 where s: "stored nvs g d1 s" "ss_sequence s = n"
    "state_packages_intact sha256 (flash d1) g s" and guard: "\<not> (ss_phase s \<noteq> SLOT_PREPARED \<or>
      so_target_firmware_sha256 (ss_operation s) \<noteq> the running)"
    and commit: "commit_next io g s (s\<lparr>ss_phase := SLOT_TRIAL_STARTED,
      ss_operation := (ss_operation s)\<lparr>so_trial_boot_id := the boot_id\<rparr>\<rparr>) d3 = (Inr t, d2)"
    by (rule begin_check_OK) simp_all
  have "certified sha256 flash nvs g n d s" using s ran(1,2) by (rule certified_view)
  moreover have "t = numbered s (s\<lparr>ss_phase := SLOT_TRIAL_STARTED,
      ss_operation := (ss_operation s)\<lparr>so_trial_boot_id := the boot_id\<rparr>\<rparr>)"
    using commit by (rule commit_OK)
  ultimately show ?thesis using guard args ran(4) by auto
qed

lemma mark_healthy_certifies:
  assumes "slots_mark_healthy (Some (io_ptrs io)) psa (Some g) n boot_id state d = ((SLOTS_OK, st), d')"
  shows "\<exists>s. certified sha256 flash nvs g n d s \<and> ss_phase s = SLOT_TRIAL_STARTED \<and>
    boot_id = Some (so_trial_boot_id (ss_operation s)) \<and>
    st = Some (numbered s (s\<lparr>ss_phase := SLOT_HEALTH_VERIFIED\<rparr>))"
proof -
  from assms have args: "boot_id \<noteq> None"
    and "with_lock io state (mark_healthy_locked io psa g n (the boot_id)) d = ((SLOTS_OK, st), d')"
    by (auto simp: slots_mark_healthy_def split: if_splits)
  from this(2) never_ok_bodies(4) obtain d1 t d2 where ran: "flash d1 = flash d" "nvs d1 = nvs d"
    "mark_healthy_locked io psa g n (the boot_id) d1 = (Inr t, d2)" "st = Some t"
    by (rule with_lock_OK)
  from ran(3) [unfolded mark_healthy_locked_def] obtain s d3 where s: "stored nvs g d1 s" "ss_sequence s = n"
    "state_packages_intact sha256 (flash d1) g s" and guard: "\<not> (ss_phase s \<noteq> SLOT_TRIAL_STARTED \<or>
      so_trial_boot_id (ss_operation s) \<noteq> the boot_id)"
    and commit: "commit_next io g s (s\<lparr>ss_phase := SLOT_HEALTH_VERIFIED\<rparr>) d3 = (Inr t, d2)"
    by (rule begin_check_OK) simp_all
  have "certified sha256 flash nvs g n d s" using s ran(1,2) by (rule certified_view)
  moreover have "t = numbered s (s\<lparr>ss_phase := SLOT_HEALTH_VERIFIED\<rparr>)"
    using commit by (rule commit_OK)
  ultimately show ?thesis using guard args ran(4) by auto
qed

lemma confirm_certifies:
  assumes "slots_confirm (Some (io_ptrs io)) psa (Some g) n running boot_id state d = ((SLOTS_OK, st), d')"
  shows "\<exists>s index. certified sha256 flash nvs g n d s \<and> ss_phase s = SLOT_HEALTH_VERIFIED \<and>
    running = Some (so_target_firmware_sha256 (ss_operation s)) \<and>
    boot_id = Some (so_trial_boot_id (ss_operation s)) \<and>
    binding_for_firmware s (so_target_firmware_sha256 (ss_operation s)) = Some index \<and>
    st = Some (numbered s (confirmed_state s index))"
proof -
  from assms have args: "running \<noteq> None" "boot_id \<noteq> None"
    and "with_lock io state (confirm_locked io psa g n (the running) (the boot_id)) d = ((SLOTS_OK, st), d')"
    by (auto simp: slots_confirm_def split: if_splits)
  from this(3) never_ok_bodies(5) obtain d1 t d2 where ran: "flash d1 = flash d" "nvs d1 = nvs d"
    "confirm_locked io psa g n (the running) (the boot_id) d1 = (Inr t, d2)" "st = Some t"
    by (rule with_lock_OK)
  from ran(3) [unfolded confirm_locked_def] obtain s d3 where s: "stored nvs g d1 s" "ss_sequence s = n"
    "state_packages_intact sha256 (flash d1) g s" and guard: "\<not> (ss_phase s \<noteq> SLOT_HEALTH_VERIFIED \<or>
      binding_for_firmware s (the running) = None \<or>
      so_target_firmware_sha256 (ss_operation s) \<noteq> the running \<or>
      so_trial_boot_id (ss_operation s) \<noteq> the boot_id)"
    and commit: "commit_next io g s (confirmed_state s (the (binding_for_firmware s (the running)))) d3 = (Inr t, d2)"
    by (rule begin_check_OK) simp_all
  have "certified sha256 flash nvs g n d s" using s ran(1,2) by (rule certified_view)
  moreover have "t = numbered s (confirmed_state s (the (binding_for_firmware s (the running))))"
    using commit by (rule commit_OK)
  ultimately show ?thesis using guard args ran(4) by auto
qed

subsection \<open>Reserving, abandoning, reconciling\<close>

text \<open>
  Reserving reaches the choice of a slot only from a certified record that is not pending, and
  only the choice reports \<open>NO_SPACE\<close>.
\<close>

lemma reserve_body:
  assumes run: "reserve_locked io psa g n f p d = (r, d')"
    and result: "r = Inl SLOTS_NO_SPACE \<or> r = Inr t"
  shows "\<exists>s d1. certified sha256 flash nvs g n d s \<and> \<not> phase_pending (ss_phase s) \<and> firmware_set_matches s f \<and>
    (case select_slot s g (so_package_size_bytes p) of
       None \<Rightarrow> r = Inl SLOTS_NO_SPACE
     | Some i \<Rightarrow> commit_next io g s (s\<lparr>ss_phase := SLOT_WRITING,
         ss_operation := p\<lparr>so_slot := of_nat i\<rparr>\<rparr>) d1 = (r, d'))"
proof -
  show ?thesis using run unfolding reserve_locked_def
  proof (cases rule: bindE_cases)
    case failed
    then show ?thesis using result codesD [OF codes_begin [OF subset_refl] failed(1)] by auto
  next
    case (ok s d1)
    note first = begin_locked_OK [OF ok(1)]
    from ok(2) have "firmware_set_matches s f"
      and rest: "bindE (check_references io psa g s True) (\<lambda>_.
        bindE (if ss_phase s \<noteq> SLOT_IDLE \<and> so_operation_id (ss_operation s) = so_operation_id p
          then failE (if same_request (ss_operation s) p then SLOTS_BUSY else SLOTS_CONFLICT)
          else retE ()) (\<lambda>_.
        bindE (guardE (\<not> (SLOT_WRITING \<le> ss_phase s \<and> ss_phase s \<le> SLOT_HEALTH_VERIFIED)) SLOTS_BUSY) (\<lambda>_.
        case select_slot s g (so_package_size_bytes p) of None \<Rightarrow> failE SLOTS_NO_SPACE
        | Some selected \<Rightarrow> commit_next io g s (s\<lparr>ss_phase := SLOT_WRITING,
            ss_operation := p\<lparr>so_slot := of_nat selected\<rparr>\<rparr>)))) d1 = (r, d')"
      using result by (auto simp: bindE_basic split: if_splits)
    from rest show ?thesis
    proof (cases rule: bindE_cases)
      case failed
      then show ?thesis using result codesD [OF codes_check_references [OF subset_refl] failed(1)] by auto
    next
      case (ok u d2)
      have "state_packages_intact sha256 (flash d1) g s"
        using check_references_intact [OF ok(1)] by (simp add: state_packages_intact_def)
      then have "certified sha256 flash nvs g n d s"
        using first by (simp add: certified_def device_view_def)
      with ok(2) \<open>firmware_set_matches s f\<close> result show ?thesis
        by (intro exI [of _ s] exI [of _ d2])
           (auto simp: phase_pending_def bindE_basic split: option.splits if_splits)
    qed
  qed
qed

lemma reserve_certifies:
  assumes "slots_reserve (Some (io_ptrs io)) psa (Some g) n f operation state d = ((SLOTS_OK, st), d')"
  shows "\<exists>s i. certified sha256 flash nvs g n d s \<and> \<not> phase_pending (ss_phase s) \<and> firmware_set_matches s (the f) \<and>
    select_slot s g (so_package_size_bytes (the operation)) = Some i \<and>
    st = Some (numbered s (s\<lparr>ss_phase := SLOT_WRITING,
      ss_operation := (the operation)\<lparr>so_slot := of_nat i\<rparr>\<rparr>))"
proof -
  from assms have "with_lock io state (reserve_locked io psa g n (the f) (the operation)) d = ((SLOTS_OK, st), d')"
    by (auto simp: slots_reserve_def split: if_splits)
  from this never_ok_bodies(1) obtain d1 t d2 where ran: "flash d1 = flash d" "nvs d1 = nvs d"
    "reserve_locked io psa g n (the f) (the operation) d1 = (Inr t, d2)" "st = Some t"
    by (rule with_lock_OK)
  from reserve_body [OF ran(3), of t] obtain s i d3 where s: "certified sha256 flash nvs g n d1 s"
    "\<not> phase_pending (ss_phase s)" "firmware_set_matches s (the f)"
    "select_slot s g (so_package_size_bytes (the operation)) = Some i"
    and commit: "commit_next io g s (s\<lparr>ss_phase := SLOT_WRITING,
         ss_operation := (the operation)\<lparr>so_slot := of_nat i\<rparr>\<rparr>) d3 = (Inr t, d2)"
    by (auto split: option.splits)
  have "certified sha256 flash nvs g n d s" using s(1) ran(1,2) by (simp add: certified_def stored_def)
  then show ?thesis using s(2-4) commit_OK(1) [OF commit] ran(4) by blast
qed

lemma reserve_no_space:
  assumes "slots_reserve (Some (io_ptrs io)) psa (Some g) n f operation state d = ((SLOTS_NO_SPACE, st), d')"
  shows "\<exists>s. certified sha256 flash nvs g n d s \<and> \<not> phase_pending (ss_phase s) \<and>
    select_slot s g (so_package_size_bytes (the operation)) = None"
proof -
  from assms have "with_lock io state (reserve_locked io psa g n (the f) (the operation)) d
      = ((SLOTS_NO_SPACE, st), d')"
    by (auto simp: slots_reserve_def split: if_splits)
  then show ?thesis
  proof (cases rule: with_lock_cases)
    case (ran d1 r d2)
    then have r: "r = Inl SLOTS_NO_SPACE" by (cases r) (auto simp: report_def)
    with reserve_body [OF ran(5)] obtain s d3 where s: "certified sha256 flash nvs g n d1 s" "\<not> phase_pending (ss_phase s)"
      and choice: "case select_slot s g (so_package_size_bytes (the operation)) of
         None \<Rightarrow> r = Inl SLOTS_NO_SPACE
       | Some i \<Rightarrow> commit_next io g s (s\<lparr>ss_phase := SLOT_WRITING,
           ss_operation := (the operation)\<lparr>so_slot := of_nat i\<rparr>\<rparr>) d3 = (r, d2)"
      by blast
    have "select_slot s g (so_package_size_bytes (the operation)) = None"
      using choice r codesD [OF codes_commit [OF subset_refl]] by (fastforce split: option.splits)
    moreover have "certified sha256 flash nvs g n d s" using s(1) ran(3,4) by (simp add: certified_def stored_def)
    ultimately show ?thesis using s(2) by blast
  qed simp
qed

lemma reserve_first_fit:
  assumes "slots_reserve (Some (io_ptrs io)) psa (Some g) n f operation state d = ((SLOTS_OK, st), d')"
  shows "\<exists>s i. certified sha256 flash nvs g n d s \<and> \<not> phase_pending (ss_phase s) \<and> firmware_set_matches s (the f) \<and>
    st = Some (numbered s (s\<lparr>ss_phase := SLOT_WRITING,
      ss_operation := (the operation)\<lparr>so_slot := of_nat i\<rparr>\<rparr>)) \<and>
    slot_fits s g (the operation) i \<and> (\<forall>j < i. \<not> slot_fits s g (the operation) j)"
  using reserve_certifies [OF assms] select_slot_first_fit by blast

lemma reserve_without_space:
  assumes "slots_reserve (Some (io_ptrs io)) psa (Some g) n f operation state d = ((SLOTS_NO_SPACE, st), d')"
  shows "\<exists>s i. stored nvs g d s \<and> ss_sequence s = n \<and> \<not> phase_pending (ss_phase s) \<and> slot_free s i \<and>
    (\<forall>j. \<not> slot_fits s g (the operation) j)"
proof -
  from reserve_no_space [OF assms] obtain s where
    s: "certified sha256 flash nvs g n d s" "\<not> phase_pending (ss_phase s)"
    and none: "select_slot s g (so_package_size_bytes (the operation)) = None" by blast
  have "state_shape s" using s(1) storedD(1) by (auto simp: certified_def)
  then obtain i where "slot_free s i" using some_slot_free by (auto simp: slot_free_iff)
  with s select_slot_no_fit [OF none] show ?thesis by (auto simp: certified_def)
qed

text \<open>Initialization as its caller sees it.\<close>

lemma initialize_call:
  assumes call: "slots_initialize (Some (io_ptrs io)) psa (Some g) f (Some bindings) d = (r, d')"
    and bindings: "length bindings = SLOT_BINDING_COUNT" "list_all binding_shape bindings"
  shows "flash d' = flash d \<and>
    (nvs d' = nvs d \<or> nvs d = None \<and> stored nvs g d' (initial_state bindings) \<and>
       (\<forall>b \<in> set bindings. binding_intact sha256 (flash d) g b)) \<and>
    (r = SLOTS_OK \<longrightarrow> nvs d = None \<and> stored nvs g d' (initial_state bindings))"
proof (cases "geometry_valid (Some g) \<and> firmware_set_valid f")
  case False
  then show ?thesis using call by (auto simp: slots_initialize_def)
next
  case True
  then obtain st where "with_lock io None (initialize_locked io psa g (the f) bindings) d = ((r, st), d')"
    using call by (auto simp: slots_initialize_def split: prod.splits)
  then show ?thesis
  proof (cases rule: with_lock_cases)
    case busy
    then show ?thesis by (simp add: device_view_def)
  next
    case (ran d1 q d2)
    note outcome = initialize_outcome [OF bindings ran(5)]
    have codes: "codes storage_codes (initialize_locked io psa g (the f) bindings)"
    proof (rule codesI)
      fix x e y assume run: "initialize_locked io psa g (the f) bindings x = (Inl e, y)"
      obtain l z where load: "load_locked io g x = (l, z)" by fastforce
      let ?rest = "bindE (check_references io psa g (initial_state bindings) False)
          (\<lambda>_. persist_locked io None (initial_state bindings))"
      have rest: "codes storage_codes ?rest"
        by (intro code_intros) simp_all
      have l: "l = Inl e' \<Longrightarrow> e' \<in> storage_codes" for e'
        using codesD [OF codes_load [OF subset_refl], of io g x e' z] load by auto
      consider "?rest z = (Inl e, y)" | "l = Inl e" | "e = SLOTS_INVALID" | "e = SLOTS_CONFLICT"
        using run load by (auto simp: initialize_locked_def Let_def split: sum.splits if_splits)
      then show "e \<in> storage_codes"
        by cases (use l codesD [OF rest] in blast)+
    qed
    have same: "stored nvs g d2 s \<Longrightarrow> stored nvs g d' s" for s using ran(8) by (rule stored_same)
    have ok: "nvs d = None \<and> stored nvs g d' (initial_state bindings)" if "r = SLOTS_OK"
    proof (cases q)
      case (Inl e)
      then have "e = SLOTS_OK" using ran(6) that by (simp add: report_def)
      then show ?thesis using codesD [OF codes] ran(5) Inl by blast
    next
      case (Inr s)
      then show ?thesis using outcome same ran(4) by simp
    qed
    have "flash d' = flash d" using outcome ran(3,7) by simp
    moreover have "nvs d' = nvs d \<or> nvs d = None \<and> stored nvs g d' (initial_state bindings) \<and>
       (\<forall>b \<in> set bindings. binding_intact sha256 (flash d) g b)"
      using outcome [THEN conjunct2, THEN conjunct2, THEN conjunct1] same ran(3,4,8) by auto
    ultimately show ?thesis using ok by blast
  qed
qed

text \<open>
  Abandoning the running trial needs the caller's word that it has stopped: an OK result for a
  trial of this boot means the callback answered yes for this operation.
\<close>

lemma abandon_certifies:
  assumes "slots_abandon (Some (io_ptrs io)) psa (Some g) n boot_id stop_fn state d = ((SLOTS_OK, st), d')"
  shows "\<exists>s. stored nvs g d s \<and> ss_sequence s = n \<and> phase_pending (ss_phase s) \<and>
    st = Some (numbered s (s\<lparr>ss_phase := SLOT_ABORTED\<rparr>)) \<and>
    (ss_phase s \<in> {SLOT_TRIAL_STARTED, SLOT_HEALTH_VERIFIED} \<and>
       boot_id = Some (so_trial_boot_id (ss_operation s)) \<longrightarrow>
     (\<exists>stopped x. stop_fn = Some stopped \<and> fst (stopped (so_operation_id (ss_operation s)) x)))"
proof -
  from assms have args: "boot_id \<noteq> None"
    and "with_lock io state (abandon_locked io psa g n (the boot_id) stop_fn) d = ((SLOTS_OK, st), d')"
    by (auto simp: slots_abandon_def split: if_splits)
  from this(2) never_ok_bodies(6) obtain d1 t d2 where ran: "nvs d1 = nvs d"
    "abandon_locked io psa g n (the boot_id) stop_fn d1 = (Inr t, d2)" "st = Some t"
    by (rule with_lock_OK)
  from ran(2) obtain s x y z where first: "begin_locked io g n d1 = (Inr s, x)"
    and guard: "\<not> (ss_phase s < SLOT_WRITING \<or> ss_phase s > SLOT_HEALTH_VERIFIED)"
    and stop: "stop_check s (the boot_id) stop_fn x = (Inr (), y)"
    and commit: "commit_next io g s (s\<lparr>ss_phase := SLOT_ABORTED\<rparr>) z = (Inr t, d2)"
    by (auto simp: abandon_locked_def bindE_OK)
  have "stored nvs g d s" using begin_locked_OK(1) [OF first] ran(1) by (simp add: stored_def)
  moreover have "phase_pending (ss_phase s)" using guard by (simp add: phase_pending_def not_less)
  moreover have "\<exists>stopped x. stop_fn = Some stopped \<and> fst (stopped (so_operation_id (ss_operation s)) x)"
    if "ss_phase s \<in> {SLOT_TRIAL_STARTED, SLOT_HEALTH_VERIFIED}"
      "boot_id = Some (so_trial_boot_id (ss_operation s))"
  proof -
    have "ss_phase s \<ge> SLOT_TRIAL_STARTED \<and> so_trial_boot_id (ss_operation s) = the boot_id"
      using that by (auto simp: less_eq_slot_phase_def)
    then show ?thesis
      using stop by (auto simp: stop_check_def split: option.splits prod.splits if_splits intro!: exI [of _ x])
  qed
  ultimately show ?thesis
    using begin_locked_OK(2) [OF first] commit_OK(1) [OF commit] ran(3) by blast
qed

text \<open>The boot decision of \<open>reconcile\<close> and what it rests on.\<close>

lemma reconcile_decides:
  assumes "slots_reconcile (Some (io_ptrs io)) psa (Some g) f state decision d = ((res, st, Some dec), d')"
  shows "dec = BOOT_BLOCKED \<and> res \<noteq> SLOTS_OK \<or>
    (\<exists>s. stored nvs g d s \<and> st = Some s \<and> firmware_set_matches s (the f) \<and>
      (\<forall>b \<in> set (ss_bindings s). binding_intact sha256 (flash d) g b) \<and>
      (dec = BOOT_CONFIRMED \<and> res = SLOTS_OK \<and> \<not> phase_pending (ss_phase s) \<or>
       dec = BOOT_RECOVER_CONFIRMED \<and> res = SLOTS_OK \<and> phase_pending (ss_phase s) \<and>
         state_packages_intact sha256 (flash d) g s \<or>
       dec = BOOT_RECOVER_CONFIRMED_CANDIDATE_INVALID \<and> res \<noteq> SLOTS_OK \<and>
         ss_phase s \<in> {SLOT_PREPARED, SLOT_TRIAL_STARTED, SLOT_HEALTH_VERIFIED}))"
proof -
  consider "dec = BOOT_BLOCKED" "res \<in> {SLOTS_INVALID, SLOTS_BUSY}"
    | d1 d2 s where "io_lock io d = (True, d1)"
        "reconcile_locked io psa g (the f) d1 = ((res, s, dec), d2)" "st = Some s"
    using assms by (auto simp: slots_reconcile_def Let_def split: if_splits prod.splits bool.splits)
  then show ?thesis
  proof cases
    case 1
    then show ?thesis by auto
  next
    case (2 d1 d2 s)
    let ?m = "bindE (load_locked io g) (\<lambda>s. bindE (guardE (firmware_set_matches s (the f)) SLOTS_CONFLICT)
        (\<lambda>_. bindE (check_references io psa g s False) (\<lambda>_. retE s)))"
    have same: "flash d1 = flash d" "nvs d1 = nvs d" using lock_taken [OF 2(1)] by simp_all
    obtain q d3 where m: "?m d1 = (q, d3)" by fastforce
    have keep: "keeps (device_view flash nvs held) ?m" by (intro frame_intros)
    show ?thesis
    proof (cases q)
      case (Inl e)
      moreover have "codes {SLOTS_EMPTY, SLOTS_INVALID, SLOTS_IO_FAILED, SLOTS_CONFLICT, SLOTS_UNTRUSTED} ?m"
        by (intro code_intros) simp_all
      ultimately show ?thesis using 2(2) m codesD [of _ ?m] by (auto simp: reconcile_locked_def)
    next
      case (Inr s')
      then obtain x y z where load: "load_locked io g d1 = (Inr s', x)"
        and match: "firmware_set_matches s' (the f)"
        and check: "check_references io psa g s' False x = (Inr y, z)"
        using m by (auto simp: bindE_OK)
      have st: "stored nvs g d s'" using load_locked_OK(1) [OF load] same by (simp add: stored_def)
      have fl: "flash x = flash d" using viewD(1) [OF load_locked_keeps load] same by simp
      have d3: "flash d3 = flash d" using viewD(1) [OF keep m] same by simp
      have bindings: "\<forall>b \<in> set (ss_bindings s'). binding_intact sha256 (flash d) g b"
        using check_references_intact(1) [OF check] fl by simp
      obtain q4 d4 where cand: "hash_candidate io psa g s' d3 = (q4, d4)" by fastforce
      have codes: "q4 = Inl e \<Longrightarrow> e \<noteq> SLOTS_OK" for e
        using codesD [OF codes_hash_candidate [OF subset_refl], of io psa g s' d3 e d4] cand by auto
      have intact: "q4 = Inr u \<Longrightarrow> candidate_intact sha256 (flash d) g s'" for u
        using hash_candidate_intact [of g s' d3 u d4] cand d3 by auto
      show ?thesis
        using 2(2,3) m Inr cand st match bindings codes intact
        by (cases "ss_phase s'"; cases q4)
           (auto simp: reconcile_locked_def phase_pending_iff less_eq_slot_phase_def
             state_packages_intact_def)
    qed
  qed
qed

text \<open>Which Flash bytes a call may change: those of the slot that is reserved for writing.\<close>

lemma api_call_flash:
  assumes geometry: "geometry_valid (Some g)" and call: "api_call io psa g flash nvs held d d'"
    and changed: "flash d' a \<noteq> flash d a"
  shows "\<exists>s. stored nvs g d s \<and> ss_phase s = SLOT_WRITING \<and>
    slot_begin g (unat (so_slot (ss_operation s))) \<le> a \<and>
    a < slot_begin g (unat (so_slot (ss_operation s))) + slot_size g (unat (so_slot (ss_operation s)))"
proof -
  from api_call_effect [OF geometry call] changed obtain d1 d2 where
    run: "flash d1 = flash d" "nvs d1 = nvs d" "body_run g d1 d2" "flash d' = flash d2"
    by (auto simp: call_effect_def device_view_def)
  with changed have diff: "flash d2 a \<noteq> flash d1 a" by simp
  from run(3) show ?thesis
  proof (cases rule: body_run.cases)
    case (run_prepare n source_fn validate_fn r)
    from prepare_flash [OF geometry run_prepare(2,3,1)] diff obtain s where
      "stored nvs g d1 s" "ss_phase s = SLOT_WRITING"
      "\<not> outside_slot g (unat (so_slot (ss_operation s))) a"
      by auto
    then show ?thesis using run(2) by (auto simp: outside_slot_def stored_def)
  next
    case (run_initialize f bindings r)
    then show ?thesis using initialize_outcome diff by metis
  qed (use diff in \<open>auto dest!: viewD(1) [OF load_locked_keeps] keepsD [OF reserve_frame]
      keepsD [OF begin_trial_frame] keepsD [OF mark_healthy_frame] keepsD [OF confirm_frame]
      keepsD [OF abandon_frame]\<close>)
qed

end

end
