(* ===== verification/Slots_Live.thy ===== *)
theory Slots_Live
  imports Slots_Api
begin

text \<open>
  Progress: on a device that does not fail, every operation whose conditions hold returns OK
  and commits its step.  The safety theories say what an OK result means; this one says that
  the update protocol can be completed.

  The locale \<open>reliable_env\<close> adds to the contract of the callbacks that they succeed while the
  device is \<open>healthy\<close>, that erased Flash reads \<open>0xff\<close> and that writing Flash clears bits.
\<close>

text \<open>The situation in which an operation is called: a healthy device, the lock free, an intact store.\<close>

definition ready :: "(bytes \<Rightarrow> bytes) \<Rightarrow> ('d \<Rightarrow> nat \<Rightarrow> byte) \<Rightarrow> ('d \<Rightarrow> bytes option) \<Rightarrow> ('d \<Rightarrow> bool) \<Rightarrow>
    slots_geometry \<Rightarrow> ('d \<Rightarrow> bool) \<Rightarrow> 'd \<Rightarrow> slots_state \<Rightarrow> bool" where
  "ready sha256 flash nvs held g healthy d s \<longleftrightarrow> healthy d \<and> \<not> held d \<and> stored nvs g d s \<and>
     ss_sequence s \<noteq> 0xFFFFFFFF \<and> state_packages_intact sha256 (flash d) g s"

locale reliable_env =
  slot_env io flash nvs held psa absorbed sha256 +
  live_engine psa absorbed sha256 "device_view flash nvs held" healthy
  for io :: "'d slots_io" and flash nvs held and psa :: "('d, 'h) psa_api" and absorbed sha256
    and g :: slots_geometry and healthy :: "'d \<Rightarrow> bool" +
  assumes geometry: "geometry_valid (Some g)"
    and lock_free: "healthy d \<Longrightarrow> \<not> held d \<Longrightarrow> \<exists>d'. io_lock io d = (True, d') \<and> healthy d'"
    and unlock_healthy: "healthy d \<Longrightarrow> healthy (io_unlock io d)"
    and read_blob_healthy: "healthy d \<Longrightarrow> nvs d = Some blob \<Longrightarrow> length blob = SLOT_BLOB_BYTES \<Longrightarrow>
      \<exists>d'. io_read_blob io d = (BLOB_FOUND blob, d') \<and> healthy d'"
    and read_empty_healthy: "healthy d \<Longrightarrow> nvs d = None \<Longrightarrow>
      \<exists>d'. io_read_blob io d = (BLOB_NOT_FOUND, d') \<and> healthy d'"
    and write_blob_healthy: "healthy d \<Longrightarrow> length blob = SLOT_BLOB_BYTES \<Longrightarrow>
      \<exists>d'. io_write_blob io blob d = (True, d') \<and> healthy d'"
    and flash_read_healthy: "healthy d \<Longrightarrow> 0 < n \<Longrightarrow> unat (partition_offset_bytes g) \<le> unat off \<Longrightarrow>
      unat off + n \<le> unat (partition_offset_bytes g) + unat (partition_size_bytes g) \<Longrightarrow>
      \<exists>bs d'. io_flash_read io off n d = (Some bs, d') \<and> healthy d'"
    and flash_erase_healthy: "healthy d \<Longrightarrow> i < SLOT_COUNT \<Longrightarrow>
      \<exists>d'. io_flash_erase io (sr_offset_bytes (slot_at g i)) (sr_size_bytes (slot_at g i)) d = (True, d') \<and>
        healthy d' \<and> (\<forall>a. \<not> outside_slot g i a \<longrightarrow> flash d' a = 0xff)"
    and flash_write_healthy: "healthy d \<Longrightarrow> bs \<noteq> [] \<Longrightarrow> unat (partition_offset_bytes g) \<le> unat off \<Longrightarrow>
      unat off + length bs \<le> unat (partition_offset_bytes g) + unat (partition_size_bytes g) \<Longrightarrow>
      unat (write_unit_bytes g) dvd unat off \<Longrightarrow> unat (write_unit_bytes g) dvd length bs \<Longrightarrow>
      \<exists>d'. io_flash_write io off bs d = (True, d') \<and> healthy d' \<and>
        (\<forall>k < length bs. flash d' (unat off + k) = flash d (unat off + k) AND bs ! k)"
begin

text \<open>\<open>delivers m x d\<close>: on \<open>d\<close> the action returns \<open>x\<close>, leaves the view alone and stays healthy.\<close>

definition delivers :: "('d, slots_result, 'a) act \<Rightarrow> 'a \<Rightarrow> 'd \<Rightarrow> bool" where
  "delivers m x d \<longleftrightarrow> (\<exists>d'. m d = (Inr x, d') \<and> healthy d' \<and>
     device_view flash nvs held d' = device_view flash nvs held d)"

lemma delivers_keeps:
  assumes "keeps (device_view flash nvs held) m" and "\<exists>d'. m d = (Inr x, d') \<and> healthy d'"
  shows "delivers m x d"
  using assms keepsD [OF assms(1)] by (auto simp: delivers_def)

lemma delivers_ret: "healthy d \<Longrightarrow> delivers (retE x) x d"
  by (simp add: delivers_def)

lemma delivers_guard: "healthy d \<Longrightarrow> b \<Longrightarrow> delivers (guardE b e) () d"
  by (simp add: delivers_def)

lemma delivers_bind:
  assumes "delivers m x d"
    and "\<And>d'. healthy d' \<Longrightarrow> device_view flash nvs held d' = device_view flash nvs held d \<Longrightarrow> delivers (f x) y d'"
  shows "delivers (bindE m f) y d"
proof -
  from assms(1) obtain d1 where m: "m d = (Inr x, d1)" "healthy d1"
    and v: "device_view flash nvs held d1 = device_view flash nvs held d"
    by (auto simp: delivers_def)
  from assms(2) [OF m(2) v] show ?thesis using m v by (auto simp: delivers_def bindE_def)
qed

lemma flash_relative_read_live:
  assumes "healthy d" and "i < SLOT_COUNT" and "unat n \<le> slot_size g i"
    and "0 < count" and "offset + count \<le> unat n"
  shows "\<exists>d'. flash_relative_read io \<lparr>rd_offset_bytes = sr_offset_bytes (slot_at g i), rd_size_bytes = n\<rparr>
      offset count d = (Some (content (flash d) (slot_begin g i + offset) count), d') \<and> healthy d'"
proof -
  let ?base = "sr_offset_bytes (slot_at g i)"
  note slot = geometry_valid_slot [OF geometry assms(2)]
  have fits: "offset + count \<le> slot_size g i" using assms(3,5) by simp
  have small: "unat ?base + offset < 4294967296"
    using slot(6) fits assms(4) by (simp add: slot_begin_def)
  have "?base \<le> 0xFFFFFFFF" using unat_u32_lt [of ?base] by (simp add: word_le_nat_alt)
  then have bound: "offset \<le> unat (0xFFFFFFFF - ?base)" using small by (simp add: unat_sub_le)
  have addr: "unat (?base + of_nat offset) = slot_begin g i + offset"
    using unat_add_of_nat [OF small] by (simp add: slot_begin_def)
  obtain bs d' where read: "io_flash_read io (?base + of_nat offset) count d = (Some bs, d')" "healthy d'"
    using flash_read_healthy [OF assms(1,4), of "?base + of_nat offset"] addr slot(4,5) fits by auto
  have "flash_relative_read io \<lparr>rd_offset_bytes = ?base, rd_size_bytes = n\<rparr> offset count d = (Some bs, d')"
    using read(1) assms(5) bound by (simp add: flash_relative_read_def)
  then show ?thesis using flash_read_bytes [OF read(1)] read(2) addr by simp
qed

lemma hash_loop_live:
  assumes i: "i < SLOT_COUNT" and n: "unat n \<le> slot_size g i"
  shows "healthy d \<Longrightarrow> \<exists>h' d'. hash_loop io psa
      \<lparr>rd_offset_bytes = sr_offset_bytes (slot_at g i), rd_size_bytes = n\<rparr> offset h d = (Inr h', d') \<and> healthy d'"
proof (induction offset arbitrary: h d rule: io_chunk_induct [where size_bytes = n])
  case (chunk offset)
  show ?case
  proof (cases "offset < n")
    case False
    with chunk.prems show ?thesis by (simp add: hash_loop.simps [of _ _ _ offset])
  next
    case True
    note bounds = io_chunk_bounds [OF True]
    obtain bs d1 where read: "flash_relative_read io
        \<lparr>rd_offset_bytes = sr_offset_bytes (slot_at g i), rd_size_bytes = n\<rparr> (unat offset) (io_chunk n offset) d
        = (Some bs, d1)" "healthy d1"
      using flash_relative_read_live [OF chunk.prems i n bounds(1,3)] by blast
    obtain h1 d2 where up: "digest_update psa h bs d1 = ((True, h1), d2)" "healthy d2"
      using digest_update_live [OF read(2)] by blast
    show ?thesis
      using chunk.IH [OF True up(2), of h1] read(1) up(1) True
      by (simp add: hash_loop.simps [of _ _ _ offset] Let_def)
  qed
qed

lemma hash_flash_live:
  assumes d: "healthy d" and i: "unat slot < SLOT_COUNT" and n: "0 < unat n" "unat n \<le> slot_size g (unat slot)"
    and digest: "sha256 (slot_content (flash d) g slot n) = expected"
  shows "delivers (hash_flash io psa g slot n expected) () d"
proof (rule delivers_keeps [OF hash_flash_keeps])
  let ?reader = "\<lparr>rd_offset_bytes = sr_offset_bytes (slot_at g (unat slot)), rd_size_bytes = n\<rparr>"
  obtain h d1 where s: "digest_start psa d = (Some h, d1)" "healthy d1" using digest_start_live [OF d] by blast
  obtain h2 d2 where l: "hash_loop io psa ?reader 0 h d1 = (Inr h2, d2)" "healthy d2"
    using hash_loop_live [OF i n(2) s(2)] by blast
  have view: "flash d1 = flash d" using viewD(1) [OF digest_start_keeps s(1)] .
  have "absorbed h2 = slot_content (flash d) g slot n"
    using hash_loop_run [OF l(1)] digest_start_absorbed [OF s(1)] view
    by (simp add: slot_content_def slot_begin_def)
  then obtain d3 where f: "digest_finish psa h2 d2 = (Some expected, d3)" "healthy d3"
    using digest_finish_live [OF l(2), of h2] digest by auto
  have "\<not> (SLOT_COUNT \<le> unat slot \<or> n = 0 \<or> sr_size_bytes (slot_at g (unat slot)) < n)"
    using i n by (auto simp: slot_size_def word_less_nat_alt)
  then show "\<exists>d'. hash_flash io psa g slot n expected d = (Inr (), d') \<and> healthy d'"
    using s(1) l(1) f by (simp add: hash_flash_def)
qed

text \<open>Every reference check passes when the packages are intact.\<close>

lemma check_bindings_live:
  assumes valid: "\<forall>b \<in> set bs. binding_valid b g"
  shows "healthy d \<Longrightarrow> \<forall>b \<in> set bs. binding_intact sha256 (flash d) g b \<Longrightarrow>
     delivers (check_bindings io psa g bs) () d"
  using valid
proof (induction bs arbitrary: d)
  case Nil
  then show ?case by (simp add: delivers_ret)
next
  case (Cons b bs)
  have first: "delivers (if sb_package_present b
      then hash_flash io psa g (sb_slot b) (sb_package_size_bytes b) (sb_package_sha256 b) else retE ()) () d"
  proof (cases "sb_package_present b")
    case True
    then have "delivers (hash_flash io psa g (sb_slot b) (sb_package_size_bytes b) (sb_package_sha256 b)) () d"
      using Cons.prems binding_valid_package [of b g]
      by (intro hash_flash_live) (auto simp: binding_intact_def)
    with True show ?thesis by simp
  next
    case False
    with Cons.prems show ?thesis by (simp add: delivers_ret)
  qed
  then show ?case
    unfolding check_bindings.simps
  proof (rule delivers_bind)
    fix d' assume "healthy d'" "device_view flash nvs held d' = device_view flash nvs held d"
    with Cons show "delivers (check_bindings io psa g bs) () d'" by (simp add: device_view_def)
  qed
qed

lemma hash_candidate_live:
  assumes "healthy d" and "operation_valid s g" and "ss_phase s \<noteq> SLOT_IDLE"
    and "candidate_intact sha256 (flash d) g s"
  shows "delivers (hash_candidate io psa g s) () d"
  unfolding hash_candidate_def
  using assms operation_valid_active [OF assms(2,3)] by (intro hash_flash_live) (simp_all add: candidate_intact_def)

lemma check_references_live:
  assumes d: "healthy d" and s: "state_shape s" "state_valid s g"
    and intact: "\<forall>b \<in> set (ss_bindings s). binding_intact sha256 (flash d) g b"
    and cand: "c \<Longrightarrow> state_packages_intact sha256 (flash d) g s"
  shows "delivers (check_references io psa g s c) () d"
  unfolding check_references_def
proof (rule delivers_bind)
  have "\<forall>b \<in> set (ss_bindings s). binding_valid b g"
    using s state_validD(3) [OF s(2)] by (auto simp: in_set_conv_nth state_shape_def)
  then show "delivers (check_bindings io psa g (ss_bindings s)) () d"
    using d intact by (rule check_bindings_live)
next
  fix d' assume d': "healthy d'" "device_view flash nvs held d' = device_view flash nvs held d"
  show "delivers (if c \<and> SLOT_PREPARED \<le> ss_phase s \<and> ss_phase s \<le> SLOT_HEALTH_VERIFIED
      then hash_candidate io psa g s else retE ()) () d'"
  proof (cases "c \<and> SLOT_PREPARED \<le> ss_phase s \<and> ss_phase s \<le> SLOT_HEALTH_VERIFIED")
    case True
    then have "ss_phase s \<in> {SLOT_PREPARED, SLOT_TRIAL_STARTED, SLOT_HEALTH_VERIFIED}"
      by (cases "ss_phase s") (auto simp: less_eq_slot_phase_def)
    then have "candidate_intact sha256 (flash d') g s" "ss_phase s \<noteq> SLOT_IDLE"
      using cand True d'(2) by (auto simp: state_packages_intact_def device_view_def)
    then have "delivers (hash_candidate io psa g s) () d'"
      using d'(1) state_validD(2) [OF s(2)] by (intro hash_candidate_live)
    with True show ?thesis by simp
  next
    case False
    then have "(if c \<and> SLOT_PREPARED \<le> ss_phase s \<and> ss_phase s \<le> SLOT_HEALTH_VERIFIED
      then hash_candidate io psa g s else retE ()) = retE ()" by auto
    then show ?thesis using d'(1) by (simp only: delivers_ret)
  qed
qed

lemma begin_locked_live:
  assumes d: "healthy d" and s: "stored nvs g d s"
  shows "delivers (begin_locked io g (ss_sequence s)) s d"
proof -
  from s obtain blob where blob: "nvs d = Some blob" "length blob = SLOT_BLOB_BYTES" "decode_state blob g = Some s"
    by (auto simp: stored_def)
  obtain d' where read: "io_read_blob io d = (BLOB_FOUND blob, d')" "healthy d'"
    using read_blob_healthy [OF d blob(1,2)] by blast
  have "delivers (load_locked io g) s d"
    using read blob(3) by (intro delivers_keeps [OF load_locked_keeps]) (auto simp: load_locked_def)
  then show ?thesis
    unfolding begin_locked_def by (rule delivers_bind, intro delivers_bind [OF delivers_guard] delivers_ret) auto
qed

text \<open>A move from the stored record commits.\<close>

lemma commit_live:
  assumes d: "healthy d" and s: "stored nvs g d s" and move: "slot_move g ev s t"
    and room: "ss_sequence s \<noteq> 0xFFFFFFFF"
  shows "\<exists>d'. commit_next io g s t d = (Inr (numbered s t), d') \<and> healthy d' \<and>
    stored nvs g d' (numbered s t)"
proof -
  have step: "slot_step g ev s (numbered s t)" using move room by (auto simp: slot_step_def)
  have valid: "state_valid (numbered s t) g" using slot_move_valid [OF move storedD [OF s] room] .
  have "state_shape (numbered s t)"
    using slot_move_shape [OF move] storedD(1) [OF s] by (simp add: state_shape_def)
  then have blob: "length (encode_state (numbered s t)) = SLOT_BLOB_BYTES" by (rule length_encode_state)
  obtain d1 where w: "io_write_blob io (encode_state (numbered s t)) d = (True, d1)" "healthy d1"
    using write_blob_healthy [OF d blob] by blast
  have nvs: "nvs d1 = Some (encode_state (numbered s t))" using write_blob_atomic [OF w(1)] by simp
  obtain d2 where r: "io_read_blob io d1 = (BLOB_FOUND (encode_state (numbered s t)), d2)" "healthy d2"
    using read_blob_healthy [OF w(2) nvs blob] by blast
  have "nvs d2 = Some (encode_state (numbered s t))" using viewD(2) [OF read_blob_keeps r(1)] nvs by simp
  then have "stored nvs g d2 (numbered s t)" by (rule slot_step_stored [OF s step])
  moreover have "commit_next io g s t d = (Inr (numbered s t), d2)"
    using room valid w(1) r(1) by (simp add: commit_next_def numbered_def persist_locked_def Let_def)
  ultimately show ?thesis using r(2) by blast
qed

lemma delivers_then:
  assumes "delivers m x d"
    and "\<And>d'. healthy d' \<Longrightarrow> device_view flash nvs held d' = device_view flash nvs held d \<Longrightarrow>
      \<exists>d''. f x d' = (Inr y, d'') \<and> Q d''"
  shows "\<exists>d''. bindE m f d = (Inr y, d'') \<and> Q d''"
  using assms by (fastforce simp: delivers_def bindE_def)

text \<open>The bodies that begin, check a guard and the references, and commit a move.\<close>

lemma step_body_live:
  assumes d: "healthy d" and s: "stored nvs g d s" and guard: "ok s"
    and intact: "state_packages_intact sha256 (flash d) g s"
    and move: "slot_move g ev s (upd s)" and room: "ss_sequence s \<noteq> 0xFFFFFFFF"
  shows "\<exists>d'. bindE (begin_locked io g (ss_sequence s)) (\<lambda>s. bindE (guardE (ok s) e) (\<lambda>_.
      bindE (check_references io psa g s c) (\<lambda>_. commit_next io g s (upd s)))) d
    = (Inr (numbered s (upd s)), d') \<and> healthy d' \<and> stored nvs g d' (numbered s (upd s))"
proof (rule delivers_then [OF begin_locked_live [OF d s]])
  fix d1 assume d1: "healthy d1" "device_view flash nvs held d1 = device_view flash nvs held d"
  show "\<exists>d'. bindE (guardE (ok s) e) (\<lambda>_. bindE (check_references io psa g s c)
      (\<lambda>_. commit_next io g s (upd s))) d1 = (Inr (numbered s (upd s)), d') \<and>
      healthy d' \<and> stored nvs g d' (numbered s (upd s))"
  proof (rule delivers_then [OF delivers_guard [OF d1(1) guard]])
    fix d2 assume d2: "healthy d2" "device_view flash nvs held d2 = device_view flash nvs held d1"
    have f2: "flash d2 = flash d" "nvs d2 = nvs d" using d1(2) d2(2) by (simp_all add: device_view_def)
    have "delivers (check_references io psa g s c) () d2"
      using intact f2 by (intro check_references_live [OF d2(1) storedD [OF s]])
        (auto simp: state_packages_intact_def)
    then show "\<exists>d'. bindE (check_references io psa g s c) (\<lambda>_. commit_next io g s (upd s)) d2
        = (Inr (numbered s (upd s)), d') \<and> healthy d' \<and> stored nvs g d' (numbered s (upd s))"
    proof (rule delivers_then)
      fix d3 assume d3: "healthy d3" "device_view flash nvs held d3 = device_view flash nvs held d2"
      have "stored nvs g d3 s" using s f2 d3(2) by (simp add: device_view_def stored_def)
      then show "\<exists>d'. commit_next io g s (upd s) d3 = (Inr (numbered s (upd s)), d') \<and>
          healthy d' \<and> stored nvs g d' (numbered s (upd s))"
        using move room by (intro commit_live [OF d3(1)])
    qed
  qed
qed

lemma with_lock_live:
  assumes d: "healthy d" "\<not> held d" and s: "stored nvs g d s"
    and body: "\<And>d1. healthy d1 \<Longrightarrow> flash d1 = flash d \<Longrightarrow> nvs d1 = nvs d \<Longrightarrow>
      \<exists>d2. body d1 = (Inr t, d2) \<and> healthy d2 \<and> stored nvs g d2 t"
  shows "\<exists>d'. with_lock io state body d = ((SLOTS_OK, Some t), d') \<and> healthy d' \<and> \<not> held d' \<and>
    stored nvs g d' t"
proof -
  obtain d1 where l: "io_lock io d = (True, d1)" "healthy d1" using lock_free [OF d] by blast
  obtain d2 where b: "body d1 = (Inr t, d2)" "healthy d2" "stored nvs g d2 t"
    using body [OF l(2)] lock_taken [OF l(1)] by blast
  show ?thesis
    using l(1) b unlock [of d2] unlock_healthy [OF b(2)] by (simp add: with_lock_def report_def stored_def)
qed

subsection \<open>The operations complete\<close>

lemma with_lock_step:
  assumes ready: "ready sha256 flash nvs held g healthy d s" and guard: "ok s" and move: "slot_move g ev s (upd s)"
  shows "\<exists>d'. with_lock io state (bindE (begin_locked io g (ss_sequence s)) (\<lambda>s. bindE (guardE (ok s) e) (\<lambda>_.
      bindE (check_references io psa g s c) (\<lambda>_. commit_next io g s (upd s))))) d
    = ((SLOTS_OK, Some (numbered s (upd s))), d') \<and> healthy d' \<and> \<not> held d' \<and>
    stored nvs g d' (numbered s (upd s))"
proof (rule with_lock_live)
  show "healthy d" "\<not> held d" "stored nvs g d s" using ready by (simp_all add: ready_def)
  fix d1 assume d1: "healthy d1" "flash d1 = flash d" "nvs d1 = nvs d"
  have s1: "stored nvs g d1 s" "state_packages_intact sha256 (flash d1) g s" "ss_sequence s \<noteq> 0xFFFFFFFF"
    using ready d1 by (simp_all add: ready_def stored_def)
  show "\<exists>d2. bindE (begin_locked io g (ss_sequence s)) (\<lambda>s. bindE (guardE (ok s) e) (\<lambda>_.
      bindE (check_references io psa g s c) (\<lambda>_. commit_next io g s (upd s)))) d1
    = (Inr (numbered s (upd s)), d2) \<and> healthy d2 \<and> stored nvs g d2 (numbered s (upd s))"
    by (rule step_body_live [where upd = upd and ok = ok, OF d1(1) s1(1) guard s1(2) move s1(3)])
qed

lemma begin_trial_live:
  assumes ready: "ready sha256 flash nvs held g healthy d s" and phase: "ss_phase s = SLOT_PREPARED"
    and boot: "length boot_id = 16" "\<not> all_zero boot_id"
  shows "\<exists>t d'. slots_begin_trial (Some (io_ptrs io)) psa (Some g) (ss_sequence s)
      (Some (so_target_firmware_sha256 (ss_operation s))) (Some boot_id) (Some state) d
      = ((SLOTS_OK, Some t), d') \<and> healthy d' \<and> \<not> held d' \<and> stored nvs g d' t \<and>
    slot_step g (EV_BEGIN_TRIAL boot_id) s t"
proof -
  let ?next = "\<lambda>s. s\<lparr>ss_phase := SLOT_TRIAL_STARTED,
      ss_operation := (ss_operation s)\<lparr>so_trial_boot_id := boot_id\<rparr>\<rparr>"
  have move: "slot_move g (EV_BEGIN_TRIAL boot_id) s (?next s)" using phase boot by (intro move_begin_trial)
  have "slot_step g (EV_BEGIN_TRIAL boot_id) s (numbered s (?next s))"
    using move ready by (auto simp: slot_step_def ready_def)
  then show ?thesis
    using with_lock_step [where upd = ?next and ok = "\<lambda>current. \<not> (ss_phase current \<noteq> SLOT_PREPARED \<or>
        so_target_firmware_sha256 (ss_operation current) \<noteq> so_target_firmware_sha256 (ss_operation s))"
        and e = SLOTS_CONFLICT and c = True and state = "Some state", OF ready _ move]
      geometry phase boot(2)
    by (auto simp: slots_begin_trial_def begin_trial_locked_def)
qed

lemma mark_healthy_live:
  assumes ready: "ready sha256 flash nvs held g healthy d s" and phase: "ss_phase s = SLOT_TRIAL_STARTED"
  shows "\<exists>t d'. slots_mark_healthy (Some (io_ptrs io)) psa (Some g) (ss_sequence s)
      (Some (so_trial_boot_id (ss_operation s))) (Some state) d
      = ((SLOTS_OK, Some t), d') \<and> healthy d' \<and> \<not> held d' \<and> stored nvs g d' t \<and>
    slot_step g EV_MARK_HEALTHY s t"
proof -
  let ?next = "\<lambda>s. s\<lparr>ss_phase := SLOT_HEALTH_VERIFIED\<rparr>"
  have move: "slot_move g EV_MARK_HEALTHY s (?next s)" using phase by (rule move_mark_healthy)
  have "slot_step g EV_MARK_HEALTHY s (numbered s (?next s))"
    using move ready by (auto simp: slot_step_def ready_def)
  then show ?thesis
    using with_lock_step [where upd = ?next and ok = "\<lambda>current. \<not> (ss_phase current \<noteq> SLOT_TRIAL_STARTED \<or>
        so_trial_boot_id (ss_operation current) \<noteq> so_trial_boot_id (ss_operation s))"
        and e = SLOTS_CONFLICT and c = True and state = "Some state", OF ready _ move]
      geometry phase
    by (auto simp: slots_mark_healthy_def mark_healthy_locked_def)
qed

text \<open>The target firmware of a pending operation always has a binding to confirm into.\<close>

lemma target_bound:
  assumes "state_shape s" and "operation_valid s g" and "ss_phase s \<noteq> SLOT_IDLE"
  obtains index where "binding_for_firmware s (so_target_firmware_sha256 (ss_operation s)) = Some index"
proof -
  have "\<exists>b \<in> set (ss_bindings s). sb_present b \<and>
      sb_firmware_sha256 b = so_target_firmware_sha256 (ss_operation s)"
    using operation_valid_fields(9) [OF assms(2,3)] .
  then have "binding_for_firmware s (so_target_firmware_sha256 (ss_operation s)) \<noteq> None"
    using assms(1) by (auto simp: binding_for_firmware_None in_set_conv_nth state_shape_def)
  then show thesis using that by auto
qed

lemma confirm_live:
  assumes ready: "ready sha256 flash nvs held g healthy d s" and phase: "ss_phase s = SLOT_HEALTH_VERIFIED"
  shows "\<exists>t d'. slots_confirm (Some (io_ptrs io)) psa (Some g) (ss_sequence s)
      (Some (so_target_firmware_sha256 (ss_operation s))) (Some (so_trial_boot_id (ss_operation s)))
      (Some state) d = ((SLOTS_OK, Some t), d') \<and> healthy d' \<and> \<not> held d' \<and> stored nvs g d' t \<and>
    slot_step g EV_CONFIRM s t"
proof -
  let ?fw = "so_target_firmware_sha256 (ss_operation s)"
  let ?next = "\<lambda>current. confirmed_state current (the (binding_for_firmware current ?fw))"
  have st: "state_shape s" "operation_valid s g"
    using ready storedD [of nvs g d s] state_validD(2) by (auto simp: ready_def)
  obtain index where index: "binding_for_firmware s ?fw = Some index"
    by (rule target_bound [OF st]) (use phase in auto)
  have move: "slot_move g EV_CONFIRM s (?next s)" using move_confirm [OF phase index] index by simp
  have "slot_step g EV_CONFIRM s (numbered s (?next s))"
    using move ready by (auto simp: slot_step_def ready_def)
  then show ?thesis
    using with_lock_step [where upd = ?next and ok = "\<lambda>current. \<not> (ss_phase current \<noteq> SLOT_HEALTH_VERIFIED \<or>
        binding_for_firmware current ?fw = None \<or> so_target_firmware_sha256 (ss_operation current) \<noteq> ?fw \<or>
        so_trial_boot_id (ss_operation current) \<noteq> so_trial_boot_id (ss_operation s))"
        and e = SLOTS_CONFLICT and c = True and state = "Some state", OF ready _ move]
      geometry phase index
    by (auto simp: slots_confirm_def confirm_locked_def)
qed

subsection \<open>Start and boot\<close>

lemma initialize_live:
  assumes d: "healthy d" "\<not> held d" and empty: "nvs d = None"
    and bindings: "length bindings = SLOT_BINDING_COUNT" "list_all binding_shape bindings"
    and valid: "state_valid (initial_state bindings) g" "firmware_set_valid (Some f)"
      "firmware_set_matches (initial_state bindings) f"
    and intact: "\<forall>b \<in> set bindings. binding_intact sha256 (flash d) g b"
  shows "\<exists>d'. slots_initialize (Some (io_ptrs io)) psa (Some g) (Some f) (Some bindings) d = (SLOTS_OK, d') \<and>
    healthy d' \<and> \<not> held d' \<and> stored nvs g d' (initial_state bindings)"
proof -
  let ?s = "initial_state bindings"
  have shape: "state_shape ?s"
    using bindings by (simp add: state_shape_def initial_state_def zero_state_def zero_operation_def
        operation_shape_def)
  obtain d1 where lock: "io_lock io d = (True, d1)" "healthy d1" using lock_free [OF d] by blast
  note v1 = lock_taken [OF lock(1)]
  obtain d2 where read: "io_read_blob io d1 = (BLOB_NOT_FOUND, d2)" "healthy d2"
    using read_empty_healthy [OF lock(2)] v1 empty by auto
  have "flash d2 = flash d" using viewD(1) [OF read_blob_keeps read(1)] v1 by simp
  then have "delivers (check_references io psa g ?s False) () d2"
    using intact by (intro check_references_live [OF read(2) shape valid(1)]) (simp_all add: initial_state_def)
  then obtain d3 where check: "check_references io psa g ?s False d2 = (Inr (), d3)" "healthy d3"
    by (auto simp: delivers_def)
  note blob = length_encode_state [OF shape]
  obtain d4 where w: "io_write_blob io (encode_state ?s) d3 = (True, d4)" "healthy d4"
    using write_blob_healthy [OF check(2) blob] by blast
  have nvs: "nvs d4 = Some (encode_state ?s)" using write_blob_atomic [OF w(1)] by simp
  obtain d5 where r: "io_read_blob io d4 = (BLOB_FOUND (encode_state ?s), d5)" "healthy d5"
    using read_blob_healthy [OF w(2) nvs blob] by blast
  have "initialize_locked io psa g f bindings d1 = (Inr ?s, d5)"
    using read(1) valid check(1) w(1) r(1)
    by (simp add: initialize_locked_def load_locked_def Let_def bindE_def persist_locked_def)
  moreover have "stored nvs g d5 ?s"
    using viewD(2) [OF read_blob_keeps r(1)] nvs shape valid(1) by (intro stored_encode) simp_all
  ultimately show ?thesis
    using geometry valid(2) lock(1) unlock [of d5] unlock_healthy [OF r(2)]
    by (simp add: slots_initialize_def with_lock_def report_def stored_def)
qed

lemma reconcile_live:
  assumes ready: "ready sha256 flash nvs held g healthy d s"
    and firmware: "firmware_set_valid (Some f)" "firmware_set_matches s f"
  shows "\<exists>d'. slots_reconcile (Some (io_ptrs io)) psa (Some g) (Some f) (Some state) (Some decision) d
      = ((SLOTS_OK, Some s, Some (if phase_pending (ss_phase s) then BOOT_RECOVER_CONFIRMED
          else BOOT_CONFIRMED)), d') \<and> healthy d'"
proof -
  have r: "healthy d" "\<not> held d" "stored nvs g d s" "state_packages_intact sha256 (flash d) g s"
    using ready by (simp_all add: ready_def)
  note st = storedD [OF r(3)]
  obtain d1 where lock: "io_lock io d = (True, d1)" "healthy d1" using lock_free [OF r(1,2)] by blast
  note v1 = lock_taken [OF lock(1)]
  obtain blob where blob: "nvs d1 = Some blob" "length blob = SLOT_BLOB_BYTES" "decode_state blob g = Some s"
    using r(3) v1 by (auto simp: stored_def)
  obtain d2 where read: "io_read_blob io d1 = (BLOB_FOUND blob, d2)" "healthy d2"
    using read_blob_healthy [OF lock(2) blob(1,2)] by blast
  have f2: "flash d2 = flash d" using viewD(1) [OF read_blob_keeps read(1)] v1 by simp
  have "delivers (check_references io psa g s False) () d2"
    using r(4) f2 by (intro check_references_live [OF read(2) st]) (simp_all add: state_packages_intact_def)
  then obtain d3 where check: "check_references io psa g s False d2 = (Inr (), d3)" "healthy d3"
    "flash d3 = flash d"
    using f2 by (auto simp: delivers_def device_view_def)
  have body: "bindE (load_locked io g) (\<lambda>s. bindE (guardE (firmware_set_matches s f) SLOTS_CONFLICT) (\<lambda>_.
      bindE (check_references io psa g s False) (\<lambda>_. retE s))) d1 = (Inr s, d3)"
    using read(1) blob(3) firmware(2) check(1)
    by (simp add: bindE_def load_locked_def guardE_def retE_def)
  show ?thesis
  proof (cases "ss_phase s \<in> {SLOT_PREPARED, SLOT_TRIAL_STARTED, SLOT_HEALTH_VERIFIED}")
    case True
    then have "delivers (hash_candidate io psa g s) () d3"
      using r(4) check(3) state_validD(2) [OF st(2)]
      by (intro hash_candidate_live [OF check(2)]) (auto simp: state_packages_intact_def)
    then obtain d4 where "hash_candidate io psa g s d3 = (Inr (), d4)" "healthy d4"
      by (auto simp: delivers_def)
    then show ?thesis
      using True body geometry firmware(1) lock(1) unlock_healthy [of d4]
      by (auto simp: slots_reconcile_def reconcile_locked_def phase_pending_iff less_eq_slot_phase_def Let_def)
  next
    case False
    then have "\<not> (SLOT_PREPARED \<le> ss_phase s \<and> ss_phase s \<le> SLOT_HEALTH_VERIFIED)"
      by (cases "ss_phase s") (simp_all add: less_eq_slot_phase_def)
    then show ?thesis
      using body geometry firmware(1) lock(1) unlock_healthy [OF check(2)]
      by (auto simp: slots_reconcile_def reconcile_locked_def phase_pending_def Let_def)
  qed
qed

end

end
