(* ===== verification/Slots_Write.thy ===== *)
theory Slots_Write
  imports Slots_Live
begin

text \<open>
  Progress of the two operations that put a package into a slot: reserving, and writing the
  candidate through the chunk loop.  The loop pads the last chunk to the write unit with
  \<open>0xff\<close>; on erased Flash the slot then holds exactly the bytes of the source.
\<close>

lemma round_up_ge: "0 < w \<Longrightarrow> (a :: nat) \<le> (a + w - 1) div w * w"
proof -
  assume w: "0 < w"
  have "(a + w - 1) mod w < w" using w by simp
  moreover have "(a + w - 1) div w * w + (a + w - 1) mod w = a + w - 1" by (rule div_mult_mod_eq)
  ultimately show ?thesis using w by linarith
qed

lemma aligned_count_bounds:
  assumes "geometry_valid (Some g)"
  shows "n \<le> aligned_count g n" and "unat (write_unit_bytes g) dvd aligned_count g n"
    and "unat (write_unit_bytes g) dvd m \<Longrightarrow> n \<le> m \<Longrightarrow> aligned_count g n \<le> m"
    and "aligned_count g n \<le> n + SLOT_IO_BYTES"
proof -
  note unit = geometry_valid_units [OF assms]
  show "n \<le> aligned_count g n"
    unfolding aligned_count_def using unit(1) by (rule round_up_ge)
  show "unat (write_unit_bytes g) dvd aligned_count g n"
    by (simp add: aligned_count_def)
  show "unat (write_unit_bytes g) dvd m \<Longrightarrow> n \<le> m \<Longrightarrow> aligned_count g n \<le> m"
    unfolding aligned_count_def using unit(1) by (rule round_up_le)
  have "aligned_count g n \<le> n + unat (write_unit_bytes g) - 1"
    unfolding aligned_count_def by (rule div_times_less_eq_dividend)
  then show "aligned_count g n \<le> n + SLOT_IO_BYTES" using unit(2) by (simp add: SLOT_IO_BYTES_def)
qed

lemma length_write_buffer_exact:
  "length bs = n \<Longrightarrow> n \<le> aligned \<Longrightarrow> aligned \<le> n + SLOT_IO_BYTES \<Longrightarrow>
     length (write_buffer n aligned bs) = aligned"
  by (simp add: write_buffer_def)

lemma write_buffer_nth:
  "length bs = n \<Longrightarrow> aligned \<le> n + SLOT_IO_BYTES \<Longrightarrow> k < aligned \<Longrightarrow>
     write_buffer n aligned bs ! k = (if k < n then bs ! k else 0xff)"
  by (simp add: write_buffer_def nth_append)

lemma ones_byte [simp]: "(0xff :: byte) AND x = x"
proof -
  have "(0xff :: byte) = - 1" by simp
  then show ?thesis by (simp only: and.left_neutral)
qed

text \<open>A source that serves the bytes of \<open>pkg\<close>, and a validator that accepts \<open>pkg\<close> once the slot holds it.\<close>

definition serves :: "('d \<Rightarrow> 'v) \<Rightarrow> ('d \<Rightarrow> bool) \<Rightarrow> 'd slot_source_fn \<Rightarrow> bytes \<Rightarrow> bool" where
  "serves view healthy source_fn pkg \<longleftrightarrow> quiet_source view source_fn \<and>
     (\<forall>off n d. healthy d \<longrightarrow> off + n \<le> length pkg \<longrightarrow>
       (\<exists>d'. source_fn off n d = (Some (take n (drop off pkg)), d') \<and> healthy d'))"

definition accepts :: "('d \<Rightarrow> 'v) \<Rightarrow> ('d \<Rightarrow> nat \<Rightarrow> byte) \<Rightarrow> ('d \<Rightarrow> bool) \<Rightarrow> 'd slots_io \<Rightarrow> slots_geometry \<Rightarrow>
    'd slot_validate_fn \<Rightarrow> slot_operation \<Rightarrow> bytes \<Rightarrow> bool" where
  "accepts view flash healthy io g validate_fn p pkg \<longleftrightarrow> quiet_validator view validate_fn \<and>
     (\<forall>d. healthy d \<longrightarrow> slot_content (flash d) g (so_slot p) (so_package_size_bytes p) = pkg \<longrightarrow>
        (\<exists>d'. validate_fn p (flash_relative_read io
            \<lparr>rd_offset_bytes = sr_offset_bytes (slot_at g (unat (so_slot p))),
             rd_size_bytes = so_package_size_bytes p\<rparr>)
            (unat (so_package_size_bytes p)) d = (VALIDATION_OK, d') \<and> healthy d'))"

context reliable_env
begin

text \<open>Positions of the slot from \<open>from\<close> on are erased.\<close>

definition erased_from :: "nat \<Rightarrow> nat \<Rightarrow> 'd \<Rightarrow> bool" where
  "erased_from i from d \<longleftrightarrow> (\<forall>k. from \<le> k \<and> k < slot_size g i \<longrightarrow> flash d (slot_begin g i + k) = 0xff)"

lemma write_chunk_live:
  assumes d: "healthy d" and i: "i < SLOT_COUNT" and n: "0 < n" "length bs = n"
    and fits: "unat offset + aligned_count g n \<le> slot_size g i"
    and aligned: "unat (write_unit_bytes g) dvd unat offset" and erased: "erased_from i (unat offset) d"
  shows "\<exists>d'. io_flash_write io (sr_offset_bytes (slot_at g i) + offset)
      (write_buffer n (aligned_count g n) bs) d = (True, d') \<and> healthy d' \<and>
    (\<forall>k < n. flash d' (slot_begin g i + unat offset + k) = bs ! k) \<and>
    (\<forall>k < unat offset. flash d' (slot_begin g i + k) = flash d (slot_begin g i + k)) \<and>
    erased_from i (unat offset + n) d'"
proof -
  note slot = geometry_valid_slot [OF geometry i] and unit = geometry_valid_units [OF geometry]
    and round = aligned_count_bounds [OF geometry]
  let ?buffer = "write_buffer n (aligned_count g n) bs"
  have len: "length ?buffer = aligned_count g n"
    using n(2) round by (intro length_write_buffer_exact) simp_all
  have "unat (sr_offset_bytes (slot_at g i)) + unat offset < 4294967296"
    using slot(6) fits by (simp add: slot_begin_def)
  then have addr: "unat (sr_offset_bytes (slot_at g i) + offset) = slot_begin g i + unat offset"
    using unat_add_of_nat [of "sr_offset_bytes (slot_at g i)" "unat offset"] by (simp add: slot_begin_def)
  have w: "unat (write_unit_bytes g) dvd slot_begin g i + unat offset"
    using dvd_trans [OF unit(4) slot(2)] aligned by simp
  have "?buffer \<noteq> []" using len n(1) round(1) [of n] by auto
  then obtain d' where run: "io_flash_write io (sr_offset_bytes (slot_at g i) + offset) ?buffer d = (True, d')"
    and d': "healthy d'"
    and program: "\<forall>k < aligned_count g n. flash d' (slot_begin g i + unat offset + k)
        = flash d (slot_begin g i + unat offset + k) AND ?buffer ! k"
    using flash_write_healthy [OF d, of ?buffer "sr_offset_bytes (slot_at g i) + offset"]
      slot(4,5) fits len addr w round(2) by auto
  have inside: "flash d' (slot_begin g i + unat offset + k) = (if k < n then bs ! k else 0xff)"
    if "k < aligned_count g n" for k
  proof -
    have "flash d (slot_begin g i + (unat offset + k)) = 0xff"
      using erased that fits by (simp add: erased_from_def)
    then show ?thesis
      using program that write_buffer_nth [OF n(2) round(4) that] by (simp add: add.assoc)
  qed
  have outside: "flash d' a = flash d a"
    if "a < slot_begin g i + unat offset \<or> slot_begin g i + unat offset + aligned_count g n \<le> a" for a
    using flash_write_outside [OF run] that addr len by simp
  have "erased_from i (unat offset + n) d'"
    unfolding erased_from_def
  proof (intro allI impI)
    fix k assume k: "unat offset + n \<le> k \<and> k < slot_size g i"
    show "flash d' (slot_begin g i + k) = 0xff"
    proof (cases "k < unat offset + aligned_count g n")
      case True
      with k inside [of "k - unat offset"] show ?thesis by auto
    next
      case False
      with k outside [of "slot_begin g i + k"] erased show ?thesis by (simp add: erased_from_def)
    qed
  qed
  moreover have "\<forall>k < n. flash d' (slot_begin g i + unat offset + k) = bs ! k"
    using inside round(1) [of n] by auto
  ultimately show ?thesis using run d' outside by auto
qed

lemma write_loop_live:
  assumes i: "i < SLOT_COUNT" and fits: "unat total_bytes \<le> slot_size g i"
    and pkg: "length pkg = unat total_bytes" and source: "serves (device_view flash nvs held) healthy source_fn pkg"
  shows "healthy d \<Longrightarrow> unat (write_unit_bytes g) dvd unat offset \<or> total_bytes \<le> offset \<Longrightarrow>
    erased_from i (unat offset) d \<Longrightarrow>
    \<exists>d'. write_loop io g source_fn (sr_offset_bytes (slot_at g i)) total_bytes offset d = (Inr (), d') \<and>
      healthy d' \<and> (\<forall>k < unat offset. flash d' (slot_begin g i + k) = flash d (slot_begin g i + k)) \<and>
      (\<forall>k. unat offset \<le> k \<and> k < unat total_bytes \<longrightarrow> flash d' (slot_begin g i + k) = pkg ! k)"
proof (induction offset arbitrary: d rule: io_chunk_induct [where size_bytes = total_bytes])
  case (chunk offset)
  show ?case
  proof (cases "offset < total_bytes")
    case False
    with chunk.prems show ?thesis by (auto simp: write_loop.simps [of _ _ _ _ _ offset] word_less_nat_alt)
  next
    case True
    let ?n = "io_chunk total_bytes offset"
    note unit = geometry_valid_units [OF geometry] and bounds = io_chunk_bounds [OF True]
    have aligned: "unat (write_unit_bytes g) dvd unat offset" using chunk.prems(2) True by auto
    have w_slot: "unat (write_unit_bytes g) dvd slot_size g i"
      using dvd_trans [OF unit(4) geometry_valid_slot(3) [OF geometry i]] .
    have "aligned_count g ?n \<le> slot_size g i - unat offset"
      using dvd_diff_nat [OF w_slot aligned] bounds(3) fits
      by (intro aligned_count_bounds(3) [OF geometry]) simp_all
    then have room: "unat offset + aligned_count g ?n \<le> slot_size g i" using bounds(3) fits by simp
    let ?bs = "take ?n (drop (unat offset) pkg)"
    have len: "length ?bs = ?n" using bounds(3) pkg by simp
    obtain d1 where src: "source_fn (unat offset) ?n d = (Some ?bs, d1)" "healthy d1"
      using source chunk.prems(1) bounds(3) pkg by (fastforce simp: serves_def)
    have f1: "flash d1 = flash d"
      using source src(1) viewD(1) [of "source_fn (unat offset) ?n"] by (auto simp: serves_def quiet_source_def)
    have "erased_from i (unat offset) d1" using chunk.prems(3) f1 by (simp add: erased_from_def)
    from write_chunk_live [OF src(2) i bounds(1) len room aligned this] obtain d2 where
      wr: "io_flash_write io (sr_offset_bytes (slot_at g i) + offset)
        (write_buffer ?n (aligned_count g ?n) ?bs) d1 = (True, d2)" "healthy d2"
      and new: "\<forall>k < ?n. flash d2 (slot_begin g i + unat offset + k) = ?bs ! k"
      and old: "\<forall>k < unat offset. flash d2 (slot_begin g i + k) = flash d1 (slot_begin g i + k)"
      and rest: "erased_from i (unat offset + ?n) d2"
      by blast
    have "unat (write_unit_bytes g) dvd unat (offset + of_nat ?n) \<or> total_bytes \<le> offset + of_nat ?n"
    proof (cases "?n < SLOT_IO_BYTES")
      case True
      then show ?thesis using bounds by (simp add: word_le_nat_alt)
    next
      case False
      then have "?n = 256" using bounds by (simp add: SLOT_IO_BYTES_def)
      then show ?thesis using bounds(4) aligned unit(3) by (simp add: dvd_add)
    qed
    from chunk.IH [OF True wr(2) this] rest bounds(4) obtain d3 where
      loop: "write_loop io g source_fn (sr_offset_bytes (slot_at g i)) total_bytes (offset + of_nat ?n) d2 = (Inr (), d3)"
        "healthy d3"
      and old3: "\<forall>k < unat offset + ?n. flash d3 (slot_begin g i + k) = flash d2 (slot_begin g i + k)"
      and new3: "\<forall>k. unat offset + ?n \<le> k \<and> k < unat total_bytes \<longrightarrow> flash d3 (slot_begin g i + k) = pkg ! k"
      by auto
    have "flash d3 (slot_begin g i + k) = pkg ! k" if "unat offset \<le> k" "k < unat total_bytes" for k
    proof (cases "k < unat offset + ?n")
      case True
      then have "flash d3 (slot_begin g i + k) = ?bs ! (k - unat offset)"
        using old3 new that(1) by (metis add.assoc le_add_diff_inverse less_diff_conv2 add.commute)
      then show ?thesis using True that pkg by simp
    next
      case False
      then show ?thesis using new3 that by simp
    qed
    moreover have "flash d3 (slot_begin g i + k) = flash d (slot_begin g i + k)" if "k < unat offset" for k
      using that old3 old f1 by simp
    ultimately show ?thesis
      using loop src(1) wr(1) True by (simp add: write_loop.simps [of _ _ _ _ _ offset] Let_def)
  qed
qed

lemma write_candidate_live:
  assumes d: "healthy d" and s: "operation_valid s g" "ss_phase s \<noteq> SLOT_IDLE"
    and pkg: "length pkg = unat (so_package_size_bytes (ss_operation s))" and source: "serves (device_view flash nvs held) healthy source_fn pkg"
  shows "\<exists>d'. write_candidate io g source_fn s d = (Inr (), d') \<and> healthy d' \<and>
    slot_content (flash d') g (so_slot (ss_operation s)) (so_package_size_bytes (ss_operation s)) = pkg"
proof -
  let ?i = "unat (so_slot (ss_operation s))"
  note op = operation_valid_active [OF s]
  obtain d1 where e: "io_flash_erase io (sr_offset_bytes (slot_at g ?i)) (sr_size_bytes (slot_at g ?i)) d
      = (True, d1)" "healthy d1" "\<forall>a. \<not> outside_slot g ?i a \<longrightarrow> flash d1 a = 0xff"
    using flash_erase_healthy [OF d op(1)] by blast
  have "erased_from ?i (unat (0 :: u32)) d1" using e(3) by (simp add: erased_from_def outside_slot_def)
  from write_loop_live [OF op(1,3) pkg source e(2) _ this] obtain d2 where
    w: "write_loop io g source_fn (sr_offset_bytes (slot_at g ?i))
      (so_package_size_bytes (ss_operation s)) 0 d1 = (Inr (), d2)" "healthy d2"
    and bytes: "\<forall>k < unat (so_package_size_bytes (ss_operation s)). flash d2 (slot_begin g ?i + k) = pkg ! k"
    by auto
  have "slot_content (flash d2) g (so_slot (ss_operation s)) (so_package_size_bytes (ss_operation s)) = pkg"
    unfolding slot_content_def content_def using bytes pkg by (intro nth_equalityI) simp_all
  then show ?thesis using e(1) w by (auto simp: write_candidate_def Let_def)
qed

lemma validate_candidate_live:
  assumes d: "healthy d" and accept: "accepts (device_view flash nvs held) flash healthy io g validate_fn (ss_operation s) pkg"
    and content: "slot_content (flash d) g (so_slot (ss_operation s))
      (so_package_size_bytes (ss_operation s)) = pkg"
  shows "delivers (validate_candidate io g validate_fn s) () d"
proof (rule delivers_keeps)
  show "keeps (device_view flash nvs held) (validate_candidate io g validate_fn s)"
    using accept by (intro validate_candidate_keeps) (simp add: accepts_def)
  have "\<exists>d'. validate_fn (ss_operation s) (flash_relative_read io
            \<lparr>rd_offset_bytes = sr_offset_bytes (slot_at g (unat (so_slot (ss_operation s)))),
             rd_size_bytes = so_package_size_bytes (ss_operation s)\<rparr>)
            (unat (so_package_size_bytes (ss_operation s))) d = (VALIDATION_OK, d') \<and> healthy d'"
    using accept d content unfolding accepts_def by blast
  then show "\<exists>d'. validate_candidate io g validate_fn s d = (Inr (), d') \<and> healthy d'"
    by (auto simp: validate_candidate_def)
qed

lemma prepare_live:
  assumes ready: "ready sha256 flash nvs held g healthy d s" and phase: "ss_phase s = SLOT_WRITING"
    and pkg: "length pkg = unat (so_package_size_bytes (ss_operation s))"
      "sha256 pkg = so_package_sha256 (ss_operation s)"
    and source: "serves (device_view flash nvs held) healthy source_fn pkg" and accept: "accepts (device_view flash nvs held) flash healthy io g validate_fn (ss_operation s) pkg"
  shows "\<exists>t d'. slots_write_and_prepare (Some (io_ptrs io)) psa (Some g) (ss_sequence s)
      (Some source_fn) (Some validate_fn) (Some state) d = ((SLOTS_OK, Some t), d') \<and>
    healthy d' \<and> \<not> held d' \<and> stored nvs g d' t \<and> slot_step g EV_PREPARE s t"
proof -
  let ?t = "s\<lparr>ss_phase := SLOT_PREPARED\<rparr>" and ?op = "ss_operation s"
  have move: "slot_move g EV_PREPARE s ?t" using phase by (rule move_prepare)
  have r: "healthy d" "\<not> held d" "stored nvs g d s" "ss_sequence s \<noteq> 0xFFFFFFFF"
    "state_packages_intact sha256 (flash d) g s"
    using ready by (simp_all add: ready_def)
  note st = storedD [OF r(3)]
  have op: "operation_valid s g" "ss_phase s \<noteq> SLOT_IDLE" using state_validD(2) [OF st(2)] phase by simp_all
  have "\<exists>d2. write_and_prepare_locked io psa g (ss_sequence s) source_fn validate_fn d1
      = (Inr (numbered s ?t), d2) \<and> healthy d2 \<and> stored nvs g d2 (numbered s ?t)"
    if d1: "healthy d1" "flash d1 = flash d" "nvs d1 = nvs d" for d1
    unfolding write_and_prepare_locked_def
  proof (rule delivers_then)
    have "stored nvs g d1 s" using r(3) d1(3) by (simp add: stored_def)
    with d1(1) show "delivers (begin_locked io g (ss_sequence s)) s d1" by (rule begin_locked_live)
  next
    fix d2 assume d2: "healthy d2" "device_view flash nvs held d2 = device_view flash nvs held d1"
    have v2: "flash d2 = flash d" "nvs d2 = nvs d" using d1 d2(2) by (simp_all add: device_view_def)
    have "delivers (check_references io psa g s False) () d2"
      using r(5) v2 by (intro check_references_live [OF d2(1) st]) (auto simp: state_packages_intact_def)
    then obtain d3 where c: "check_references io psa g s False d2 = (Inr (), d3)" "healthy d3"
      "device_view flash nvs held d3 = device_view flash nvs held d2"
      by (auto simp: delivers_def)
    obtain d4 where w: "write_candidate io g source_fn s d3 = (Inr (), d4)" "healthy d4"
      "slot_content (flash d4) g (so_slot ?op) (so_package_size_bytes ?op) = pkg"
      using write_candidate_live [OF c(2) op pkg(1) source] by blast
    have s3: "stored nvs g d3 s" using r(3) v2 c(3) by (simp add: device_view_def stored_def)
    have "quiet_source (device_view flash nvs held) source_fn" using source by (simp add: serves_def)
    from quiet_sourceD [OF this] have "nvs d4 = nvs d3"
      using write_candidate_confined [OF geometry s3 op(2) _ w(1)] by (simp add: kept_outside_def)
    then have s4: "stored nvs g d4 s" using s3 by (simp add: stored_def)
    have h: "delivers (hash_candidate io psa g s) () d4"
      using w(3) pkg(2) by (intro hash_candidate_live [OF w(2) op]) (simp add: candidate_intact_def)
    have "\<exists>d'. bindE (hash_candidate io psa g s) (\<lambda>_. bindE (validate_candidate io g validate_fn s)
        (\<lambda>_. commit_next io g s ?t)) d4 = (Inr (numbered s ?t), d') \<and> healthy d' \<and> stored nvs g d' (numbered s ?t)"
    proof (rule delivers_then [OF h])
      fix d5 assume d5: "healthy d5" "device_view flash nvs held d5 = device_view flash nvs held d4"
      have "delivers (validate_candidate io g validate_fn s) () d5"
        using w(3) d5(2) by (intro validate_candidate_live [OF d5(1) accept]) (simp add: device_view_def)
      then show "\<exists>d'. bindE (validate_candidate io g validate_fn s) (\<lambda>_. commit_next io g s ?t) d5
          = (Inr (numbered s ?t), d') \<and> healthy d' \<and> stored nvs g d' (numbered s ?t)"
      proof (rule delivers_then)
        fix d6 assume d6: "healthy d6" "device_view flash nvs held d6 = device_view flash nvs held d5"
        have "stored nvs g d6 s" using s4 d5(2) d6(2) by (simp add: device_view_def stored_def)
        then show "\<exists>d'. commit_next io g s ?t d6 = (Inr (numbered s ?t), d') \<and> healthy d' \<and>
            stored nvs g d' (numbered s ?t)"
          using move r(4) by (intro commit_live [OF d6(1)])
      qed
    qed
    then show "\<exists>d'. bindE (guardE (ss_phase s = SLOT_WRITING) SLOTS_CONFLICT) (\<lambda>_.
        bindE (check_references io psa g s False) (\<lambda>_. bindE (write_candidate io g source_fn s) (\<lambda>_.
        bindE (hash_candidate io psa g s) (\<lambda>_. bindE (validate_candidate io g validate_fn s) (\<lambda>_.
        commit_next io g s ?t))))) d2 = (Inr (numbered s ?t), d') \<and> healthy d' \<and> stored nvs g d' (numbered s ?t)"
      using phase c(1) w(1) by (simp add: bindE_basic) (simp add: bindE_def)
  qed
  then have "\<exists>d'. with_lock io (Some state) (write_and_prepare_locked io psa g (ss_sequence s) source_fn validate_fn) d
      = ((SLOTS_OK, Some (numbered s ?t)), d') \<and> healthy d' \<and> \<not> held d' \<and> stored nvs g d' (numbered s ?t)"
    by (rule with_lock_live [OF r(1-3)])
  moreover have "slot_step g EV_PREPARE s (numbered s ?t)" using move r(4) by (auto simp: slot_step_def)
  ultimately show ?thesis using geometry by (auto simp: slots_write_and_prepare_def)
qed

text \<open>A permitted request reaches the choice of a slot.\<close>

lemma reserve_reaches_choice:
  assumes d1: "healthy d1" and s: "stored nvs g d1 s" and intact: "state_packages_intact sha256 (flash d1) g s"
    and phase: "\<not> phase_pending (ss_phase s)" and firmware: "firmware_set_matches s f"
    and schema: "schema_compatible s (running_firmware_sha256 f) p"
    and fresh: "ss_phase s = SLOT_IDLE \<or> so_operation_id (ss_operation s) \<noteq> so_operation_id p"
  shows "\<exists>d3. healthy d3 \<and> stored nvs g d3 s \<and>
    reserve_locked io psa g (ss_sequence s) f p d1 =
      (case select_slot s g (so_package_size_bytes p) of None \<Rightarrow> failE SLOTS_NO_SPACE
       | Some selected \<Rightarrow> commit_next io g s (s\<lparr>ss_phase := SLOT_WRITING,
           ss_operation := p\<lparr>so_slot := of_nat selected\<rparr>\<rparr>)) d3"
proof -
  obtain d2 where first: "begin_locked io g (ss_sequence s) d1 = (Inr s, d2)" "healthy d2"
    "device_view flash nvs held d2 = device_view flash nvs held d1"
    using begin_locked_live [OF d1 s] by (auto simp: delivers_def)
  have v2: "flash d2 = flash d1" "nvs d2 = nvs d1" using first(3) by (simp_all add: device_view_def)
  have "delivers (check_references io psa g s True) () d2"
    using intact v2 by (intro check_references_live [OF first(2) storedD [OF s]])
      (auto simp: state_packages_intact_def)
  then obtain d3 where c: "check_references io psa g s True d2 = (Inr (), d3)" "healthy d3"
    "device_view flash nvs held d3 = device_view flash nvs held d2"
    by (auto simp: delivers_def)
  have step: "bindE (begin_locked io g (ss_sequence s)) f' d1 = f' s d2"
    for f' :: "slots_state \<Rightarrow> ('d, slots_result, slots_state) act"
    using first(1) by (simp add: bindE_def)
  have check: "bindE (check_references io psa g s True) f' d2 = f' () d3"
    for f' :: "unit \<Rightarrow> ('d, slots_result, slots_state) act"
    using c(1) by (simp add: bindE_def)
  have "stored nvs g d3 s" using s v2 c(3) by (simp add: device_view_def stored_def)
  moreover have "reserve_locked io psa g (ss_sequence s) f p d1 =
      (case select_slot s g (so_package_size_bytes p) of None \<Rightarrow> failE SLOTS_NO_SPACE
       | Some selected \<Rightarrow> commit_next io g s (s\<lparr>ss_phase := SLOT_WRITING,
           ss_operation := p\<lparr>so_slot := of_nat selected\<rparr>\<rparr>)) d3"
    unfolding reserve_locked_def step using firmware schema fresh phase
    by (auto simp: bindE_basic check phase_pending_def)
  ultimately show ?thesis using c(2) by blast
qed

lemma reserve_live:
  assumes ready: "ready sha256 flash nvs held g healthy d s" and phase: "\<not> phase_pending (ss_phase s)"
    and firmware: "firmware_set_valid (Some f)" "firmware_set_matches s f"
    and schema: "schema_compatible s (running_firmware_sha256 f) p"
    and request: "operation_requestable f p"
    and fresh: "ss_phase s = SLOT_IDLE \<or> so_operation_id (ss_operation s) \<noteq> so_operation_id p"
    and choice: "select_slot s g (so_package_size_bytes p) = Some i"
  shows "\<exists>t d'. slots_reserve (Some (io_ptrs io)) psa (Some g) (ss_sequence s) (Some f) (Some p)
      (Some state) d = ((SLOTS_OK, Some t), d') \<and> healthy d' \<and> \<not> held d' \<and> stored nvs g d' t \<and>
    slot_step g (EV_RESERVE p) s t \<and> so_slot (ss_operation t) = of_nat i"
proof -
  let ?t = "s\<lparr>ss_phase := SLOT_WRITING, ss_operation := p\<lparr>so_slot := of_nat i\<rparr>\<rparr>"
  have r: "healthy d" "\<not> held d" "stored nvs g d s" "ss_sequence s \<noteq> 0xFFFFFFFF"
    "state_packages_intact sha256 (flash d) g s"
    using ready by (simp_all add: ready_def)
  have move: "slot_move g (EV_RESERVE p) s ?t"
    using phase request schema storedD(1) [OF r(3)] choice by (rule reserve_is_move)
  have "\<exists>d2. reserve_locked io psa g (ss_sequence s) f p d1 = (Inr (numbered s ?t), d2) \<and> healthy d2 \<and>
      stored nvs g d2 (numbered s ?t)"
    if d1: "healthy d1" "flash d1 = flash d" "nvs d1 = nvs d" for d1
  proof -
    have "stored nvs g d1 s" "state_packages_intact sha256 (flash d1) g s"
      using r(3,5) d1 by (simp_all add: stored_def)
    from reserve_reaches_choice [OF d1(1) this phase firmware(2) schema fresh] obtain d3 where
      d3: "healthy d3" "stored nvs g d3 s"
      and run: "reserve_locked io psa g (ss_sequence s) f p d1 = commit_next io g s ?t d3"
      using choice by auto
    show ?thesis unfolding run using move r(4) by (rule commit_live [OF d3])
  qed
  then have "\<exists>d'. with_lock io (Some state) (reserve_locked io psa g (ss_sequence s) f p) d
      = ((SLOTS_OK, Some (numbered s ?t)), d') \<and> healthy d' \<and> \<not> held d' \<and> stored nvs g d' (numbered s ?t)"
    by (rule with_lock_live [OF r(1-3)])
  moreover have "slot_step g (EV_RESERVE p) s (numbered s ?t)" "so_slot (ss_operation (numbered s ?t)) = of_nat i"
    using move r(4) by (auto simp: slot_step_def)
  ultimately show ?thesis using geometry firmware(1) request
    by (auto simp: slots_reserve_def operation_requestable_def)
qed

lemma reserve_refuses:
  assumes ready: "ready sha256 flash nvs held g healthy d s" and phase: "\<not> phase_pending (ss_phase s)"
    and firmware: "firmware_set_valid (Some f)" "firmware_set_matches s f"
    and schema: "schema_compatible s (running_firmware_sha256 f) p"
    and request: "operation_requestable f p"
    and fresh: "ss_phase s = SLOT_IDLE \<or> so_operation_id (ss_operation s) \<noteq> so_operation_id p"
    and choice: "select_slot s g (so_package_size_bytes p) = None"
  shows "\<exists>d'. slots_reserve (Some (io_ptrs io)) psa (Some g) (ss_sequence s) (Some f) (Some p)
      (Some state) d = ((SLOTS_NO_SPACE, Some state), d')"
proof -
  have r: "healthy d" "\<not> held d" "stored nvs g d s" "state_packages_intact sha256 (flash d) g s"
    using ready by (simp_all add: ready_def)
  obtain d1 where lock: "io_lock io d = (True, d1)" "healthy d1" using lock_free [OF r(1,2)] by blast
  have "stored nvs g d1 s" "state_packages_intact sha256 (flash d1) g s"
    using r(3,4) lock_taken [OF lock(1)] by (simp_all add: stored_def)
  from reserve_reaches_choice [OF lock(2) this phase firmware(2) schema fresh] obtain d3 where
    "reserve_locked io psa g (ss_sequence s) f p d1 = (Inl SLOTS_NO_SPACE, d3)"
    using choice by (auto simp: failE_def)
  then show ?thesis using geometry firmware(1) request lock(1)
    by (auto simp: slots_reserve_def operation_requestable_def with_lock_def report_def)
qed

lemma abandon_live:
  assumes ready: "ready sha256 flash nvs held g healthy d s" and phase: "phase_pending (ss_phase s)"
    and other_boot: "ss_phase s \<in> {SLOT_WRITING, SLOT_PREPARED} \<or> so_trial_boot_id (ss_operation s) \<noteq> boot_id"
  shows "\<exists>t d'. slots_abandon (Some (io_ptrs io)) psa (Some g) (ss_sequence s) (Some boot_id) stop_fn
      (Some state) d = ((SLOTS_OK, Some t), d') \<and> healthy d' \<and> \<not> held d' \<and> stored nvs g d' t \<and>
    slot_step g EV_ABANDON s t"
proof -
  let ?next = "\<lambda>s. s\<lparr>ss_phase := SLOT_ABORTED\<rparr>"
  have r: "healthy d" "\<not> held d" "stored nvs g d s" "ss_sequence s \<noteq> 0xFFFFFFFF"
    "state_packages_intact sha256 (flash d) g s"
    using ready by (simp_all add: ready_def)
  note st = storedD [OF r(3)]
  have move: "slot_move g EV_ABANDON s (?next s)" using phase by (rule move_abandon)
  have guard: "\<not> (ss_phase s < SLOT_WRITING \<or> SLOT_HEALTH_VERIFIED < ss_phase s)"
    using phase by (auto simp: phase_pending_def not_less)
  have stop: "stop_check s boot_id stop_fn x = (Inr (), x)" for x
    using other_boot by (auto simp: stop_check_def less_eq_slot_phase_def)
  have "\<exists>d2. abandon_locked io psa g (ss_sequence s) boot_id stop_fn d1
      = (Inr (numbered s (?next s)), d2) \<and> healthy d2 \<and> stored nvs g d2 (numbered s (?next s))"
    if d1: "healthy d1" "flash d1 = flash d" "nvs d1 = nvs d" for d1
    unfolding abandon_locked_def
  proof (rule delivers_then)
    have "stored nvs g d1 s" using r(3) d1(3) by (simp add: stored_def)
    with d1(1) show "delivers (begin_locked io g (ss_sequence s)) s d1" by (rule begin_locked_live)
  next
    fix d2 assume d2: "healthy d2" "device_view flash nvs held d2 = device_view flash nvs held d1"
    have v2: "flash d2 = flash d" "nvs d2 = nvs d" using d1 d2(2) by (simp_all add: device_view_def)
    have "delivers (check_references io psa g s False) () d2"
      using r(5) v2 by (intro check_references_live [OF d2(1) st]) (auto simp: state_packages_intact_def)
    then obtain d3 where c: "check_references io psa g s False d2 = (Inr (), d3)" "healthy d3"
      "device_view flash nvs held d3 = device_view flash nvs held d2"
      by (auto simp: delivers_def)
    have "stored nvs g d3 s" using r(3) v2 c(3) by (simp add: device_view_def stored_def)
    from commit_live [OF c(2) this move r(4)]
    show "\<exists>d'. bindE (guardE (\<not> (ss_phase s < SLOT_WRITING \<or> SLOT_HEALTH_VERIFIED < ss_phase s)) SLOTS_CONFLICT)
        (\<lambda>_. bindE (stop_check s boot_id stop_fn) (\<lambda>_. bindE (check_references io psa g s False)
        (\<lambda>_. commit_next io g s (?next s)))) d2 = (Inr (numbered s (?next s)), d') \<and> healthy d' \<and>
        stored nvs g d' (numbered s (?next s))"
      using guard stop c(1) by (simp add: bindE_basic) (simp add: bindE_def)
  qed
  then have "\<exists>d'. with_lock io (Some state) (abandon_locked io psa g (ss_sequence s) boot_id stop_fn) d
      = ((SLOTS_OK, Some (numbered s (?next s))), d') \<and> healthy d' \<and> \<not> held d' \<and>
        stored nvs g d' (numbered s (?next s))"
    by (rule with_lock_live [OF r(1-3)])
  moreover have "slot_step g EV_ABANDON s (numbered s (?next s))" using move r(4) by (auto simp: slot_step_def)
  ultimately show ?thesis using geometry by (auto simp: slots_abandon_def)
qed

subsection \<open>The whole update\<close>

lemma ready_next:
  assumes ready: "ready sha256 flash nvs held g healthy d s" and "slot_step g ev s t"
    and "healthy d'" and "\<not> held d'" and "stored nvs g d' t" and "safe g d'"
    and room: "unat (ss_sequence s) + 1 < 4294967295"
  shows "ready sha256 flash nvs held g healthy d' t"
proof -
  have "unat (ss_sequence t) < 4294967295" using slot_step_sequence [OF assms(2)] room by simp
  then have "ss_sequence t \<noteq> 0xFFFFFFFF" by auto
  then show ?thesis using assms safeD by (auto simp: ready_def)
qed

lemma ready_call:
  assumes "ready sha256 flash nvs held g healthy d s" and "api_call io psa g flash nvs held d d'"
  shows "safe g d'"
proof -
  have "safe g d" using assms(1) by (auto simp: ready_def intro: safeI)
  moreover have "slots_call io psa g flash nvs held d d'" using assms(2) by (simp add: slots_call_def)
  ultimately show ?thesis using slots_call_safe [OF geometry] by blast
qed

end

text \<open>What each step of the update does to phase and operation.\<close>

lemma slot_step_fields:
  "slot_step g (EV_RESERVE p) s t \<Longrightarrow> ss_phase t = SLOT_WRITING \<and>
     ss_operation t = p\<lparr>so_slot := so_slot (ss_operation t)\<rparr>"
  "slot_step g EV_PREPARE s t \<Longrightarrow> ss_phase t = SLOT_PREPARED \<and> ss_operation t = ss_operation s"
  "slot_step g (EV_BEGIN_TRIAL boot_id) s t \<Longrightarrow> ss_phase t = SLOT_TRIAL_STARTED \<and>
     ss_operation t = (ss_operation s)\<lparr>so_trial_boot_id := boot_id\<rparr>"
  "slot_step g EV_MARK_HEALTHY s t \<Longrightarrow> ss_phase t = SLOT_HEALTH_VERIFIED \<and> ss_operation t = ss_operation s"
  "slot_step g EV_CONFIRM s t \<Longrightarrow> ss_phase t = SLOT_CONFIRMED \<and> ss_operation t = ss_operation s"
  by (auto simp: slot_step_def confirmed_state_def elim!: slot_move.cases)

lemma confirmed_member:
  assumes "state_valid t g" and "ss_phase t = SLOT_CONFIRMED"
  shows "\<exists>b \<in> set (ss_bindings t). binding_confirms b (ss_operation t)"
  using assms by (auto simp: state_valid_split list_ex_iff)

context reliable_env
begin

text \<open>
  From an idle store a package is reserved, written, tried, found healthy and confirmed, each
  call with the state the one before returned, and the package is then the confirmed one.
\<close>

lemma update_completes:
  assumes ready: "ready sha256 flash nvs held g healthy d s" and room: "unat (ss_sequence s) + 5 < 4294967295"
    and phase: "\<not> phase_pending (ss_phase s)"
    and firmware: "firmware_set_valid (Some f)" "firmware_set_matches s f"
    and schema: "schema_compatible s (running_firmware_sha256 f) p"
    and request: "operation_requestable f p"
    and fresh: "ss_phase s = SLOT_IDLE \<or> so_operation_id (ss_operation s) \<noteq> so_operation_id p"
    and choice: "select_slot s g (so_package_size_bytes p) = Some i"
    and pkg: "length pkg = unat (so_package_size_bytes p)" "sha256 pkg = so_package_sha256 p"
    and source: "serves (device_view flash nvs held) healthy source_fn pkg"
    and accept: "accepts (device_view flash nvs held) flash healthy io g validate_fn
      (p\<lparr>so_slot := of_nat i\<rparr>) pkg"
    and boot: "length boot_id = 16" "\<not> all_zero boot_id"
  shows "\<exists>t1 d1 t2 d2 t3 d3 t4 d4 t5 d5.
    slots_reserve (Some (io_ptrs io)) psa (Some g) (ss_sequence s) (Some f) (Some p) (Some s) d
      = ((SLOTS_OK, Some t1), d1) \<and>
    slots_write_and_prepare (Some (io_ptrs io)) psa (Some g) (ss_sequence t1) (Some source_fn)
      (Some validate_fn) (Some t1) d1 = ((SLOTS_OK, Some t2), d2) \<and>
    slots_begin_trial (Some (io_ptrs io)) psa (Some g) (ss_sequence t2)
      (Some (running_firmware_sha256 f)) (Some boot_id) (Some t2) d2 = ((SLOTS_OK, Some t3), d3) \<and>
    slots_mark_healthy (Some (io_ptrs io)) psa (Some g) (ss_sequence t3) (Some boot_id) (Some t3) d3
      = ((SLOTS_OK, Some t4), d4) \<and>
    slots_confirm (Some (io_ptrs io)) psa (Some g) (ss_sequence t4) (Some (running_firmware_sha256 f))
      (Some boot_id) (Some t4) d4 = ((SLOTS_OK, Some t5), d5) \<and>
    stored nvs g d5 t5 \<and> (\<exists>b \<in> set (ss_bindings t5). sb_firmware_sha256 b = running_firmware_sha256 f \<and>
      sb_package_present b \<and> sb_package_sha256 b = so_package_sha256 p \<and>
      binding_intact sha256 (flash d5) g b)"
proof -
  from reserve_live [OF ready phase firmware schema request fresh choice, where state = s] obtain t1 d1 where
    c1: "slots_reserve (Some (io_ptrs io)) psa (Some g) (ss_sequence s) (Some f) (Some p) (Some s) d
      = ((SLOTS_OK, Some t1), d1)"
    and r1: "healthy d1" "\<not> held d1" "stored nvs g d1 t1" "slot_step g (EV_RESERVE p) s t1"
    and slot: "so_slot (ss_operation t1) = of_nat i" by blast
  have op1: "ss_phase t1 = SLOT_WRITING" "ss_operation t1 = p\<lparr>so_slot := of_nat i\<rparr>"
    using slot_step_fields(1) [OF r1(4)] slot by simp_all
  have "operation_shape p" using request by (simp add: operation_requestable_def)
  then have a1: "api_call io psa g flash nvs held d d1" by (intro call_reserve [OF c1]) simp
  have ready1: "ready sha256 flash nvs held g healthy d1 t1"
    using ready_next [OF ready r1(4,1-3) ready_call [OF ready a1]] room by simp
  note seq1 = slot_step_sequence [OF r1(4)]
  have accept1: "accepts (device_view flash nvs held) flash healthy io g validate_fn (ss_operation t1) pkg"
    and pkg1: "length pkg = unat (so_package_size_bytes (ss_operation t1))"
      "sha256 pkg = so_package_sha256 (ss_operation t1)"
    using accept pkg op1(2) by simp_all
  from prepare_live [OF ready1 op1(1) pkg1 source accept1, where state = t1] obtain t2 d2 where
    c2: "slots_write_and_prepare (Some (io_ptrs io)) psa (Some g) (ss_sequence t1) (Some source_fn)
      (Some validate_fn) (Some t1) d1 = ((SLOTS_OK, Some t2), d2)"
    and r2: "healthy d2" "\<not> held d2" "stored nvs g d2 t2" "slot_step g EV_PREPARE t1 t2" by blast
  have a2: "api_call io psa g flash nvs held d1 d2"
    using source accept1 by (intro call_write_and_prepare [OF c2]) (simp_all add: serves_def accepts_def)
  have ready2: "ready sha256 flash nvs held g healthy d2 t2"
    using ready_next [OF ready1 r2(4,1-3) ready_call [OF ready1 a2]] room seq1 by simp
  note seq2 = slot_step_sequence [OF r2(4)]
  have op2: "ss_phase t2 = SLOT_PREPARED" "ss_operation t2 = p\<lparr>so_slot := of_nat i\<rparr>"
    using slot_step_fields(2) [OF r2(4)] op1 by simp_all
  have target: "so_target_firmware_sha256 p = running_firmware_sha256 f"
    using request by (simp add: operation_requestable_def)
  from begin_trial_live [OF ready2 op2(1) boot, where state = t2] obtain t3 d3 where
    c3: "slots_begin_trial (Some (io_ptrs io)) psa (Some g) (ss_sequence t2)
      (Some (running_firmware_sha256 f)) (Some boot_id) (Some t2) d2 = ((SLOTS_OK, Some t3), d3)"
    and r3: "healthy d3" "\<not> held d3" "stored nvs g d3 t3" "slot_step g (EV_BEGIN_TRIAL boot_id) t2 t3"
    using op2(2) target by auto
  have a3: "api_call io psa g flash nvs held d2 d3" using boot by (intro call_begin_trial [OF c3]) simp
  have ready3: "ready sha256 flash nvs held g healthy d3 t3"
    using ready_next [OF ready2 r3(4,1-3) ready_call [OF ready2 a3]] room seq1 seq2 by simp
  note seq3 = slot_step_sequence [OF r3(4)]
  have op3: "ss_phase t3 = SLOT_TRIAL_STARTED"
    "ss_operation t3 = p\<lparr>so_slot := of_nat i, so_trial_boot_id := boot_id\<rparr>"
    using slot_step_fields(3) [OF r3(4)] op2 by simp_all
  from mark_healthy_live [OF ready3 op3(1), where state = t3] obtain t4 d4 where
    c4: "slots_mark_healthy (Some (io_ptrs io)) psa (Some g) (ss_sequence t3) (Some boot_id) (Some t3) d3
      = ((SLOTS_OK, Some t4), d4)"
    and r4: "healthy d4" "\<not> held d4" "stored nvs g d4 t4" "slot_step g EV_MARK_HEALTHY t3 t4"
    using op3(2) by auto
  have a4: "api_call io psa g flash nvs held d3 d4" by (rule call_mark_healthy [OF c4])
  have ready4: "ready sha256 flash nvs held g healthy d4 t4"
    using ready_next [OF ready3 r4(4,1-3) ready_call [OF ready3 a4]] room seq1 seq2 seq3 by simp
  have op4: "ss_phase t4 = SLOT_HEALTH_VERIFIED"
    "ss_operation t4 = p\<lparr>so_slot := of_nat i, so_trial_boot_id := boot_id\<rparr>"
    using slot_step_fields(4) [OF r4(4)] op3 by simp_all
  from confirm_live [OF ready4 op4(1), where state = t4] obtain t5 d5 where
    c5: "slots_confirm (Some (io_ptrs io)) psa (Some g) (ss_sequence t4) (Some (running_firmware_sha256 f))
      (Some boot_id) (Some t4) d4 = ((SLOTS_OK, Some t5), d5)"
    and r5: "healthy d5" "stored nvs g d5 t5" "slot_step g EV_CONFIRM t4 t5"
    using op4(2) target by auto
  have a5: "api_call io psa g flash nvs held d4 d5" by (rule call_confirm [OF c5])
  have "state_packages_intact sha256 (flash d5) g t5"
    using ready_call [OF ready4 a5] r5(2) by (rule safeD)
  moreover obtain b where "b \<in> set (ss_bindings t5)" "binding_confirms b (ss_operation t5)"
    using confirmed_member [OF storedD(2) [OF r5(2)]] slot_step_fields(5) [OF r5(3)] by blast
  ultimately have "\<exists>b \<in> set (ss_bindings t5). sb_firmware_sha256 b = running_firmware_sha256 f \<and>
      sb_package_present b \<and> sb_package_sha256 b = so_package_sha256 p \<and>
      binding_intact sha256 (flash d5) g b"
    using slot_step_fields(5) [OF r5(3)] op4(2) target
    by (intro bexI [of _ b]) (simp_all add: binding_confirms_def state_packages_intact_def)
  with c1 c2 c3 c4 c5 r5(2) show ?thesis by blast
qed

end

end
