(* ===== verification/Sim_Reliable.thy ===== *)
theory Sim_Reliable
  imports Sim_Platform Slots_Write
begin

text \<open>
  The simulated platform without faults is a reliable environment for every bound provider: the
  range and alignment checks of \<open>slots_idf.c\<close> refuse no access the slot store makes.  The
  theory also fixes a small product configuration, on which the theorems are applied.
\<close>

subsection \<open>Binding\<close>

definition bound_provider :: "'s slots_idf_provider \<Rightarrow> bool" where
  "bound_provider p \<longleftrightarrow> geometry_valid (Some (pv_geometry p)) \<and>
     partition_offset_bytes (pv_geometry p) = part_address (pv_partition p) \<and>
     partition_size_bytes (pv_geometry p) = part_size (pv_partition p)"

lemma slots_idf_bind_bound: "slots_idf_bind find_first config = Some p \<Longrightarrow> bound_provider p"
  by (auto simp: slots_idf_bind_def bound_provider_def bound_geometry_def Let_def
      split: option.splits if_splits)

lemma range_valid_partition:
  assumes "bound_provider p" and "0 < n" and "unat (partition_offset_bytes (pv_geometry p)) \<le> unat off"
    and "unat off + n \<le> unat (partition_offset_bytes (pv_geometry p)) + unat (partition_size_bytes (pv_geometry p))"
  shows "range_valid p off n"
proof -
  have le: "part_address (pv_partition p) \<le> off"
    using assms(1,3) by (simp add: bound_provider_def word_le_nat_alt)
  then show ?thesis
    using assms unat_sub_le [OF le] by (auto simp: range_valid_def bound_provider_def Let_def)
qed

lemma word_mod_of_nat: "unat w dvd unat x \<Longrightarrow> (x :: u32) mod w = 0"
  by (simp add: word_mod_zero_dvd)

subsection \<open>Reliability\<close>

lemma no_fault [simp]: "sim_faults w = [] \<Longrightarrow> next_fault w = (False, w)"
  by (simp add: next_fault_def)

abbreviation "sim_flash \<equiv> provider_flash sim_parts"
abbreviation "sim_nvs \<equiv> provider_nvs sim_kv"
abbreviation "sim_held \<equiv> provider_held sim_taken"

lemma reference_live:
  "(\<And>bs. length (sha bs) = 32) \<Longrightarrow> live_engine_axioms (reference_psa sha) healthy"
  by unfold_locales (simp_all add: reference_psa_def)

lemma sim_reliable:
  assumes bound: "bound_provider p" and digest: "\<And>bs. length (sha bs) = 32"
  shows "reliable_env (provider_io sim_api p) (sim_flash p) (sim_nvs p) (sim_held p)
    (reference_psa sha) (\<lambda>h. h) sha (pv_geometry p) (\<lambda>w. sim_faults w = [])"
proof (intro_locales)
  have g: "geometry_valid (Some (pv_geometry p))" using bound by (simp add: bound_provider_def)
  let ?a = "unat (part_address (pv_partition p))"
  show "live_engine_axioms (reference_psa sha) (\<lambda>w :: sim_world. sim_faults w = [])"
    by (rule reference_live [OF digest])
  show "reliable_env_axioms (provider_io sim_api p) (sim_flash p) (sim_nvs p) (sim_held p)
      (pv_geometry p) (\<lambda>w. sim_faults w = [])"
  proof
    show "geometry_valid (Some (pv_geometry p))" by (rule g)
  next
    fix d :: sim_world assume "sim_faults d = []" "\<not> sim_held p d"
    then show "\<exists>d'. io_lock (provider_io sim_api p) d = (True, d') \<and> sim_faults d' = []"
      by (simp add: provider_io_def provider_lock_def sim_api_def provider_held_def)
  next
    fix d :: sim_world assume "sim_faults d = []"
    then show "sim_faults (io_unlock (provider_io sim_api p) d) = []"
      by (simp add: provider_io_def provider_unlock_def sim_api_def)
  next
    fix d :: sim_world and blob assume "sim_faults d = []" "sim_nvs p d = Some blob" "length blob = SLOT_BLOB_BYTES"
    then show "\<exists>d'. io_read_blob (provider_io sim_api p) d = (BLOB_FOUND blob, d') \<and> sim_faults d' = []"
      by (simp add: provider_io_def provider_read_blob_def sim_api_def provider_nvs_def fault_or_def)
  next
    fix d :: sim_world assume "sim_faults d = []" "sim_nvs p d = None"
    then show "\<exists>d'. io_read_blob (provider_io sim_api p) d = (BLOB_NOT_FOUND, d') \<and> sim_faults d' = []"
      by (simp add: provider_io_def provider_read_blob_def sim_api_def provider_nvs_def fault_or_def)
  next
    fix d :: sim_world and blob :: bytes assume "sim_faults d = []"
    then show "\<exists>d'. io_write_blob (provider_io sim_api p) blob d = (True, d') \<and> sim_faults d' = []"
      by (simp add: provider_io_def provider_write_blob_def sim_api_def fault_or_def)
  next
    fix d :: sim_world and n and off :: u32 assume "sim_faults d = []" "0 < n"
      "unat (partition_offset_bytes (pv_geometry p)) \<le> unat off"
      "unat off + n \<le> unat (partition_offset_bytes (pv_geometry p)) + unat (partition_size_bytes (pv_geometry p))"
    then show "\<exists>bs d'. io_flash_read (provider_io sim_api p) off n d = (Some bs, d') \<and> sim_faults d' = []"
      using range_valid_partition [OF bound]
      by (simp add: provider_io_def provider_flash_read_def sim_api_def fault_or_def)
  next
    fix d :: sim_world and i assume d: "sim_faults d = []" and i: "i < SLOT_COUNT"
    let ?off = "sr_offset_bytes (slot_at (pv_geometry p) i)" and ?n = "sr_size_bytes (slot_at (pv_geometry p) i)"
    note slot = geometry_valid_slot [OF g i, unfolded slot_begin_def slot_size_def]
    have range: "range_valid p ?off (unat ?n)" using slot by (intro range_valid_partition [OF bound])
    have unit: "?off mod erase_unit_bytes (pv_geometry p) = 0" "?n mod erase_unit_bytes (pv_geometry p) = 0"
      using slot(2,3) by (simp_all only: word_mod_zero_dvd)
    show "\<exists>d'. io_flash_erase (provider_io sim_api p) ?off ?n d = (True, d') \<and> sim_faults d' = [] \<and>
        (\<forall>a. \<not> outside_slot (pv_geometry p) i a \<longrightarrow> sim_flash p d' a = 0xff)"
      using d range unit range_valid_bounds [OF range]
      by (auto simp: provider_io_def provider_flash_erase_def sim_api_def fault_or_def provider_flash_def
          erase_bytes_def outside_slot_def slot_begin_def slot_size_def word_le_nat_alt)
  next
    fix d :: sim_world and off :: u32 and bs :: bytes
    assume d: "sim_faults d = []" and bs: "bs \<noteq> []"
      and off: "unat (partition_offset_bytes (pv_geometry p)) \<le> unat off"
      "unat off + length bs \<le> unat (partition_offset_bytes (pv_geometry p)) + unat (partition_size_bytes (pv_geometry p))"
      and unit: "unat (write_unit_bytes (pv_geometry p)) dvd unat off"
      "unat (write_unit_bytes (pv_geometry p)) dvd length bs"
    have range: "range_valid p off (length bs)" using bs off by (intro range_valid_partition [OF bound]) simp_all
    have "off mod write_unit_bytes (pv_geometry p) = 0" using unit(1) by (simp only: word_mod_zero_dvd)
    then show "\<exists>d'. io_flash_write (provider_io sim_api p) off bs d = (True, d') \<and> sim_faults d' = [] \<and>
        (\<forall>k < length bs. sim_flash p d' (unat off + k) = sim_flash p d (unat off + k) AND bs ! k)"
      using d range unit(2) range_valid_bounds [OF range]
      by (auto simp: provider_io_def provider_flash_write_def sim_api_def fault_or_def provider_flash_def
          program_bytes_def word_le_nat_alt)
  qed
qed

subsection \<open>A product\<close>

text \<open>Three slots of 16 KiB in a 48 KiB partition, and a digest that is injective on short packages.\<close>

definition demo_digest :: "bytes \<Rightarrow> bytes" where
  "demo_digest bs = take 32 (bs @ replicate 32 0xA5)"

definition demo_package :: esp_partition where
  "demo_package = \<lparr>part_id = 1, part_address = 0x10000, part_size = 0xC000, part_erase_size = 0x1000,
     part_encrypted = False, part_readonly = False\<rparr>"

definition demo_nvs :: esp_partition where
  "demo_nvs = \<lparr>part_id = 2, part_address = 0x9000, part_size = 0x4000, part_erase_size = 0x1000,
     part_encrypted = False, part_readonly = False\<rparr>"

definition demo_slots :: "slot_region list" where
  "demo_slots = [\<lparr>sr_offset_bytes = 0x10000, sr_size_bytes = 0x4000\<rparr>,
     \<lparr>sr_offset_bytes = 0x14000, sr_size_bytes = 0x4000\<rparr>,
     \<lparr>sr_offset_bytes = 0x18000, sr_size_bytes = 0x4000\<rparr>]"

definition demo_config :: "nat slots_idf_config" where
  "demo_config = \<lparr>package_partition_label = Some ''packages'',
     package_partition_offset_bytes = 0x10000, package_partition_size_bytes = 0xC000,
     config_slots = demo_slots, nvs_partition_label = Some ''nvs'',
     nvs_partition_offset_bytes = 0x9000, nvs_partition_size_bytes = 0x4000,
     nvs_namespace = Some ''econtainer'', nvs_key = Some ''slots'', config_storage_lock = Some 7\<rparr>"

definition demo_find :: "partition_subtype \<Rightarrow> string \<Rightarrow> esp_partition option" where
  "demo_find subtype label =
     (if subtype = SUBTYPE_DATA_UNDEFINED \<and> label = ''packages'' then Some demo_package
      else if subtype = SUBTYPE_DATA_NVS \<and> label = ''nvs'' then Some demo_nvs else None)"

definition demo_provider :: "nat slots_idf_provider" where
  "demo_provider = \<lparr>pv_geometry = bound_geometry demo_package demo_slots, pv_partition = demo_package,
     pv_storage_lock = 7, pv_nvs_partition_label = ''nvs'', pv_nvs_namespace = ''econtainer'',
     pv_nvs_key = ''slots''\<rparr>"

lemma demo_bind: "slots_idf_bind demo_find (Some demo_config) = Some demo_provider"
  by code_simp

lemma demo_bound: "bound_provider demo_provider"
  using demo_bind by (rule slots_idf_bind_bound)

lemma length_demo_digest: "length (demo_digest bs) = 32"
  by (simp add: demo_digest_def)

interpretation demo: reliable_env "provider_io sim_api demo_provider" "sim_flash demo_provider"
    "sim_nvs demo_provider" "sim_held demo_provider" "reference_psa demo_digest" "\<lambda>h. h" demo_digest
    "pv_geometry demo_provider" "\<lambda>w. sim_faults w = []"
  by (rule sim_reliable [OF demo_bound length_demo_digest])

end
