(* ===== verification/Slots_Demo.thy ===== *)
theory Slots_Demo
  imports Sim_Reliable
begin

text \<open>
  Concrete records and devices of the demonstration product: the records of one update in
  each phase, the device that stores a record, and the facts that let the theorems about the
  slot store be applied to them.
\<close>

definition demo_geometry :: slots_geometry where
  "demo_geometry = bound_geometry demo_package demo_slots"

definition demo_firmware :: bytes where "demo_firmware = replicate 32 0x11"
definition demo_bytes :: bytes where "demo_bytes = [0x05, 0x06, 0x07, 0x08]"
definition demo_boot :: bytes where "demo_boot = replicate 16 0x42"

definition demo_firmware_set :: firmware_set where
  "demo_firmware_set = \<lparr>bootable_count = 1, bootable_firmware_sha256 = [demo_firmware, zeros 32],
     running_firmware_sha256 = demo_firmware\<rparr>"

definition demo_bindings :: "slot_binding list" where
  "demo_bindings = [zero_binding\<lparr>sb_present := True, sb_firmware_sha256 := demo_firmware\<rparr>, zero_binding]"

definition demo_request :: slot_operation where
  "demo_request = \<lparr>so_operation_id = replicate 16 0x02, so_target_firmware_sha256 = demo_firmware,
     so_package_sha256 = demo_digest demo_bytes, so_slot = 0, so_package_size_bytes = 4,
     so_guest_abi_version = 1, so_data_schema_version = 1, so_trial_boot_id = zeros 16\<rparr>"

definition demo_state :: "slot_phase \<Rightarrow> bytes \<Rightarrow> slots_state" where
  "demo_state phase boot = \<lparr>ss_sequence = 5, ss_bindings = demo_bindings, ss_phase = phase,
     ss_operation = demo_request\<lparr>so_trial_boot_id := boot\<rparr>\<rparr>"

text \<open>The package is in slot 0; the record is the given one, or there is none yet.\<close>

definition demo_world :: "slots_state option \<Rightarrow> sim_world" where
  "demo_world record = \<lparr>sim_parts = (\<lambda>_ a. if a < length demo_bytes then demo_bytes ! a else 0xff),
     sim_kv = (\<lambda>place. if place = (''nvs'', ''econtainer'', ''slots'')
       then map_option encode_state record else None),
     sim_pending = (\<lambda>_ _. None), sim_taken = (\<lambda>_. False), sim_faults = []\<rparr>"

definition demo_idle :: slots_state where
  "demo_idle = initial_state demo_bindings"

abbreviation "demo_io \<equiv> provider_io sim_api demo_provider"
abbreviation demo_flash :: "sim_world \<Rightarrow> nat \<Rightarrow> byte" where
  "demo_flash \<equiv> sim_flash demo_provider"
abbreviation demo_nvs_blob :: "sim_world \<Rightarrow> bytes option" where
  "demo_nvs_blob \<equiv> sim_nvs demo_provider"
abbreviation demo_held :: "sim_world \<Rightarrow> bool" where
  "demo_held \<equiv> sim_held demo_provider"
abbreviation "demo_psa \<equiv> reference_psa demo_digest"
abbreviation "demo_healthy \<equiv> \<lambda>w :: sim_world. sim_faults w = []"
abbreviation "demo_view \<equiv> device_view demo_flash demo_nvs_blob demo_held"

definition demo_source :: "sim_world slot_source_fn" where
  "demo_source offset count w = (Some (take count (drop offset demo_bytes)), w)"

definition demo_validate :: "sim_world slot_validate_fn" where
  "demo_validate operation read_fn count w = (case read_fn 0 count w of (bs, w1) \<Rightarrow>
     (if bs = Some demo_bytes then VALIDATION_OK else VALIDATION_UNTRUSTED, w1))"

lemma demo_geometry_simps [simp]: "pv_geometry demo_provider = demo_geometry"
  by (simp add: demo_provider_def demo_geometry_def)

lemma demo_geometry_valid: "geometry_valid (Some demo_geometry)"
  by code_simp

lemma demo_env: "slot_env demo_io demo_flash demo_nvs_blob demo_held demo_psa (\<lambda>h. h) demo_digest"
  by (rule reliable_env.axioms(1) [OF sim_reliable [OF demo_bound length_demo_digest]])

lemma demo_reliable:
  "reliable_env demo_io demo_flash demo_nvs_blob demo_held demo_psa (\<lambda>h. h) demo_digest demo_geometry demo_healthy"
  using sim_reliable [OF demo_bound length_demo_digest] by simp

lemma demo_shapes:
  "state_shape (demo_state phase demo_boot)" "state_shape (demo_state phase (zeros 16))" "state_shape demo_idle"
  by (simp_all add: state_shape_def demo_state_def demo_bindings_def demo_request_def demo_boot_def
      demo_firmware_def binding_shape_def operation_shape_def SLOT_BINDING_COUNT_def zero_binding_def
      length_demo_digest demo_idle_def initial_state_def zero_state_def zero_operation_def)

lemma demo_valid:
  "state_valid (demo_state SLOT_WRITING (zeros 16)) demo_geometry"
  "state_valid (demo_state SLOT_PREPARED (zeros 16)) demo_geometry"
  "state_valid (demo_state SLOT_TRIAL_STARTED demo_boot) demo_geometry"
  "state_valid (demo_state SLOT_HEALTH_VERIFIED demo_boot) demo_geometry"
  "state_valid demo_idle demo_geometry"
  by code_simp+

lemma demo_world_stored:
  assumes "state_shape s" and "state_valid s demo_geometry"
  shows "stored demo_nvs_blob demo_geometry (demo_world (Some s)) s"
  using assms by (intro stored_encode) (simp_all add: demo_world_def provider_nvs_def demo_provider_def)

lemma demo_intact:
  "state_packages_intact demo_digest (demo_flash (demo_world record)) demo_geometry (demo_state phase boot)"
  "state_packages_intact demo_digest (demo_flash (demo_world record)) demo_geometry demo_idle"
proof -
  have "slot_content (demo_flash (demo_world record)) demo_geometry 0 4 = demo_bytes"
    by (simp add: slot_content_def content_def slot_begin_def slot_at_def demo_geometry_def bound_geometry_def
        demo_slots_def provider_flash_def demo_world_def demo_provider_def demo_package_def demo_bytes_def
        upt_rec nth_Cons')
  then show "state_packages_intact demo_digest (demo_flash (demo_world record)) demo_geometry (demo_state phase boot)"
    "state_packages_intact demo_digest (demo_flash (demo_world record)) demo_geometry demo_idle"
    by (simp_all add: state_packages_intact_def demo_state_def demo_idle_def initial_state_def demo_bindings_def
        zero_binding_def binding_intact_def candidate_intact_def demo_request_def zero_state_def)
qed

lemma demo_ready:
  assumes "s \<in> {demo_state SLOT_WRITING (zeros 16), demo_state SLOT_PREPARED (zeros 16),
    demo_state SLOT_TRIAL_STARTED demo_boot, demo_state SLOT_HEALTH_VERIFIED demo_boot, demo_idle}"
  shows "ready demo_digest demo_flash demo_nvs_blob demo_held demo_geometry demo_healthy (demo_world (Some s)) s"
proof -
  have "state_shape s" "state_valid s demo_geometry" "ss_sequence s \<noteq> 0xFFFFFFFF"
    using assms demo_shapes demo_valid
    by (auto simp: demo_state_def demo_idle_def initial_state_def)
  moreover have "state_packages_intact demo_digest (demo_flash (demo_world (Some s))) demo_geometry s"
    using assms demo_intact by auto
  ultimately show ?thesis
    by (simp add: ready_def demo_world_stored) (simp add: demo_world_def provider_held_def)
qed

lemma demo_serves: "serves demo_view demo_healthy demo_source demo_bytes"
  by (simp add: serves_def quiet_source_def keeps_def demo_source_def)

lemma demo_quiet: "quiet_validator demo_view demo_validate"
  unfolding quiet_validator_def
  by (intro allI impI keepsI) (auto simp: demo_validate_def split: prod.splits dest: keepsD)

lemma demo_accepts:
  assumes "unat (so_slot p) < SLOT_COUNT" and "so_package_size_bytes p = 4"
  shows "accepts demo_view demo_flash demo_healthy demo_io demo_geometry demo_validate p demo_bytes"
  unfolding accepts_def
proof (intro conjI allI impI demo_quiet)
  fix w :: sim_world assume w: "sim_faults w = []"
    and content: "slot_content (demo_flash w) demo_geometry (so_slot p) (so_package_size_bytes p) = demo_bytes"
  have four: "0 < (4 :: nat)" "0 + 4 \<le> unat (4 :: u32)" by simp_all
  have size: "unat (4 :: u32) \<le> slot_size demo_geometry (unat (so_slot p))"
    using assms(1)
    by (auto simp: slot_size_def slot_at_def demo_geometry_def bound_geometry_def demo_slots_def
        SLOT_COUNT_def nat_less_3)
  have "\<exists>w'. flash_relative_read demo_io \<lparr>rd_offset_bytes = sr_offset_bytes (slot_at demo_geometry (unat (so_slot p))),
      rd_size_bytes = 4\<rparr> 0 4 w = (Some demo_bytes, w') \<and> sim_faults w' = []"
    using reliable_env.flash_relative_read_live [OF demo_reliable w assms(1) size four] content assms(2)
    by (simp add: slot_content_def)
  then show "\<exists>w'. demo_validate p (flash_relative_read demo_io
      \<lparr>rd_offset_bytes = sr_offset_bytes (slot_at demo_geometry (unat (so_slot p))),
       rd_size_bytes = so_package_size_bytes p\<rparr>) (unat (so_package_size_bytes p)) w = (VALIDATION_OK, w') \<and>
      sim_faults w' = []"
    using assms(2) by (auto simp: demo_validate_def)
qed

text \<open>The first write of the package: the record is in phase WRITING and Flash holds zeros.\<close>

definition demo_blank :: sim_world where
  "demo_blank = (demo_world (Some (demo_state SLOT_WRITING (zeros 16))))\<lparr>sim_parts := (\<lambda>_ _. 0)\<rparr>"

lemma demo_blank_ready:
  "ready demo_digest demo_flash demo_nvs_blob demo_held demo_geometry demo_healthy demo_blank
     (demo_state SLOT_WRITING (zeros 16))"
proof -
  have "ready demo_digest demo_flash demo_nvs_blob demo_held demo_geometry demo_healthy
      (demo_world (Some (demo_state SLOT_WRITING (zeros 16)))) (demo_state SLOT_WRITING (zeros 16))"
    by (rule demo_ready) simp
  then show ?thesis
    by (simp add: ready_def demo_blank_def stored_def provider_nvs_def provider_held_def
        state_packages_intact_def demo_state_def demo_bindings_def zero_binding_def binding_intact_def)
qed

lemma demo_prepare:
  assumes "ready demo_digest demo_flash demo_nvs_blob demo_held demo_geometry demo_healthy d
     (demo_state SLOT_WRITING (zeros 16))"
  obtains t d' where "slots_write_and_prepare (Some (io_ptrs demo_io)) demo_psa (Some demo_geometry) 5
      (Some demo_source) (Some demo_validate) (Some zero_state) d = ((SLOTS_OK, Some t), d')"
    and "api_call demo_io demo_psa demo_geometry demo_flash demo_nvs_blob demo_held d d'"
    and "stored demo_nvs_blob demo_geometry d' t"
    and "slot_step demo_geometry EV_PREPARE (demo_state SLOT_WRITING (zeros 16)) t"
proof -
  let ?s = "demo_state SLOT_WRITING (zeros 16)"
  have facts: "ss_phase ?s = SLOT_WRITING" "ss_sequence ?s = 5"
    "length demo_bytes = unat (so_package_size_bytes (ss_operation ?s))"
    "demo_digest demo_bytes = so_package_sha256 (ss_operation ?s)"
    by (simp_all add: demo_state_def demo_request_def demo_bytes_def)
  have accept: "accepts demo_view demo_flash demo_healthy demo_io demo_geometry demo_validate
      (ss_operation ?s) demo_bytes"
    by (rule demo_accepts) (simp_all add: demo_state_def demo_request_def SLOT_COUNT_def)
  from reliable_env.prepare_live [OF demo_reliable assms facts(1,3,4) demo_serves accept]
  obtain t d' where call: "slots_write_and_prepare (Some (io_ptrs demo_io)) demo_psa (Some demo_geometry)
      (ss_sequence ?s) (Some demo_source) (Some demo_validate) (Some zero_state) d = ((SLOTS_OK, Some t), d')"
    and t: "stored demo_nvs_blob demo_geometry d' t" "slot_step demo_geometry EV_PREPARE ?s t"
    by blast
  have "api_call demo_io demo_psa demo_geometry demo_flash demo_nvs_blob demo_held d d'"
    using demo_serves demo_quiet by (intro call_write_and_prepare [OF call]) (simp_all add: serves_def)
  with call t facts(2) show thesis by (intro that) simp_all
qed

lemma demo_trial:
  obtains t d' where "slots_begin_trial (Some (io_ptrs demo_io)) demo_psa (Some demo_geometry) 5
      (Some demo_firmware) (Some demo_boot) (Some zero_state) (demo_world (Some (demo_state SLOT_PREPARED (zeros 16))))
      = ((SLOTS_OK, Some t), d')"
    and "api_call demo_io demo_psa demo_geometry demo_flash demo_nvs_blob demo_held
      (demo_world (Some (demo_state SLOT_PREPARED (zeros 16)))) d'"
    and "stored demo_nvs_blob demo_geometry d' t"
    and "slot_step demo_geometry (EV_BEGIN_TRIAL demo_boot) (demo_state SLOT_PREPARED (zeros 16)) t"
proof -
  let ?s = "demo_state SLOT_PREPARED (zeros 16)"
  have boot: "length demo_boot = 16" "\<not> all_zero demo_boot" by code_simp+
  have s: "ss_phase ?s = SLOT_PREPARED" "ss_sequence ?s = 5" "so_target_firmware_sha256 (ss_operation ?s) = demo_firmware"
    by (simp_all add: demo_state_def demo_request_def)
  have "ready demo_digest demo_flash demo_nvs_blob demo_held demo_geometry demo_healthy (demo_world (Some ?s)) ?s"
    by (rule demo_ready) simp
  from reliable_env.begin_trial_live [OF demo_reliable this s(1) boot, where state = zero_state] obtain t d' where
    call: "slots_begin_trial (Some (io_ptrs demo_io)) demo_psa (Some demo_geometry) 5
      (Some demo_firmware) (Some demo_boot) (Some zero_state) (demo_world (Some ?s)) = ((SLOTS_OK, Some t), d')"
    and t: "stored demo_nvs_blob demo_geometry d' t" "slot_step demo_geometry (EV_BEGIN_TRIAL demo_boot) ?s t"
    using s(2,3) by auto
  have "api_call demo_io demo_psa demo_geometry demo_flash demo_nvs_blob demo_held (demo_world (Some ?s)) d'"
    using boot(1) by (intro call_begin_trial [OF call]) simp
  then show thesis by (rule that [OF call _ t])
qed

lemma demo_healthy_call:
  obtains t d' where "slots_mark_healthy (Some (io_ptrs demo_io)) demo_psa (Some demo_geometry) 5
      (Some demo_boot) (Some zero_state) (demo_world (Some (demo_state SLOT_TRIAL_STARTED demo_boot)))
      = ((SLOTS_OK, Some t), d')"
    and "slot_step demo_geometry EV_MARK_HEALTHY (demo_state SLOT_TRIAL_STARTED demo_boot) t"
proof -
  let ?s = "demo_state SLOT_TRIAL_STARTED demo_boot"
  have s: "ss_phase ?s = SLOT_TRIAL_STARTED" "ss_sequence ?s = 5" "so_trial_boot_id (ss_operation ?s) = demo_boot"
    by (simp_all add: demo_state_def)
  have "ready demo_digest demo_flash demo_nvs_blob demo_held demo_geometry demo_healthy (demo_world (Some ?s)) ?s"
    by (rule demo_ready) simp
  from reliable_env.mark_healthy_live [OF demo_reliable this s(1), where state = zero_state]
  show thesis using that s(2,3) by auto
qed

lemma demo_confirm:
  obtains t d' where "slots_confirm (Some (io_ptrs demo_io)) demo_psa (Some demo_geometry) 5
      (Some demo_firmware) (Some demo_boot) (Some zero_state)
      (demo_world (Some (demo_state SLOT_HEALTH_VERIFIED demo_boot))) = ((SLOTS_OK, Some t), d')"
    and "slot_step demo_geometry EV_CONFIRM (demo_state SLOT_HEALTH_VERIFIED demo_boot) t"
proof -
  let ?s = "demo_state SLOT_HEALTH_VERIFIED demo_boot"
  have s: "ss_phase ?s = SLOT_HEALTH_VERIFIED" "ss_sequence ?s = 5" "so_trial_boot_id (ss_operation ?s) = demo_boot"
    "so_target_firmware_sha256 (ss_operation ?s) = demo_firmware"
    by (simp_all add: demo_state_def demo_request_def)
  have "ready demo_digest demo_flash demo_nvs_blob demo_held demo_geometry demo_healthy (demo_world (Some ?s)) ?s"
    by (rule demo_ready) simp
  from reliable_env.confirm_live [OF demo_reliable this s(1), where state = zero_state]
  show thesis using that s(2-4) by auto
qed

lemma demo_abandon:
  obtains t d' where "slots_abandon (Some (io_ptrs demo_io)) demo_psa (Some demo_geometry) 5
      (Some (replicate 16 7)) None (Some zero_state)
      (demo_world (Some (demo_state SLOT_TRIAL_STARTED demo_boot))) = ((SLOTS_OK, Some t), d')"
    and "slot_step demo_geometry EV_ABANDON (demo_state SLOT_TRIAL_STARTED demo_boot) t"
proof -
  let ?s = "demo_state SLOT_TRIAL_STARTED demo_boot"
  have s: "phase_pending (ss_phase ?s)" "ss_sequence ?s = 5"
    and boot: "ss_phase ?s \<in> {SLOT_WRITING, SLOT_PREPARED} \<or> so_trial_boot_id (ss_operation ?s) \<noteq> replicate 16 7"
    by (simp_all add: demo_state_def phase_pending_iff demo_boot_def)
  have "ready demo_digest demo_flash demo_nvs_blob demo_held demo_geometry demo_healthy (demo_world (Some ?s)) ?s"
    by (rule demo_ready) simp
  from reliable_env.abandon_live [OF demo_reliable this s(1) boot, where state = zero_state and stop_fn = None]
  show thesis using that s(2) by auto
qed

text \<open>Requests to the idle store: one that fits slot 0, and one that fits no slot.\<close>

definition demo_large :: slot_operation where
  "demo_large = demo_request\<lparr>so_package_size_bytes := 0x8000\<rparr>"

lemma demo_request_facts:
  "firmware_set_valid (Some demo_firmware_set)" "firmware_set_matches demo_idle demo_firmware_set"
  "schema_compatible demo_idle (running_firmware_sha256 demo_firmware_set) demo_request"
  "schema_compatible demo_idle (running_firmware_sha256 demo_firmware_set) demo_large"
  "operation_requestable demo_firmware_set demo_request" "operation_requestable demo_firmware_set demo_large"
  "select_slot demo_idle demo_geometry (so_package_size_bytes demo_request) = Some 0"
  "select_slot demo_idle demo_geometry (so_package_size_bytes demo_large) = None"
  by code_simp+

lemma demo_idle_facts: "\<not> phase_pending (ss_phase demo_idle)" "ss_phase demo_idle = SLOT_IDLE"
  "ss_sequence demo_idle = 1"
  by (simp_all add: demo_idle_def initial_state_def zero_state_def phase_pending_iff)

lemma demo_reserve:
  obtains t d' where "slots_reserve (Some (io_ptrs demo_io)) demo_psa (Some demo_geometry) 1
      (Some demo_firmware_set) (Some demo_request) (Some zero_state) (demo_world (Some demo_idle))
      = ((SLOTS_OK, Some t), d')"
    and "slot_step demo_geometry (EV_RESERVE demo_request) demo_idle t"
proof -
  have "ready demo_digest demo_flash demo_nvs_blob demo_held demo_geometry demo_healthy
      (demo_world (Some demo_idle)) demo_idle"
    by (rule demo_ready) simp
  from reliable_env.reserve_live [OF demo_reliable this demo_idle_facts(1) demo_request_facts(1,2,3,5)
      disjI1 [OF demo_idle_facts(2)] demo_request_facts(7), where state = zero_state]
  show thesis using that demo_idle_facts(3) by auto
qed

lemma demo_reserve_large:
  obtains d' where "slots_reserve (Some (io_ptrs demo_io)) demo_psa (Some demo_geometry) 1
      (Some demo_firmware_set) (Some demo_large) (Some zero_state) (demo_world (Some demo_idle))
      = ((SLOTS_NO_SPACE, Some zero_state), d')"
proof -
  have "ready demo_digest demo_flash demo_nvs_blob demo_held demo_geometry demo_healthy
      (demo_world (Some demo_idle)) demo_idle"
    by (rule demo_ready) simp
  from reliable_env.reserve_refuses [OF demo_reliable this demo_idle_facts(1) demo_request_facts(1,2,4,6)
      disjI1 [OF demo_idle_facts(2)] demo_request_facts(8), where state = zero_state]
  show thesis using that demo_idle_facts(3) by auto
qed

end
