(* ===== verification/Slots_Properties.thy ===== *)
theory Slots_Properties
  imports Slots_Demo
begin

text \<open>
  The properties of the slot store, each with an instance on the demonstration product.  The
  hypothesis \<open>slot_env io flash nvs held psa absorbed sha256\<close> is the contract of the callbacks
  (\<open>Slots_Io\<close>): it says what the result of a callback means, never that a callback succeeds.
  \<open>Slots_Idf\<close> derives it for the ESP-IDF provider and \<open>Sim_Platform\<close> shows that it can hold.
\<close>

subsection \<open>Runs\<close>

text \<open>C1: After every sequence of calls, reboots included and whatever the callbacks report, the
  package of every confirmed binding of the committed record is intact in Flash, and so is the
  candidate of a prepared, tried or healthy operation.\<close>

theorem every_run_keeps_packages_intact:
  assumes "slot_env io flash nvs held psa absorbed sha256" and "geometry_valid (Some g)"
    and "slots_run io psa g flash nvs held d d'" and "store_safe sha256 flash nvs g d"
  shows "store_safe sha256 flash nvs g d'"
  using slot_env.slots_run_safe [OF assms] .

theorem every_run_keeps_packages_intact_witness:
  "\<exists>t d'. slots_write_and_prepare (Some (io_ptrs demo_io)) demo_psa (Some demo_geometry) 5 (Some demo_source)
      (Some demo_validate) (Some zero_state) demo_blank = ((SLOTS_OK, Some t), d') \<and>
    store_safe demo_digest demo_flash demo_nvs_blob demo_geometry d'"
proof -
  obtain t d' where call: "slots_write_and_prepare (Some (io_ptrs demo_io)) demo_psa (Some demo_geometry) 5
      (Some demo_source) (Some demo_validate) (Some zero_state) demo_blank = ((SLOTS_OK, Some t), d')"
    and api: "api_call demo_io demo_psa demo_geometry demo_flash demo_nvs_blob demo_held demo_blank d'"
    by (rule demo_prepare [OF demo_blank_ready])
  have run: "slots_run demo_io demo_psa demo_geometry demo_flash demo_nvs_blob demo_held demo_blank d'"
    using api by (simp add: slots_call_def r_into_rtranclp)
  have "store_safe demo_digest demo_flash demo_nvs_blob demo_geometry demo_blank"
    using demo_blank_ready slot_env.safeI [OF demo_env] by (auto simp: ready_def)
  from every_run_keeps_packages_intact [OF demo_env demo_geometry_valid run this] call
  show ?thesis by auto
qed

text \<open>C2: A committed record is never lost, forged or rolled back: in every run the record at the end
  comes from the record at the start by steps of the machine, its sequence number does not
  decrease, and an equal sequence number means the same record.\<close>

theorem every_run_extends_the_record:
  assumes "slot_env io flash nvs held psa absorbed sha256" and "geometry_valid (Some g)"
    and "slots_run io psa g flash nvs held d d'" and "stored nvs g d s"
  shows "\<exists>t. stored nvs g d' t \<and> (\<lambda>s t. \<exists>ev. slot_step g ev s t)\<^sup>*\<^sup>* s t \<and>
    ss_sequence s \<le> ss_sequence t \<and> (ss_sequence s = ss_sequence t \<longrightarrow> s = t)"
proof -
  from slot_env.slots_run_record [OF assms] obtain t where
    t: "stored nvs g d' t" "(\<lambda>s t. \<exists>ev. slot_step g ev s t)\<^sup>*\<^sup>* s t" by blast
  from slot_steps_sequence [OF t(2)] t show ?thesis by blast
qed

theorem every_run_extends_the_record_witness:
  "\<exists>t d'. slots_run demo_io demo_psa demo_geometry demo_flash demo_nvs_blob demo_held
      (demo_world (Some (demo_state SLOT_PREPARED (zeros 16)))) d' \<and>
    stored demo_nvs_blob demo_geometry d' t \<and> 5 \<le> ss_sequence t \<and> ss_phase t = SLOT_TRIAL_STARTED"
proof -
  let ?s = "demo_state SLOT_PREPARED (zeros 16)"
  obtain t d' where api: "api_call demo_io demo_psa demo_geometry demo_flash demo_nvs_blob demo_held
      (demo_world (Some ?s)) d'"
    and t: "stored demo_nvs_blob demo_geometry d' t" "slot_step demo_geometry (EV_BEGIN_TRIAL demo_boot) ?s t"
    by (rule demo_trial)
  have run: "slots_run demo_io demo_psa demo_geometry demo_flash demo_nvs_blob demo_held (demo_world (Some ?s)) d'"
    using api by (simp add: slots_call_def r_into_rtranclp)
  have s: "stored demo_nvs_blob demo_geometry (demo_world (Some ?s)) ?s" "ss_sequence ?s = 5"
    using demo_shapes demo_valid by (auto intro: demo_world_stored simp: demo_state_def)
  from every_run_extends_the_record [OF demo_env demo_geometry_valid run s(1)] obtain u where
    "stored demo_nvs_blob demo_geometry d' u" "ss_sequence ?s \<le> ss_sequence u" by blast
  then have "5 \<le> ss_sequence t" using stored_unique [OF t(1)] s(2) by auto
  then show ?thesis using run t(1) slot_step_fields(3) [OF t(2)] by blast
qed

text \<open>C3: A call of the interface changes Flash bytes only inside the slot that the committed record
  reserves in phase WRITING.\<close>

theorem flash_changes_only_in_the_reserved_slot:
  assumes "slot_env io flash nvs held psa absorbed sha256" and "geometry_valid (Some g)"
    and "api_call io psa g flash nvs held d d'" and "flash d' a \<noteq> flash d a"
  shows "\<exists>s. stored nvs g d s \<and> ss_phase s = SLOT_WRITING \<and>
    slot_begin g (unat (so_slot (ss_operation s))) \<le> a \<and>
    a < slot_begin g (unat (so_slot (ss_operation s))) + slot_size g (unat (so_slot (ss_operation s)))"
  using slot_env.api_call_flash [OF assms] .

theorem flash_changes_only_in_the_reserved_slot_witness:
  "\<exists>s. stored demo_nvs_blob demo_geometry demo_blank s \<and> ss_phase s = SLOT_WRITING \<and>
    slot_begin demo_geometry (unat (so_slot (ss_operation s))) \<le> 0x10000"
proof -
  obtain t d' where api: "api_call demo_io demo_psa demo_geometry demo_flash demo_nvs_blob demo_held demo_blank d'"
    and t: "stored demo_nvs_blob demo_geometry d' t"
      "slot_step demo_geometry EV_PREPARE (demo_state SLOT_WRITING (zeros 16)) t"
    by (rule demo_prepare [OF demo_blank_ready])
  have "store_safe demo_digest demo_flash demo_nvs_blob demo_geometry d'"
    using demo_blank_ready slot_env.safeI [OF demo_env] api
      slot_env.slots_call_safe [OF demo_env demo_geometry_valid, of demo_blank d']
    by (auto simp: ready_def slots_call_def)
  then have "candidate_intact demo_digest (demo_flash d') demo_geometry t"
    using t(1) slot_step_fields(2) [OF t(2)] by (auto simp: store_safe_def state_packages_intact_def)
  then have "demo_digest (slot_content (demo_flash d') demo_geometry 0 4) = demo_digest demo_bytes"
    using slot_step_fields(2) [OF t(2)] by (simp add: candidate_intact_def demo_state_def demo_request_def)
  then have "demo_flash d' 0x10000 = 0x05"
    by (simp add: demo_digest_def demo_bytes_def slot_content_def content_def slot_begin_def slot_at_def
        demo_geometry_def bound_geometry_def demo_slots_def upt_rec)
  moreover have "demo_flash demo_blank 0x10000 = 0"
    by (simp add: provider_flash_def demo_blank_def)
  ultimately have "demo_flash d' 0x10000 \<noteq> demo_flash demo_blank 0x10000" by simp
  from flash_changes_only_in_the_reserved_slot [OF demo_env demo_geometry_valid api this]
  show ?thesis by blast
qed

text \<open>C4: On a device that does not fail, a package that fits a free slot can be installed: reserve,
  write, trial, health and confirmation return OK one after the other and the binding of the
  running firmware then holds the package, intact in its slot.\<close>

theorem update_installs_the_package:
  assumes "reliable_env io flash nvs held psa absorbed sha256 g healthy"
    and "ready sha256 flash nvs held g healthy d s" and "unat (ss_sequence s) + 5 < 4294967295"
    and "\<not> phase_pending (ss_phase s)"
    and "firmware_set_valid (Some f)" and "firmware_set_matches s f"
    and "schema_compatible s (running_firmware_sha256 f) p" and "operation_requestable f p"
    and "ss_phase s = SLOT_IDLE \<or> so_operation_id (ss_operation s) \<noteq> so_operation_id p"
    and "select_slot s g (so_package_size_bytes p) = Some i"
    and "length pkg = unat (so_package_size_bytes p)" and "sha256 pkg = so_package_sha256 p"
    and "serves (device_view flash nvs held) healthy source_fn pkg"
    and "accepts (device_view flash nvs held) flash healthy io g validate_fn (p\<lparr>so_slot := of_nat i\<rparr>) pkg"
    and "length boot_id = 16" and "\<not> all_zero boot_id"
  shows "\<exists>t1 d1 t2 d2 t3 d3 t4 d4 t5 d5.
    slots_reserve (Some (io_ptrs io)) psa (Some g) (ss_sequence s) (Some f) (Some p) (Some s) d
      = ((SLOTS_OK, Some t1), d1) \<and>
    slots_write_and_prepare (Some (io_ptrs io)) psa (Some g) (ss_sequence t1) (Some source_fn)
      (Some validate_fn) (Some t1) d1 = ((SLOTS_OK, Some t2), d2) \<and>
    slots_begin_trial (Some (io_ptrs io)) psa (Some g) (ss_sequence t2)
      (Some (running_firmware_sha256 f)) (Some boot_id) (Some t2) d2 = ((SLOTS_OK, Some t3), d3) \<and>
    slots_mark_healthy (Some (io_ptrs io)) psa (Some g) (ss_sequence t3) (Some boot_id) (Some t3) d3
      = ((SLOTS_OK, Some t4), d4) \<and>
    slots_confirm (Some (io_ptrs io)) psa (Some g) (ss_sequence t4) (Some (running_firmware_sha256 f))
      (Some boot_id) (Some t4) d4 = ((SLOTS_OK, Some t5), d5) \<and>
    stored nvs g d5 t5 \<and> (\<exists>b \<in> set (ss_bindings t5). sb_firmware_sha256 b = running_firmware_sha256 f \<and>
      sb_package_present b \<and> sb_package_sha256 b = so_package_sha256 p \<and>
      binding_intact sha256 (flash d5) g b)"
  using reliable_env.update_completes [OF assms] .

theorem update_installs_the_package_witness:
  "\<exists>t d. stored demo_nvs_blob demo_geometry d t \<and> (\<exists>b \<in> set (ss_bindings t).
      sb_firmware_sha256 b = demo_firmware \<and> sb_package_sha256 b = demo_digest demo_bytes)"
proof -
  have ready: "ready demo_digest demo_flash demo_nvs_blob demo_held demo_geometry demo_healthy
      (demo_world (Some demo_idle)) demo_idle"
    by (rule demo_ready) simp
  have room: "unat (ss_sequence demo_idle) + 5 < 4294967295" by (simp add: demo_idle_facts)
  have pkg: "length demo_bytes = unat (so_package_size_bytes demo_request)"
    "demo_digest demo_bytes = so_package_sha256 demo_request"
    by (simp_all add: demo_request_def demo_bytes_def)
  have accept: "accepts demo_view demo_flash demo_healthy demo_io demo_geometry demo_validate
      (demo_request\<lparr>so_slot := of_nat 0\<rparr>) demo_bytes"
    by (rule demo_accepts) (simp_all add: demo_request_def SLOT_COUNT_def)
  have boot: "length demo_boot = 16" "\<not> all_zero demo_boot" by code_simp+
  from update_installs_the_package [OF demo_reliable ready room demo_idle_facts(1) demo_request_facts(1,2,3,5)
      disjI1 [OF demo_idle_facts(2)] demo_request_facts(7) pkg demo_serves accept boot]
  show ?thesis
  proof (elim exE conjE bexE)
    fix t d b
    assume "stored demo_nvs_blob demo_geometry d t" "b \<in> set (ss_bindings t)"
      "sb_firmware_sha256 b = running_firmware_sha256 demo_firmware_set"
      "sb_package_sha256 b = so_package_sha256 demo_request"
    then show ?thesis
      by (intro exI [of _ t] exI [of _ d] conjI bexI [of _ b])
         (simp_all add: demo_firmware_set_def demo_request_def)
  qed
qed

subsection \<open>Result codes and the committed record\<close>

text \<open>C5: Reserving against the machine. OK means the returned record is committed and is the step of the machine from the record before; UNCERTAIN means the old record or that step is committed; every other code leaves the record and the caller's buffer alone.\<close>

theorem reserve_refines_the_machine:
  assumes "slot_env io flash nvs held psa absorbed sha256"
    and "pred_option operation_shape operation"
    and "slots_reserve (Some (io_ptrs io)) psa (Some g) n f operation state d = ((res, st), d')"
  shows "api_outcome nvs g (EV_RESERVE (the operation)) state d d' res st"
  using slot_env.reserve_outcome [OF assms(1) assms(3) assms(2)] .

theorem reserve_refines_the_machine_witness:
  "\<exists>t d'. slots_reserve (Some (io_ptrs demo_io)) demo_psa (Some demo_geometry) 1
      (Some demo_firmware_set) (Some demo_request) (Some zero_state) (demo_world (Some demo_idle))
      = ((SLOTS_OK, Some t), d') \<and>
    api_outcome demo_nvs_blob demo_geometry (EV_RESERVE demo_request) (Some zero_state) (demo_world (Some demo_idle)) d' SLOTS_OK (Some t)"
proof -
  obtain t d' where call: "slots_reserve (Some (io_ptrs demo_io)) demo_psa (Some demo_geometry) 1
      (Some demo_firmware_set) (Some demo_request) (Some zero_state) (demo_world (Some demo_idle))
      = ((SLOTS_OK, Some t), d')"
    by (rule demo_reserve)
  have shape: "pred_option operation_shape (Some demo_request)"
    by (simp add: operation_shape_def demo_request_def demo_firmware_def length_demo_digest)
  from reserve_refines_the_machine [OF demo_env shape call] call show ?thesis by auto
qed

text \<open>C6: Writing and preparing against the machine, for callbacks that leave the storage alone. OK means the returned record is committed and is the step of the machine from the record before; UNCERTAIN means the old record or that step is committed; every other code leaves the record and the caller's buffer alone.\<close>

theorem write_and_prepare_refines_the_machine:
  assumes "slot_env io flash nvs held psa absorbed sha256"
    and "pred_option (quiet_source (device_view flash nvs held)) source_fn"
    and "pred_option (quiet_validator (device_view flash nvs held)) validate_fn"
    and "slots_write_and_prepare (Some (io_ptrs io)) psa (Some g) n source_fn validate_fn state d = ((res, st), d')"
  shows "api_outcome nvs g EV_PREPARE state d d' res st"
  using slot_env.prepare_outcome [OF assms(1) assms(4) assms(2) assms(3)] .

theorem write_and_prepare_refines_the_machine_witness:
  "\<exists>t d'. slots_write_and_prepare (Some (io_ptrs demo_io)) demo_psa (Some demo_geometry) 5
      (Some demo_source) (Some demo_validate) (Some zero_state) demo_blank
      = ((SLOTS_OK, Some t), d') \<and>
    api_outcome demo_nvs_blob demo_geometry EV_PREPARE (Some zero_state) demo_blank d' SLOTS_OK (Some t)"
proof -
  obtain t d' where call: "slots_write_and_prepare (Some (io_ptrs demo_io)) demo_psa (Some demo_geometry) 5
      (Some demo_source) (Some demo_validate) (Some zero_state) demo_blank
      = ((SLOTS_OK, Some t), d')"
    by (rule demo_prepare [OF demo_blank_ready])
  have quiet: "pred_option (quiet_source demo_view) (Some demo_source)"
    "pred_option (quiet_validator demo_view) (Some demo_validate)"
    using demo_serves demo_quiet by (simp_all add: serves_def)
  from write_and_prepare_refines_the_machine [OF demo_env quiet call] call show ?thesis by auto
qed

text \<open>C7: Beginning a trial and marking it healthy against the machine, as above: OK means the
  returned record is committed and is the step of the machine from the record before; UNCERTAIN
  means the old record or that step is committed; every other code leaves the record and the
  caller's buffer alone.\<close>

theorem trial_calls_refine_the_machine:
  assumes "slot_env io flash nvs held psa absorbed sha256"
    and "pred_option (\<lambda>b. length b = 16) boot_id"
  shows "(slots_begin_trial (Some (io_ptrs io)) psa (Some g) n running boot_id state d = ((res, st), d') \<longrightarrow>
      api_outcome nvs g (EV_BEGIN_TRIAL (the boot_id)) state d d' res st) \<and>
    (slots_mark_healthy (Some (io_ptrs io)) psa (Some g) n boot_id state d = ((res, st), d') \<longrightarrow>
      api_outcome nvs g EV_MARK_HEALTHY state d d' res st)"
  using slot_env.begin_trial_outcome [OF assms(1)] slot_env.mark_healthy_outcome [OF assms(1)] assms(2) by blast

theorem trial_calls_refine_the_machine_witness:
  "(\<exists>t d'. slots_begin_trial (Some (io_ptrs demo_io)) demo_psa (Some demo_geometry) 5
      (Some demo_firmware) (Some demo_boot) (Some zero_state) (demo_world (Some (demo_state SLOT_PREPARED (zeros 16))))
      = ((SLOTS_OK, Some t), d') \<and>
    api_outcome demo_nvs_blob demo_geometry (EV_BEGIN_TRIAL demo_boot) (Some zero_state)
      (demo_world (Some (demo_state SLOT_PREPARED (zeros 16)))) d' SLOTS_OK (Some t)) \<and>
   (\<exists>t d'. slots_mark_healthy (Some (io_ptrs demo_io)) demo_psa (Some demo_geometry) 5
      (Some demo_boot) (Some zero_state) (demo_world (Some (demo_state SLOT_TRIAL_STARTED demo_boot)))
      = ((SLOTS_OK, Some t), d') \<and>
    api_outcome demo_nvs_blob demo_geometry EV_MARK_HEALTHY (Some zero_state)
      (demo_world (Some (demo_state SLOT_TRIAL_STARTED demo_boot))) d' SLOTS_OK (Some t))"
proof -
  obtain t1 d1 where begins: "slots_begin_trial (Some (io_ptrs demo_io)) demo_psa (Some demo_geometry) 5
      (Some demo_firmware) (Some demo_boot) (Some zero_state) (demo_world (Some (demo_state SLOT_PREPARED (zeros 16))))
      = ((SLOTS_OK, Some t1), d1)"
    by (rule demo_trial)
  obtain t2 d2 where marks: "slots_mark_healthy (Some (io_ptrs demo_io)) demo_psa (Some demo_geometry) 5
      (Some demo_boot) (Some zero_state) (demo_world (Some (demo_state SLOT_TRIAL_STARTED demo_boot)))
      = ((SLOTS_OK, Some t2), d2)"
    by (rule demo_healthy_call)
  have boot: "pred_option (\<lambda>b. length b = 16) (Some demo_boot)" by (simp add: demo_boot_def)
  note calls = trial_calls_refine_the_machine [OF demo_env boot]
  from calls [THEN conjunct1, rule_format, OF begins] calls [THEN conjunct2, rule_format, OF marks] begins marks
  show ?thesis unfolding option.sel by blast
qed

text \<open>C8: Confirming against the machine. OK means the returned record is committed and is the step of the machine from the record before; UNCERTAIN means the old record or that step is committed; every other code leaves the record and the caller's buffer alone.\<close>

theorem confirm_refines_the_machine:
  assumes "slot_env io flash nvs held psa absorbed sha256"
    and "slots_confirm (Some (io_ptrs io)) psa (Some g) n running boot_id state d = ((res, st), d')"
  shows "api_outcome nvs g EV_CONFIRM state d d' res st"
  using slot_env.confirm_outcome [OF assms(1) assms(2)] .

theorem confirm_refines_the_machine_witness:
  "\<exists>t d'. slots_confirm (Some (io_ptrs demo_io)) demo_psa (Some demo_geometry) 5 (Some demo_firmware)
      (Some demo_boot) (Some zero_state) (demo_world (Some (demo_state SLOT_HEALTH_VERIFIED demo_boot)))
      = ((SLOTS_OK, Some t), d') \<and>
    api_outcome demo_nvs_blob demo_geometry EV_CONFIRM (Some zero_state) (demo_world (Some (demo_state SLOT_HEALTH_VERIFIED demo_boot))) d' SLOTS_OK (Some t)"
proof -
  obtain t d' where call: "slots_confirm (Some (io_ptrs demo_io)) demo_psa (Some demo_geometry) 5 (Some demo_firmware)
      (Some demo_boot) (Some zero_state) (demo_world (Some (demo_state SLOT_HEALTH_VERIFIED demo_boot)))
      = ((SLOTS_OK, Some t), d')"
    by (rule demo_confirm)
  from confirm_refines_the_machine [OF demo_env call] call show ?thesis by auto
qed

text \<open>C9: Abandoning against the machine. OK means the returned record is committed and is the step of the machine from the record before; UNCERTAIN means the old record or that step is committed; every other code leaves the record and the caller's buffer alone.\<close>

theorem abandon_refines_the_machine:
  assumes "slot_env io flash nvs held psa absorbed sha256"
    and "quiet_stop (device_view flash nvs held) stop_fn"
    and "slots_abandon (Some (io_ptrs io)) psa (Some g) n boot_id stop_fn state d = ((res, st), d')"
  shows "api_outcome nvs g EV_ABANDON state d d' res st"
  using slot_env.abandon_outcome [OF assms(1) assms(3) assms(2)] .

theorem abandon_refines_the_machine_witness:
  "\<exists>t d'. slots_abandon (Some (io_ptrs demo_io)) demo_psa (Some demo_geometry) 5
      (Some (replicate 16 7)) None (Some zero_state) (demo_world (Some (demo_state SLOT_TRIAL_STARTED demo_boot)))
      = ((SLOTS_OK, Some t), d') \<and>
    api_outcome demo_nvs_blob demo_geometry EV_ABANDON (Some zero_state) (demo_world (Some (demo_state SLOT_TRIAL_STARTED demo_boot))) d' SLOTS_OK (Some t)"
proof -
  obtain t d' where call: "slots_abandon (Some (io_ptrs demo_io)) demo_psa (Some demo_geometry) 5
      (Some (replicate 16 7)) None (Some zero_state) (demo_world (Some (demo_state SLOT_TRIAL_STARTED demo_boot)))
      = ((SLOTS_OK, Some t), d')"
    by (rule demo_abandon)
  have quiet: "quiet_stop demo_view None" by (simp add: quiet_stop_def)
  from abandon_refines_the_machine [OF demo_env quiet call] call show ?thesis by auto
qed

subsection \<open>What an OK result certifies\<close>

text \<open>C10: Confirmation succeeds only for the record named by its sequence number, in phase
  HEALTH_VERIFIED, for the running firmware and the boot of the trial, with every package and the
  candidate intact; the new record puts exactly the candidate into the binding of that firmware.\<close>

theorem confirm_certifies_the_candidate:
  assumes "slot_env io flash nvs held psa absorbed sha256"
    and "slots_confirm (Some (io_ptrs io)) psa (Some g) n running boot_id state d = ((SLOTS_OK, st), d')"
  shows "\<exists>s index. certified sha256 flash nvs g n d s \<and> ss_phase s = SLOT_HEALTH_VERIFIED \<and>
    candidate_intact sha256 (flash d) g s \<and>
    running = Some (so_target_firmware_sha256 (ss_operation s)) \<and>
    boot_id = Some (so_trial_boot_id (ss_operation s)) \<and>
    binding_for_firmware s (so_target_firmware_sha256 (ss_operation s)) = Some index \<and>
    st = Some (numbered s (confirmed_state s index))"
proof -
  from slot_env.confirm_certifies [OF assms] obtain s index where
    s: "certified sha256 flash nvs g n d s" "ss_phase s = SLOT_HEALTH_VERIFIED"
      "running = Some (so_target_firmware_sha256 (ss_operation s))"
      "boot_id = Some (so_trial_boot_id (ss_operation s))"
      "binding_for_firmware s (so_target_firmware_sha256 (ss_operation s)) = Some index"
      "st = Some (numbered s (confirmed_state s index))" by blast
  then have "candidate_intact sha256 (flash d) g s"
    by (simp add: certified_def state_packages_intact_def)
  with s show ?thesis by blast
qed

theorem confirm_certifies_the_candidate_witness:
  "\<exists>s. candidate_intact demo_digest (demo_flash (demo_world (Some (demo_state SLOT_HEALTH_VERIFIED demo_boot))))
      demo_geometry s \<and> ss_sequence s = 5 \<and> ss_phase s = SLOT_HEALTH_VERIFIED"
proof -
  obtain t d' where call: "slots_confirm (Some (io_ptrs demo_io)) demo_psa (Some demo_geometry) 5
      (Some demo_firmware) (Some demo_boot) (Some zero_state)
      (demo_world (Some (demo_state SLOT_HEALTH_VERIFIED demo_boot))) = ((SLOTS_OK, Some t), d')"
    by (rule demo_confirm)
  from confirm_certifies_the_candidate [OF demo_env call] show ?thesis by (auto simp: certified_def)
qed

text \<open>C11: A trial begins only for the prepared candidate of the running firmware, with every package and
  the candidate intact, and records the identity of the boot; it is marked healthy only in the
  boot that began it.\<close>

theorem trials_are_bound_to_their_boot:
  assumes "slot_env io flash nvs held psa absorbed sha256"
  shows "(slots_begin_trial (Some (io_ptrs io)) psa (Some g) n running boot_id state d = ((SLOTS_OK, st), d') \<longrightarrow>
      (\<exists>s. certified sha256 flash nvs g n d s \<and> ss_phase s = SLOT_PREPARED \<and>
        running = Some (so_target_firmware_sha256 (ss_operation s)) \<and>
        st = Some (numbered s (s\<lparr>ss_phase := SLOT_TRIAL_STARTED,
          ss_operation := (ss_operation s)\<lparr>so_trial_boot_id := the boot_id\<rparr>\<rparr>)))) \<and>
    (slots_mark_healthy (Some (io_ptrs io)) psa (Some g) n boot_id state d = ((SLOTS_OK, st), d') \<longrightarrow>
      (\<exists>s. certified sha256 flash nvs g n d s \<and> ss_phase s = SLOT_TRIAL_STARTED \<and>
        boot_id = Some (so_trial_boot_id (ss_operation s)) \<and>
        st = Some (numbered s (s\<lparr>ss_phase := SLOT_HEALTH_VERIFIED\<rparr>))))"
  using slot_env.begin_trial_certifies [OF assms, of g n running boot_id state d st d']
    slot_env.mark_healthy_certifies [OF assms, of g n boot_id state d st d'] by blast

theorem trials_are_bound_to_their_boot_witness:
  "(\<exists>s. ss_phase s = SLOT_PREPARED \<and> ss_sequence s = 5 \<and>
      stored demo_nvs_blob demo_geometry (demo_world (Some (demo_state SLOT_PREPARED (zeros 16)))) s) \<and>
    (\<exists>s. ss_phase s = SLOT_TRIAL_STARTED \<and> so_trial_boot_id (ss_operation s) = demo_boot \<and>
      stored demo_nvs_blob demo_geometry (demo_world (Some (demo_state SLOT_TRIAL_STARTED demo_boot))) s)"
proof
  obtain t d' where call: "slots_begin_trial (Some (io_ptrs demo_io)) demo_psa (Some demo_geometry) 5
      (Some demo_firmware) (Some demo_boot) (Some zero_state) (demo_world (Some (demo_state SLOT_PREPARED (zeros 16))))
      = ((SLOTS_OK, Some t), d')"
    by (rule demo_trial)
  from trials_are_bound_to_their_boot [OF demo_env, THEN conjunct1, rule_format, OF call]
  show "\<exists>s. ss_phase s = SLOT_PREPARED \<and> ss_sequence s = 5 \<and>
      stored demo_nvs_blob demo_geometry (demo_world (Some (demo_state SLOT_PREPARED (zeros 16)))) s"
    by (auto simp: certified_def)
next
  obtain t d' where call: "slots_mark_healthy (Some (io_ptrs demo_io)) demo_psa (Some demo_geometry) 5
      (Some demo_boot) (Some zero_state) (demo_world (Some (demo_state SLOT_TRIAL_STARTED demo_boot)))
      = ((SLOTS_OK, Some t), d')"
    by (rule demo_healthy_call)
  from trials_are_bound_to_their_boot [OF demo_env, THEN conjunct2, rule_format, OF call]
  show "\<exists>s. ss_phase s = SLOT_TRIAL_STARTED \<and> so_trial_boot_id (ss_operation s) = demo_boot \<and>
      stored demo_nvs_blob demo_geometry (demo_world (Some (demo_state SLOT_TRIAL_STARTED demo_boot))) s"
    by (auto simp: certified_def)
qed

text \<open>C12: Reserving picks the first slot that no confirmed package occupies and that is large enough, and
  starts only from a record that is not pending and matches the bootable firmware.  It reports
  NO_SPACE only for a package that is larger than every slot no confirmed package occupies, and
  there always is such a slot: two bindings never block all three.\<close>

theorem reserve_is_first_fit:
  assumes "slot_env io flash nvs held psa absorbed sha256"
  shows "(slots_reserve (Some (io_ptrs io)) psa (Some g) n f operation state d = ((SLOTS_OK, st), d') \<longrightarrow>
      (\<exists>s i. certified sha256 flash nvs g n d s \<and> \<not> phase_pending (ss_phase s) \<and>
        firmware_set_matches s (the f) \<and>
        st = Some (numbered s (s\<lparr>ss_phase := SLOT_WRITING,
          ss_operation := (the operation)\<lparr>so_slot := of_nat i\<rparr>\<rparr>)) \<and>
        slot_fits s g (the operation) i \<and> (\<forall>j < i. \<not> slot_fits s g (the operation) j))) \<and>
    (slots_reserve (Some (io_ptrs io)) psa (Some g) n f operation state d = ((SLOTS_NO_SPACE, st), d') \<longrightarrow>
      (\<exists>s i. stored nvs g d s \<and> ss_sequence s = n \<and> \<not> phase_pending (ss_phase s) \<and> slot_free s i \<and>
        (\<forall>j. \<not> slot_fits s g (the operation) j)))"
  using slot_env.reserve_first_fit [OF assms, of g n f operation state d st d']
    slot_env.reserve_without_space [OF assms, of g n f operation state d st d'] by blast

theorem reserve_is_first_fit_witness:
  "(\<exists>s i. ss_sequence s = 1 \<and> stored demo_nvs_blob demo_geometry (demo_world (Some demo_idle)) s \<and>
      slot_fits s demo_geometry demo_request i) \<and>
    (\<exists>s i. slot_free s i \<and> so_package_size_bytes demo_large > sr_size_bytes (slot_at demo_geometry i))"
proof
  obtain t d' where call: "slots_reserve (Some (io_ptrs demo_io)) demo_psa (Some demo_geometry) 1
      (Some demo_firmware_set) (Some demo_request) (Some zero_state) (demo_world (Some demo_idle))
      = ((SLOTS_OK, Some t), d')"
    by (rule demo_reserve)
  from reserve_is_first_fit [OF demo_env, THEN conjunct1, rule_format, OF call]
  show "\<exists>s i. ss_sequence s = 1 \<and> stored demo_nvs_blob demo_geometry (demo_world (Some demo_idle)) s \<and>
      slot_fits s demo_geometry demo_request i"
    by (auto simp: certified_def)
next
  obtain d' where call: "slots_reserve (Some (io_ptrs demo_io)) demo_psa (Some demo_geometry) 1
      (Some demo_firmware_set) (Some demo_large) (Some zero_state) (demo_world (Some demo_idle))
      = ((SLOTS_NO_SPACE, Some zero_state), d')"
    by (rule demo_reserve_large)
  from reserve_is_first_fit [OF demo_env, THEN conjunct2, rule_format, OF call]
  show "\<exists>s i. slot_free s i \<and> so_package_size_bytes demo_large > sr_size_bytes (slot_at demo_geometry i)"
    by (auto simp: slot_fits_def not_le)
qed



text \<open>C14: The boot decision of reconcile is BLOCKED with an error, or it rests on the committed record, which
  matches the bootable firmware and whose confirmed packages are intact: CONFIRMED when nothing is
  pending, RECOVER_CONFIRMED when something is, with an intact candidate, and
  RECOVER_CONFIRMED_CANDIDATE_INVALID when the check of a candidate failed.\<close>

theorem reconcile_decision_is_justified:
  assumes "slot_env io flash nvs held psa absorbed sha256"
    and "slots_reconcile (Some (io_ptrs io)) psa (Some g) f state decision d = ((res, st, Some dec), d')"
  shows "dec = BOOT_BLOCKED \<and> res \<noteq> SLOTS_OK \<or>
    (\<exists>s. stored nvs g d s \<and> st = Some s \<and> firmware_set_matches s (the f) \<and>
      (\<forall>b \<in> set (ss_bindings s). binding_intact sha256 (flash d) g b) \<and>
      (dec = BOOT_CONFIRMED \<and> res = SLOTS_OK \<and> \<not> phase_pending (ss_phase s) \<or>
       dec = BOOT_RECOVER_CONFIRMED \<and> res = SLOTS_OK \<and> phase_pending (ss_phase s) \<and>
         state_packages_intact sha256 (flash d) g s \<or>
       dec = BOOT_RECOVER_CONFIRMED_CANDIDATE_INVALID \<and> res \<noteq> SLOTS_OK \<and>
         ss_phase s \<in> {SLOT_PREPARED, SLOT_TRIAL_STARTED, SLOT_HEALTH_VERIFIED}))"
  using slot_env.reconcile_decides [OF assms] .

theorem reconcile_decision_is_justified_witness:
  "\<exists>s. stored demo_nvs_blob demo_geometry (demo_world (Some (demo_state SLOT_PREPARED (zeros 16)))) s \<and>
    phase_pending (ss_phase s) \<and> state_packages_intact demo_digest
      (demo_flash (demo_world (Some (demo_state SLOT_PREPARED (zeros 16))))) demo_geometry s"
proof -
  let ?s = "demo_state SLOT_PREPARED (zeros 16)"
  have ready: "ready demo_digest demo_flash demo_nvs_blob demo_held demo_geometry demo_healthy (demo_world (Some ?s)) ?s"
    by (rule demo_ready) simp
  have matches: "firmware_set_matches ?s demo_firmware_set" by code_simp
  obtain d' where call: "slots_reconcile (Some (io_ptrs demo_io)) demo_psa (Some demo_geometry)
      (Some demo_firmware_set) (Some zero_state) (Some BOOT_BLOCKED) (demo_world (Some ?s))
      = ((SLOTS_OK, Some ?s, Some BOOT_RECOVER_CONFIRMED), d')"
    using reliable_env.reconcile_live [OF demo_reliable ready demo_request_facts(1) matches,
        where state = zero_state and decision = BOOT_BLOCKED]
    by (auto simp: demo_state_def phase_pending_iff)
  from reconcile_decision_is_justified [OF demo_env call] show ?thesis by auto
qed

text \<open>C15: Initialization writes the first record only over an empty store and only when the packages it
  names are intact; it never changes Flash.\<close>

theorem initialize_writes_the_first_record:
  assumes "slot_env io flash nvs held psa absorbed sha256"
    and "slots_initialize (Some (io_ptrs io)) psa (Some g) f (Some bindings) d = (r, d')"
    and "length bindings = SLOT_BINDING_COUNT" and "list_all binding_shape bindings"
  shows "flash d' = flash d \<and>
    (nvs d' = nvs d \<or> nvs d = None \<and> stored nvs g d' (initial_state bindings) \<and>
       (\<forall>b \<in> set bindings. binding_intact sha256 (flash d) g b)) \<and>
    (r = SLOTS_OK \<longrightarrow> nvs d = None \<and> stored nvs g d' (initial_state bindings))"
  using slot_env.initialize_call [OF assms] .

theorem initialize_writes_the_first_record_witness:
  "\<exists>d'. slots_initialize (Some (io_ptrs demo_io)) demo_psa (Some demo_geometry) (Some demo_firmware_set)
      (Some demo_bindings) (demo_world None) = (SLOTS_OK, d') \<and>
    stored demo_nvs_blob demo_geometry d' demo_idle"
proof -
  have bindings: "length demo_bindings = SLOT_BINDING_COUNT" "list_all binding_shape demo_bindings"
    using demo_shapes(3)
    by (simp_all add: state_shape_def demo_idle_def initial_state_def)
  have free: "sim_faults (demo_world None) = []" "\<not> demo_held (demo_world None)"
    "demo_nvs_blob (demo_world None) = None"
    by (simp_all add: demo_world_def provider_held_def provider_nvs_def)
  have intact: "\<forall>b \<in> set demo_bindings. binding_intact demo_digest (demo_flash (demo_world None)) demo_geometry b"
    using demo_intact(2) by (simp add: state_packages_intact_def demo_idle_def initial_state_def)
  from reliable_env.initialize_live [OF demo_reliable free bindings demo_valid(5) [unfolded demo_idle_def]
      demo_request_facts(1,2) [unfolded demo_idle_def] intact]
  obtain d' where call: "slots_initialize (Some (io_ptrs demo_io)) demo_psa (Some demo_geometry)
      (Some demo_firmware_set) (Some demo_bindings) (demo_world None) = (SLOTS_OK, d')" by blast
  from initialize_writes_the_first_record [OF demo_env call bindings] call
  show ?thesis by (auto simp: demo_idle_def)
qed

text \<open>C16: Every call leaves the lock as it found it, and a call that finds the lock taken changes neither
  Flash nor the record.\<close>

theorem lock_is_balanced:
  assumes "slot_env io flash nvs held psa absorbed sha256" and "geometry_valid (Some g)"
    and "api_call io psa g flash nvs held d d'"
  shows "held d' = held d \<and> (held d \<longrightarrow> flash d' = flash d \<and> nvs d' = nvs d)"
  using slot_env.api_call_lock [OF assms] by blast

theorem lock_is_balanced_witness:
  "\<exists>d'. api_call demo_io demo_psa demo_geometry demo_flash demo_nvs_blob demo_held demo_blank d' \<and>
    demo_held d' = demo_held demo_blank"
proof -
  obtain t d' where api: "api_call demo_io demo_psa demo_geometry demo_flash demo_nvs_blob demo_held demo_blank d'"
    by (rule demo_prepare [OF demo_blank_ready])
  from lock_is_balanced [OF demo_env demo_geometry_valid api] api show ?thesis by blast
qed

subsection \<open>Records and their encoding\<close>

text \<open>C17: The codec is exact: a blob of 288 bytes decodes to a record if and only if it is the encoding of
  that record and the record is valid, so every valid record reads back, and comparing blobs
  compares records; and a blob of a record in which one byte has been changed is rejected.\<close>

theorem record_codec_is_exact:
  assumes "length blob = SLOT_BLOB_BYTES"
  shows "(decode_state blob g = Some s \<longleftrightarrow> encode_state s = blob \<and> state_shape s \<and> state_valid s g) \<and>
    (state_shape s \<longrightarrow> length (encode_state s) = SLOT_BLOB_BYTES) \<and>
    (decode_state blob g = Some s \<and> i < SLOT_BLOB_BYTES \<and> x \<noteq> blob ! i \<longrightarrow> decode_state (blob[i := x]) g = None)"
  using encode_decode_state [OF assms] decode_state_shape [OF assms] decode_state_valid
    decode_encode_state length_encode_state decode_corrupted [OF assms] by blast

theorem record_codec_is_exact_witness:
  "decode_state (encode_state (demo_state SLOT_TRIAL_STARTED demo_boot)) demo_geometry
     = Some (demo_state SLOT_TRIAL_STARTED demo_boot) \<and>
   (\<exists>x. decode_state ((encode_state (demo_state SLOT_TRIAL_STARTED demo_boot))[7 := x]) demo_geometry = None)"
proof -
  let ?s = "demo_state SLOT_TRIAL_STARTED demo_boot"
  have size: "length (encode_state ?s) = SLOT_BLOB_BYTES"
    using demo_shapes(1) by (simp add: length_encode_state)
  have "7 < SLOT_BLOB_BYTES" "encode_state ?s ! 7 + 1 \<noteq> encode_state ?s ! 7"
    by (simp_all add: SLOT_BLOB_BYTES_def)
  with record_codec_is_exact [OF size, of demo_geometry ?s 7 "encode_state ?s ! 7 + 1"] demo_shapes(1) demo_valid(3)
  show ?thesis by blast
qed

text \<open>C18: A step of the machine from a valid record gives a valid record, so the check before the commit
  refuses a step only when the sequence number is exhausted.\<close>

theorem steps_keep_records_valid:
  assumes "slot_move g ev s t" and "state_shape s" and "state_valid s g"
  shows "state_shape (numbered s t) \<and> (ss_sequence s \<noteq> 0xFFFFFFFF \<longrightarrow> state_valid (numbered s t) g)"
  using slot_move_shape [OF assms(1,2)] slot_move_valid [OF assms] by (simp add: state_shape_def)

theorem steps_keep_records_valid_witness:
  "state_shape (numbered (demo_state SLOT_TRIAL_STARTED demo_boot)
     ((demo_state SLOT_TRIAL_STARTED demo_boot)\<lparr>ss_phase := SLOT_HEALTH_VERIFIED\<rparr>))"
proof -
  have "slot_move demo_geometry EV_MARK_HEALTHY (demo_state SLOT_TRIAL_STARTED demo_boot)
      ((demo_state SLOT_TRIAL_STARTED demo_boot)\<lparr>ss_phase := SLOT_HEALTH_VERIFIED\<rparr>)"
    by (rule move_mark_healthy) (simp add: demo_state_def)
  from steps_keep_records_valid [OF this demo_shapes(1) demo_valid(3)] show ?thesis by blast
qed

subsection \<open>The ESP-IDF provider\<close>

text \<open>C19: The callbacks of the ESP-IDF provider meet the contract of the slot store, given the documented
  behaviour of the partition, NVS and semaphore calls.\<close>

theorem provider_meets_the_contract:
  assumes "esp_platform api part_bytes kv taken place pending"
  shows "slot_device (provider_io api p) (provider_flash part_bytes p) (provider_nvs kv p)
    (provider_held taken p)"
  using esp_platform.provider_device [OF assms] .

theorem provider_meets_the_contract_witness:
  "slot_device demo_io demo_flash demo_nvs_blob demo_held"
  using provider_meets_the_contract [OF sim.esp_platform_axioms] .



end
