(* ===== verification/Wasm_Cursor.thy ===== *)
theory Wasm_Cursor
  imports Container_Prelude
begin

text \<open>
  Reading a module through a bare pointer and a cursor, as \<open>wasm_scan.c\<close> does.  A read of the
  array is \<open>fetch\<close>, which has a value of its own for an index outside the array, so that the
  absence of such reads is a theorem and not an assumption of the model.  The bool functions
  of the file with out-parameters return \<open>GO\<close> with the values they stored, or \<open>STOP ()\<close> for
  false; \<open>scan_module\<close> stops with a result code.

  \<open>leb\<close> is the grammar of an unsigned 32-bit LEB128 number, stated without a cursor;
  \<open>read_u32\<close> reads exactly that grammar.
\<close>

subsection \<open>Scanning steps\<close>

datatype ('e, 'a) scan = OUT_OF_BOUNDS | STOP 'e | GO 'a

definition bindS :: "('e, 'a) scan \<Rightarrow> ('a \<Rightarrow> ('e, 'b) scan) \<Rightarrow> ('e, 'b) scan" where
  "bindS m f = (case m of OUT_OF_BOUNDS \<Rightarrow> OUT_OF_BOUNDS | STOP e \<Rightarrow> STOP e | GO x \<Rightarrow> f x)"

definition stop_as :: "'f \<Rightarrow> ('e, 'a) scan \<Rightarrow> ('f, 'a) scan" where
  "stop_as f m = (case m of OUT_OF_BOUNDS \<Rightarrow> OUT_OF_BOUNDS | STOP e \<Rightarrow> STOP f | GO x \<Rightarrow> GO x)"

definition need :: "bool \<Rightarrow> 'e \<Rightarrow> ('e, unit) scan" where
  "need b e = (if b then GO () else STOP e)"

definition fetch :: "bytes \<Rightarrow> nat \<Rightarrow> ('e, byte) scan" where
  "fetch data i = (if i < length data then GO (data ! i) else OUT_OF_BOUNDS)"

named_theorems scan_simps "when a scanning step succeeds, stops or leaves the array"

lemma bindS_simps [simp]:
  "bindS (GO x) f = f x" "bindS (STOP e) f = STOP e" "bindS OUT_OF_BOUNDS f = OUT_OF_BOUNDS"
  by (simp_all add: bindS_def)

lemma bindS_GO [scan_simps]: "bindS m f = GO y \<longleftrightarrow> (\<exists>x. m = GO x \<and> f x = GO y)"
  by (cases m) simp_all

lemma bindS_OUT [scan_simps]:
  "bindS m f = OUT_OF_BOUNDS \<longleftrightarrow> m = OUT_OF_BOUNDS \<or> (\<exists>x. m = GO x \<and> f x = OUT_OF_BOUNDS)"
  by (cases m) simp_all

lemma stop_as_iff [scan_simps]:
  "stop_as e m = GO x \<longleftrightarrow> m = GO x" "stop_as e m = OUT_OF_BOUNDS \<longleftrightarrow> m = OUT_OF_BOUNDS"
  by (cases m; simp add: stop_as_def)+

lemma need_iff [scan_simps]: "need b e = GO u \<longleftrightarrow> b" "need b e \<noteq> OUT_OF_BOUNDS"
  by (simp_all add: need_def)

lemma fetch_iff [scan_simps]:
  "fetch data i = GO b \<longleftrightarrow> i < length data \<and> b = data ! i"
  "fetch data i = OUT_OF_BOUNDS \<longleftrightarrow> length data \<le> i"
  by (auto simp: fetch_def)

lemma bindS_cong [fundef_cong]:
  assumes "m = m'" and "\<And>x. m' = GO x \<Longrightarrow> f x = f' x"
  shows "bindS m f = bindS m' f'"
  using assms by (cases m') simp_all

subsection \<open>Septets\<close>

lemma unat_byte_lt: "unat (b :: byte) < 256"
  using unsigned_less [of b, where ?'a = nat] by simp

lemma byte_top_bit: "(b :: byte) AND 0x80 = 0 \<longleftrightarrow> b < 128"
proof -
  have "b AND 0x80 = 0 \<longleftrightarrow> \<not> bit b 7"
    using and_exp_eq_0_iff_not_bit [of b 7] by simp
  also have "\<dots> \<longleftrightarrow> even (unat b div 128)"
  proof -
    have "bit b 7 \<longleftrightarrow> bit (unat b) 7" by (simp add: bit_unsigned_iff)
    then show ?thesis by (simp only: bit_iff_odd) simp
  qed
  also have "\<dots> \<longleftrightarrow> unat b < 128"
  proof -
    have "unat b div 128 < 2" using unat_byte_lt [of b] by simp
    then have "unat b div 128 = 0 \<or> unat b div 128 = 1" by arith
    then show ?thesis by auto
  qed
  finally show ?thesis by (simp add: word_less_nat_alt)
qed

lemma unat_byte_7: "unat (ucast ((b :: byte) AND 0x7f) :: u32) = unat b mod 128"
proof -
  have "b AND 0x7f = take_bit 7 b" by (simp add: take_bit_eq_mask mask_eq_exp_minus_1)
  then have "unat (b AND 0x7f) = unat b mod 128"
    using unsigned_take_bit_eq [of 7 b, where ?'a = nat] by (simp only: take_bit_eq_mod) simp
  then show ?thesis by (simp add: unsigned_ucast_eq take_bit_eq_mod)
qed

lemma byte_high_nibble: "(b :: byte) AND 0xf0 = 0 \<longleftrightarrow> b < 16"
proof -
  have "unat (b AND 0xf0) = unat b AND 0xf0" by (simp add: unsigned_and_eq)
  have "b AND 0xf0 = 0 \<longleftrightarrow> drop_bit 4 b = 0"
  proof -
    have "b AND 0xf0 = push_bit 4 (drop_bit 4 b)"
    proof (rule bit_word_eqI)
      fix n assume "n < LENGTH(8)"
      then have "n \<in> {0,1,2,3,4,5,6,7}" by auto
      then show "bit (b AND 0xf0) n = bit (push_bit 4 (drop_bit 4 b)) n"
        by (auto simp: bit_simps)
    qed
    moreover have "drop_bit 4 (b AND 0xf0) = drop_bit 4 b"
      using bit_imp_le_length [of b] by (intro bit_word_eqI) (force simp: bit_simps calculation)
    ultimately show ?thesis by (metis drop_bit_of_0 push_bit_of_0)
  qed
  also have "\<dots> \<longleftrightarrow> unat (drop_bit 4 b) = 0" by (simp add: unat_eq_0)
  also have "\<dots> \<longleftrightarrow> unat b < 16" by (simp add: unat_drop_bit_eq) (simp add: drop_bit_eq_div div_eq_0_iff)
  finally show ?thesis by (simp add: word_less_nat_alt)
qed

lemma unat_or_push_bit:
  assumes "unat (r :: u32) < 2 ^ s" and "unat x * 2 ^ s < 2 ^ 32" and "s < 32"
  shows "unat (r OR push_bit s x) = unat r + 2 ^ s * unat x"
proof -
  have x: "unat (push_bit s x) = push_bit s (unat x)"
    using assms(2) by (simp only: unsigned_push_bit_eq) (simp add: push_bit_eq_mult take_bit_eq_mod)
  have "r AND push_bit s x = 0"
  proof (rule bit_word_eqI)
    fix n assume "n < LENGTH(32)"
    have "take_bit s (unat r) = unat r" using assms(1) by (simp add: take_bit_nat_eq_self)
    moreover have "bit r n \<Longrightarrow> bit (unat r) n" by (simp add: bit_unsigned_iff)
    ultimately have "n \<ge> s \<Longrightarrow> \<not> bit r n"
      by (metis bit_take_bit_iff leD)
    then show "bit (r AND push_bit s x) n = bit (0 :: u32) n" by (auto simp: bit_simps)
  qed
  then have "r OR push_bit s x = r + push_bit s x"
    using disjunctive_add_eq_or by metis
  moreover have "unat r + unat (push_bit s x) < 2 ^ 32"
  proof -
    have "unat x * 2 ^ s + 2 ^ s \<le> 2 ^ 32"
    proof -
      have "(2::nat) ^ 32 = 2 ^ s * 2 ^ (32 - s)" using assms(3) by (simp flip: power_add)
      with assms(2) have "unat x * 2 ^ s < 2 ^ (32 - s) * 2 ^ s" by (simp only: mult.commute)
      then have "unat x < 2 ^ (32 - s)" by (rule mult_right_less_imp_less) simp
      then have "(unat x + 1) * 2 ^ s \<le> 2 ^ (32 - s) * 2 ^ s" by (intro mult_le_mono) auto
      then show ?thesis using \<open>2 ^ 32 = 2 ^ s * 2 ^ (32 - s)\<close> by (simp add: mult.commute)
    qed
    then show ?thesis using assms(1) x by (simp add: push_bit_eq_mult)
  qed
  ultimately show ?thesis using x by (simp add: unat_word_ariths push_bit_eq_mult)
qed

lemma unat_or_septet:
  assumes "unat (r :: u32) < 128 ^ k" and "k < 5" and "k = 4 \<Longrightarrow> b < 16"
  shows "unat (r OR push_bit (7 * k) (ucast ((b :: byte) AND 0x7f))) = unat r + 128 ^ k * (unat b mod 128)"
proof -
  have pow: "(2::nat) ^ (7 * k) = 128 ^ k" by (simp add: power_mult)
  have "(unat b mod 128) * 128 ^ k < 2 ^ 32"
  proof (cases "k = 4")
    case True
    then have "unat b < 16" using assms(3) by (simp add: word_less_nat_alt)
    then show ?thesis using True by simp
  next
    case False
    then have "(128::nat) ^ k \<le> 128 ^ 3" using assms(2) by (intro power_increasing) auto
    then have "(unat b mod 128) * 128 ^ k \<le> 127 * 128 ^ 3" by (intro mult_le_mono) auto
    then show ?thesis by simp
  qed
  then show ?thesis
    using unat_or_push_bit [of r "7 * k" "ucast (b AND 0x7f)"] assms(1,2)
    by (simp add: pow unat_byte_7)
qed

lemma septet_room:
  assumes "n = m + 128 ^ k * (x mod 128)" and "m < 128 ^ k"
  shows "(n :: nat) < 128 ^ Suc k"
proof -
  have "128 ^ k * (x mod 128) \<le> 128 ^ k * 127" by (intro mult_le_mono) auto
  then show ?thesis unfolding power_Suc using assms by linarith
qed

subsection \<open>Windows of an array\<close>

text \<open>The bytes from the cursor up to the end of the enclosing section.\<close>

definition window :: "bytes \<Rightarrow> nat \<Rightarrow> nat \<Rightarrow> bytes" where
  "window data c e = take (e - c) (drop c data)"

lemma length_window [simp]: "e \<le> length data \<Longrightarrow> length (window data c e) = e - c"
  by (simp add: window_def)

lemma window_nil [simp]: "e \<le> c \<Longrightarrow> window data c e = []"
  by (simp add: window_def)

lemma window_Cons: "c < e \<Longrightarrow> e \<le> length data \<Longrightarrow> window data c e = data ! c # window data (Suc c) e"
  by (simp add: window_def Cons_nth_drop_Suc [symmetric] take_Cons')

lemma window_append:
  "c \<le> m \<Longrightarrow> m \<le> e \<Longrightarrow> window data c m @ window data m e = window data c e"
  using take_add [of "m - c" "e - m" "drop c data"] by (simp add: window_def)

lemma window_split:
  assumes "window data c e = xs @ ys" and "c \<le> e" and "e \<le> length data"
  shows "xs = window data c (c + length xs)" and "ys = window data (c + length xs) e"
    and "c + length xs \<le> e"
proof -
  have len: "length xs + length ys = e - c"
    using arg_cong [OF assms(1), of length] assms(3) by simp
  then show le: "c + length xs \<le> e" using assms(2) by simp
  have "window data c (c + length xs) @ window data (c + length xs) e = xs @ ys"
    using assms(1) window_append [of c "c + length xs" e data] le by simp
  then show "xs = window data c (c + length xs)" "ys = window data (c + length xs) e"
    using le assms(3) by (simp_all add: append_eq_append_conv)
qed

lemma window_all [simp]: "window data 0 (length data) = data"
  by (simp add: window_def)

lemma window_drop: "e = length data \<Longrightarrow> window data c e = drop c data"
  by (simp add: window_def)

subsection \<open>Numbers\<close>

fun read_u32_from :: "bytes \<Rightarrow> nat \<Rightarrow> nat list \<Rightarrow> nat \<Rightarrow> u32 \<Rightarrow> (unit, u32 \<times> nat) scan" where
  "read_u32_from data end_pos [] cursor result = STOP ()"
| "read_u32_from data end_pos (shift # shifts) cursor result =
    (if cursor \<ge> end_pos then STOP ()
     else bindS (fetch data cursor) (\<lambda>octet.
       if shift = 28 \<and> octet AND 0xf0 \<noteq> 0 then STOP ()
       else let result = result OR push_bit shift (ucast (octet AND 0x7f)) in
         if octet AND 0x80 = 0 then GO (result, Suc cursor)
         else read_u32_from data end_pos shifts (Suc cursor) result))"

definition read_u32 :: "bytes \<Rightarrow> nat \<Rightarrow> nat \<Rightarrow> (unit, u32 \<times> nat) scan" where
  "read_u32 data end_pos cursor = read_u32_from data end_pos [0, 7, 14, 21, 28] cursor 0"

fun leb_sum :: "bytes \<Rightarrow> nat" where
  "leb_sum [] = 0"
| "leb_sum (b # bs) = unat b mod 128 + 128 * leb_sum bs"

definition leb :: "bytes \<Rightarrow> u32 \<Rightarrow> bool" where
  "leb L v \<longleftrightarrow> L \<noteq> [] \<and> length L \<le> 5 \<and> list_all (\<lambda>b. b \<ge> 128) (butlast L) \<and> last L < 128 \<and>
     (length L = 5 \<longrightarrow> last L < 16) \<and> unat v = leb_sum L"

lemma read_u32_from_sound:
  assumes "read_u32_from data e (map ((*) 7) [k..<5]) c r = GO (v, c')"
    and "unat r < 128 ^ k" and "k \<le> 5" and "e \<le> length data"
  shows "\<exists>L. window data c e = L @ window data c' e \<and> c' = c + length L \<and> c' \<le> e \<and>
    L \<noteq> [] \<and> k + length L \<le> 5 \<and> list_all (\<lambda>b. b \<ge> 128) (butlast L) \<and> last L < 128 \<and>
    (k + length L = 5 \<longrightarrow> last L < 16) \<and> unat v = unat r + 128 ^ k * leb_sum L"
  using assms
proof (induction "5 - k" arbitrary: k c r)
  case 0
  then show ?case by simp
next
  case (Suc m)
  then have k: "k < 5" by simp
  then have shifts: "map ((*) 7) [k..<5] = 7 * k # map ((*) 7) [Suc k..<5]"
    by (simp add: upt_rec)
  let ?b = "data ! c" let ?r = "r OR push_bit (7 * k) (ucast (?b AND 0x7f))"
  from Suc.prems(1) have c: "c < e" "c < length data" "7 * k = 28 \<longrightarrow> ?b AND 0xf0 = 0"
    and go: "(if ?b AND 0x80 = 0 then GO (?r, Suc c)
       else read_u32_from data e (map ((*) 7) [Suc k..<5]) (Suc c) ?r) = GO (v, c')"
    by (auto simp: shifts fetch_def Let_def split: if_splits)
  have top: "k = 4 \<Longrightarrow> ?b < 16" using c(3) by (simp add: byte_high_nibble)
  have r: "unat ?r = unat r + 128 ^ k * (unat ?b mod 128)"
    using unat_or_septet [OF Suc.prems(2) k top] .
  have win: "window data c e = ?b # window data (Suc c) e"
    using c(1) Suc.prems(4) by (rule window_Cons)
  show ?case
  proof (cases "?b AND 0x80 = 0")
    case True
    with go r win c(1) k top show ?thesis
      by (intro exI [of _ "[?b]"]) (auto simp: byte_top_bit)
  next
    case False
    have "unat ?r < 128 ^ Suc k" using r Suc.prems(2) by (rule septet_room)
    moreover have "read_u32_from data e (map ((*) 7) [Suc k..<5]) (Suc c) ?r = GO (v, c')"
      using False go by simp
    moreover have "m = 5 - Suc k" "Suc k \<le> 5" using Suc.hyps(2) k by simp_all
    ultimately obtain L where L: "window data (Suc c) e = L @ window data c' e" "c' = Suc c + length L" "c' \<le> e"
      "L \<noteq> []" "Suc k + length L \<le> 5" "list_all (\<lambda>b. b \<ge> 128) (butlast L)" "last L < 128"
      "Suc k + length L = 5 \<longrightarrow> last L < 16" "unat v = unat ?r + 128 ^ Suc k * leb_sum L"
      using Suc.hyps(1) [of "Suc k" "Suc c" ?r] Suc.prems(4) by metis
    then show ?thesis using win False r
      by (intro exI [of _ "?b # L"])
         (auto simp: byte_top_bit not_less algebra_simps)
  qed
qed

lemma read_u32_from_complete:
  assumes "window data c e = L @ rest" and "L \<noteq> []" and "k + length L \<le> 5"
    and "list_all (\<lambda>b. b \<ge> 128) (butlast L)" and "last L < 128" and "k + length L = 5 \<longrightarrow> last L < 16"
    and "unat v = unat r + 128 ^ k * leb_sum L"
    and "unat r < 128 ^ k" and "e \<le> length data"
  shows "read_u32_from data e (map ((*) 7) [k..<5]) c r = GO (v, c + length L)"
  using assms
proof (induction L arbitrary: k c r)
  case (Cons b L)
  have c: "c < e"
    using Cons.prems(1) by (cases "c < e") simp_all
  with Cons.prems(1,9) window_Cons [of c e data] have b: "b = data ! c" "window data (Suc c) e = L @ rest"
    by auto
  have k: "k < 5" using Cons.prems(3) by simp
  then have shifts: "map ((*) 7) [k..<5] = 7 * k # map ((*) 7) [Suc k..<5]"
    by (simp add: upt_rec)
  have top: "k = 4 \<Longrightarrow> b < 16" using Cons.prems(2,3,6) by (cases L) auto
  let ?r = "r OR push_bit (7 * k) (ucast (b AND 0x7f))"
  have r: "unat ?r = unat r + 128 ^ k * (unat b mod 128)"
    using unat_or_septet [OF Cons.prems(8) k top] .
  have step: "read_u32_from data e (map ((*) 7) [k..<5]) c r =
      (if b AND 0x80 = 0 then GO (?r, Suc c) else read_u32_from data e (map ((*) 7) [Suc k..<5]) (Suc c) ?r)"
    using c Cons.prems(9) top b(1) by (auto simp: shifts fetch_def Let_def byte_high_nibble)
  show ?case
  proof (cases L)
    case Nil
    with Cons.prems(5,7) r have "v = ?r" by (simp add: word_unat_eq_iff)
    with Nil Cons.prems(5) show ?thesis by (simp add: step byte_top_bit)
  next
    case (Cons b' L')
    note more = this
    have "128 \<le> b" using Cons.prems(4) more by simp
    moreover have "read_u32_from data e (map ((*) 7) [Suc k..<5]) (Suc c) ?r = GO (v, Suc c + length L)"
    proof (rule Cons.IH [OF b(2)])
      show "unat v = unat ?r + 128 ^ Suc k * leb_sum L"
        using Cons.prems(7) r by (simp add: algebra_simps)
      show "unat ?r < 128 ^ Suc k" using r Cons.prems(8) by (rule septet_room)
    qed (use more Cons.prems in auto)
    ultimately show ?thesis by (simp add: step byte_top_bit not_less [symmetric])
  qed
qed simp

lemma read_u32_iff:
  assumes "e \<le> length data"
  shows "read_u32 data e c = GO (v, c') \<longleftrightarrow>
    (\<exists>L. leb L v \<and> window data c e = L @ window data c' e \<and> c' = c + length L \<and> c' \<le> e)"
proof
  have shifts: "[0, 7, 14, 21, 28] = map ((*) 7) [0..<5]" by (simp add: upt_rec)
  show "read_u32 data e c = GO (v, c') \<Longrightarrow>
      \<exists>L. leb L v \<and> window data c e = L @ window data c' e \<and> c' = c + length L \<and> c' \<le> e"
    unfolding read_u32_def shifts
    by (drule read_u32_from_sound) (use assms in \<open>auto simp: leb_def\<close>)
  show "\<exists>L. leb L v \<and> window data c e = L @ window data c' e \<and> c' = c + length L \<and> c' \<le> e \<Longrightarrow>
      read_u32 data e c = GO (v, c')"
    unfolding read_u32_def shifts
    by (auto simp: leb_def assms intro!: read_u32_from_complete)
qed

lemma read_u32_from_in_bounds: "e \<le> length data \<Longrightarrow> read_u32_from data e shifts c r \<noteq> OUT_OF_BOUNDS"
  by (induction data e shifts c r rule: read_u32_from.induct) (auto simp: scan_simps Let_def)

lemma read_u32_in_bounds: "e \<le> length data \<Longrightarrow> read_u32 data e c \<noteq> OUT_OF_BOUNDS"
  unfolding read_u32_def by (rule read_u32_from_in_bounds)

end
