(* ===== verification/Wasm_Scan.thy ===== *)
theory Wasm_Scan
  imports Wasm_Cursor
begin

text \<open>
  The shape check of a raw module (\<open>wasm_scan.c\<close>): the section headers, the export names and
  the imports, the capabilities the imports need, and the bound on the linear memory.  The
  module is the byte list \<open>wasm\<close>; a \<open>const uint8_t *\<close> argument that may be NULL is an
  \<open>option\<close>, and \<open>size_bytes\<close> is the length of the list.  A counter below a \<open>uint32_t\<close> count is
  a \<open>nat\<close>.
\<close>

subsection \<open>Result codes and capabilities\<close>

datatype wasm_result = WASM_OK | WASM_INVALID | WASM_UNSUPPORTED

definition CAP_MONOTONIC_TIME :: u32 where "CAP_MONOTONIC_TIME = 1"
definition CAP_LOG :: u32 where "CAP_LOG = 2"
definition CAP_TIMER :: u32 where "CAP_TIMER = 4"
definition CAP_ALL :: u32 where "CAP_ALL = CAP_MONOTONIC_TIME OR CAP_LOG OR CAP_TIMER"

subsection \<open>Names\<close>

definition dangerous_export :: "bytes \<Rightarrow> bool" where
  "dangerous_export name \<longleftrightarrow> list_ex (\<lambda>s. str_bytes s = name)
     [''__post_instantiate'', ''__wasm_call_ctors'', ''_initialize'']"

text \<open>
  A name of \<open>length\<close> bytes at the cursor.  \<open>memcmp\<close> reads at most these bytes, so the bytes are
  fetched as one slice, which must lie in the array.
\<close>

definition fetch_slice :: "bytes \<Rightarrow> nat \<Rightarrow> nat \<Rightarrow> ('e, bytes) scan" where
  "fetch_slice data i n = (if i + n \<le> length data then GO (window data i (i + n)) else OUT_OF_BOUNDS)"

definition read_name :: "bytes \<Rightarrow> nat \<Rightarrow> nat \<Rightarrow> (unit, bytes \<times> nat) scan" where
  "read_name wasm end_pos cursor =
    bindS (read_u32 wasm end_pos cursor) (\<lambda>(name_length, cursor).
    bindS (need (\<not> unat name_length > end_pos - cursor) ()) (\<lambda>_.
    bindS (fetch_slice wasm cursor (unat name_length)) (\<lambda>name.
    GO (name, cursor + unat name_length))))"

definition name_is :: "bytes \<Rightarrow> string \<Rightarrow> bool" where
  "name_is name expected \<longleftrightarrow> name = str_bytes expected"

subsection \<open>Import types\<close>

text \<open>One entry of the type section: the parameter and result types and the next cursor.\<close>

definition read_func_type :: "bytes \<Rightarrow> nat \<Rightarrow> nat \<Rightarrow> (unit, (bytes \<times> bytes) \<times> nat) scan" where
  "read_func_type wasm type_end cursor =
    bindS (need (\<not> cursor \<ge> type_end) ()) (\<lambda>_.
    bindS (fetch wasm cursor) (\<lambda>form.
    bindS (need (form = 0x60) ()) (\<lambda>_.
    bindS (read_u32 wasm type_end (Suc cursor)) (\<lambda>(params, cursor).
    bindS (need (\<not> unat params > type_end - cursor) ()) (\<lambda>_.
    bindS (fetch_slice wasm cursor (unat params)) (\<lambda>param_types.
    bindS (read_u32 wasm type_end (cursor + unat params)) (\<lambda>(results, cursor).
    bindS (need (\<not> unat results > type_end - cursor) ()) (\<lambda>_.
    bindS (fetch_slice wasm cursor (unat results)) (\<lambda>result_types.
    GO ((param_types, result_types), cursor + unat results))))))))))"

definition signature_matches :: "u32 \<Rightarrow> bool \<Rightarrow> bytes \<times> bytes \<Rightarrow> bool" where
  "signature_matches capability timer_cancel sig =
    (let param_types = fst sig; result_types = snd sig in
     if length result_types \<noteq> 1 then False
     else if capability = CAP_MONOTONIC_TIME
     then length param_types = 0 \<and> result_types ! 0 = 0x7e
     else if capability = CAP_LOG
     then length param_types = 2 \<and> param_types ! 0 = 0x7f \<and> param_types ! 1 = 0x7f \<and>
       result_types ! 0 = 0x7f
     else if capability = CAP_TIMER
     then (if timer_cancel
           then length param_types = 1 \<and> param_types ! 0 = 0x7e \<and> result_types ! 0 = 0x7f
           else length param_types = 2 \<and> param_types ! 0 = 0x7f \<and> param_types ! 1 = 0x7f \<and>
             result_types ! 0 = 0x7e)
     else False)"

function type_loop :: "bytes \<Rightarrow> nat \<Rightarrow> nat \<Rightarrow> nat \<Rightarrow> u32 \<Rightarrow> bool \<Rightarrow> nat \<Rightarrow> nat \<Rightarrow> (unit, unit) scan" where
  "type_loop wasm type_end count type_index capability timer_cancel index cursor =
    (if index < count then
       bindS (read_func_type wasm type_end cursor) (\<lambda>(sig, cursor).
       if index = type_index then need (signature_matches capability timer_cancel sig) ()
       else type_loop wasm type_end count type_index capability timer_cancel (Suc index) cursor)
     else STOP ())"
  by pat_completeness auto
termination
  by (relation "measure (\<lambda>(wasm, type_end, count, type_index, capability, timer_cancel, index, cursor).
        count - index)") auto

declare type_loop.simps [simp del]

definition import_type_matches :: "bytes \<Rightarrow> nat \<Rightarrow> nat \<Rightarrow> u32 \<Rightarrow> u32 \<Rightarrow> bool \<Rightarrow> (unit, unit) scan" where
  "import_type_matches wasm type_begin type_end type_index capability timer_cancel =
    (if type_begin = 0 then STOP ()
     else bindS (read_u32 wasm type_end type_begin) (\<lambda>(count, cursor).
       bindS (need (\<not> type_index \<ge> count) ()) (\<lambda>_.
       type_loop wasm type_end (unat count) (unat type_index) capability timer_cancel 0 cursor)))"

subsection \<open>Sections\<close>

record scan_state =
  scan_last_section :: byte
  scan_type_begin :: nat
  scan_type_end :: nat
  scan_import_begin :: nat
  scan_import_end :: nat

definition initial_scan :: scan_state where
  "initial_scan = \<lparr>scan_last_section = 0, scan_type_begin = 0, scan_type_end = 0,
     scan_import_begin = 0, scan_import_end = 0\<rparr>"

function export_loop :: "bytes \<Rightarrow> nat \<Rightarrow> nat \<Rightarrow> nat \<Rightarrow> nat \<Rightarrow> (wasm_result, nat) scan" where
  "export_loop wasm end_pos count index cursor =
    (if index < count then
       bindS (stop_as WASM_INVALID (read_name wasm end_pos cursor)) (\<lambda>(name, cursor).
       bindS (need (\<not> dangerous_export name) WASM_UNSUPPORTED) (\<lambda>_.
       bindS (need (\<not> cursor \<ge> end_pos) WASM_INVALID) (\<lambda>_.
       bindS (fetch wasm cursor) (\<lambda>kind.
       bindS (need (\<not> kind > 3) WASM_INVALID) (\<lambda>_.
       bindS (stop_as WASM_INVALID (read_u32 wasm end_pos (Suc cursor))) (\<lambda>(target, cursor).
       export_loop wasm end_pos count (Suc index) cursor))))))
     else GO cursor)"
  by pat_completeness auto
termination
  by (relation "measure (\<lambda>(wasm, end_pos, count, index, cursor). count - index)") auto

declare export_loop.simps [simp del]

definition scan_exports :: "bytes \<Rightarrow> nat \<Rightarrow> nat \<Rightarrow> (wasm_result, unit) scan" where
  "scan_exports wasm end_pos cursor =
    bindS (stop_as WASM_INVALID (read_u32 wasm end_pos cursor)) (\<lambda>(count, cursor).
    bindS (export_loop wasm end_pos (unat count) 0 cursor) (\<lambda>cursor.
    need (cursor = end_pos) WASM_INVALID))"

text \<open>The header of a section: its number and where its contents begin and end.\<close>

definition section_header :: "bytes \<Rightarrow> nat \<Rightarrow> (unit, byte \<times> nat \<times> nat) scan" where
  "section_header wasm cursor =
    bindS (fetch wasm cursor) (\<lambda>section.
    bindS (read_u32 wasm (length wasm) (Suc cursor)) (\<lambda>(size, cursor).
    bindS (need (\<not> unat size > length wasm - cursor) ()) (\<lambda>_.
    GO (section, cursor, cursor + unat size))))"

definition note_section :: "byte \<Rightarrow> nat \<Rightarrow> nat \<Rightarrow> scan_state \<Rightarrow> (wasm_result, scan_state) scan" where
  "note_section section cursor end_pos st =
    bindS (need (\<not> section > 12) WASM_UNSUPPORTED) (\<lambda>_.
    bindS (if section \<noteq> 0
           then bindS (need (\<not> section \<le> scan_last_section st) WASM_INVALID) (\<lambda>_.
             GO (st\<lparr>scan_last_section := section\<rparr>))
           else GO st) (\<lambda>st.
    bindS (need (section \<noteq> 8) WASM_UNSUPPORTED) (\<lambda>_.
    let st = (if section = 1 then st\<lparr>scan_type_begin := cursor, scan_type_end := end_pos\<rparr> else st) in
    GO (if section = 2 then st\<lparr>scan_import_begin := cursor, scan_import_end := end_pos\<rparr> else st))))"

lemma read_u32_advances: "read_u32 data e c = GO (v, c') \<Longrightarrow> e \<le> length data \<Longrightarrow> c < c' \<and> c' \<le> e"
  by (auto simp: read_u32_iff leb_def)

lemma section_header_advances:
  "section_header wasm cursor = GO (section, b, e) \<Longrightarrow> cursor < b \<and> b \<le> e \<and> e \<le> length wasm"
  by (auto simp: section_header_def scan_simps split: prod.splits dest!: read_u32_advances)

function section_loop :: "bytes \<Rightarrow> nat \<Rightarrow> scan_state \<Rightarrow> (wasm_result, scan_state) scan" where
  "section_loop wasm cursor st =
    (if cursor < length wasm then
       bindS (stop_as WASM_INVALID (section_header wasm cursor)) (\<lambda>(section, cursor, end_pos).
       bindS (note_section section cursor end_pos st) (\<lambda>st.
       bindS (if section = 7 then scan_exports wasm end_pos cursor else GO ()) (\<lambda>_.
       section_loop wasm end_pos st)))
     else GO st)"
  by pat_completeness auto
termination
  by (relation "measure (\<lambda>(wasm, cursor, st). length wasm - cursor)")
     (auto simp: scan_simps dest!: section_header_advances)

declare section_loop.simps [simp del]

subsection \<open>Imports\<close>

definition import_capability :: "bytes \<Rightarrow> u32" where
  "import_capability field =
    (if name_is field ''monotonic_ms'' then CAP_MONOTONIC_TIME
     else if name_is field ''log'' then CAP_LOG
     else if name_is field ''timer_start'' \<or> name_is field ''timer_cancel'' then CAP_TIMER
     else 0)"

text \<open>
  One import, from the cursor behind the previous one: the module name, the field name, the
  kind and the type index.
\<close>

definition read_import :: "bytes \<Rightarrow> nat \<Rightarrow> nat \<Rightarrow> (wasm_result, (bytes \<times> u32) \<times> nat) scan" where
  "read_import wasm import_end cursor =
    bindS (stop_as WASM_INVALID (read_name wasm import_end cursor)) (\<lambda>(module, cursor).
    bindS (stop_as WASM_INVALID (read_name wasm import_end cursor)) (\<lambda>(field, cursor).
    bindS (need (\<not> cursor \<ge> import_end) WASM_INVALID) (\<lambda>_.
    bindS (fetch wasm cursor) (\<lambda>kind.
    bindS (need (kind = 0) WASM_UNSUPPORTED) (\<lambda>_.
    bindS (stop_as WASM_INVALID (read_u32 wasm import_end (Suc cursor))) (\<lambda>(type_index, cursor).
    bindS (need (name_is module ''econtainer'') WASM_UNSUPPORTED) (\<lambda>_.
    GO ((field, type_index), cursor))))))))"

function import_loop :: "bytes \<Rightarrow> scan_state \<Rightarrow> nat \<Rightarrow> nat \<Rightarrow> nat \<Rightarrow> u32 \<Rightarrow> u32 \<Rightarrow>
    (wasm_result, u32 \<times> nat) scan" where
  "import_loop wasm st count index cursor seen_imports capabilities =
    (if index < count then
       bindS (read_import wasm (scan_import_end st) cursor) (\<lambda>((field, type_index), cursor).
       let capability = import_capability field;
           is_timer_cancel = name_is field ''timer_cancel'';
           seen_bit = (if is_timer_cancel then 8 else capability) in
       bindS (need (\<not> (capability = 0 \<or> seen_imports AND seen_bit \<noteq> 0)) WASM_UNSUPPORTED) (\<lambda>_.
       bindS (stop_as WASM_UNSUPPORTED (import_type_matches wasm (scan_type_begin st) (scan_type_end st)
                type_index capability is_timer_cancel)) (\<lambda>_.
       import_loop wasm st count (Suc index) cursor (seen_imports OR seen_bit)
         (capabilities OR capability))))
     else GO (capabilities, cursor))"
  by pat_completeness auto
termination
  by (relation "measure (\<lambda>(wasm, st, count, index, cursor, seen_imports, capabilities).
        count - index)") auto

declare import_loop.simps [simp del]

definition scan_imports :: "bytes \<Rightarrow> scan_state \<Rightarrow> (wasm_result, u32) scan" where
  "scan_imports wasm st =
    (if scan_import_begin st \<noteq> 0 then
       bindS (stop_as WASM_INVALID (read_u32 wasm (scan_import_end st) (scan_import_begin st))) (\<lambda>(count, cursor).
       bindS (need (\<not> count > 4) WASM_UNSUPPORTED) (\<lambda>_.
       bindS (import_loop wasm st (unat count) 0 cursor 0 0) (\<lambda>(capabilities, cursor).
       bindS (need (\<not> cursor \<noteq> scan_import_end st) WASM_INVALID) (\<lambda>_.
       GO capabilities))))
     else GO 0)"

subsection \<open>The module\<close>

definition wasm_header :: bytes where
  "wasm_header = [0] @ str_bytes ''asm'' @ [1, 0, 0, 0]"

text \<open>\<open>GO capabilities\<close> is OK with the value stored through \<open>required_capabilities\<close>.\<close>

definition scan_module :: "bytes option \<Rightarrow> (wasm_result, u32) scan" where
  "scan_module wasm =
    (case wasm of None \<Rightarrow> STOP WASM_INVALID | Some wasm \<Rightarrow>
     bindS (need (\<not> length wasm < length wasm_header) WASM_INVALID) (\<lambda>_.
     bindS (fetch_slice wasm 0 (length wasm_header)) (\<lambda>header.
     bindS (need (header = wasm_header) WASM_INVALID) (\<lambda>_.
     bindS (section_loop wasm (length wasm_header) initial_scan) (\<lambda>st.
     scan_imports wasm st)))))"

definition wasm_check :: "bytes option \<Rightarrow> (wasm_result, wasm_result) scan" where
  "wasm_check wasm = (case scan_module wasm of
     OUT_OF_BOUNDS \<Rightarrow> OUT_OF_BOUNDS | STOP e \<Rightarrow> GO e | GO _ \<Rightarrow> GO WASM_OK)"

text \<open>The bool function: \<open>STOP ()\<close> is false, and then nothing is stored.\<close>

definition wasm_imported_capabilities :: "bytes option \<Rightarrow> bool \<Rightarrow> (unit, u32) scan" where
  "wasm_imported_capabilities wasm has_output =
    bindS (need has_output ()) (\<lambda>_. stop_as () (scan_module wasm))"

subsection \<open>The memory bound\<close>

definition memory_limits_ok :: "bytes \<Rightarrow> nat \<Rightarrow> nat \<Rightarrow> u32 \<Rightarrow> (unit, unit) scan" where
  "memory_limits_ok wasm end_pos cursor max_memory_pages =
    bindS (read_u32 wasm end_pos cursor) (\<lambda>(count, cursor).
    bindS (need (count = 1) ()) (\<lambda>_.
    bindS (read_u32 wasm end_pos cursor) (\<lambda>(flags, cursor).
    bindS (need (flags = 1) ()) (\<lambda>_.
    bindS (read_u32 wasm end_pos cursor) (\<lambda>(minimum, cursor).
    bindS (need (minimum > 0) ()) (\<lambda>_.
    bindS (read_u32 wasm end_pos cursor) (\<lambda>(maximum, cursor).
    need (minimum \<le> maximum \<and> maximum \<le> max_memory_pages \<and> cursor = end_pos) ())))))))"

function memory_loop :: "bytes \<Rightarrow> u32 \<Rightarrow> nat \<Rightarrow> (unit, unit) scan" where
  "memory_loop wasm max_memory_pages cursor =
    (if cursor < length wasm then
       bindS (section_header wasm cursor) (\<lambda>(section, cursor, end_pos).
       if section = 5 then memory_limits_ok wasm end_pos cursor max_memory_pages
       else memory_loop wasm max_memory_pages end_pos)
     else STOP ())"
  by pat_completeness auto
termination
  by (relation "measure (\<lambda>(wasm, max_memory_pages, cursor). length wasm - cursor)")
     (auto dest!: section_header_advances)

declare memory_loop.simps [simp del]

definition wasm_memory_within_limit :: "bytes option \<Rightarrow> u32 \<Rightarrow> (unit, unit) scan" where
  "wasm_memory_within_limit wasm max_memory_pages =
    bindS (need (\<not> max_memory_pages = 0) ()) (\<lambda>_.
    bindS (stop_as () (wasm_check wasm)) (\<lambda>result.
    bindS (need (\<not> result \<noteq> WASM_OK) ()) (\<lambda>_.
    memory_loop (the wasm) max_memory_pages 8)))"

end
