(* ===== verification/Package_Types.thy ===== *)
theory Package_Types
  imports Wasm_Scan
begin

text \<open>
  The data of the package interface (\<open>include/esp_container_package.h\<close>): the bounds, the
  callback that reads a stored package, what a verified package says of itself, the
  authorization that comes from the platform, and the result codes.

  The locale \<open>package_source\<close> is what a caller of the package functions promises: a read that
  succeeds delivers the bytes of one snapshot, and no read changes what the snapshot is taken
  from.
\<close>

definition PACKAGE_MANIFEST_MAX_BYTES :: nat where "PACKAGE_MANIFEST_MAX_BYTES = 4096"
definition PACKAGE_SIGNATURE_BYTES :: nat where "PACKAGE_SIGNATURE_BYTES = 384"
definition PACKAGE_WASM_MAX_BYTES :: nat where "PACKAGE_WASM_MAX_BYTES = 512 * 1024"

text \<open>The offset in the package and the number of bytes; \<open>None\<close> is the answer false.\<close>

type_synonym 'd package_read_fn = "nat \<Rightarrow> nat \<Rightarrow> 'd \<Rightarrow> bytes option \<times> 'd"

record package_info =
  pi_package_size_bytes :: nat
  pi_manifest_size_bytes :: nat
  pi_product_id_offset_bytes :: nat
  pi_product_id_size_bytes :: nat
  pi_product_version_offset_bytes :: nat
  pi_product_version_size_bytes :: nat
  pi_wasm_offset_bytes :: nat
  pi_wasm_size_bytes :: nat
  pi_wasm_sha256 :: bytes
  pi_package_sha256 :: bytes
  pi_guest_abi_version :: u32
  pi_data_schema_version :: u32
  pi_memory_limit_bytes :: u32
  pi_stack_limit_bytes :: u32
  pi_event_queue_limit :: u32
  pi_instruction_budget :: u32
  pi_host_call_timeout_ms :: u32
  pi_storage_limit_bytes :: u32
  pi_requested_capabilities :: u32
  pi_has_unknown_capability :: bool
  pi_is_classic_profile :: bool

definition zero_info :: package_info where
  "zero_info = \<lparr>pi_package_size_bytes = 0, pi_manifest_size_bytes = 0,
     pi_product_id_offset_bytes = 0, pi_product_id_size_bytes = 0,
     pi_product_version_offset_bytes = 0, pi_product_version_size_bytes = 0,
     pi_wasm_offset_bytes = 0, pi_wasm_size_bytes = 0,
     pi_wasm_sha256 = zeros 32, pi_package_sha256 = zeros 32,
     pi_guest_abi_version = 0, pi_data_schema_version = 0, pi_memory_limit_bytes = 0,
     pi_stack_limit_bytes = 0, pi_event_queue_limit = 0, pi_instruction_budget = 0,
     pi_host_call_timeout_ms = 0, pi_storage_limit_bytes = 0, pi_requested_capabilities = 0,
     pi_has_unknown_capability = False, pi_is_classic_profile = False\<rparr>"

datatype package_result = PACKAGE_OK | PACKAGE_INVALID | PACKAGE_UNTRUSTED | PACKAGE_READ_FAILED

record wasm_authorization =
  allowed_capabilities :: u32
  max_memory_bytes :: u32
  max_stack_bytes :: u32

datatype package_wasm_result =
    PACKAGE_WASM_OK | PACKAGE_WASM_INVALID | PACKAGE_WASM_UNSUPPORTED
  | PACKAGE_WASM_NOT_AUTHORIZED | PACKAGE_WASM_READ_FAILED

text \<open>The two buffers of the package workspace that outlive a call; its block is scratch.\<close>

record package_workspace =
  pw_manifest :: bytes
  pw_signature :: bytes

definition wiped_workspace :: package_workspace where
  "wiped_workspace = \<lparr>pw_manifest = zeros PACKAGE_MANIFEST_MAX_BYTES,
     pw_signature = zeros PACKAGE_SIGNATURE_BYTES\<rparr>"

subsection \<open>The source of a package\<close>

definition piece :: "bytes \<Rightarrow> nat \<Rightarrow> nat \<Rightarrow> bytes" where
  "piece pkg offset n = take n (drop offset pkg)"

lemma length_piece [simp]: "offset + n \<le> length pkg \<Longrightarrow> length (piece pkg offset n) = n"
  by (simp add: piece_def)

lemma nth_piece: "i < n \<Longrightarrow> offset + n \<le> length pkg \<Longrightarrow> piece pkg offset n ! i = pkg ! (offset + i)"
  by (simp add: piece_def)

lemma piece_append: "piece pkg offset m @ piece pkg (offset + m) n = piece pkg offset (m + n)"
  unfolding piece_def take_add by (simp add: add.commute)

lemma piece_0 [simp]: "piece pkg offset 0 = []"
  by (simp add: piece_def)

locale package_source =
  fixes read_fn :: "'d package_read_fn"
    and view :: "'d \<Rightarrow> 'v"
    and snapshot :: "'v \<Rightarrow> bytes"
  assumes read_keeps: "keeps view (read_fn offset n)"
    and read_bytes: "read_fn offset n d = (Some bs, d') \<Longrightarrow>
      offset + n \<le> length (snapshot (view d)) \<and> bs = piece (snapshot (view d)) offset n"
begin

lemma read_run: "read_fn offset n d = (r, d') \<Longrightarrow>
    view d' = view d \<and> (\<forall>bs. r = Some bs \<longrightarrow>
      offset + n \<le> length (snapshot (view d)) \<and> bs = piece (snapshot (view d)) offset n)"
  using keepsD [OF read_keeps] read_bytes by blast

end

end
