(* ===== verification/Package_Manifest.thy ===== *)
theory Package_Manifest
  imports Package_Types
begin

text \<open>
  The reader of \<open>manifest.json\<close> (\<open>package_stream.c\<close>): one fixed sequence of keys, numbers,
  identifiers and literals, without white space.  \<open>econtainer_json_t\<close> is the text \<open>data\<close>, whose
  length is \<open>size_bytes\<close>, and the cursor.  A bool function is an \<open>option\<close>: \<open>None\<close> is false,
  \<open>Some\<close> has the values stored and the new cursor.  A pointer into the text is its offset.
\<close>

type_synonym 'a parse = "('a \<times> nat) option"

definition bindP :: "'a parse \<Rightarrow> ('a \<Rightarrow> nat \<Rightarrow> 'b option) \<Rightarrow> 'b option" where
  "bindP p f = (case p of None \<Rightarrow> None | Some (x, cursor) \<Rightarrow> f x cursor)"

record manifest =
  mf_wasm_size_bytes :: u32
  mf_wasm_sha256 :: bytes
  mf_guest_abi_version :: u32
  mf_data_schema_version :: u32
  mf_memory_limit_bytes :: u32
  mf_stack_limit_bytes :: u32
  mf_event_queue_limit :: u32
  mf_instruction_budget :: u32
  mf_host_call_timeout_ms :: u32
  mf_storage_limit_bytes :: u32
  mf_product_id_offset_bytes :: nat
  mf_product_id_size_bytes :: nat
  mf_product_version_offset_bytes :: nat
  mf_product_version_size_bytes :: nat
  mf_requested_capabilities :: u32
  mf_has_unknown_capability :: bool
  mf_is_classic_profile :: bool

definition json_literal :: "bytes \<Rightarrow> string \<Rightarrow> nat \<Rightarrow> unit parse" where
  "json_literal data literal cursor =
    (if length literal > length data - cursor \<or>
        take (length literal) (drop cursor data) \<noteq> str_bytes literal
     then None else Some ((), cursor + length literal))"

definition is_digit :: "byte \<Rightarrow> bool" where
  "is_digit b \<longleftrightarrow> b \<ge> 0x30 \<and> b \<le> 0x39"

text \<open>The digits from the cursor: their value and their number.\<close>

function json_digits :: "bytes \<Rightarrow> nat \<Rightarrow> u64 \<Rightarrow> nat \<Rightarrow> (u64 \<times> nat) parse" where
  "json_digits data cursor number digits =
    (if cursor < length data \<and> is_digit (data ! cursor) then
       (let number = number * 10 + ucast (data ! cursor - 0x30) in
        if Suc digits > 10 \<or> number > 0xffffffff then None
        else json_digits data (Suc cursor) number (Suc digits))
     else Some ((number, digits), cursor))"
  by pat_completeness auto
termination
  by (relation "measure (\<lambda>(data, cursor, number, digits). length data - cursor)") auto

declare json_digits.simps [simp del]

definition json_uint32 :: "bytes \<Rightarrow> bool \<Rightarrow> nat \<Rightarrow> u32 parse" where
  "json_uint32 data allow_zero cursor =
    (if cursor = length data then None
     else bindP (json_digits data cursor 0 0) (\<lambda>(number, digits) cursor'.
       if digits = 0 \<or> (data ! cursor = 0x30 \<and> digits \<noteq> 1) \<or> (\<not> allow_zero \<and> number = 0)
       then None else Some (ucast number, cursor')))"

definition is_alphanumeric :: "byte \<Rightarrow> bool" where
  "is_alphanumeric b \<longleftrightarrow> (b \<ge> 0x61 \<and> b \<le> 0x7a) \<or> is_digit b"

text \<open>The characters of an identifier from the cursor; the value is \<open>previous_hyphen\<close> at the end.\<close>

function json_identifier_chars :: "bytes \<Rightarrow> nat \<Rightarrow> nat \<Rightarrow> bool \<Rightarrow> bool parse" where
  "json_identifier_chars data from cursor previous_hyphen =
    (if cursor < length data then
       (let b = data ! cursor in
        if \<not> is_alphanumeric b \<and> b \<noteq> 0x2d then Some (previous_hyphen, cursor)
        else if b = 0x2d \<and> (cursor = from \<or> previous_hyphen) then None
        else json_identifier_chars data from (Suc cursor) (b = 0x2d))
     else Some (previous_hyphen, cursor))"
  by pat_completeness auto
termination
  by (relation "measure (\<lambda>(data, from, cursor, previous_hyphen). length data - cursor)") auto

declare json_identifier_chars.simps [simp del]

text \<open>The offset and the length of the identifier between the quotes.\<close>

definition json_identifier :: "bytes \<Rightarrow> nat \<Rightarrow> (nat \<times> nat) parse" where
  "json_identifier data cursor =
    bindP (json_literal data ''\"'' cursor) (\<lambda>_ from.
    bindP (json_identifier_chars data from from False) (\<lambda>previous_hyphen cursor.
    if cursor = from \<or> previous_hyphen then None
    else bindP (json_literal data ''\"'' cursor) (\<lambda>_ cursor'.
      Some ((from, cursor - from), cursor'))))"

definition json_identifier_key :: "bytes \<Rightarrow> string \<Rightarrow> nat \<Rightarrow> unit parse" where
  "json_identifier_key data key cursor =
    bindP (json_literal data ''\"'' cursor) (\<lambda>_ cursor.
    bindP (json_literal data key cursor) (\<lambda>_ cursor.
    json_literal data ''\":'' cursor))"

definition json_number_key :: "bytes \<Rightarrow> string \<Rightarrow> bool \<Rightarrow> nat \<Rightarrow> u32 parse" where
  "json_number_key data key allow_zero cursor =
    bindP (json_identifier_key data key cursor) (\<lambda>_ cursor. json_uint32 data allow_zero cursor)"

definition json_identifier_value :: "bytes \<Rightarrow> string \<Rightarrow> nat \<Rightarrow> (nat \<times> nat) parse" where
  "json_identifier_value data key cursor =
    bindP (json_identifier_key data key cursor) (\<lambda>_ cursor. json_identifier data cursor)"

text \<open>\<open>memcmp(data + offset, text, size) == 0\<close> with the size of the text compared first.\<close>

definition identifier_is :: "bytes \<Rightarrow> nat \<times> nat \<Rightarrow> string \<Rightarrow> bool" where
  "identifier_is data ident text \<longleftrightarrow>
    snd ident = length text \<and> take (snd ident) (drop (fst ident) data) = str_bytes text"

definition json_runtime_profile :: "bytes \<Rightarrow> nat \<Rightarrow> bool parse" where
  "json_runtime_profile data cursor =
    bindP (json_identifier_value data ''runtime_profile'' cursor) (\<lambda>ident cursor.
    Some (identifier_is data ident ''wamr-classic-v1'', cursor))"

subsection \<open>Capabilities\<close>

text \<open>The sign of \<open>memcmp\<close> on two buffers of the same length.\<close>

fun memcmp_sign :: "bytes \<Rightarrow> bytes \<Rightarrow> int" where
  "memcmp_sign (a # as) (b # bs) = (if a < b then - 1 else if a > b then 1 else memcmp_sign as bs)"
| "memcmp_sign _ _ = 0"

definition identifier_follows :: "bytes \<Rightarrow> nat \<times> nat \<Rightarrow> nat \<times> nat \<Rightarrow> bool" where
  "identifier_follows data previous current =
    (let common = (if snd previous < snd current then snd previous else snd current);
         comparison = memcmp_sign (take common (drop (fst previous) data))
           (take common (drop (fst current) data)) in
     \<not> (comparison > 0 \<or> (comparison = 0 \<and> snd previous \<ge> snd current)))"

definition add_capability :: "bytes \<Rightarrow> nat \<times> nat \<Rightarrow> u32 \<times> bool \<Rightarrow> u32 \<times> bool" where
  "add_capability data current caps =
    (if identifier_is data current ''monotonic-time'' then (fst caps OR CAP_MONOTONIC_TIME, snd caps)
     else if identifier_is data current ''log'' then (fst caps OR CAP_LOG, snd caps)
     else if identifier_is data current ''timer'' then (fst caps OR CAP_TIMER, snd caps)
     else (fst caps, True))"

text \<open>
  The rounds of \<open>json_caps\<close> that are left, the previous identifier, and the manifest's
  \<open>requested_capabilities\<close> and \<open>has_unknown_capability\<close> so far.
\<close>

fun json_caps_loop :: "bytes \<Rightarrow> nat \<Rightarrow> (nat \<times> nat) option \<Rightarrow> u32 \<times> bool \<Rightarrow> nat \<Rightarrow> (u32 \<times> bool) parse" where
  "json_caps_loop data 0 previous caps cursor = None"
| "json_caps_loop data (Suc n) previous caps cursor =
    (case json_literal data '']'' cursor of Some (_, cursor) \<Rightarrow> Some (caps, cursor) | None \<Rightarrow>
     bindP (json_identifier data cursor) (\<lambda>current cursor.
     let caps = add_capability data current caps in
     if (case previous of None \<Rightarrow> False | Some p \<Rightarrow> \<not> identifier_follows data p current) then None
     else case json_literal data '']'' cursor of Some (_, cursor) \<Rightarrow> Some (caps, cursor) | None \<Rightarrow>
       bindP (json_literal data '','' cursor) (\<lambda>_ cursor.
       json_caps_loop data n (Some current) caps cursor)))"

definition json_caps :: "bytes \<Rightarrow> nat \<Rightarrow> (u32 \<times> bool) parse" where
  "json_caps data cursor =
    bindP (json_identifier_key data ''required_capabilities'' cursor) (\<lambda>_ cursor.
    bindP (json_literal data ''['' cursor) (\<lambda>_ cursor.
    json_caps_loop data 16 None (0, False) cursor))"

subsection \<open>Digests\<close>

definition hex_octet :: "byte \<Rightarrow> byte option" where
  "hex_octet b = (if b \<ge> 0x30 \<and> b \<le> 0x39 then Some (b - 0x30)
     else if b \<ge> 0x61 \<and> b \<le> 0x66 then Some (b - 0x61 + 10) else None)"

fun json_hex :: "bytes \<Rightarrow> nat \<Rightarrow> nat \<Rightarrow> bytes parse" where
  "json_hex data 0 cursor = Some ([], cursor)"
| "json_hex data (Suc n) cursor =
    (case (hex_octet (data ! cursor), hex_octet (data ! Suc cursor)) of
       (Some high, Some low) \<Rightarrow>
         bindP (json_hex data n (Suc (Suc cursor))) (\<lambda>rest cursor.
         Some ((push_bit 4 high OR low) # rest, cursor))
     | _ \<Rightarrow> None)"

definition json_sha256 :: "bytes \<Rightarrow> nat \<Rightarrow> bytes parse" where
  "json_sha256 data cursor =
    bindP (json_literal data ''\"'' cursor) (\<lambda>_ cursor.
    if length data - cursor < 65 then None
    else bindP (json_hex data 32 cursor) (\<lambda>digest cursor.
      bindP (json_literal data ''\"'' cursor) (\<lambda>_ cursor. Some (digest, cursor))))"

subsection \<open>The manifest\<close>

text \<open>
  \<open>parse_manifest\<close> in the three parts its conditions have.  The limits, in the order of the
  text: event queue, host call timeout, instruction budget, memory, stack, storage.
\<close>

definition parse_limits :: "bytes \<Rightarrow> nat \<Rightarrow> (u32 \<times> u32 \<times> u32 \<times> u32 \<times> u32 \<times> u32) parse" where
  "parse_limits data cursor =
    bindP (json_literal data '',\"limits\":{'' cursor) (\<lambda>_ cursor.
    bindP (json_number_key data ''event_queue_limit'' False cursor) (\<lambda>event_queue cursor.
    bindP (json_literal data '','' cursor) (\<lambda>_ cursor.
    bindP (json_number_key data ''host_call_timeout_ms'' False cursor) (\<lambda>timeout cursor.
    bindP (json_literal data '','' cursor) (\<lambda>_ cursor.
    bindP (json_number_key data ''instruction_budget'' False cursor) (\<lambda>budget cursor.
    bindP (json_literal data '','' cursor) (\<lambda>_ cursor.
    bindP (json_number_key data ''memory_limit_bytes'' False cursor) (\<lambda>memory cursor.
    bindP (json_literal data '','' cursor) (\<lambda>_ cursor.
    bindP (json_number_key data ''stack_limit_bytes'' False cursor) (\<lambda>stack cursor.
    bindP (json_literal data '','' cursor) (\<lambda>_ cursor.
    bindP (json_number_key data ''storage_limit_bytes'' True cursor) (\<lambda>storage cursor.
    bindP (json_literal data ''},'' cursor) (\<lambda>_ cursor.
    Some ((event_queue, timeout, budget, memory, stack, storage), cursor))))))))))))))"

definition parse_payload :: "bytes \<Rightarrow> nat \<Rightarrow> nat \<Rightarrow> (bytes \<times> u32) parse" where
  "parse_payload data max_wasm_bytes cursor =
    bindP (json_literal data '',\"payload\":{'' cursor) (\<lambda>_ cursor.
    bindP (json_identifier_key data ''path'' cursor) (\<lambda>_ cursor.
    bindP (json_literal data ''\"app.wasm\",'' cursor) (\<lambda>_ cursor.
    bindP (json_identifier_key data ''sha256'' cursor) (\<lambda>_ cursor.
    bindP (json_sha256 data cursor) (\<lambda>sha256 cursor.
    bindP (json_literal data '','' cursor) (\<lambda>_ cursor.
    bindP (json_number_key data ''size_bytes'' False cursor) (\<lambda>wasm_size cursor.
    if wasm_size < 8 \<or> unat wasm_size > max_wasm_bytes then None
    else bindP (json_literal data ''},'' cursor) (\<lambda>_ cursor.
      Some ((sha256, wasm_size), cursor)))))))))"

definition parse_manifest :: "bytes \<Rightarrow> string \<Rightarrow> nat \<Rightarrow> manifest option" where
  "parse_manifest data expected_key_id max_wasm_bytes =
    bindP (json_literal data ''{'' 0) (\<lambda>_ cursor.
    bindP (json_number_key data ''data_schema_version'' False cursor) (\<lambda>schema cursor.
    bindP (json_literal data '','' cursor) (\<lambda>_ cursor.
    bindP (json_number_key data ''guest_abi_version'' False cursor) (\<lambda>abi cursor.
    bindP (parse_limits data cursor) (\<lambda>(event_queue, timeout, budget, memory, stack, storage) cursor.
    bindP (json_number_key data ''package_format_version'' False cursor) (\<lambda>number cursor.
    if number \<noteq> 1 then None
    else bindP (parse_payload data max_wasm_bytes cursor) (\<lambda>(sha256, wasm_size) cursor.
    bindP (json_identifier_value data ''product_id'' cursor) (\<lambda>product_id cursor.
    bindP (json_literal data '','' cursor) (\<lambda>_ cursor.
    bindP (json_identifier_value data ''product_version'' cursor) (\<lambda>product_version cursor.
    bindP (json_literal data '','' cursor) (\<lambda>_ cursor.
    bindP (json_caps data cursor) (\<lambda>(capabilities, unknown) cursor.
    bindP (json_literal data '','' cursor) (\<lambda>_ cursor.
    bindP (json_runtime_profile data cursor) (\<lambda>classic cursor.
    bindP (json_literal data '',\"signature_algorithm\":\"rsa-3072-pss-sha256\",'' cursor) (\<lambda>_ cursor.
    bindP (json_identifier_value data ''signing_key_id'' cursor) (\<lambda>key_id cursor.
    if \<not> identifier_is data key_id expected_key_id then None
    else bindP (json_literal data ''}'' cursor) (\<lambda>_ cursor.
    if cursor \<noteq> length data then None
    else Some \<lparr>mf_wasm_size_bytes = wasm_size, mf_wasm_sha256 = sha256,
      mf_guest_abi_version = abi, mf_data_schema_version = schema,
      mf_memory_limit_bytes = memory, mf_stack_limit_bytes = stack,
      mf_event_queue_limit = event_queue, mf_instruction_budget = budget,
      mf_host_call_timeout_ms = timeout, mf_storage_limit_bytes = storage,
      mf_product_id_offset_bytes = fst product_id, mf_product_id_size_bytes = snd product_id,
      mf_product_version_offset_bytes = fst product_version,
      mf_product_version_size_bytes = snd product_version,
      mf_requested_capabilities = capabilities, mf_has_unknown_capability = unknown,
      mf_is_classic_profile = classic\<rparr>)))))))))))))))))"

end
