(* ===== verification/Package_Archive.thy ===== *)
theory Package_Archive
  imports Package_Manifest Package_Crypto
begin

text \<open>
  The stream over a stored package (\<open>package_stream.c\<close>): a POSIX ustar archive with the three
  members \<open>manifest.json\<close>, \<open>signature.bin\<close>, \<open>app.wasm\<close>, read once from the first byte to the last
  in pieces of at most 512 bytes, all of which enter the digest of the package.

  The state of a step is \<open>package_stream\<close>, which has the cursor, the digest and the device;
  the constants of the C struct (the callback and the size) are arguments.  \<open>Inl result\<close> is a
  result other than OK.  A destination buffer is the value of the step.
\<close>

definition TAR_BLOCK_BYTES :: nat where "TAR_BLOCK_BYTES = 512"
definition TAR_RECORD_BYTES :: nat where "TAR_RECORD_BYTES = 10240"

subsection \<open>Headers\<close>

text \<open>The octal digits from \<open>index\<close> on; \<open>n\<close> is the number of digits left.\<close>

fun tar_size_from :: "bytes \<Rightarrow> nat \<Rightarrow> nat \<Rightarrow> u64 \<Rightarrow> u64 option" where
  "tar_size_from header index 0 number = Some number"
| "tar_size_from header index (Suc n) number =
    (let b = header ! index in
     if b < 0x30 \<or> b > 0x37 then None
     else let number = number * 8 + ucast (b - 0x30) in
       if number > 0xffffffff then None else tar_size_from header (Suc index) n number)"

definition tar_size :: "bytes \<Rightarrow> u32 option" where
  "tar_size header =
    (case tar_size_from header 124 11 0 of
       None \<Rightarrow> None
     | Some number \<Rightarrow> if header ! 135 \<noteq> 0 then None else Some (ucast number))"

text \<open>
  The digits and their terminating zero, and whether the number fitted.  The digits are written
  from the last to the first.
\<close>

fun octal_digits :: "nat \<Rightarrow> u32 \<Rightarrow> bytes \<Rightarrow> bytes \<times> u32" where
  "octal_digits 0 number written = (written, number)"
| "octal_digits (Suc n) number written =
    octal_digits n (drop_bit 3 number) ((0x30 + ucast (number AND 7)) # written)"

definition tar_octal :: "nat \<Rightarrow> u32 \<Rightarrow> bytes \<times> bool" where
  "tar_octal digits number =
    (case octal_digits digits number [] of (written, rest) \<Rightarrow> (written @ [0], rest = 0))"

text \<open>Storing bytes in a buffer: \<open>memcpy(buffer + offset, bs, size)\<close>.\<close>

definition store :: "nat \<Rightarrow> bytes \<Rightarrow> bytes \<Rightarrow> bytes" where
  "store offset bs buffer = take offset buffer @ bs @ drop (offset + length bs) buffer"

text \<open>The expected header; \<open>None\<close> where the C function returns false before the comparison.\<close>

definition tar_expected :: "string \<Rightarrow> u32 \<Rightarrow> bytes option" where
  "tar_expected name size_bytes =
    (if length name \<ge> 100 then None
     else
       let expected = store 0 (str_bytes name) (zeros 512);
           expected = store 100 (str_bytes ''0000644'') expected;
           expected = store 108 (str_bytes ''0000000'') expected;
           expected = store 116 (str_bytes ''0000000'') expected;
           (digits, fits) = tar_octal 11 size_bytes;
           expected = store 124 digits expected in
       if \<not> fits then None
       else
         let expected = store 136 (str_bytes ''00000000000'') expected;
             expected = store 148 (replicate 8 0x20) expected;
             expected = store 156 (str_bytes ''0'') expected;
             expected = store 257 (str_bytes ''ustar'') expected;
             expected = store 263 (str_bytes ''00'') expected;
             checksum = sum_list (map ucast expected);
             (digits, fits) = tar_octal 6 checksum;
             expected = store 148 digits expected in
         if \<not> fits then None else Some (store 155 [0x20] expected))"

definition tar_header_matches :: "bytes \<Rightarrow> string \<Rightarrow> u32 \<Rightarrow> bool" where
  "tar_header_matches actual name size_bytes \<longleftrightarrow> tar_expected name size_bytes = Some actual"

subsection \<open>The stream\<close>

record ('d, 'h) package_stream =
  st_cursor :: nat
  st_digest :: 'h
  st_device :: 'd

type_synonym ('d, 'h, 'a) streaming = "(('d, 'h) package_stream, package_result, 'a) act"

definition stream_read :: "('d, 'h) psa_api \<Rightarrow> 'd package_read_fn \<Rightarrow> nat \<Rightarrow> nat \<Rightarrow>
    ('d, 'h, bytes) streaming" where
  "stream_read psa read_fn stream_size size_bytes s =
    (if size_bytes > TAR_BLOCK_BYTES \<or> size_bytes > stream_size - st_cursor s
     then (Inl PACKAGE_INVALID, s)
     else case read_fn (st_cursor s) size_bytes (st_device s) of
       (None, d) \<Rightarrow> (Inl PACKAGE_READ_FAILED, s\<lparr>st_device := d\<rparr>)
     | (Some bs, d) \<Rightarrow>
         (case digest_update psa (st_digest s) bs d of
            ((False, digest), d) \<Rightarrow> (Inl PACKAGE_INVALID, s\<lparr>st_digest := digest, st_device := d\<rparr>)
          | ((True, digest), d) \<Rightarrow>
              (Inr bs, s\<lparr>st_cursor := st_cursor s + size_bytes, st_digest := digest, st_device := d\<rparr>)))"

definition tar_piece :: "nat \<Rightarrow> nat" where
  "tar_piece n = (if n < TAR_BLOCK_BYTES then n else TAR_BLOCK_BYTES)"

lemma tar_piece_bounds: "n \<noteq> 0 \<Longrightarrow> 0 < tar_piece n \<and> tar_piece n \<le> n" "tar_piece n \<le> TAR_BLOCK_BYTES"
  by (auto simp: tar_piece_def TAR_BLOCK_BYTES_def)

text \<open>\<open>stream_bytes\<close> with the number of bytes left; the value is what has been stored.\<close>

function stream_bytes :: "('d, 'h) psa_api \<Rightarrow> 'd package_read_fn \<Rightarrow> nat \<Rightarrow> nat \<Rightarrow> ('d, 'h, bytes) streaming" where
  "stream_bytes psa read_fn stream_size remaining s =
    (if remaining = 0 then retE [] s
     else
       bindE (stream_read psa read_fn stream_size (tar_piece remaining)) (\<lambda>bs s.
       bindE (stream_bytes psa read_fn stream_size (remaining - tar_piece remaining)) (\<lambda>rest.
       retE (bs @ rest)) s) s)"
  by pat_completeness auto
termination
  by (relation "measure (\<lambda>(psa, read_fn, stream_size, remaining, s). remaining)")
     (use tar_piece_bounds in \<open>auto simp: diff_less\<close>)

declare stream_bytes.simps [simp del]

function stream_zeros :: "('d, 'h) psa_api \<Rightarrow> 'd package_read_fn \<Rightarrow> nat \<Rightarrow> nat \<Rightarrow> ('d, 'h, unit) streaming" where
  "stream_zeros psa read_fn stream_size size_bytes s =
    (if size_bytes = 0 then retE () s
     else
       bindE (stream_read psa read_fn stream_size (tar_piece size_bytes)) (\<lambda>bs s.
       if list_ex (\<lambda>b. b \<noteq> 0) bs then failE PACKAGE_INVALID s
       else stream_zeros psa read_fn stream_size (size_bytes - tar_piece size_bytes) s) s)"
  by pat_completeness auto
termination
  by (relation "measure (\<lambda>(psa, read_fn, stream_size, size_bytes, s). size_bytes)")
     (use tar_piece_bounds in \<open>auto simp: diff_less\<close>)

declare stream_zeros.simps [simp del]

definition stream_header :: "('d, 'h) psa_api \<Rightarrow> 'd package_read_fn \<Rightarrow> nat \<Rightarrow> string \<Rightarrow>
    ('d, 'h, u32) streaming" where
  "stream_header psa read_fn stream_size name =
    bindE (stream_read psa read_fn stream_size TAR_BLOCK_BYTES) (\<lambda>block.
    case tar_size block of
      None \<Rightarrow> failE PACKAGE_INVALID
    | Some size_bytes \<Rightarrow>
        if tar_header_matches block name size_bytes then retE size_bytes else failE PACKAGE_INVALID)"

subsection \<open>The members\<close>

definition on_device :: "('d \<Rightarrow> 'a \<times> 'd) \<Rightarrow> ('d, 'h, 'a) streaming" where
  "on_device m s = (case m (st_device s) of (x, d) \<Rightarrow> (Inr x, s\<lparr>st_device := d\<rparr>))"

definition tar_padding :: "nat \<Rightarrow> nat" where
  "tar_padding n = (TAR_BLOCK_BYTES - n mod TAR_BLOCK_BYTES) mod TAR_BLOCK_BYTES"

text \<open>The first member: its bytes and what they say.\<close>

definition verify_manifest :: "('d, 'h) psa_api \<Rightarrow> 'd package_read_fn \<Rightarrow> nat \<Rightarrow> string \<Rightarrow> nat \<Rightarrow>
    ('d, 'h, bytes \<times> manifest) streaming" where
  "verify_manifest psa read_fn stream_size expected_key_id max_wasm_bytes =
    bindE (stream_header psa read_fn stream_size ''manifest.json'') (\<lambda>member_size.
    bindE (guardE (\<not> (member_size = 0 \<or> unat member_size > PACKAGE_MANIFEST_MAX_BYTES)) PACKAGE_INVALID) (\<lambda>_.
    bindE (stream_bytes psa read_fn stream_size (unat member_size)) (\<lambda>text.
    bindE (stream_zeros psa read_fn stream_size (tar_padding (unat member_size))) (\<lambda>_.
    case parse_manifest text expected_key_id max_wasm_bytes of
      None \<Rightarrow> failE PACKAGE_INVALID
    | Some manifest \<Rightarrow> retE (text, manifest)))))"

definition verify_signature :: "('d, 'h) psa_api \<Rightarrow> 'd psa_keys \<Rightarrow> 'd package_read_fn \<Rightarrow> nat \<Rightarrow>
    bytes \<Rightarrow> bytes \<Rightarrow> ('d, 'h, bytes) streaming" where
  "verify_signature psa keys read_fn stream_size public_key text =
    bindE (stream_header psa read_fn stream_size ''signature.bin'') (\<lambda>member_size.
    bindE (guardE (unat member_size = PACKAGE_SIGNATURE_BYTES) PACKAGE_INVALID) (\<lambda>_.
    bindE (stream_bytes psa read_fn stream_size (unat member_size)) (\<lambda>signature.
    bindE (stream_zeros psa read_fn stream_size (TAR_BLOCK_BYTES - unat member_size)) (\<lambda>_.
    bindE (on_device (signature_verify psa keys public_key text signature)) (\<lambda>trusted.
    bindE (guardE trusted PACKAGE_UNTRUSTED) (\<lambda>_.
    retE signature))))))"

text \<open>
  The loop over the payload.  When a step fails, \<open>done\<close> aborts the digest of the payload first;
  here that is part of the failing step.
\<close>

definition abort_wasm :: "('d, 'h) psa_api \<Rightarrow> 'h \<Rightarrow> package_result \<Rightarrow> ('d, 'h, 'a) streaming" where
  "abort_wasm psa wasm_digest result s =
    (Inl result, s\<lparr>st_device := digest_abort psa wasm_digest (st_device s)\<rparr>)"

function wasm_loop :: "('d, 'h) psa_api \<Rightarrow> 'd package_read_fn \<Rightarrow> nat \<Rightarrow> nat \<Rightarrow> nat \<Rightarrow> 'h \<Rightarrow>
    ('d, 'h, 'h) streaming" where
  "wasm_loop psa read_fn stream_size member_size remaining wasm_digest s =
    (if remaining = 0 then retE wasm_digest s
     else
       (case stream_read psa read_fn stream_size (tar_piece remaining) s of
          (Inl result, s) \<Rightarrow> abort_wasm psa wasm_digest result s
        | (Inr block, s) \<Rightarrow>
            if remaining = member_size \<and> take 8 block \<noteq> wasm_header
            then abort_wasm psa wasm_digest PACKAGE_INVALID s
            else
              (case digest_update psa wasm_digest block (st_device s) of
                 ((False, wasm_digest), d) \<Rightarrow> abort_wasm psa wasm_digest PACKAGE_INVALID (s\<lparr>st_device := d\<rparr>)
               | ((True, wasm_digest), d) \<Rightarrow>
                   wasm_loop psa read_fn stream_size member_size (remaining - tar_piece remaining)
                     wasm_digest (s\<lparr>st_device := d\<rparr>))))"
  by pat_completeness auto
termination
  by (relation "measure (\<lambda>(psa, read_fn, stream_size, member_size, remaining, wasm_digest, s). remaining)")
     (use tar_piece_bounds in \<open>auto simp: diff_less\<close>)

declare wasm_loop.simps [simp del]

text \<open>The third member: where its bytes begin, how many there are, and their digest.\<close>

definition verify_wasm :: "('d, 'h) psa_api \<Rightarrow> 'd package_read_fn \<Rightarrow> nat \<Rightarrow> nat \<Rightarrow> manifest \<Rightarrow>
    ('d, 'h, nat \<times> nat \<times> bytes) streaming" where
  "verify_wasm psa read_fn stream_size max_wasm_bytes manifest =
    bindE (stream_header psa read_fn stream_size ''app.wasm'') (\<lambda>member_size.
    bindE (guardE (\<not> (member_size \<noteq> mf_wasm_size_bytes manifest \<or> member_size < 8 \<or>
      unat member_size > max_wasm_bytes)) PACKAGE_INVALID) (\<lambda>_.
    bindE (\<lambda>s. (Inr (st_cursor s), s)) (\<lambda>wasm_offset_bytes.
    bindE (on_device (digest_start psa)) (\<lambda>started.
    case started of
      None \<Rightarrow> failE PACKAGE_INVALID
    | Some wasm_digest \<Rightarrow>
        bindE (wasm_loop psa read_fn stream_size (unat member_size) (unat member_size) wasm_digest)
          (\<lambda>wasm_digest.
        bindE (on_device (digest_finish psa wasm_digest)) (\<lambda>finished.
        case finished of
          None \<Rightarrow> failE PACKAGE_INVALID
        | Some actual_wasm_sha256 \<Rightarrow>
            bindE (guardE (actual_wasm_sha256 = mf_wasm_sha256 manifest) PACKAGE_INVALID) (\<lambda>_.
            bindE (stream_zeros psa read_fn stream_size (tar_padding (unat member_size))) (\<lambda>_.
            retE (wasm_offset_bytes, unat member_size, actual_wasm_sha256)))))))))"

text \<open>The two zero blocks at the end and the zeros that fill the last record.\<close>

definition canonical_size :: "nat \<Rightarrow> nat" where
  "canonical_size cursor =
    (cursor + 2 * TAR_BLOCK_BYTES + TAR_RECORD_BYTES - 1) div TAR_RECORD_BYTES * TAR_RECORD_BYTES"

definition verify_end :: "('d, 'h) psa_api \<Rightarrow> 'd package_read_fn \<Rightarrow> nat \<Rightarrow> ('d, 'h, unit) streaming" where
  "verify_end psa read_fn stream_size s =
    (if canonical_size (st_cursor s) \<noteq> stream_size then failE PACKAGE_INVALID s
     else stream_zeros psa read_fn stream_size (stream_size - st_cursor s) s)"

subsection \<open>The package\<close>

definition package_info_of :: "nat \<Rightarrow> bytes \<Rightarrow> manifest \<Rightarrow> nat \<times> nat \<times> bytes \<Rightarrow> bytes \<Rightarrow> package_info" where
  "package_info_of package_size_bytes text manifest wasm package_sha256 =
    \<lparr>pi_package_size_bytes = package_size_bytes, pi_manifest_size_bytes = length text,
     pi_product_id_offset_bytes = mf_product_id_offset_bytes manifest,
     pi_product_id_size_bytes = mf_product_id_size_bytes manifest,
     pi_product_version_offset_bytes = mf_product_version_offset_bytes manifest,
     pi_product_version_size_bytes = mf_product_version_size_bytes manifest,
     pi_wasm_offset_bytes = fst wasm, pi_wasm_size_bytes = fst (snd wasm),
     pi_wasm_sha256 = snd (snd wasm), pi_package_sha256 = package_sha256,
     pi_guest_abi_version = mf_guest_abi_version manifest,
     pi_data_schema_version = mf_data_schema_version manifest,
     pi_memory_limit_bytes = mf_memory_limit_bytes manifest,
     pi_stack_limit_bytes = mf_stack_limit_bytes manifest,
     pi_event_queue_limit = mf_event_queue_limit manifest,
     pi_instruction_budget = mf_instruction_budget manifest,
     pi_host_call_timeout_ms = mf_host_call_timeout_ms manifest,
     pi_storage_limit_bytes = mf_storage_limit_bytes manifest,
     pi_requested_capabilities = mf_requested_capabilities manifest,
     pi_has_unknown_capability = mf_has_unknown_capability manifest,
     pi_is_classic_profile = mf_is_classic_profile manifest\<rparr>"

text \<open>Everything between the two calls on the digest of the package.\<close>

definition verify_members :: "('d, 'h) psa_api \<Rightarrow> 'd psa_keys \<Rightarrow> 'd package_read_fn \<Rightarrow> nat \<Rightarrow> nat \<Rightarrow>
    bytes \<Rightarrow> string \<Rightarrow> ('d, 'h, bytes \<times> manifest \<times> bytes \<times> (nat \<times> nat \<times> bytes)) streaming" where
  "verify_members psa keys read_fn package_size_bytes max_wasm_bytes public_key expected_key_id =
    bindE (verify_manifest psa read_fn package_size_bytes expected_key_id max_wasm_bytes) (\<lambda>(text, manifest).
    bindE (verify_signature psa keys read_fn package_size_bytes public_key text) (\<lambda>signature.
    bindE (verify_wasm psa read_fn package_size_bytes max_wasm_bytes manifest) (\<lambda>wasm.
    bindE (verify_end psa read_fn package_size_bytes) (\<lambda>_.
    retE (text, manifest, signature, wasm)))))"

definition verify_arguments_ok :: "nat \<Rightarrow> nat \<Rightarrow> bytes \<Rightarrow> bool" where
  "verify_arguments_ok package_size_bytes max_wasm_bytes public_key \<longleftrightarrow>
    \<not> (length public_key = 0 \<or> length public_key > 1024 \<or> max_wasm_bytes < 8 \<or>
       max_wasm_bytes > PACKAGE_WASM_MAX_BYTES \<or> package_size_bytes mod TAR_BLOCK_BYTES \<noteq> 0 \<or>
       package_size_bytes > max_wasm_bytes + PACKAGE_MANIFEST_MAX_BYTES + 8192)"

text \<open>
  The result, the caller's \<open>info\<close> and workspace as the call leaves them, and the device.  The
  manifest buffer behind the manifest keeps what it held.
\<close>

definition package_verify :: "('d, 'h) psa_api \<Rightarrow> 'd psa_keys \<Rightarrow> 'd package_read_fn option \<Rightarrow> nat \<Rightarrow>
    nat \<Rightarrow> bytes option \<Rightarrow> string option \<Rightarrow> package_workspace option \<Rightarrow> package_info option \<Rightarrow> 'd \<Rightarrow>
    (package_result \<times> package_info option \<times> package_workspace option) \<times> 'd" where
  "package_verify psa keys read_fn package_size_bytes max_wasm_bytes public_key expected_key_id
      workspace info d =
    (let info = map_option (\<lambda>_. zero_info) info in
     case (read_fn, public_key, expected_key_id, workspace, info) of
       (Some read_fn, Some public_key, Some expected_key_id, Some buffers, Some _) \<Rightarrow>
         if \<not> verify_arguments_ok package_size_bytes max_wasm_bytes public_key
         then ((PACKAGE_INVALID, info, workspace), d)
         else
           (case digest_start psa d of
              (None, d) \<Rightarrow> ((PACKAGE_INVALID, info, workspace), d)
            | (Some digest, d) \<Rightarrow>
                (case verify_members psa keys read_fn package_size_bytes max_wasm_bytes public_key
                   expected_key_id \<lparr>st_cursor = 0, st_digest = digest, st_device = d\<rparr> of
                   (Inl result, s) \<Rightarrow>
                     ((result, Some zero_info, Some wiped_workspace),
                      digest_abort psa (st_digest s) (st_device s))
                 | (Inr (text, manifest, signature, wasm), s) \<Rightarrow>
                     (case digest_finish psa (st_digest s) (st_device s) of
                        (None, d) \<Rightarrow> ((PACKAGE_INVALID, Some zero_info, Some wiped_workspace), d)
                      | (Some package_sha256, d) \<Rightarrow>
                          ((PACKAGE_OK,
                            Some (package_info_of package_size_bytes text manifest wasm package_sha256),
                            Some \<lparr>pw_manifest = text @ drop (length text) (pw_manifest buffers),
                              pw_signature = signature\<rparr>), d))))
     | _ \<Rightarrow> ((PACKAGE_INVALID, info, workspace), d))"

end
