(* ===== verification/Package_Wasm.thy ===== *)
theory Package_Wasm
  imports Package_Types Package_Crypto
begin

text \<open>
  The check of the Wasm payload of a stored package (\<open>package_wasm.c\<close>).  The payload is never in
  memory as a whole: a reader fetches blocks of 512 bytes through the callback and keeps the
  last one.  What the C struct \<open>wasm_reader_t\<close> keeps constant (the callback, the base and the
  size) is \<open>wasm_source\<close>; the rest, with the device, is the state \<open>wasm_reader\<close>.

  A bool function with out-parameters is an action of the reader: \<open>Inl ()\<close> is false and
  \<open>Inr x\<close> is true with the values stored, the cursor among them.  A function with
  \<open>bool *unsupported\<close> returns that flag with its value.  A loop over an index below a
  \<open>uint32_t\<close> count recurses on the number of rounds left.
\<close>

definition WASM_PAGE_BYTES :: u32 where "WASM_PAGE_BYTES = 65536"
definition WASM_READ_BYTES :: nat where "WASM_READ_BYTES = 512"

record wasm_section =
  sec_begin :: nat
  sec_end :: nat
  sec_present :: bool

record 'd wasm_source =
  ws_read_fn :: "'d package_read_fn"
  ws_base :: nat
  ws_size :: nat

record 'd wasm_reader =
  wr_block :: bytes
  wr_cached_begin :: nat
  wr_cached_size :: nat
  wr_read_failed :: bool
  wr_device :: 'd

record wasm_abi =
  abi_functions :: "u32 list"
  abi_defined_count :: u32
  abi_imported_count :: u32
  abi_imported_capabilities :: u32

definition zero_abi :: wasm_abi where
  "zero_abi = \<lparr>abi_functions = [0, 0, 0], abi_defined_count = 0, abi_imported_count = 0,
     abi_imported_capabilities = 0\<rparr>"

definition zero_sections :: "wasm_section list" where
  "zero_sections = replicate 13 \<lparr>sec_begin = 0, sec_end = 0, sec_present = False\<rparr>"

type_synonym ('d, 'a) reading = "('d wasm_reader, unit, 'a) act"

text \<open>Going on where the C code looks at a bool result instead of returning false with it.\<close>

definition attempt :: "('d, 'a) reading \<Rightarrow> ('d, unit + 'a) reading" where
  "attempt m r = (case m r of (result, r') \<Rightarrow> (Inr result, r'))"

subsection \<open>Bytes, numbers, names\<close>

definition byte_at :: "'d wasm_source \<Rightarrow> nat \<Rightarrow> ('d, byte) reading" where
  "byte_at src offset r =
    (if offset \<ge> ws_size src then (Inl (), r)
     else if wr_cached_size r = 0 \<or> offset < wr_cached_begin r \<or>
       offset - wr_cached_begin r \<ge> wr_cached_size r
     then
       (let from = offset div WASM_READ_BYTES * WASM_READ_BYTES;
            amount = (if ws_size src - from < WASM_READ_BYTES then ws_size src - from
                      else WASM_READ_BYTES) in
        case ws_read_fn src (ws_base src + from) amount (wr_device r) of
          (None, d) \<Rightarrow> (Inl (), r\<lparr>wr_device := d, wr_read_failed := True, wr_cached_size := 0\<rparr>)
        | (Some block, d) \<Rightarrow> (Inr (block ! (offset - from)),
            r\<lparr>wr_device := d, wr_block := block, wr_cached_begin := from, wr_cached_size := amount\<rparr>))
     else (Inr (wr_block r ! (offset - wr_cached_begin r)), r))"

definition next_byte :: "'d wasm_source \<Rightarrow> nat \<Rightarrow> nat \<Rightarrow> ('d, byte \<times> nat) reading" where
  "next_byte src end_pos cursor =
    (if cursor \<ge> end_pos then failE ()
     else bindE (byte_at src cursor) (\<lambda>byte. retE (byte, Suc cursor)))"

fun next_u32_from :: "'d wasm_source \<Rightarrow> nat \<Rightarrow> nat list \<Rightarrow> nat \<Rightarrow> u32 \<Rightarrow> ('d, u32 \<times> nat) reading" where
  "next_u32_from src end_pos [] cursor result = failE ()"
| "next_u32_from src end_pos (index # indices) cursor result =
    bindE (next_byte src end_pos cursor) (\<lambda>(octet, cursor).
    if index = 4 \<and> octet AND 0xf0 \<noteq> 0 then failE ()
    else let result = result OR push_bit (7 * index) (ucast (octet AND 0x7f)) in
      if octet AND 0x80 = 0 then retE (result, cursor)
      else next_u32_from src end_pos indices cursor result)"

definition next_u32 :: "'d wasm_source \<Rightarrow> nat \<Rightarrow> nat \<Rightarrow> ('d, u32 \<times> nat) reading" where
  "next_u32 src end_pos cursor = next_u32_from src end_pos [0, 1, 2, 3, 4] cursor 0"

text \<open>Every byte is read, and the flag says whether all of them were the expected ones.\<close>

fun compare_bytes :: "'d wasm_source \<Rightarrow> nat \<Rightarrow> bytes \<Rightarrow> bool \<Rightarrow> ('d, bool) reading" where
  "compare_bytes src offset [] same = retE same"
| "compare_bytes src offset (b # expected) same =
    bindE (byte_at src offset) (\<lambda>byte.
    compare_bytes src (Suc offset) expected (if byte \<noteq> b then False else same))"

definition next_name_is :: "'d wasm_source \<Rightarrow> nat \<Rightarrow> nat \<Rightarrow> string \<Rightarrow> ('d, bool \<times> nat) reading" where
  "next_name_is src end_pos cursor expected =
    bindE (next_u32 src end_pos cursor) (\<lambda>(name_length, cursor).
    bindE (guardE (\<not> unat name_length > end_pos - cursor) ()) (\<lambda>_.
    bindE (if unat name_length = length expected
           then compare_bytes src cursor (str_bytes expected) True else retE False) (\<lambda>matches.
    retE (matches, cursor + unat name_length))))"

subsection \<open>Sections\<close>

fun expect_bytes :: "'d wasm_source \<Rightarrow> nat \<Rightarrow> bytes \<Rightarrow> ('d, unit) reading" where
  "expect_bytes src offset [] = retE ()"
| "expect_bytes src offset (b # expected) =
    bindE (byte_at src offset) (\<lambda>byte.
    bindE (guardE (byte = b) ()) (\<lambda>_. expect_bytes src (Suc offset) expected))"

definition next_section :: "'d wasm_source \<Rightarrow> nat \<Rightarrow> ('d, byte \<times> nat \<times> nat) reading" where
  "next_section src cursor =
    bindE (next_byte src (ws_size src) cursor) (\<lambda>(section, cursor).
    bindE (next_u32 src (ws_size src) cursor) (\<lambda>(size, cursor).
    bindE (guardE (\<not> unat size > ws_size src - cursor) ()) (\<lambda>_.
    retE (section, cursor, cursor + unat size))))"

lemma bindE_cong [fundef_cong]:
  assumes "m d = m' d'" and "d = d'" and "\<And>x d1. m' d' = (Inr x, d1) \<Longrightarrow> f x d1 = f' x d1"
  shows "bindE m f d = bindE m' f' d'"
  using assms by (auto simp: bindE_def split: prod.splits sum.splits)

lemma next_byte_advances: "next_byte src e c r = (Inr (b, c'), r') \<Longrightarrow> c < e \<and> c' = Suc c"
  by (auto simp: next_byte_def bindE_OK split: if_splits)

lemma next_u32_from_advances: "next_u32_from src e ks c v r = (Inr (x, c'), r') \<Longrightarrow> c < c' \<and> c' \<le> e"
proof (induction ks arbitrary: c v r)
  case (Cons k ks)
  then show ?case
    by (auto simp: bindE_OK Let_def split: if_splits dest!: next_byte_advances) (fastforce)+
qed simp

lemma next_u32_advances: "next_u32 src e c r = (Inr (x, c'), r') \<Longrightarrow> c < c' \<and> c' \<le> e"
  unfolding next_u32_def by (rule next_u32_from_advances)

lemma next_section_advances: "next_section src c r = (Inr (k, b, e), r') \<Longrightarrow> c < b \<and> b \<le> e \<and> e \<le> ws_size src"
  by (auto simp: next_section_def bindE_OK dest!: next_byte_advances next_u32_advances)

text \<open>
  The loop of \<open>scan_sections\<close>, with the reader explicit for the sake of the termination proof.
  The flag of the result is \<open>*unsupported\<close>.
\<close>

function sections_loop :: "'d wasm_source \<Rightarrow> nat \<Rightarrow> byte \<Rightarrow> wasm_section list \<Rightarrow>
    'd wasm_reader \<Rightarrow> (unit + wasm_section list \<times> bool) \<times> 'd wasm_reader" where
  "sections_loop src cursor last_id sections r =
    (if cursor < ws_size src then
       bindE (next_section src cursor) (\<lambda>(section, cursor, end_pos) r.
       if section > 12 \<or> section = 8 \<or> section = 4 \<or> section = 9 then retE (sections, True) r
       else if section \<noteq> 0 then
         (if section \<le> last_id then failE () r
          else sections_loop src end_pos section
            (sections[unat section := \<lparr>sec_begin = cursor, sec_end = end_pos, sec_present = True\<rparr>]) r)
       else
         bindE (next_name_is src end_pos cursor ''target_features'') (\<lambda>(target_features, _) r.
         if target_features then retE (sections, True) r
         else sections_loop src end_pos last_id sections r) r) r
     else retE (sections, False) r)"
  by pat_completeness auto
termination
  by (relation "measure (\<lambda>(src, cursor, last_id, sections, r). ws_size src - cursor)")
     (auto dest!: next_section_advances)

declare sections_loop.simps [simp del]

definition scan_sections :: "'d wasm_source \<Rightarrow> ('d, wasm_section list \<times> bool) reading" where
  "scan_sections src =
    bindE (expect_bytes src 0 wasm_header) (\<lambda>_.
    bindE (sections_loop src (length wasm_header) 0 zero_sections) (\<lambda>(sections, unsupported).
    bindE (guardE (unsupported \<or>
      sec_present (sections ! 1) \<and> sec_present (sections ! 3) \<and> sec_present (sections ! 5) \<and>
      sec_present (sections ! 7) \<and> sec_present (sections ! 10)) ()) (\<lambda>_.
    retE (sections, unsupported))))"

subsection \<open>Function types\<close>

definition value_type :: "byte \<Rightarrow> bool" where
  "value_type v \<longleftrightarrow> v = 0x7f \<or> v = 0x7e \<or> v = 0x7d \<or> v = 0x7c"

text \<open>One list of value types; \<open>part\<close> is the loop index, \<open>wanted\<close> the expected types.\<close>

fun match_types :: "'d wasm_source \<Rightarrow> nat \<Rightarrow> nat \<Rightarrow> nat \<Rightarrow> bytes \<Rightarrow> bool \<Rightarrow> nat \<Rightarrow>
    ('d, bool \<times> nat) reading" where
  "match_types src end_pos 0 part wanted matched cursor = retE (matched, cursor)"
| "match_types src end_pos (Suc n) part wanted matched cursor =
    bindE (next_byte src end_pos cursor) (\<lambda>(type, cursor).
    bindE (guardE (value_type type) ()) (\<lambda>_.
    match_types src end_pos n (Suc part) wanted
      (if matched \<and> type \<noteq> wanted ! part then False else matched) cursor))"

definition match_entry :: "'d wasm_source \<Rightarrow> nat \<Rightarrow> bytes \<Rightarrow> bytes \<Rightarrow> bool \<Rightarrow> nat \<Rightarrow>
    ('d, bool \<times> nat) reading" where
  "match_entry src end_pos params results is_wanted cursor =
    bindE (next_byte src end_pos cursor) (\<lambda>(form, cursor).
    bindE (guardE (form = 0x60) ()) (\<lambda>_.
    bindE (next_u32 src end_pos cursor) (\<lambda>(param_count, cursor).
    bindE (guardE (\<not> unat param_count > end_pos - cursor) ()) (\<lambda>_.
    let matched = (is_wanted \<and> unat param_count = length params) in
    bindE (match_types src end_pos (unat param_count) 0 params matched cursor) (\<lambda>(matched, cursor).
    bindE (next_u32 src end_pos cursor) (\<lambda>(result_count, cursor).
    bindE (guardE (\<not> unat result_count > end_pos - cursor) ()) (\<lambda>_.
    let matched = (if unat result_count \<noteq> length results then False else matched) in
    match_types src end_pos (unat result_count) 0 results matched cursor)))))))"

fun match_entries :: "'d wasm_source \<Rightarrow> nat \<Rightarrow> u32 \<Rightarrow> bytes \<Rightarrow> bytes \<Rightarrow> nat \<Rightarrow> nat \<Rightarrow> bool \<Rightarrow> nat \<Rightarrow>
    ('d, bool \<times> nat) reading" where
  "match_entries src end_pos wanted params results 0 index found cursor = retE (found, cursor)"
| "match_entries src end_pos wanted params results (Suc n) index found cursor =
    bindE (match_entry src end_pos params results (index = unat wanted) cursor) (\<lambda>(matched, cursor).
    match_entries src end_pos wanted params results n (Suc index)
      (if index = unat wanted then matched else found) cursor)"

definition type_matches :: "'d wasm_source \<Rightarrow> wasm_section \<Rightarrow> u32 \<Rightarrow> bytes \<Rightarrow> bytes \<Rightarrow>
    ('d, unit) reading" where
  "type_matches src section wanted params results =
    bindE (guardE (sec_present section) ()) (\<lambda>_.
    bindE (next_u32 src (sec_end section) (sec_begin section)) (\<lambda>(count, cursor).
    bindE (guardE (\<not> unat count > sec_end section - cursor) ()) (\<lambda>_.
    bindE (match_entries src (sec_end section) wanted params results (unat count) 0 False cursor)
      (\<lambda>(found, cursor).
    guardE (cursor = sec_end section \<and> found) ()))))"

subsection \<open>Imports\<close>

text \<open>
  The field name is compared with one name after the other from the same cursor; the result is
  the four flags \<open>clock_name\<close>, \<open>log_name\<close>, \<open>start_name\<close>, \<open>cancel_name\<close>.
\<close>

definition import_field :: "'d wasm_source \<Rightarrow> nat \<Rightarrow> nat \<Rightarrow>
    ('d, (bool \<times> bool \<times> bool \<times> bool) \<times> nat) reading" where
  "import_field src end_pos field_begin =
    bindE (next_name_is src end_pos field_begin ''monotonic_ms'') (\<lambda>(clock_name, cursor).
    bindE (if \<not> clock_name then next_name_is src end_pos field_begin ''log''
           else retE (False, cursor)) (\<lambda>(log_name, cursor).
    bindE (if \<not> clock_name \<and> \<not> log_name then next_name_is src end_pos field_begin ''timer_start''
           else retE (False, cursor)) (\<lambda>(start_name, cursor).
    bindE (if \<not> clock_name \<and> \<not> log_name \<and> \<not> start_name
           then next_name_is src end_pos field_begin ''timer_cancel''
           else retE (False, cursor)) (\<lambda>(cancel_name, cursor).
    retE ((clock_name, log_name, start_name, cancel_name), cursor)))))"

definition next_import :: "'d wasm_source \<Rightarrow> nat \<Rightarrow> nat \<Rightarrow>
    ('d, (bool \<times> (bool \<times> bool \<times> bool \<times> bool) \<times> byte \<times> u32) \<times> nat) reading" where
  "next_import src end_pos cursor =
    bindE (next_name_is src end_pos cursor ''econtainer'') (\<lambda>(module, cursor).
    bindE (import_field src end_pos cursor) (\<lambda>(field, cursor).
    bindE (next_byte src end_pos cursor) (\<lambda>(kind, cursor).
    bindE (next_u32 src end_pos cursor) (\<lambda>(type_index, cursor).
    retE ((module, field, kind, type_index), cursor)))))"

definition log_params :: bytes where "log_params = [0x7f, 0x7f]"
definition start_params :: bytes where "start_params = [0x7f, 0x7f]"
definition cancel_params :: bytes where "cancel_params = [0x7e]"
definition i32_result :: bytes where "i32_result = [0x7f]"
definition i64_result :: bytes where "i64_result = [0x7e]"

text \<open>The capability, the bit in \<open>seen\<close>, the parameters and the result that a field name stands for.\<close>

definition import_wanted :: "bool \<times> bool \<times> bool \<times> bool \<Rightarrow> u32 \<times> u32 \<times> bytes \<times> bytes" where
  "import_wanted = (\<lambda>(clock_name, log_name, start_name, cancel_name).
    let cap = (if clock_name then CAP_MONOTONIC_TIME else if log_name then CAP_LOG
               else if start_name \<or> cancel_name then CAP_TIMER else 0) in
    (cap,
     if cancel_name then 8 else cap,
     if log_name then log_params else if start_name then start_params
       else if cancel_name then cancel_params else [],
     if log_name \<or> cancel_name then i32_result else i64_result))"

text \<open>
  The rounds of \<open>scan_imports\<close>.  A type that does not match ends the scan as unsupported
  whatever made \<open>type_matches\<close> return false, a failed read included.
\<close>

fun imports_loop :: "'d wasm_source \<Rightarrow> wasm_section \<Rightarrow> wasm_section \<Rightarrow> nat \<Rightarrow> u32 \<Rightarrow> wasm_abi \<Rightarrow> nat \<Rightarrow>
    ('d, wasm_abi \<times> bool) reading" where
  "imports_loop src types imports 0 seen abi cursor =
    bindE (guardE (cursor = sec_end imports) ()) (\<lambda>_. retE (abi, False))"
| "imports_loop src types imports (Suc n) seen abi cursor =
    bindE (next_import src (sec_end imports) cursor) (\<lambda>((module, field, kind, type_index), cursor).
    if \<not> module \<or> kind \<noteq> 0 then retE (abi, True)
    else (case import_wanted field of (cap, seen_bit, params, results) \<Rightarrow>
      if cap = 0 \<or> seen AND seen_bit \<noteq> 0 then retE (abi, True)
      else bindE (attempt (type_matches src types type_index params results)) (\<lambda>result.
        if result \<noteq> Inr () then retE (abi, True)
        else imports_loop src types imports n (seen OR seen_bit)
          (abi\<lparr>abi_imported_capabilities := abi_imported_capabilities abi OR cap,
               abi_imported_count := abi_imported_count abi + 1\<rparr>) cursor)))"

definition package_scan_imports :: "'d wasm_source \<Rightarrow> wasm_section list \<Rightarrow> wasm_abi \<Rightarrow>
    ('d, wasm_abi \<times> bool) reading" where
  "package_scan_imports src sections abi =
    (let imports = sections ! 2 in
     if \<not> sec_present imports then retE (abi, False)
     else bindE (next_u32 src (sec_end imports) (sec_begin imports)) (\<lambda>(count, cursor).
       if count > 4 then retE (abi, True)
       else imports_loop src (sections ! 1) imports (unat count) 0 abi cursor))"

subsection \<open>Exports\<close>

definition export_names :: "string list" where
  "export_names = [''econtainer_init'', ''econtainer_on_event'', ''econtainer_stop'', ''memory'']"

text \<open>The index of the name at the cursor in the list, from \<open>item\<close> on; \<open>None\<close> is \<open>target = -1\<close>.\<close>

fun export_target :: "'d wasm_source \<Rightarrow> nat \<Rightarrow> nat \<Rightarrow> nat \<Rightarrow> string list \<Rightarrow> ('d, nat option) reading" where
  "export_target src cursor name_length item [] = retE None"
| "export_target src cursor name_length item (name # names) =
    (if name_length \<noteq> length name then export_target src cursor name_length (Suc item) names
     else bindE (compare_bytes src cursor (str_bytes name) True) (\<lambda>same.
       if same then retE (Some item) else export_target src cursor name_length (Suc item) names))"

definition next_export :: "'d wasm_source \<Rightarrow> nat \<Rightarrow> nat \<Rightarrow>
    ('d, (nat option \<times> byte \<times> u32) \<times> nat) reading" where
  "next_export src end_pos cursor =
    bindE (next_u32 src end_pos cursor) (\<lambda>(name_length, cursor).
    bindE (guardE (\<not> unat name_length > end_pos - cursor) ()) (\<lambda>_.
    bindE (export_target src cursor (unat name_length) 0 export_names) (\<lambda>target.
    bindE (next_byte src end_pos (cursor + unat name_length)) (\<lambda>(kind, cursor).
    bindE (next_u32 src end_pos cursor) (\<lambda>(wasm_index, cursor).
    retE ((target, kind, wasm_index), cursor))))))"

fun exports_loop :: "'d wasm_source \<Rightarrow> wasm_section \<Rightarrow> nat \<Rightarrow> u32 \<Rightarrow> wasm_abi \<Rightarrow> nat \<Rightarrow>
    ('d, wasm_abi \<times> bool) reading" where
  "exports_loop src section 0 found abi cursor =
    bindE (guardE (cursor = sec_end section \<and> found = 15) ()) (\<lambda>_. retE (abi, False))"
| "exports_loop src section (Suc n) found abi cursor =
    bindE (next_export src (sec_end section) cursor) (\<lambda>((target, kind, wasm_index), cursor).
    case target of None \<Rightarrow> retE (abi, True) | Some target \<Rightarrow>
      if found AND push_bit target 1 \<noteq> 0 \<or> kind \<noteq> (if target = 3 then 2 else 0) \<or>
         (target = 3 \<and> wasm_index \<noteq> 0)
      then retE (abi, True)
      else exports_loop src section n (found OR push_bit target 1)
        (if target < 3 then abi\<lparr>abi_functions := (abi_functions abi)[target := wasm_index]\<rparr> else abi)
        cursor)"

definition package_scan_exports :: "'d wasm_source \<Rightarrow> wasm_section \<Rightarrow> wasm_abi \<Rightarrow>
    ('d, wasm_abi \<times> bool) reading" where
  "package_scan_exports src section abi =
    bindE (next_u32 src (sec_end section) (sec_begin section)) (\<lambda>(count, cursor).
    if count \<noteq> 4 then retE (abi, True)
    else exports_loop src section (unat count) 0 abi cursor)"

subsection \<open>Functions, memory, code\<close>

text \<open>The type of the wanted function, and the position behind the last one.\<close>

fun function_types :: "'d wasm_source \<Rightarrow> nat \<Rightarrow> u32 \<Rightarrow> u32 \<Rightarrow> nat \<Rightarrow> nat \<Rightarrow> u32 \<Rightarrow> nat \<Rightarrow>
    ('d, u32 \<times> nat) reading" where
  "function_types src end_pos wanted type_count 0 index type_index cursor = retE (type_index, cursor)"
| "function_types src end_pos wanted type_count (Suc n) index type_index cursor =
    bindE (next_u32 src end_pos cursor) (\<lambda>(current, cursor).
    bindE (guardE (\<not> current \<ge> type_count) ()) (\<lambda>_.
    function_types src end_pos wanted type_count n (Suc index)
      (if index = unat wanted then current else type_index) cursor))"

definition function_type :: "'d wasm_source \<Rightarrow> wasm_section \<Rightarrow> u32 \<Rightarrow> u32 \<Rightarrow> ('d, u32 \<times> u32) reading" where
  "function_type src section wanted type_count =
    bindE (next_u32 src (sec_end section) (sec_begin section)) (\<lambda>(count, cursor).
    bindE (guardE (\<not> (unat count > sec_end section - cursor \<or> wanted \<ge> count)) ()) (\<lambda>_.
    bindE (function_types src (sec_end section) wanted type_count (unat count) 0 0 cursor)
      (\<lambda>(type_index, cursor).
    bindE (guardE (cursor = sec_end section) ()) (\<lambda>_.
    retE (type_index, count)))))"

definition scan_memory :: "'d wasm_source \<Rightarrow> wasm_section \<Rightarrow> u32 \<Rightarrow> ('d, unit) reading" where
  "scan_memory src section limit_bytes =
    bindE (next_u32 src (sec_end section) (sec_begin section)) (\<lambda>(count, cursor).
    bindE (guardE (count = 1) ()) (\<lambda>_.
    bindE (next_u32 src (sec_end section) cursor) (\<lambda>(flags, cursor).
    bindE (guardE (flags = 1) ()) (\<lambda>_.
    bindE (next_u32 src (sec_end section) cursor) (\<lambda>(minimum, cursor).
    bindE (guardE (minimum > 0) ()) (\<lambda>_.
    bindE (next_u32 src (sec_end section) cursor) (\<lambda>(maximum, cursor).
    guardE (minimum \<le> maximum \<and> maximum \<le> limit_bytes div WASM_PAGE_BYTES \<and>
      cursor = sec_end section) ())))))))"

fun code_bodies :: "'d wasm_source \<Rightarrow> nat \<Rightarrow> nat \<Rightarrow> nat \<Rightarrow> ('d, nat) reading" where
  "code_bodies src end_pos 0 cursor = retE cursor"
| "code_bodies src end_pos (Suc n) cursor =
    bindE (next_u32 src end_pos cursor) (\<lambda>(size, cursor).
    bindE (guardE (\<not> (size < 2 \<or> unat size > end_pos - cursor)) ()) (\<lambda>_.
    bindE (byte_at src (cursor + unat size - 1)) (\<lambda>end_opcode.
    bindE (guardE (end_opcode = 0x0b) ()) (\<lambda>_.
    code_bodies src end_pos n (cursor + unat size)))))"

definition scan_code :: "'d wasm_source \<Rightarrow> wasm_section \<Rightarrow> u32 \<Rightarrow> ('d, unit) reading" where
  "scan_code src section defined_count =
    bindE (next_u32 src (sec_end section) (sec_begin section)) (\<lambda>(count, cursor).
    bindE (guardE (count = defined_count \<and> \<not> unat count > sec_end section - cursor) ()) (\<lambda>_.
    bindE (code_bodies src (sec_end section) (unat count) cursor) (\<lambda>cursor.
    guardE (cursor = sec_end section) ())))"

subsection \<open>The digest of the payload\<close>

text \<open>
  This pass reads the payload again, block by block and without the cache.  The loop returns the
  digest that has absorbed every block, or the result the function returns early; in that case
  the digest has been aborted.
\<close>

function payload_loop :: "('d, 'h) psa_api \<Rightarrow> 'd wasm_source \<Rightarrow> 'h \<Rightarrow> nat \<Rightarrow> 'd \<Rightarrow>
    (package_wasm_result + 'h) \<times> 'd" where
  "payload_loop psa src digest offset d =
    (if offset < ws_size src then
       (let amount = (if ws_size src - offset < WASM_READ_BYTES then ws_size src - offset
                      else WASM_READ_BYTES) in
        case ws_read_fn src (ws_base src + offset) amount d of
          (None, d1) \<Rightarrow> (Inl PACKAGE_WASM_READ_FAILED, digest_abort psa digest d1)
        | (Some block, d1) \<Rightarrow>
            (case digest_update psa digest block d1 of
               ((False, digest), d2) \<Rightarrow> (Inl PACKAGE_WASM_INVALID, digest_abort psa digest d2)
             | ((True, digest), d2) \<Rightarrow> payload_loop psa src digest (offset + amount) d2))
     else (Inr digest, d))"
  by pat_completeness auto
termination
  by (relation "measure (\<lambda>(psa, src, digest, offset, d). ws_size src - offset)")
     (auto simp: WASM_READ_BYTES_def)

declare payload_loop.simps [simp del]

definition verify_payload_digest :: "('d, 'h) psa_api \<Rightarrow> 'd wasm_source \<Rightarrow> bytes \<Rightarrow> 'd \<Rightarrow>
    package_wasm_result \<times> 'd" where
  "verify_payload_digest psa src expected d =
    (case digest_start psa d of
       (None, d1) \<Rightarrow> (PACKAGE_WASM_INVALID, d1)
     | (Some digest, d1) \<Rightarrow>
         (case payload_loop psa src digest 0 d1 of
            (Inl result, d2) \<Rightarrow> (result, d2)
          | (Inr digest, d2) \<Rightarrow>
              (case digest_finish psa digest d2 of (actual, d3) \<Rightarrow>
                 (if actual \<noteq> Some expected then PACKAGE_WASM_INVALID else PACKAGE_WASM_OK, d3))))"

subsection \<open>The check\<close>

definition event_params :: bytes where "event_params = [0x7f, 0x7f]"

text \<open>
  The loop over the three exported functions.  \<open>None\<close> is the early return of UNSUPPORTED for
  an imported function.
\<close>

fun functions_loop :: "'d wasm_source \<Rightarrow> wasm_section list \<Rightarrow> u32 \<Rightarrow> nat list \<Rightarrow> wasm_abi \<Rightarrow>
    ('d, wasm_abi option) reading" where
  "functions_loop src sections type_count [] abi = retE (Some abi)"
| "functions_loop src sections type_count (index # indices) abi =
    (if abi_functions abi ! index < abi_imported_count abi then retE None
     else
       bindE (function_type src (sections ! 3) (abi_functions abi ! index - abi_imported_count abi)
         type_count) (\<lambda>(type_index, defined_count).
       bindE (type_matches src (sections ! 1) type_index
         (if index = 1 then event_params else []) i32_result) (\<lambda>_.
       functions_loop src sections type_count indices (abi\<lparr>abi_defined_count := defined_count\<rparr>))))"

text \<open>
  The scanning part of \<open>econtainer_package_wasm_check\<close>: \<open>Inl ()\<close> where a scan returned false,
  else the result so far.
\<close>

definition scan_payload :: "'d wasm_source \<Rightarrow> package_info \<Rightarrow> ('d, package_wasm_result) reading" where
  "scan_payload src info =
    bindE (scan_sections src) (\<lambda>(sections, unsupported).
    if unsupported then retE PACKAGE_WASM_UNSUPPORTED
    else
      bindE (package_scan_imports src sections zero_abi) (\<lambda>(abi, imports_unsupported).
      bindE (package_scan_exports src (sections ! 7) abi) (\<lambda>(abi, exports_unsupported).
      if imports_unsupported \<or> exports_unsupported then retE PACKAGE_WASM_UNSUPPORTED
      else if abi_imported_capabilities abi AND NOT (pi_requested_capabilities info) \<noteq> 0
      then retE PACKAGE_WASM_INVALID
      else if abi_functions abi ! 0 = abi_functions abi ! 1 \<or>
        abi_functions abi ! 0 = abi_functions abi ! 2 \<or> abi_functions abi ! 1 = abi_functions abi ! 2
      then retE PACKAGE_WASM_UNSUPPORTED
      else
        bindE (next_u32 src (sec_end (sections ! 1)) (sec_begin (sections ! 1))) (\<lambda>(type_count, _).
        bindE (functions_loop src sections type_count [0, 1, 2] abi) (\<lambda>checked.
        case checked of None \<Rightarrow> retE PACKAGE_WASM_UNSUPPORTED | Some abi \<Rightarrow>
          bindE (scan_memory src (sections ! 5) (pi_memory_limit_bytes info)) (\<lambda>_.
          bindE (scan_code src (sections ! 10) (abi_defined_count abi)) (\<lambda>_.
          retE PACKAGE_WASM_OK)))))))"

definition wasm_arguments_ok :: "package_info \<Rightarrow> wasm_authorization \<Rightarrow> bool" where
  "wasm_arguments_ok info authorization \<longleftrightarrow>
    \<not> (pi_wasm_size_bytes info < 8 \<or> pi_wasm_size_bytes info > PACKAGE_WASM_MAX_BYTES \<or>
       pi_wasm_offset_bytes info > pi_package_size_bytes info \<or>
       pi_wasm_size_bytes info > pi_package_size_bytes info - pi_wasm_offset_bytes info \<or>
       pi_requested_capabilities info AND NOT CAP_ALL \<noteq> 0 \<or>
       pi_memory_limit_bytes info < WASM_PAGE_BYTES \<or> pi_stack_limit_bytes info = 0 \<or>
       allowed_capabilities authorization AND NOT CAP_ALL \<noteq> 0 \<or>
       max_memory_bytes authorization < WASM_PAGE_BYTES \<or> max_stack_bytes authorization = 0)"

definition wasm_authorized :: "package_info \<Rightarrow> wasm_authorization \<Rightarrow> bool" where
  "wasm_authorized info authorization \<longleftrightarrow>
    \<not> (pi_requested_capabilities info AND NOT (allowed_capabilities authorization) \<noteq> 0 \<or>
       pi_memory_limit_bytes info > max_memory_bytes authorization \<or>
       pi_stack_limit_bytes info > max_stack_bytes authorization)"

text \<open>\<open>workspace\<close> is the block of the workspace; it is only scratch.\<close>

definition package_wasm_check :: "('d, 'h) psa_api \<Rightarrow> 'd package_read_fn option \<Rightarrow>
    package_info option \<Rightarrow> wasm_authorization option \<Rightarrow> bytes option \<Rightarrow> 'd \<Rightarrow>
    package_wasm_result \<times> 'd" where
  "package_wasm_check psa read_fn verified_info authorization workspace d =
    (case (read_fn, verified_info, authorization, workspace) of
       (Some read_fn, Some info, Some authorization, Some block) \<Rightarrow>
         if \<not> wasm_arguments_ok info authorization then (PACKAGE_WASM_INVALID, d)
         else if pi_guest_abi_version info \<noteq> 1 \<or> \<not> pi_is_classic_profile info \<or>
           pi_has_unknown_capability info
         then (PACKAGE_WASM_UNSUPPORTED, d)
         else if \<not> wasm_authorized info authorization then (PACKAGE_WASM_NOT_AUTHORIZED, d)
         else
           (let src = \<lparr>ws_read_fn = read_fn, ws_base = pi_wasm_offset_bytes info,
                       ws_size = pi_wasm_size_bytes info\<rparr>;
                reader = \<lparr>wr_block = block, wr_cached_begin = 0, wr_cached_size = 0,
                          wr_read_failed = False, wr_device = d\<rparr> in
            case scan_payload src info reader of
              (Inl _, reader) \<Rightarrow>
                (if wr_read_failed reader then PACKAGE_WASM_READ_FAILED else PACKAGE_WASM_INVALID,
                 wr_device reader)
            | (Inr result, reader) \<Rightarrow>
                if result \<noteq> PACKAGE_WASM_OK then (result, wr_device reader)
                else verify_payload_digest psa src (pi_wasm_sha256 info) (wr_device reader))
     | _ \<Rightarrow> (PACKAGE_WASM_INVALID, d))"

end
