(* ===== verification/Wasm_Grammar.thy ===== *)
theory Wasm_Grammar
  imports Wasm_Scan
begin

text \<open>
  The language of modules that \<open>wasm_scan.c\<close> accepts, stated as a grammar over byte lists
  without cursors, and the theorem that \<open>scan_module\<close> accepts exactly this language and
  computes the capabilities the grammar assigns.  On the way: no scan reads outside the
  module, whatever its bytes are.
\<close>

subsection \<open>No read outside the array\<close>

named_theorems in_bounds "functions that read only inside the array"

lemma window_in_bounds [simp]: "i + n \<le> length data \<Longrightarrow> length (window data i (i + n)) = n"
  by simp

lemma fetch_slice_iff [scan_simps]:
  "fetch_slice data i n = GO bs \<longleftrightarrow> i + n \<le> length data \<and> bs = window data i (i + n)"
  "fetch_slice data i n = OUT_OF_BOUNDS \<longleftrightarrow> length data < i + n"
  by (auto simp: fetch_slice_def)

declare read_u32_in_bounds [in_bounds]

lemma read_name_advances:
  "read_name data e c = GO (name, c') \<Longrightarrow> e \<le> length data \<Longrightarrow> c < c' \<and> c' \<le> e"
  by (auto simp: read_name_def scan_simps dest!: read_u32_advances)

lemma read_name_in_bounds [in_bounds]: "e \<le> length data \<Longrightarrow> read_name data e c \<noteq> OUT_OF_BOUNDS"
  by (auto simp: read_name_def scan_simps in_bounds dest!: read_u32_advances)

lemma read_func_type_in_bounds [in_bounds]:
  "e \<le> length data \<Longrightarrow> read_func_type data e c \<noteq> OUT_OF_BOUNDS"
  by (auto simp: read_func_type_def scan_simps in_bounds dest!: read_u32_advances)

lemma type_loop_in_bounds [in_bounds]:
  "e \<le> length data \<Longrightarrow> type_loop data e count type_index capability cancel index c \<noteq> OUT_OF_BOUNDS"
proof (induction "count - index" arbitrary: index c)
  case (Suc m)
  then have "m = count - Suc index" "index < count" by simp_all
  with Suc show ?case
    by (subst type_loop.simps) (auto simp: scan_simps in_bounds)
qed (simp add: type_loop.simps)

lemma import_type_matches_in_bounds [in_bounds]:
  "e \<le> length data \<Longrightarrow> import_type_matches data b e type_index capability cancel \<noteq> OUT_OF_BOUNDS"
  by (auto simp: import_type_matches_def scan_simps in_bounds)

lemma export_loop_in_bounds [in_bounds]:
  "e \<le> length data \<Longrightarrow> export_loop data e count index c \<noteq> OUT_OF_BOUNDS"
proof (induction "count - index" arbitrary: index c)
  case (Suc m)
  then have "m = count - Suc index" "index < count" by simp_all
  with Suc show ?case
    by (subst export_loop.simps) (auto simp: scan_simps in_bounds)
qed (simp add: export_loop.simps)

lemma scan_exports_in_bounds [in_bounds]: "e \<le> length data \<Longrightarrow> scan_exports data e c \<noteq> OUT_OF_BOUNDS"
  by (auto simp: scan_exports_def scan_simps in_bounds)

lemma section_header_in_bounds [in_bounds]: "c < length data \<Longrightarrow> section_header data c \<noteq> OUT_OF_BOUNDS"
  by (auto simp: section_header_def scan_simps in_bounds)

lemma note_section_in_bounds [in_bounds]: "note_section section b e st \<noteq> OUT_OF_BOUNDS"
  by (auto simp: note_section_def scan_simps Let_def)

definition scan_state_within :: "bytes \<Rightarrow> scan_state \<Rightarrow> bool" where
  "scan_state_within data st \<longleftrightarrow> scan_type_end st \<le> length data \<and> scan_import_end st \<le> length data"

lemma note_section_within:
  "note_section section b e st = GO st' \<Longrightarrow> e \<le> length data \<Longrightarrow> scan_state_within data st \<Longrightarrow>
     scan_state_within data st'"
  by (auto simp: note_section_def scan_simps scan_state_within_def Let_def split: if_splits)

lemma section_loop_in_bounds:
  "scan_state_within data st \<Longrightarrow> section_loop data c st \<noteq> OUT_OF_BOUNDS \<and>
     (\<forall>st'. section_loop data c st = GO st' \<longrightarrow> scan_state_within data st')"
proof (induction data c st rule: section_loop.induct)
  case (1 wasm cursor st)
  show ?case
  proof (cases "cursor < length wasm")
    case True
    have step: "\<And>section b e st'. section_header wasm cursor = GO (section, b, e) \<Longrightarrow>
        note_section section b e st = GO st' \<Longrightarrow> scan_state_within wasm st'"
      using "1.prems" by (blast dest: section_header_advances intro: note_section_within)
    show ?thesis
      using "1.IH" [OF True _ refl refl] True step
      by (subst (1 2) section_loop.simps)
         (fastforce simp: scan_simps in_bounds dest: section_header_advances split: if_splits)
  qed (use "1.prems" in \<open>simp add: section_loop.simps [of wasm cursor]\<close>)
qed

lemma read_import_in_bounds [in_bounds]: "e \<le> length data \<Longrightarrow> read_import data e c \<noteq> OUT_OF_BOUNDS"
  by (auto simp: read_import_def scan_simps in_bounds)

lemma import_loop_in_bounds [in_bounds]:
  "scan_state_within data st \<Longrightarrow> import_loop data st count index c seen caps \<noteq> OUT_OF_BOUNDS"
proof (induction "count - index" arbitrary: index c seen caps)
  case (Suc m)
  then have "m = count - Suc index" "index < count" by simp_all
  with Suc show ?case
    by (subst import_loop.simps) (auto simp: scan_simps in_bounds Let_def scan_state_within_def)
qed (simp add: import_loop.simps)

lemma scan_imports_in_bounds [in_bounds]: "scan_state_within data st \<Longrightarrow> scan_imports data st \<noteq> OUT_OF_BOUNDS"
  by (auto simp: scan_imports_def scan_simps in_bounds) (auto simp: scan_state_within_def in_bounds)

lemma scan_module_in_bounds [in_bounds]: "scan_module wasm \<noteq> OUT_OF_BOUNDS"
proof (cases wasm)
  case (Some data)
  have "scan_state_within data initial_scan" by (simp add: scan_state_within_def initial_scan_def)
  from section_loop_in_bounds [OF this] Some show ?thesis
    by (auto simp: scan_module_def scan_simps in_bounds)
qed (simp add: scan_module_def)

lemma wasm_check_in_bounds [in_bounds]: "wasm_check wasm \<noteq> OUT_OF_BOUNDS"
  using scan_module_in_bounds [of wasm] by (auto simp: wasm_check_def split: scan.splits)

lemma memory_limits_in_bounds [in_bounds]:
  "e \<le> length data \<Longrightarrow> memory_limits_ok data e c pages \<noteq> OUT_OF_BOUNDS"
  by (auto simp: memory_limits_ok_def scan_simps in_bounds)

lemma memory_loop_in_bounds [in_bounds]: "memory_loop data pages c \<noteq> OUT_OF_BOUNDS"
proof (induction data pages c rule: memory_loop.induct)
  case (1 wasm max_memory_pages cursor)
  then show ?case
    by (subst memory_loop.simps) (auto simp: scan_simps in_bounds dest: section_header_advances)
qed

lemma memory_within_limit_in_bounds [in_bounds]: "wasm_memory_within_limit wasm pages \<noteq> OUT_OF_BOUNDS"
  by (auto simp: wasm_memory_within_limit_def scan_simps in_bounds)

subsection \<open>The grammar\<close>

text \<open>Bytes behind their LEB128 length.\<close>

definition g_counted :: "bytes \<Rightarrow> bytes \<Rightarrow> bool" where
  "g_counted bs xs \<longleftrightarrow> (\<exists>L n. leb L n \<and> unat n = length xs \<and> bs = L @ xs)"

text \<open>A vector: its LEB128 count and that many entries.\<close>

definition g_vector :: "(bytes \<Rightarrow> 'x \<Rightarrow> bool) \<Rightarrow> bytes \<Rightarrow> 'x list \<Rightarrow> bool" where
  "g_vector entry bs xs \<longleftrightarrow> (\<exists>L n bss. leb L n \<and> unat n = length xs \<and>
     list_all2 entry bss xs \<and> bs = L @ concat bss)"

definition g_export :: "bytes \<Rightarrow> bytes \<Rightarrow> bool" where
  "g_export bs name \<longleftrightarrow> (\<exists>N kind T target. g_counted N name \<and> \<not> dangerous_export name \<and>
     kind \<le> 3 \<and> leb T target \<and> bs = N @ [kind] @ T)"

type_synonym func_sig = "bytes \<times> bytes"

definition g_func_type :: "bytes \<Rightarrow> func_sig \<Rightarrow> bool" where
  "g_func_type bs sig \<longleftrightarrow> (\<exists>P R. g_counted P (fst sig) \<and> g_counted R (snd sig) \<and> bs = [0x60] @ P @ R)"

text \<open>Entry \<open>idx\<close> of a type section; the entries behind it are not looked at.\<close>

definition g_type_at :: "bytes \<Rightarrow> u32 \<Rightarrow> func_sig \<Rightarrow> bool" where
  "g_type_at body idx sig \<longleftrightarrow> (\<exists>L n bss sigs rest. leb L n \<and> idx < n \<and>
     list_all2 g_func_type bss sigs \<and> length sigs = Suc (unat idx) \<and> last sigs = sig \<and>
     body = L @ concat bss @ rest)"

datatype host_import = HOST_MONOTONIC_MS | HOST_LOG | HOST_TIMER_START | HOST_TIMER_CANCEL

fun host_name :: "host_import \<Rightarrow> string" where
  "host_name HOST_MONOTONIC_MS = ''monotonic_ms''"
| "host_name HOST_LOG = ''log''"
| "host_name HOST_TIMER_START = ''timer_start''"
| "host_name HOST_TIMER_CANCEL = ''timer_cancel''"

fun host_signature :: "host_import \<Rightarrow> func_sig" where
  "host_signature HOST_MONOTONIC_MS = ([], [0x7e])"
| "host_signature HOST_LOG = ([0x7f, 0x7f], [0x7f])"
| "host_signature HOST_TIMER_START = ([0x7f, 0x7f], [0x7e])"
| "host_signature HOST_TIMER_CANCEL = ([0x7e], [0x7f])"

fun host_capability :: "host_import \<Rightarrow> u32" where
  "host_capability HOST_MONOTONIC_MS = CAP_MONOTONIC_TIME"
| "host_capability HOST_LOG = CAP_LOG"
| "host_capability HOST_TIMER_START = CAP_TIMER"
| "host_capability HOST_TIMER_CANCEL = CAP_TIMER"

definition g_import :: "bytes option \<Rightarrow> bytes \<Rightarrow> host_import \<Rightarrow> bool" where
  "g_import types bs h \<longleftrightarrow> (\<exists>M F T idx body. g_counted M (str_bytes ''econtainer'') \<and>
     g_counted F (str_bytes (host_name h)) \<and> leb T idx \<and> types = Some body \<and>
     g_type_at body idx (host_signature h) \<and> bs = M @ F @ [0] @ T)"

definition g_section :: "bytes \<Rightarrow> byte \<times> bytes \<Rightarrow> bool" where
  "g_section bs sec \<longleftrightarrow> (\<exists>S. g_counted S (snd sec) \<and> bs = fst sec # S)"

definition section_order :: "(byte \<times> bytes) list \<Rightarrow> bool" where
  "section_order secs \<longleftrightarrow> sorted_wrt (<) (filter (\<lambda>i. i \<noteq> 0) (map fst secs)) \<and>
     list_all (\<lambda>(i, body). i \<le> 12 \<and> i \<noteq> 8) secs"

definition g_module :: "bytes \<Rightarrow> (byte \<times> bytes) list \<Rightarrow> host_import list \<Rightarrow> bool" where
  "g_module wasm secs imports \<longleftrightarrow> (\<exists>bss. wasm = wasm_header @ concat bss \<and> list_all2 g_section bss secs) \<and>
     section_order secs \<and>
     (\<forall>body. (7, body) \<in> set secs \<longrightarrow> (\<exists>names. g_vector g_export body names)) \<and>
     (case map_of secs 2 of None \<Rightarrow> imports = []
      | Some body \<Rightarrow> g_vector (g_import (map_of secs 1)) body imports \<and> distinct imports)"

subsection \<open>Bytes at a cursor\<close>

definition placed :: "bytes \<Rightarrow> nat \<Rightarrow> nat \<Rightarrow> bytes \<Rightarrow> bool" where
  "placed data e c bs \<longleftrightarrow> c + length bs \<le> e \<and> take (length bs) (drop c data) = bs"

lemma placed_append: "placed data e c (xs @ ys) \<longleftrightarrow> placed data e c xs \<and> placed data e (c + length xs) ys"
proof -
  have "take (length xs + length ys) (drop c data) = xs @ ys \<longleftrightarrow>
      take (length xs) (drop c data) = xs \<and> take (length ys) (drop (c + length xs) data) = ys"
  proof
    assume "take (length xs + length ys) (drop c data) = xs @ ys"
    then have "take (length xs) (take (length xs + length ys) (drop c data)) = xs"
      "drop (length xs) (take (length xs + length ys) (drop c data)) = ys" by simp_all
    then show "take (length xs) (drop c data) = xs \<and> take (length ys) (drop (c + length xs) data) = ys"
      by (simp add: drop_take add.commute)
  next
    assume "take (length xs) (drop c data) = xs \<and> take (length ys) (drop (c + length xs) data) = ys"
    then show "take (length xs + length ys) (drop c data) = xs @ ys"
      by (simp add: take_add add.commute)
  qed
  then show ?thesis by (auto simp: placed_def)
qed

lemma placed_Cons: "e \<le> length data \<Longrightarrow>
    placed data e c (x # xs) \<longleftrightarrow> c < e \<and> data ! c = x \<and> placed data e (Suc c) xs"
  by (cases "c < length data") (auto simp: placed_def Cons_nth_drop_Suc [symmetric] drop_Suc_Cons)

lemma placed_Nil [simp]: "placed data e c [] \<longleftrightarrow> c \<le> e"
  by (simp add: placed_def)

lemma placed_window: "c + n \<le> e \<Longrightarrow> e \<le> length data \<Longrightarrow> placed data e c (window data c (c + n))"
  by (simp add: placed_def window_def)

lemma placed_eq_window: "placed data e c bs \<Longrightarrow> bs = window data c (c + length bs)"
  by (simp add: placed_def window_def)

lemma placed_le: "placed data e c bs \<Longrightarrow> c + length bs \<le> e"
  by (simp add: placed_def)

lemma placed_whole: "e \<le> length data \<Longrightarrow> placed data e c bs \<and> c + length bs = e \<longleftrightarrow>
    c \<le> e \<and> window data c e = bs"
  by (auto simp: placed_def window_def)

subsection \<open>Readers and grammars\<close>

text \<open>
  \<open>accepts data e r G\<close>: from every cursor up to the end \<open>e\<close>, the reader \<open>r\<close> succeeds with \<open>x\<close>
  exactly when the bytes at the cursor are a word of the grammar \<open>G\<close> for \<open>x\<close>, and it stops
  behind that word.
\<close>

type_synonym ('e, 'a) reader = "nat \<Rightarrow> ('e, 'a \<times> nat) scan"

definition accepts :: "bytes \<Rightarrow> nat \<Rightarrow> ('e, 'a) reader \<Rightarrow> (bytes \<Rightarrow> 'a \<Rightarrow> bool) \<Rightarrow> bool" where
  "accepts data e r G \<longleftrightarrow> (\<forall>c x c'. c \<le> e \<longrightarrow>
     (r c = GO (x, c') \<longleftrightarrow> (\<exists>bs. G bs x \<and> placed data e c bs \<and> c' = c + length bs)))"

named_theorems accepts_intros "the grammar of a composed reader"

lemma acceptsD: "accepts data e r G \<Longrightarrow> c \<le> e \<Longrightarrow>
    r c = GO (x, c') \<longleftrightarrow> (\<exists>bs. G bs x \<and> placed data e c bs \<and> c' = c + length bs)"
  by (simp add: accepts_def)

lemma accepts_eq: "accepts data e r G \<Longrightarrow> (\<And>bs x. G bs x \<longleftrightarrow> G' bs x) \<Longrightarrow> accepts data e r G'"
  by (simp add: accepts_def)

lemma accepts_bind [accepts_intros]:
  assumes "accepts data e r G" and "\<And>x. accepts data e (k x) (H x)"
  shows "accepts data e (\<lambda>c. bindS (r c) (\<lambda>(x, c). k x c))
    (\<lambda>bs y. \<exists>b1 x b2. G b1 x \<and> H x b2 y \<and> bs = b1 @ b2)"
  unfolding accepts_def
proof (intro allI impI)
  fix c y c' assume c: "c \<le> e"
  have "bindS (r c) (\<lambda>(x, c). k x c) = GO (y, c') \<longleftrightarrow>
      (\<exists>x b1. G b1 x \<and> placed data e c b1 \<and> k x (c + length b1) = GO (y, c'))"
    by (auto simp: scan_simps acceptsD [OF assms(1) c])
  also have "\<dots> \<longleftrightarrow> (\<exists>x b1. G b1 x \<and> placed data e c b1 \<and>
      (\<exists>b2. H x b2 y \<and> placed data e (c + length b1) b2 \<and> c' = c + length b1 + length b2))"
    using acceptsD [OF assms(2) placed_le] by blast
  also have "\<dots> \<longleftrightarrow> (\<exists>x b1 b2. G b1 x \<and> H x b2 y \<and> placed data e c (b1 @ b2) \<and> c' = c + length (b1 @ b2))"
    unfolding placed_append length_append add.assoc by blast
  finally show "bindS (r c) (\<lambda>(x, c). k x c) = GO (y, c') \<longleftrightarrow>
      (\<exists>bs. (\<exists>b1 x b2. G b1 x \<and> H x b2 y \<and> bs = b1 @ b2) \<and> placed data e c bs \<and> c' = c + length bs)"
    by blast
qed

lemma accepts_GO [accepts_intros]: "accepts data e (\<lambda>c. GO (x, c)) (\<lambda>bs y. bs = [] \<and> y = x)"
  by (auto simp: accepts_def)

lemma accepts_need [accepts_intros]:
  "accepts data e r G \<Longrightarrow> accepts data e (\<lambda>c. bindS (need b x) (\<lambda>_. r c)) (\<lambda>bs y. b \<and> G bs y)"
  by (cases b) (auto simp: accepts_def need_def)

lemma accepts_stop_as [accepts_intros]:
  "accepts data e r G \<Longrightarrow> accepts data e (\<lambda>c. stop_as err (r c)) G"
  by (simp add: accepts_def scan_simps)

lemma accepts_check:
  assumes "m = GO () \<longleftrightarrow> b" and "accepts data e r G"
  shows "accepts data e (\<lambda>c. bindS (stop_as err m) (\<lambda>_. r c)) (\<lambda>bs y. b \<and> G bs y)"
  using assms by (cases m) (auto simp: accepts_def stop_as_def)

lemma accepts_octet:
  assumes "e \<le> length data" and "\<And>x. accepts data e (k x) (H x)"
  shows "accepts data e (\<lambda>c. bindS (need (\<not> c \<ge> e) err) (\<lambda>_. bindS (fetch data c) (\<lambda>x. k x (Suc c))))
    (\<lambda>bs y. \<exists>x b2. H x b2 y \<and> bs = x # b2)"
  unfolding accepts_def
proof (intro allI impI)
  fix c y c' assume "c \<le> e"
  have "bindS (need (\<not> c \<ge> e) err) (\<lambda>_. bindS (fetch data c) (\<lambda>x. k x (Suc c))) = GO (y, c') \<longleftrightarrow>
      c < e \<and> k (data ! c) (Suc c) = GO (y, c')"
    using assms(1) by (auto simp: scan_simps)
  also have "\<dots> \<longleftrightarrow> c < e \<and> (\<exists>b2. H (data ! c) b2 y \<and> placed data e (Suc c) b2 \<and> c' = Suc c + length b2)"
    by (auto simp: acceptsD [OF assms(2)])
  also have "\<dots> \<longleftrightarrow> (\<exists>bs. (\<exists>x b2. H x b2 y \<and> bs = x # b2) \<and> placed data e c bs \<and> c' = c + length bs)"
    by (simp add: ex_simps [symmetric] placed_Cons [OF assms(1)] del: ex_simps) (rule iffI; clarsimp; blast)
  finally show "bindS (need (\<not> c \<ge> e) err) (\<lambda>_. bindS (fetch data c) (\<lambda>x. k x (Suc c))) = GO (y, c') \<longleftrightarrow> \<dots>" .
qed

lemma accepts_u32: "e \<le> length data \<Longrightarrow> accepts data e (read_u32 data e) leb"
proof -
  assume e: "e \<le> length data"
  have "window data c e = L @ window data (c + length L) e \<and> c + length L \<le> e \<longleftrightarrow> placed data e c L" for c L
  proof (cases "c + length L \<le> e")
    case True
    then show ?thesis
      using window_append [of c "c + length L" e data] e by (auto simp: placed_def window_def)
  qed (simp add: placed_def)
  then show ?thesis
    unfolding accepts_def read_u32_iff [OF e] by auto
qed

text \<open>A number and as many bytes as it says.\<close>

lemma accepts_slice:
  assumes "e \<le> length data"
  shows "accepts data e (\<lambda>c. bindS (need (\<not> n > e - c) ()) (\<lambda>_. bindS (fetch_slice data c n) (\<lambda>xs. GO (xs, c + n))))
    (\<lambda>bs xs. bs = xs \<and> length xs = n)"
  using assms
  by (auto simp: accepts_def scan_simps not_less placed_window dest: placed_le placed_eq_window)

lemma accepts_name: "e \<le> length data \<Longrightarrow> accepts data e (read_name data e) g_counted"
  unfolding read_name_def [abs_def]
  by (rule accepts_eq, rule accepts_bind, rule accepts_u32, assumption, rule accepts_slice, assumption)
     (force simp: g_counted_def)

lemma read_func_type_by_names:
  "read_func_type wasm e c =
    bindS (need (\<not> c \<ge> e) ()) (\<lambda>_. bindS (fetch wasm c) (\<lambda>form. bindS (need (form = 0x60) ()) (\<lambda>_.
    bindS (read_name wasm e (Suc c)) (\<lambda>(params, c). bindS (read_name wasm e c) (\<lambda>(results, c).
    GO ((params, results), c))))))"
  unfolding read_func_type_def read_name_def
  by (auto simp: bindS_def split: scan.splits prod.splits)

lemma accepts_func_type:
  assumes "e \<le> length data" shows "accepts data e (read_func_type data e) g_func_type"
  unfolding read_func_type_by_names [abs_def]
  by (rule accepts_eq, rule accepts_octet [OF assms], rule accepts_need, rule accepts_bind,
      rule accepts_name [OF assms], rule accepts_bind, rule accepts_name [OF assms], rule accepts_GO)
     (force simp: g_func_type_def)

subsection \<open>Loops\<close>

text \<open>\<open>n\<close> words of \<open>entry\<close>, one behind the other.\<close>

definition g_entries :: "(bytes \<Rightarrow> 'x \<Rightarrow> bool) \<Rightarrow> nat \<Rightarrow> bytes \<Rightarrow> 'x list \<Rightarrow> bool" where
  "g_entries entry n bs xs \<longleftrightarrow> length xs = n \<and> (\<exists>bss. list_all2 entry bss xs \<and> bs = concat bss)"

lemma g_entries_0 [simp]: "g_entries entry 0 bs xs \<longleftrightarrow> xs = [] \<and> bs = []"
  by (auto simp: g_entries_def)

lemma g_entries_Suc: "g_entries entry (Suc n) bs xs \<longleftrightarrow>
    (\<exists>b1 x b2 ys. entry b1 x \<and> g_entries entry n b2 ys \<and> bs = b1 @ b2 \<and> xs = x # ys)"
proof
  assume "g_entries entry (Suc n) bs xs"
  then obtain bss where l: "length xs = Suc n" "list_all2 entry bss xs" "bs = concat bss"
    by (auto simp: g_entries_def)
  then obtain x ys b1 bss' where "xs = x # ys" "bss = b1 # bss'" "entry b1 x" "list_all2 entry bss' ys"
    by (auto simp: length_Suc_conv list_all2_Cons2)
  then show "\<exists>b1 x b2 ys. entry b1 x \<and> g_entries entry n b2 ys \<and> bs = b1 @ b2 \<and> xs = x # ys"
    using l by (auto simp: g_entries_def)
next
  assume "\<exists>b1 x b2 ys. entry b1 x \<and> g_entries entry n b2 ys \<and> bs = b1 @ b2 \<and> xs = x # ys"
  then obtain b1 x bss ys where "entry b1 x" "list_all2 entry bss ys" "length ys = n"
    "bs = concat (b1 # bss)" "xs = x # ys"
    by (auto simp: g_entries_def)
  then show "g_entries entry (Suc n) bs xs"
    unfolding g_entries_def by (intro conjI exI [of _ "b1 # bss"]) auto
qed

lemma g_vector_entries: "g_vector entry bs xs \<longleftrightarrow> (\<exists>L n b2. leb L n \<and> g_entries entry (unat n) b2 xs \<and> bs = L @ b2)"
  unfolding g_vector_def g_entries_def by metis

lemma type_loop_accepts:
  assumes e: "e \<le> length data" and "index \<le> type_index" and "c \<le> e"
  shows "type_loop data e count type_index capability cancel index c = GO () \<longleftrightarrow> type_index < count \<and>
    (\<exists>bs sigs. g_entries g_func_type (Suc (type_index - index)) bs sigs \<and>
      signature_matches capability cancel (last sigs) \<and> placed data e c bs)"
  using assms(2,3)
proof (induction "count - index" arbitrary: index c)
  case 0
  then show ?case by (simp add: type_loop.simps [of _ _ count])
next
  case (Suc m)
  then have index: "m = count - Suc index" "index < count" by simp_all
  note sig = acceptsD [OF accepts_func_type [OF e] Suc.prems(2)]
  show ?case
  proof (cases "index = type_index")
    case True
    then have "type_loop data e count type_index capability cancel index c = GO () \<longleftrightarrow>
        (\<exists>sig bs. g_func_type bs sig \<and> placed data e c bs \<and> signature_matches capability cancel sig)"
      using index(2) by (subst type_loop.simps) (auto simp: scan_simps sig)
    then show ?thesis using True index(2) by (force simp: g_entries_Suc)
  next
    case False
    with Suc.prems have next_index: "Suc index \<le> type_index"
      and len: "type_index - index = Suc (type_index - Suc index)" by simp_all
    have "type_loop data e count type_index capability cancel index c = GO () \<longleftrightarrow>
        (\<exists>sig bs. g_func_type bs sig \<and> placed data e c bs \<and>
          type_loop data e count type_index capability cancel (Suc index) (c + length bs) = GO ())"
      using index(2) False by (subst type_loop.simps) (auto simp: scan_simps sig)
    also have "\<dots> \<longleftrightarrow> type_index < count \<and> (\<exists>sig b1 b2 sigs. g_func_type b1 sig \<and>
        g_entries g_func_type (Suc (type_index - Suc index)) b2 sigs \<and>
        signature_matches capability cancel (last sigs) \<and> placed data e c (b1 @ b2))"
      using Suc.hyps(1) [OF index(1) next_index placed_le] unfolding placed_append by blast
    also have "\<dots> \<longleftrightarrow> type_index < count \<and> (\<exists>bs sigs. g_entries g_func_type (Suc (type_index - index)) bs sigs \<and>
        signature_matches capability cancel (last sigs) \<and> placed data e c bs)"
    proof -
      have "last (sig # sigs) = last sigs" if "g_entries g_func_type (Suc n) b sigs" for sig n b sigs
        using that by (auto simp: g_entries_def)
      then show ?thesis unfolding len g_entries_Suc [of _ "Suc _"] by metis
    qed
    finally show ?thesis .
  qed
qed

lemma export_loop_accepts:
  assumes e: "e \<le> length data" and "index \<le> count"
  shows "accepts data e (\<lambda>c. bindS (export_loop data e count index c) (\<lambda>c. GO ((), c)))
    (\<lambda>bs _. \<exists>names. g_entries g_export (count - index) bs names)"
  using assms(2)
proof (induction "count - index" arbitrary: index)
  case 0
  then have "index = count" by simp
  then show ?case by (auto simp: accepts_def export_loop.simps [of _ _ count count])
next
  case (Suc m)
  then have index: "m = count - Suc index" "index < count" "Suc index \<le> count"
    "count - index = Suc (count - Suc index)" by simp_all
  have step: "bindS (export_loop data e count index c) (\<lambda>c. GO ((), c)) =
       bindS (stop_as WASM_INVALID (read_name data e c)) (\<lambda>(name, cursor).
       bindS (need (\<not> dangerous_export name) WASM_UNSUPPORTED) (\<lambda>_.
       bindS (need (\<not> cursor \<ge> e) WASM_INVALID) (\<lambda>_.
       bindS (fetch data cursor) (\<lambda>kind.
       bindS (need (\<not> kind > 3) WASM_INVALID) (\<lambda>_.
       bindS (stop_as WASM_INVALID (read_u32 data e (Suc cursor))) (\<lambda>(target, cursor).
       bindS (export_loop data e count (Suc index) cursor) (\<lambda>c. GO ((), c))))))))" for c
    using index(2) by (subst export_loop.simps) (auto simp: bindS_def split: scan.splits prod.splits)
  show ?case unfolding step
    by (rule accepts_eq, rule accepts_bind, rule accepts_stop_as, rule accepts_name [OF e],
        rule accepts_need, rule accepts_octet [OF e], rule accepts_need, rule accepts_bind,
        rule accepts_stop_as, rule accepts_u32 [OF e], rule Suc.hyps(1) [OF index(1,3)])
       (fastforce simp: index(4) g_entries_Suc g_export_def not_less)
qed

lemma window_placed: "b \<le> e \<Longrightarrow> e \<le> length data \<Longrightarrow>
    (\<exists>rest. window data b e = bs @ rest) \<longleftrightarrow> placed data e b bs"
proof
  assume be: "b \<le> e" "e \<le> length data"
  show "\<exists>rest. window data b e = bs @ rest \<Longrightarrow> placed data e b bs"
    using window_split [OF _ be] placed_window [OF _ be(2)] by metis
  assume p: "placed data e b bs"
  have "window data b e = bs @ window data (b + length bs) e"
    using window_append [of b "b + length bs" e data] placed_le [OF p] placed_eq_window [OF p] by simp
  then show "\<exists>rest. window data b e = bs @ rest" by blast
qed

lemma import_type_matches_iff:
  assumes b: "b \<noteq> 0" "b \<le> e" "e \<le> length data"
  shows "import_type_matches data b e idx capability cancel = GO () \<longleftrightarrow>
    (\<exists>sig. g_type_at (window data b e) idx sig \<and> signature_matches capability cancel sig)"
proof -
  have "import_type_matches data b e idx capability cancel = GO () \<longleftrightarrow> (\<exists>L n. leb L n \<and> placed data e b L \<and> idx < n \<and>
      type_loop data e (unat n) (unat idx) capability cancel 0 (b + length L) = GO ())"
    using b by (auto simp: import_type_matches_def scan_simps acceptsD [OF accepts_u32] not_le)
  also have "\<dots> \<longleftrightarrow> (\<exists>L n bs sigs. leb L n \<and> idx < n \<and> g_entries g_func_type (Suc (unat idx)) bs sigs \<and>
      signature_matches capability cancel (last sigs) \<and> placed data e b (L @ bs))"
    using type_loop_accepts [OF b(3) le0 placed_le] unfolding placed_append
    by (auto simp: word_less_nat_alt) blast+
  also have "\<dots> \<longleftrightarrow> (\<exists>L n bs sigs rest. leb L n \<and> idx < n \<and> g_entries g_func_type (Suc (unat idx)) bs sigs \<and>
      signature_matches capability cancel (last sigs) \<and> window data b e = L @ bs @ rest)"
    unfolding window_placed [OF b(2,3), symmetric] append_assoc by blast
  also have "\<dots> \<longleftrightarrow> (\<exists>sig. g_type_at (window data b e) idx sig \<and> signature_matches capability cancel sig)"
    unfolding g_type_at_def g_entries_def by metis
  finally show ?thesis .
qed

definition g_import_entry :: "bytes \<Rightarrow> bytes \<times> u32 \<Rightarrow> bool" where
  "g_import_entry bs imp \<longleftrightarrow> (\<exists>M F T. g_counted M (str_bytes ''econtainer'') \<and> g_counted F (fst imp) \<and>
     leb T (snd imp) \<and> bs = M @ F @ [0] @ T)"

lemma accepts_import:
  assumes "e \<le> length data" shows "accepts data e (read_import data e) g_import_entry"
  unfolding read_import_def [abs_def]
  by (rule accepts_eq, rule accepts_bind, rule accepts_stop_as, rule accepts_name [OF assms],
      rule accepts_bind, rule accepts_stop_as, rule accepts_name [OF assms],
      rule accepts_octet [OF assms], rule accepts_need, rule accepts_bind, rule accepts_stop_as,
      rule accepts_u32 [OF assms], rule accepts_need, rule accepts_GO)
     (force simp: g_import_entry_def name_is_def)

subsection \<open>Host imports\<close>

fun host_bit :: "host_import \<Rightarrow> u32" where
  "host_bit HOST_TIMER_CANCEL = 8"
| "host_bit h = host_capability h"

definition capability_mask :: "host_import list \<Rightarrow> u32" where
  "capability_mask hs = fold (\<lambda>h m. m OR host_capability h) hs 0"

definition host_bits :: "host_import list \<Rightarrow> u32" where
  "host_bits hs = fold (\<lambda>h m. m OR host_bit h) hs 0"

lemmas cap_defs = CAP_MONOTONIC_TIME_def CAP_LOG_def CAP_TIMER_def

lemma of_char_byte_inject: "(of_char c :: byte) = of_char d \<longleftrightarrow> c = d"
proof -
  have unat: "unat (of_char c :: byte) = of_char c" for c
    using of_nat_of_char [of c, where ?'a = byte] nat_of_char_less_256 [of c] unat_of_nat [of "of_char c", where ?'a = 8]
    by simp
  show ?thesis by (metis unat of_char_eq_iff)
qed

lemma str_bytes_inject [simp]: "str_bytes s = str_bytes t \<longleftrightarrow> s = t"
  by (simp add: str_bytes_def inj_map_eq_map inj_def of_char_byte_inject)

lemma import_capability_host:
  "import_capability field \<noteq> 0 \<longleftrightarrow> (\<exists>h. field = str_bytes (host_name h))"
proof
  assume "import_capability field \<noteq> 0"
  then have "name_is field ''monotonic_ms'' \<or> name_is field ''log'' \<or> name_is field ''timer_start'' \<or>
      name_is field ''timer_cancel''"
    by (auto simp: import_capability_def split: if_splits)
  then show "\<exists>h. field = str_bytes (host_name h)"
    unfolding name_is_def by (metis host_name.simps)
next
  assume "\<exists>h. field = str_bytes (host_name h)"
  then obtain h where "field = str_bytes (host_name h)" by blast
  then show "import_capability field \<noteq> 0"
    by (cases h) (simp_all add: import_capability_def name_is_def cap_defs)
qed

lemma import_capability_name: "import_capability (str_bytes (host_name h)) = host_capability h"
  by (cases h) (simp_all add: import_capability_def name_is_def)

lemma timer_cancel_name: "name_is (str_bytes (host_name h)) ''timer_cancel'' \<longleftrightarrow> h = HOST_TIMER_CANCEL"
  by (cases h) (simp_all add: name_is_def)

lemma seen_bit_host: "(if h = HOST_TIMER_CANCEL then 8 else host_capability h) = host_bit h"
  by (cases h) simp_all

lemma length_eq_2: "length xs = 2 \<longleftrightarrow> (\<exists>a b. xs = [a, b])"
  by (auto elim: list2_cases)

lemma signature_matches_host:
  "signature_matches (host_capability h) (h = HOST_TIMER_CANCEL) sig \<longleftrightarrow> sig = host_signature h"
  by (cases h; cases sig)
     (auto simp: signature_matches_def cap_defs Let_def length_eq_2 length_Suc_conv)

lemma host_bits_member: "host_bits hs AND host_bit h = 0 \<longleftrightarrow> h \<notin> set hs"
proof (induction hs rule: rev_induct)
  case (snoc x hs)
  have "(m OR n) AND p = 0 \<longleftrightarrow> m AND p = 0 \<and> n AND p = 0" for m n p :: u32
    by (simp add: bit.conj_disj_distrib2 or_eq_0_iff)
  moreover have "host_bit x AND host_bit h = 0 \<longleftrightarrow> x \<noteq> h"
    by (cases x; cases h) (simp_all add: cap_defs)
  ultimately show ?case using snoc by (auto simp: host_bits_def)
qed (simp add: host_bits_def)

subsection \<open>The import section\<close>

text \<open>A section that was found, or the cursor 0 for a section that was not.\<close>

definition body_at :: "bytes \<Rightarrow> nat \<Rightarrow> nat \<Rightarrow> bytes option \<Rightarrow> bool" where
  "body_at data b e sec \<longleftrightarrow> (case sec of None \<Rightarrow> b = 0
     | Some body \<Rightarrow> b \<noteq> 0 \<and> b \<le> e \<and> e \<le> length data \<and> window data b e = body)"

abbreviation types_at :: "bytes \<Rightarrow> scan_state \<Rightarrow> bytes option \<Rightarrow> bool" where
  "types_at data st \<equiv> body_at data (scan_type_begin st) (scan_type_end st)"

abbreviation imports_at :: "bytes \<Rightarrow> scan_state \<Rightarrow> bytes option \<Rightarrow> bool" where
  "imports_at data st \<equiv> body_at data (scan_import_begin st) (scan_import_end st)"

lemma import_type_matches_types:
  assumes "types_at data st types"
  shows "import_type_matches data (scan_type_begin st) (scan_type_end st) idx (host_capability h)
      (h = HOST_TIMER_CANCEL) = GO () \<longleftrightarrow>
    (\<exists>body. types = Some body \<and> g_type_at body idx (host_signature h))"
proof (cases types)
  case None
  with assms show ?thesis by (simp add: body_at_def import_type_matches_def)
next
  case (Some body)
  with assms show ?thesis
    by (auto simp: body_at_def import_type_matches_iff signature_matches_host simp del: split_paired_Ex)
qed

lemma host_name_inject: "host_name h = host_name h' \<longleftrightarrow> h = h'"
  by (cases h; cases h') simp_all

lemma g_import_split: "g_import types bs h \<longleftrightarrow> (\<exists>idx body. g_import_entry bs (str_bytes (host_name h), idx) \<and>
    types = Some body \<and> g_type_at body idx (host_signature h))"
  unfolding g_import_def g_import_entry_def fst_conv snd_conv by metis

lemma import_loop_accepts:
  assumes st: "types_at data st types" "scan_import_end st \<le> length data" and "index \<le> count"
  shows "accepts data (scan_import_end st)
    (\<lambda>c. import_loop data st count index c (host_bits prev) (capability_mask prev))
    (\<lambda>bs caps. \<exists>hs. g_entries (g_import types) (count - index) bs hs \<and> distinct hs \<and>
      set hs \<inter> set prev = {} \<and> caps = capability_mask (prev @ hs))"
  using assms(3)
proof (induction "count - index" arbitrary: index prev)
  case 0
  then have "index = count" by simp
  then show ?case by (auto simp: accepts_def import_loop.simps [of _ _ count count])
next
  case (Suc m)
  then have index: "m = count - Suc index" "index < count" "Suc index \<le> count"
    "count - index = Suc (count - Suc index)" by simp_all
  let ?rest = "\<lambda>h bs caps. \<exists>hs. g_entries (g_import types) (count - Suc index) bs hs \<and> distinct hs \<and>
      set hs \<inter> set (prev @ [h]) = {} \<and> caps = capability_mask ((prev @ [h]) @ hs)"
  let ?k = "\<lambda>(imp :: bytes \<times> u32) c. case imp of (field, type_index) \<Rightarrow>
       let capability = import_capability field;
           is_timer_cancel = name_is field ''timer_cancel'';
           seen_bit = (if is_timer_cancel then 8 else capability) in
       bindS (need (\<not> (capability = 0 \<or> host_bits prev AND seen_bit \<noteq> 0)) WASM_UNSUPPORTED) (\<lambda>_.
       bindS (stop_as WASM_UNSUPPORTED (import_type_matches data (scan_type_begin st) (scan_type_end st)
                type_index capability is_timer_cancel)) (\<lambda>_.
       import_loop data st count (Suc index) c (host_bits prev OR seen_bit)
         (capability_mask prev OR capability)))"
  let ?H = "\<lambda>imp bs caps. \<exists>h body. fst imp = str_bytes (host_name h) \<and> h \<notin> set prev \<and> types = Some body \<and>
      g_type_at body (snd imp) (host_signature h) \<and> ?rest h bs caps"
  have k: "accepts data (scan_import_end st) (?k imp) (?H imp)" for imp
  proof (cases "\<exists>h. fst imp = str_bytes (host_name h)")
    case False
    then have "import_capability (fst imp) = 0" using import_capability_host by blast
    with False show ?thesis
      by (cases imp) (auto simp: accepts_def scan_simps Let_def)
  next
    case True
    then obtain h where h: "fst imp = str_bytes (host_name h)" by blast
    have bits: "host_bits (prev @ [h]) = host_bits prev OR host_bit h"
      "capability_mask (prev @ [h]) = capability_mask prev OR host_capability h"
      by (simp_all add: host_bits_def capability_mask_def)
    have cap: "host_capability h \<noteq> 0" by (cases h) (simp_all add: cap_defs)
    have run: "?k imp c = bindS (need (h \<notin> set prev) WASM_UNSUPPORTED) (\<lambda>_.
       bindS (stop_as WASM_UNSUPPORTED (import_type_matches data (scan_type_begin st) (scan_type_end st)
                (snd imp) (host_capability h) (h = HOST_TIMER_CANCEL))) (\<lambda>_.
       import_loop data st count (Suc index) c (host_bits (prev @ [h])) (capability_mask (prev @ [h]))))" for c
      using h cap import_capability_name [of h] timer_cancel_name [of h]
      unfolding bits host_bits_member [symmetric]
      by (cases imp; cases h) (simp_all add: Let_def)
    have "accepts data (scan_import_end st) (\<lambda>c. ?k imp c)
       (\<lambda>bs caps. h \<notin> set prev \<and> (\<exists>body. types = Some body \<and> g_type_at body (snd imp) (host_signature h)) \<and>
          ?rest h bs caps)"
      unfolding run
      by (intro accepts_need accepts_check import_type_matches_types [OF st(1)] Suc.hyps(1) [OF index(1,3)])
    then show ?thesis
      by (rule accepts_eq) (auto simp: h host_name_inject)
  qed
  have step: "import_loop data st count index c (host_bits prev) (capability_mask prev) =
      bindS (read_import data (scan_import_end st) c) (\<lambda>(imp, c). ?k imp c)" for c
    using index(2) by (subst import_loop.simps) (simp add: case_prod_unfold)
  show ?case unfolding step
  proof (rule accepts_eq, rule accepts_bind, rule accepts_import [OF st(2)], rule k)
    fix bs caps
    show "(\<exists>b1 imp b2. g_import_entry b1 imp \<and> ?H imp b2 caps \<and> bs = b1 @ b2) \<longleftrightarrow>
      (\<exists>hs. g_entries (g_import types) (count - index) bs hs \<and> distinct hs \<and> set hs \<inter> set prev = {} \<and>
        caps = capability_mask (prev @ hs))"
      unfolding index(4) g_entries_Suc g_import_split by (auto; fastforce)
  qed
qed

lemma accepts_whole:
  assumes "accepts data e r G" and "c \<le> e" and "e \<le> length data"
  shows "r c = GO (x, e) \<longleftrightarrow> G (window data c e) x"
  unfolding acceptsD [OF assms(1,2)] using placed_whole [OF assms(3), of c] assms(2) by metis

lemma UNIV_host_import: "UNIV = {HOST_MONOTONIC_MS, HOST_LOG, HOST_TIMER_START, HOST_TIMER_CANCEL}"
  using host_import.exhaust by blast

lemma distinct_host_imports: "distinct (hs :: host_import list) \<Longrightarrow> length hs \<le> 4"
proof -
  have "finite (UNIV :: host_import set)" by (subst UNIV_host_import) simp
  moreover have "card (UNIV :: host_import set) \<le> 4" by (subst UNIV_host_import) (simp add: card_insert_if)
  ultimately show "distinct hs \<Longrightarrow> length hs \<le> 4"
    using card_mono [of UNIV "set hs"] by (simp add: distinct_card)
qed

lemma scan_imports_iff:
  assumes types: "types_at data st types" and found: "imports_at data st (Some body)"
  shows "scan_imports data st = GO caps \<longleftrightarrow>
    (\<exists>hs. g_vector (g_import types) body hs \<and> distinct hs \<and> caps = capability_mask hs)"
proof -
  let ?e = "scan_import_end st" let ?c = "scan_import_begin st"
  have im: "?c \<noteq> 0" "?c \<le> ?e" "?e \<le> length data" "window data ?c ?e = body"
    using found by (simp_all add: body_at_def)
  let ?r = "\<lambda>c. bindS (stop_as WASM_INVALID (read_u32 data ?e c)) (\<lambda>(count, c).
    bindS (need (\<not> count > 4) WASM_UNSUPPORTED) (\<lambda>_.
    import_loop data st (unat count) 0 c (host_bits []) (capability_mask [])))"
  have "scan_imports data st = GO caps \<longleftrightarrow> ?r ?c = GO (caps, ?e)"
    using im(1) by (auto simp: scan_imports_def scan_simps host_bits_def capability_mask_def)
  also have "\<dots> \<longleftrightarrow> (\<exists>L n b2. leb L n \<and> (\<not> n > 4 \<and> (\<exists>hs. g_entries (g_import types) (unat n - 0) b2 hs \<and>
      distinct hs \<and> set hs \<inter> set [] = {} \<and> caps = capability_mask ([] @ hs))) \<and> body = L @ b2)"
    unfolding im(4) [symmetric]
    by (rule accepts_whole [OF _ im(2,3)]) (intro accepts_bind accepts_stop_as accepts_u32 im(3)
        accepts_need import_loop_accepts [OF types im(3)] le0)
  also have "\<dots> \<longleftrightarrow> (\<exists>L n b2 hs. leb L n \<and> g_entries (g_import types) (unat n) b2 hs \<and>
      distinct hs \<and> caps = capability_mask hs \<and> body = L @ b2)"
  proof -
    have "\<not> n > 4" if "g_entries (g_import types) (unat n) b2 hs" "distinct hs" for n :: u32 and b2 hs
      using distinct_host_imports [OF that(2)] that(1) by (auto simp: g_entries_def word_less_nat_alt)
    then show ?thesis by simp blast
  qed
  also have "\<dots> \<longleftrightarrow> (\<exists>hs. g_vector (g_import types) body hs \<and> distinct hs \<and> caps = capability_mask hs)"
    unfolding g_vector_entries by blast
  finally show ?thesis .
qed

lemma scan_exports_iff:
  assumes ce: "c \<le> e" "e \<le> length data"
  shows "scan_exports data e c = GO () \<longleftrightarrow> (\<exists>names. g_vector g_export (window data c e) names)"
proof -
  let ?r = "\<lambda>c. bindS (stop_as WASM_INVALID (read_u32 data e c)) (\<lambda>(count, c).
    bindS (export_loop data e (unat count) 0 c) (\<lambda>c. GO ((), c)))"
  have "scan_exports data e c = GO () \<longleftrightarrow> ?r c = GO ((), e)"
    by (auto simp: scan_exports_def scan_simps)
  also have "\<dots> \<longleftrightarrow> (\<exists>L n b2. leb L n \<and> (\<exists>names. g_entries g_export (unat n - 0) b2 names) \<and>
      window data c e = L @ b2)"
    by (rule accepts_whole [OF _ ce]) (intro accepts_bind accepts_stop_as accepts_u32 ce(2)
        export_loop_accepts le0)
  finally show ?thesis unfolding g_vector_entries by auto
qed

subsection \<open>The sections\<close>

fun sections_from :: "bytes \<Rightarrow> nat \<Rightarrow> (byte \<times> bytes) list \<Rightarrow> bool" where
  "sections_from data c [] \<longleftrightarrow> c = length data"
| "sections_from data c (sec # secs) \<longleftrightarrow> (\<exists>bs. g_section bs sec \<and> placed data (length data) c bs \<and>
     sections_from data (c + length bs) secs)"

lemma sections_from_iff: "c \<le> length data \<Longrightarrow>
    sections_from data c secs \<longleftrightarrow> (\<exists>bss. drop c data = concat bss \<and> list_all2 g_section bss secs)"
proof (induction secs arbitrary: c)
  case (Cons sec secs)
  have "sections_from data c (sec # secs) \<longleftrightarrow> (\<exists>bs. g_section bs sec \<and> placed data (length data) c bs \<and>
      (\<exists>bss. drop (c + length bs) data = concat bss \<and> list_all2 g_section bss secs))"
  proof -
    have "sections_from data (c + length bs) secs \<longleftrightarrow>
        (\<exists>bss. drop (c + length bs) data = concat bss \<and> list_all2 g_section bss secs)"
      if "placed data (length data) c bs" for bs
      using Cons.IH placed_le [OF that] by blast
    then show ?thesis unfolding sections_from.simps by blast
  qed
  also have "\<dots> \<longleftrightarrow> (\<exists>bs bss. g_section bs sec \<and> list_all2 g_section bss secs \<and> drop c data = bs @ concat bss)"
  proof -
    have "placed data (length data) c bs \<and> drop (c + length bs) data = ys \<longleftrightarrow> drop c data = bs @ ys" for bs ys
    proof
      assume "placed data (length data) c bs \<and> drop (c + length bs) data = ys"
      then have "take (length bs) (drop c data) = bs" "drop (length bs) (drop c data) = ys"
        by (simp_all add: placed_def add.commute)
      then show "drop c data = bs @ ys" by (metis append_take_drop_id)
    next
      assume split: "drop c data = bs @ ys"
      then have "length data - c = length bs + length ys" by (metis length_append length_drop)
      moreover from split have "take (length bs) (drop c data) = bs" "drop (length bs) (drop c data) = ys"
        by simp_all
      ultimately show "placed data (length data) c bs \<and> drop (c + length bs) data = ys"
        using Cons.prems by (auto simp: placed_def add.commute)
    qed
    then show ?thesis by blast
  qed
  also have "\<dots> \<longleftrightarrow> (\<exists>bss. drop c data = concat bss \<and> list_all2 g_section bss (sec # secs))"
    unfolding list_all2_Cons2 by (metis concat.simps(2))
  finally show ?case .
qed auto

lemma section_header_iff:
  assumes "c < length data"
  shows "section_header data c = GO (section, b, e) \<longleftrightarrow> b \<le> e \<and> e \<le> length data \<and> c < b \<and>
    (\<exists>bs. g_section bs (section, window data b e) \<and> placed data (length data) c bs \<and> e = c + length bs)"
proof -
  let ?n = "length data"
  have "section_header data c = GO (section, b, e) \<longleftrightarrow> section = data ! c \<and> (\<exists>L v. leb L v \<and>
      placed data ?n (Suc c) L \<and> unat v \<le> ?n - b \<and> b = Suc c + length L \<and> e = b + unat v)"
    using assms by (auto simp: section_header_def scan_simps acceptsD [OF accepts_u32] not_less)
  also have "\<dots> \<longleftrightarrow> b \<le> e \<and> e \<le> ?n \<and> c < b \<and> section = data ! c \<and> (\<exists>L v. leb L v \<and> unat v = length (window data b e) \<and>
      placed data ?n (Suc c) (L @ window data b e) \<and> e = Suc c + length L + length (window data b e))"
    (is "?lhs \<longleftrightarrow> ?rhs")
  proof
    assume ?lhs
    then obtain L v where L: "section = data ! c" "leb L v" "placed data ?n (Suc c) L" "unat v \<le> ?n - b"
      "b = Suc c + length L" "e = b + unat v" by blast
    then have "e \<le> ?n" "b \<le> ?n" using placed_le [OF L(3)] by simp_all
    then show ?rhs using L placed_window [of b "unat v" ?n data] by (auto simp: placed_append)
  next
    assume ?rhs
    then obtain L v where L: "b \<le> e" "e \<le> ?n" "c < b" "section = data ! c" "leb L v" "unat v = e - b"
      "placed data ?n (Suc c) L" "e = Suc c + length L + (e - b)"
      by (auto simp: placed_append simp del: add_diff_assoc)
    then have "b = Suc c + length L" "unat v \<le> ?n - b" "e = b + unat v" by simp_all
    then show ?lhs using L(4,5,7) by blast
  qed
  also have "\<dots> \<longleftrightarrow> b \<le> e \<and> e \<le> length data \<and> c < b \<and>
      (\<exists>bs. g_section bs (section, window data b e) \<and> placed data ?n c bs \<and> e = c + length bs)"
  proof -
    let ?w = "window data b e"
    have "placed data ?n c (section # L @ ?w) \<longleftrightarrow> section = data ! c \<and> placed data ?n (Suc c) (L @ ?w)" for L
      using assms by (auto simp: placed_Cons)
    moreover have "c + length (section # L @ ?w) = Suc c + length L + length ?w" for L by simp
    moreover have "(\<exists>bs. g_section bs (section, ?w) \<and> placed data ?n c bs \<and> e = c + length bs) \<longleftrightarrow>
        (\<exists>L v. leb L v \<and> unat v = length ?w \<and> placed data ?n c (section # L @ ?w) \<and>
           e = c + length (section # L @ ?w))"
      unfolding g_section_def g_counted_def fst_conv snd_conv by blast
    ultimately show ?thesis by metis
  qed
  finally show ?thesis .
qed

text \<open>The checks of one section, after a section numbered \<open>last_id\<close>, and of all of them.\<close>

definition section_ok :: "byte \<Rightarrow> byte \<times> bytes \<Rightarrow> bool" where
  "section_ok last_id sec \<longleftrightarrow> fst sec \<le> 12 \<and> fst sec \<noteq> 8 \<and> (fst sec \<noteq> 0 \<longrightarrow> last_id < fst sec) \<and>
     (fst sec = 7 \<longrightarrow> (\<exists>names. g_vector g_export (snd sec) names))"

fun sections_ok :: "byte \<Rightarrow> (byte \<times> bytes) list \<Rightarrow> bool" where
  "sections_ok last_id [] = True"
| "sections_ok last_id (sec # secs) \<longleftrightarrow> section_ok last_id sec \<and>
     sections_ok (if fst sec \<noteq> 0 then fst sec else last_id) secs"

lemma sections_ok_order: "sections_ok last_id secs \<longleftrightarrow>
    sorted_wrt (<) (last_id # filter (\<lambda>i. i \<noteq> 0) (map fst secs)) \<and>
    list_all (\<lambda>(i, body). i \<le> 12 \<and> i \<noteq> 8) secs \<and>
    (\<forall>body. (7, body) \<in> set secs \<longrightarrow> (\<exists>names. g_vector g_export body names))"
proof (induction secs arbitrary: last_id)
  case (Cons sec secs)
  have "(\<forall>i \<in> set (filter (\<lambda>i. i \<noteq> 0) (map fst secs)). fst sec < i) \<Longrightarrow> last_id < fst sec \<Longrightarrow>
      (\<forall>i \<in> set (filter (\<lambda>i. i \<noteq> 0) (map fst secs)). last_id < i)"
    by (meson less_trans)
  then show ?case
    unfolding sections_ok.simps Cons.IH
    by (cases sec; cases "fst sec = 0") (auto simp: section_ok_def)
qed simp

lemma module_order: "section_order secs \<and> (\<forall>body. (7, body) \<in> set secs \<longrightarrow> (\<exists>names. g_vector g_export body names))
    \<longleftrightarrow> sections_ok 0 secs"
  by (auto simp: sections_ok_order section_order_def word_neq_0_conv)

text \<open>What the state of the section loop says about the sections it has passed.\<close>

definition passed :: "bytes \<Rightarrow> scan_state \<Rightarrow> (byte \<times> bytes) list \<Rightarrow> bool" where
  "passed data st prev \<longleftrightarrow> types_at data st (map_of prev 1) \<and> imports_at data st (map_of prev 2) \<and>
     (\<forall>i \<in> fst ` set prev. i \<le> scan_last_section st)"

lemma note_section_iff:
  assumes st: "passed data st prev" and b: "0 < b" "b \<le> e" "e \<le> length data"
  shows "(\<exists>st'. note_section section b e st = GO st') \<longleftrightarrow>
      section \<le> 12 \<and> section \<noteq> 8 \<and> (section \<noteq> 0 \<longrightarrow> scan_last_section st < section)"
    and "note_section section b e st = GO st' \<Longrightarrow> passed data st' (prev @ [(section, window data b e)]) \<and>
      scan_last_section st' = (if section \<noteq> 0 then section else scan_last_section st)"
proof -
  show "(\<exists>st'. note_section section b e st = GO st') \<longleftrightarrow>
      section \<le> 12 \<and> section \<noteq> 8 \<and> (section \<noteq> 0 \<longrightarrow> scan_last_section st < section)"
    by (auto simp: note_section_def scan_simps Let_def not_le)
  assume run: "note_section section b e st = GO st'"
  then have new: "section \<noteq> 0 \<Longrightarrow> scan_last_section st < section"
    by (auto simp: note_section_def scan_simps not_le split: if_splits)
  have fresh: "section \<noteq> 0 \<Longrightarrow> map_of prev section = None"
    using new st by (force simp: passed_def map_of_eq_None_iff)
  show "passed data st' (prev @ [(section, window data b e)]) \<and>
      scan_last_section st' = (if section \<noteq> 0 then section else scan_last_section st)"
    using run st b new fresh
    by (auto simp: note_section_def scan_simps Let_def passed_def body_at_def map_add_def
        split: if_splits option.splits)
qed

lemma section_loop_sound:
  "section_loop data c st = GO st' \<Longrightarrow> passed data st prev \<Longrightarrow> c \<le> length data \<Longrightarrow>
    \<exists>secs. sections_from data c secs \<and> sections_ok (scan_last_section st) secs \<and> passed data st' (prev @ secs)"
proof (induction "length data - c" arbitrary: c st prev rule: less_induct)
  case less
  show ?case
  proof (cases "c < length data")
    case False
    with less.prems show ?thesis
      by (intro exI [of _ "[]"]) (auto simp: section_loop.simps [of data c])
  next
    case True
    from less.prems(1) True obtain num b e st1 where
      hdr: "section_header data c = GO (num, b, e)" and note1: "note_section num b e st = GO st1"
      and exp: "num = 7 \<longrightarrow> scan_exports data e b = GO ()" and rest: "section_loop data e st1 = GO st'"
      by (subst (asm) section_loop.simps) (auto simp: scan_simps split: if_splits)
    from hdr obtain bs where bs: "b \<le> e" "e \<le> length data" "c < b"
      "g_section bs (num, window data b e)" "placed data (length data) c bs" "e = c + length bs"
      by (auto simp: section_header_iff [OF True])
    have b0: "0 < b" using bs(3) by simp
    note step = note_section_iff [OF less.prems(2) b0 bs(1,2), of num]
    have "length data - e < length data - c" using bs(1,3) True by simp
    from less.hyps [OF this rest conjunct1 [OF step(2) [OF note1]] bs(2)]
    obtain secs where secs: "sections_from data e secs" "sections_ok (scan_last_section st1) secs"
      "passed data st' ((prev @ [(num, window data b e)]) @ secs)" by blast
    have "section_ok (scan_last_section st) (num, window data b e)"
      using step(1) note1 exp scan_exports_iff [OF bs(1,2)] unfolding section_ok_def by auto
    then show ?thesis
      using secs bs step(2) [OF note1]
      by (intro exI [of _ "(num, window data b e) # secs"]) (auto simp: section_ok_def)
  qed
qed

lemma section_header_at:
  assumes sec: "g_section bs (num, body)" and at: "placed data (length data) c bs"
  defines "e \<equiv> c + length bs" and "b \<equiv> c + length bs - length body"
  shows "section_header data c = GO (num, b, e)" and "window data b e = body"
    and "0 < b" and "b \<le> e" and "e \<le> length data" and "c < length data"
proof -
  from sec obtain L where L: "bs = num # L @ body" by (auto simp: g_section_def g_counted_def)
  then show be: "b \<le> e" "e \<le> length data" "0 < b" and c: "c < length data"
    using placed_le [OF at] by (simp_all add: e_def b_def)
  show body: "window data b e = body"
    using placed_eq_window [of data "length data" "c + Suc (length L)" body] at L
      placed_append [of data "length data" c "num # L" body]
    by (simp add: e_def b_def add.assoc)
  have "c < b" using L by (simp add: b_def)
  then show "section_header data c = GO (num, b, e)"
    unfolding section_header_iff [OF c] using be sec at body by (auto simp: e_def)
qed

lemma section_loop_complete:
  "sections_from data c secs \<Longrightarrow> sections_ok (scan_last_section st) secs \<Longrightarrow> passed data st prev \<Longrightarrow>
    \<exists>st'. section_loop data c st = GO st' \<and> passed data st' (prev @ secs)"
proof (induction secs arbitrary: c st prev)
  case Nil
  then show ?case by (simp add: section_loop.simps)
next
  case (Cons sec secs)
  obtain num body where sec: "sec = (num, body)" by fastforce
  from Cons.prems(1) sec obtain bs where bs: "g_section bs (num, body)"
    "placed data (length data) c bs" "sections_from data (c + length bs) secs" by auto
  let ?e = "c + length bs" let ?b = "?e - length body"
  note hdr = section_header_at [OF bs(1,2)]
  have ok: "section_ok (scan_last_section st) (num, body)" using Cons.prems(2) sec by simp
  note step = note_section_iff [OF Cons.prems(3) hdr(3,4,5), of num, unfolded hdr(2)]
  obtain st1 where st1: "note_section num ?b ?e st = GO st1"
    using step(1) ok by (auto simp: section_ok_def)
  have "num = 7 \<longrightarrow> scan_exports data ?e ?b = GO ()"
    using ok hdr(2) scan_exports_iff [OF hdr(4,5)] by (auto simp: section_ok_def)
  then have run: "section_loop data c st = section_loop data ?e st1"
    using hdr(1,6) st1 by (subst section_loop.simps) (auto simp: stop_as_def)
  have "sections_ok (scan_last_section st1) secs"
    using Cons.prems(2) sec step(2) [OF st1] by auto
  from Cons.IH [OF bs(3) this conjunct1 [OF step(2) [OF st1]]] show ?case
    by (simp add: run sec)
qed

lemma scan_module_iff:
  "scan_module (Some wasm) = GO caps \<longleftrightarrow>
    (\<exists>secs hs. g_module wasm secs hs \<and> caps = capability_mask hs)"
proof -
  let ?h = "length wasm_header"
  let ?part = "\<lambda>secs. \<exists>hs. (case map_of secs 2 of None \<Rightarrow> hs = []
      | Some body \<Rightarrow> g_vector (g_import (map_of secs 1)) body hs \<and> distinct hs) \<and> caps = capability_mask hs"
  have start: "passed wasm initial_scan []" "scan_last_section initial_scan = 0"
    by (simp_all add: passed_def initial_scan_def body_at_def)
  have import_part: "scan_imports wasm st = GO caps \<longleftrightarrow> (\<exists>hs. (case map_of secs 2 of None \<Rightarrow> hs = []
      | Some body \<Rightarrow> g_vector (g_import (map_of secs 1)) body hs \<and> distinct hs) \<and> caps = capability_mask hs)"
    if st: "passed wasm st secs" for st secs
  proof (cases "map_of secs 2")
    case None
    then have "scan_import_begin st = 0" using st by (simp add: passed_def body_at_def)
    then show ?thesis using None by (auto simp: scan_imports_def capability_mask_def)
  next
    case (Some body)
    then show ?thesis using st scan_imports_iff [of wasm st "map_of secs 1" body] by (auto simp: passed_def)
  qed
  have hdr: "\<not> length wasm < ?h \<and> fetch_slice wasm 0 ?h = GO wasm_header \<longleftrightarrow>
      wasm = wasm_header @ drop ?h wasm"
  proof -
    have "\<not> length wasm < ?h \<and> wasm_header = take ?h wasm \<longleftrightarrow> wasm = wasm_header @ drop ?h wasm"
      by (metis append_eq_conv_conj append_take_drop_id length_append le_add1 not_less)
    then show ?thesis by (auto simp: scan_simps window_def not_less)
  qed
  have "scan_module (Some wasm) = GO caps \<longleftrightarrow> wasm = wasm_header @ drop ?h wasm \<and>
      (\<exists>st. section_loop wasm ?h initial_scan = GO st \<and> scan_imports wasm st = GO caps)"
  proof -
    have "scan_module (Some wasm) = GO caps \<longleftrightarrow> (\<not> length wasm < ?h \<and> fetch_slice wasm 0 ?h = GO wasm_header) \<and>
        (\<exists>st. section_loop wasm ?h initial_scan = GO st \<and> scan_imports wasm st = GO caps)"
      by (auto simp: scan_module_def scan_simps)
    then show ?thesis unfolding hdr .
  qed
  also have "\<dots> \<longleftrightarrow> wasm = wasm_header @ drop ?h wasm \<and> (\<exists>secs hs. sections_from wasm ?h secs \<and> sections_ok 0 secs \<and>
      (case map_of secs 2 of None \<Rightarrow> hs = []
        | Some body \<Rightarrow> g_vector (g_import (map_of secs 1)) body hs \<and> distinct hs) \<and> caps = capability_mask hs)"
  proof (rule conj_cong [OF refl])
    assume w: "wasm = wasm_header @ drop ?h wasm"
    then have le: "?h \<le> length wasm" by (metis le_add1 length_append)
    note sound = section_loop_sound [OF _ start(1) le, unfolded start(2) append_Nil]
    note complete = section_loop_complete [OF _ _ start(1), unfolded start(2) append_Nil]
    have "(\<exists>st. section_loop wasm ?h initial_scan = GO st \<and> scan_imports wasm st = GO caps) \<longleftrightarrow>
      (\<exists>secs st. sections_from wasm ?h secs \<and> sections_ok 0 secs \<and> passed wasm st secs \<and>
        section_loop wasm ?h initial_scan = GO st \<and> scan_imports wasm st = GO caps)"
      using sound by blast
    also have "\<dots> \<longleftrightarrow> (\<exists>secs. sections_from wasm ?h secs \<and> sections_ok 0 secs \<and> ?part secs)"
    proof (intro ex_cong1 iffI)
      fix secs
      show "\<exists>st. sections_from wasm ?h secs \<and> sections_ok 0 secs \<and> passed wasm st secs \<and>
          section_loop wasm ?h initial_scan = GO st \<and> scan_imports wasm st = GO caps \<Longrightarrow>
        sections_from wasm ?h secs \<and> sections_ok 0 secs \<and> ?part secs"
        using import_part by blast
      assume secs: "sections_from wasm ?h secs \<and> sections_ok 0 secs \<and> ?part secs"
      with complete obtain st where "section_loop wasm ?h initial_scan = GO st" "passed wasm st secs" by blast
      then show "\<exists>st. sections_from wasm ?h secs \<and> sections_ok 0 secs \<and> passed wasm st secs \<and>
          section_loop wasm ?h initial_scan = GO st \<and> scan_imports wasm st = GO caps"
        using secs import_part by blast
    qed
    finally show "(\<exists>st. section_loop wasm ?h initial_scan = GO st \<and> scan_imports wasm st = GO caps) \<longleftrightarrow>
      (\<exists>secs hs. sections_from wasm ?h secs \<and> sections_ok 0 secs \<and>
      (case map_of secs 2 of None \<Rightarrow> hs = []
        | Some body \<Rightarrow> g_vector (g_import (map_of secs 1)) body hs \<and> distinct hs) \<and> caps = capability_mask hs)"
      by blast
  qed
  also have "\<dots> \<longleftrightarrow> (\<exists>secs hs. g_module wasm secs hs \<and> caps = capability_mask hs)"
  proof -
    have "wasm = wasm_header @ drop ?h wasm \<and> sections_from wasm ?h secs \<longleftrightarrow>
        (\<exists>bss. wasm = wasm_header @ concat bss \<and> list_all2 g_section bss secs)" for secs
      by (metis sections_from_iff append_eq_conv_conj le_add1 length_append)
    then show ?thesis unfolding g_module_def module_order [symmetric] by metis
  qed
  finally show ?thesis .
qed

subsection \<open>A stopped scan has an error\<close>

lemma bindS_STOP: "bindS m f = STOP e \<longleftrightarrow> m = STOP e \<or> (\<exists>x. m = GO x \<and> f x = STOP e)"
  by (cases m) simp_all

lemma stop_as_STOP: "stop_as f m = STOP e \<longleftrightarrow> e = f \<and> (\<exists>e'. m = STOP e')"
  by (cases m) (auto simp: stop_as_def)

lemma need_STOP: "need b f = STOP e \<longleftrightarrow> \<not> b \<and> e = f"
  by (auto simp: need_def)

lemma fetch_STOP: "fetch data i \<noteq> STOP e" "fetch_slice data i n \<noteq> STOP e"
  by (simp_all add: fetch_def fetch_slice_def)

lemmas stop_simps = bindS_STOP stop_as_STOP need_STOP fetch_STOP

lemma export_loop_stop: "export_loop data e count index c \<noteq> STOP WASM_OK"
proof (induction "count - index" arbitrary: index c)
  case (Suc m)
  then have "m = count - Suc index" "index < count" by simp_all
  with Suc show ?case by (subst export_loop.simps) (auto simp: stop_simps)
qed (simp add: export_loop.simps)

lemma import_loop_stop: "import_loop data st count index c seen caps \<noteq> STOP WASM_OK"
proof (induction "count - index" arbitrary: index c seen caps)
  case (Suc m)
  then have "m = count - Suc index" "index < count" by simp_all
  with Suc show ?case by (subst import_loop.simps) (auto simp: stop_simps Let_def read_import_def)
qed (simp add: import_loop.simps)

lemma section_loop_stop: "section_loop data c st \<noteq> STOP WASM_OK"
proof (induction "length data - c" arbitrary: c st rule: less_induct)
  case less
  have "length data - e < length data - c" if "section_header data c = GO (num, b, e)" for num b e
    using section_header_advances [OF that] by (intro diff_less_mono2) auto
  with less show ?case
    by (subst section_loop.simps)
       (auto simp: stop_simps stop_as_iff note_section_def scan_exports_def export_loop_stop Let_def)
qed

lemma scan_module_stop: "scan_module wasm \<noteq> STOP WASM_OK"
  by (auto simp: scan_module_def scan_imports_def stop_simps section_loop_stop import_loop_stop
      split: option.splits)

lemma wasm_check_OK: "wasm_check wasm = GO WASM_OK \<longleftrightarrow> (\<exists>caps. scan_module wasm = GO caps)"
  using scan_module_stop [of wasm] by (auto simp: wasm_check_def split: scan.splits)

subsection \<open>The memory section\<close>

definition g_memory :: "bytes \<Rightarrow> u32 \<times> u32 \<Rightarrow> bool" where
  "g_memory body lim \<longleftrightarrow> (\<exists>C F L H. leb C 1 \<and> leb F 1 \<and> leb L (fst lim) \<and> leb H (snd lim) \<and>
     body = C @ F @ L @ H)"

definition memory_ok :: "u32 \<Rightarrow> bytes \<Rightarrow> bool" where
  "memory_ok pages body \<longleftrightarrow> (\<exists>lo hi. g_memory body (lo, hi) \<and> 0 < lo \<and> lo \<le> hi \<and> hi \<le> pages)"

lemma memory_limits_iff:
  assumes ce: "c \<le> e" "e \<le> length data"
  shows "memory_limits_ok data e c pages = GO () \<longleftrightarrow> memory_ok pages (window data c e)"
proof -
  let ?r = "\<lambda>c. bindS (read_u32 data e c) (\<lambda>(count, c). bindS (need (count = 1) ()) (\<lambda>_.
    bindS (read_u32 data e c) (\<lambda>(flags, c). bindS (need (flags = 1) ()) (\<lambda>_.
    bindS (read_u32 data e c) (\<lambda>(lo, c). bindS (need (lo > 0) ()) (\<lambda>_.
    bindS (read_u32 data e c) (\<lambda>(hi, c). bindS (need (lo \<le> hi \<and> hi \<le> pages) ()) (\<lambda>_. GO ((), c)))))))))"
  have "memory_limits_ok data e c pages = GO () \<longleftrightarrow> ?r c = GO ((), e)"
    by (auto simp: memory_limits_ok_def scan_simps)
  also have "\<dots> \<longleftrightarrow> memory_ok pages (window data c e)"
  proof (rule accepts_whole [OF accepts_eq ce])
    show "accepts data e ?r (\<lambda>bs _. \<exists>C n b1. leb C n \<and> (n = 1 \<and> (\<exists>F m b2. leb F m \<and> (m = 1 \<and>
        (\<exists>L lo b3. leb L lo \<and> (lo > 0 \<and> (\<exists>H hi b4. leb H hi \<and> ((lo \<le> hi \<and> hi \<le> pages) \<and>
        (b4 = [] \<and> () = ())) \<and> b3 = H @ b4)) \<and> b2 = L @ b3)) \<and> b1 = F @ b2)) \<and> bs = C @ b1)"
      using accepts_GO [of data e "()"]
      by (intro accepts_bind accepts_need accepts_u32 ce(2)) simp
  next
    fix bs :: bytes
    show "(\<exists>C n b1. leb C n \<and> (n = 1 \<and> (\<exists>F m b2. leb F m \<and> (m = 1 \<and>
        (\<exists>L lo b3. leb L lo \<and> (lo > 0 \<and> (\<exists>H hi b4. leb H hi \<and> ((lo \<le> hi \<and> hi \<le> pages) \<and>
        (b4 = [] \<and> () = ())) \<and> b3 = H @ b4)) \<and> b2 = L @ b3)) \<and> b1 = F @ b2)) \<and> bs = C @ b1) \<longleftrightarrow>
      memory_ok pages bs"
      unfolding memory_ok_def g_memory_def fst_conv snd_conv by (rule iffI; elim exE conjE; simp; blast)
  qed
  finally show ?thesis .
qed

lemma memory_loop_iff:
  "sections_from data c secs \<Longrightarrow> memory_loop data pages c = GO () \<longleftrightarrow>
    (\<exists>body. map_of secs 5 = Some body \<and> memory_ok pages body)"
proof (induction secs arbitrary: c)
  case Nil
  then show ?case by (simp add: memory_loop.simps)
next
  case (Cons sec secs)
  obtain num body where sec: "sec = (num, body)" by fastforce
  from Cons.prems sec obtain bs where bs: "g_section bs (num, body)"
    "placed data (length data) c bs" "sections_from data (c + length bs) secs" by auto
  note hdr = section_header_at [OF bs(1,2)]
  show ?case
    using hdr(1,6) memory_limits_iff [OF hdr(4,5), of pages] hdr(2) Cons.IH [OF bs(3)] sec
    by (subst memory_loop.simps) auto
qed

lemma memory_within_limit_iff:
  "wasm_memory_within_limit (Some wasm) pages = GO () \<longleftrightarrow>
    (\<exists>secs hs body. g_module wasm secs hs \<and> map_of secs 5 = Some body \<and> memory_ok pages body)"
proof -
  have len: "length wasm_header = 8" by (simp add: wasm_header_def)
  have loop: "memory_loop wasm pages 8 = GO () \<longleftrightarrow> (\<exists>body. map_of secs 5 = Some body \<and> memory_ok pages body)"
    if m: "g_module wasm secs hs" for secs hs
  proof (rule memory_loop_iff)
    from m obtain bss where "wasm = wasm_header @ concat bss" "list_all2 g_section bss secs"
      by (auto simp: g_module_def)
    then show "sections_from wasm 8 secs"
      using sections_from_iff [of 8 wasm secs] len by auto
  qed
  have zero: "\<not> memory_ok 0 body" for body by (auto simp: memory_ok_def word_neq_0_conv [symmetric])
  have "wasm_memory_within_limit (Some wasm) pages = GO () \<longleftrightarrow> pages \<noteq> 0 \<and>
      (\<exists>caps. scan_module (Some wasm) = GO caps) \<and> memory_loop wasm pages 8 = GO ()"
    unfolding wasm_check_OK [symmetric] by (auto simp: wasm_memory_within_limit_def scan_simps)
  also have "\<dots> \<longleftrightarrow> (\<exists>secs hs body. g_module wasm secs hs \<and> map_of secs 5 = Some body \<and> memory_ok pages body)"
    unfolding scan_module_iff using loop zero by blast
  finally show ?thesis .
qed

end
