(* ===== verification/Package_Reader.thy ===== *)
theory Package_Reader
  imports Package_Wasm Wasm_Grammar
begin

text \<open>
  The cached reader of \<open>package_wasm.c\<close> over a source with a stable snapshot: whatever it reads
  successfully is what the runtime's scan (\<open>wasm_scan.c\<close>) reads from the bytes in memory.

  \<open>yields I m P\<close> is a triple for readings: from a reader that satisfies \<open>I\<close>, the reading \<open>m\<close>
  ends in a reader that satisfies \<open>I\<close>, and a value it returns satisfies \<open>P\<close>.  The invariant used
  is \<open>reader_ok\<close>: the cached block is the piece of the payload its position says.
\<close>

subsection \<open>Triples for readings\<close>

definition yields :: "('d wasm_reader \<Rightarrow> bool) \<Rightarrow> ('d, 'a) reading \<Rightarrow> ('a \<Rightarrow> bool) \<Rightarrow> bool" where
  "yields I m P \<longleftrightarrow> (\<forall>r result r'. I r \<longrightarrow> m r = (result, r') \<longrightarrow>
     I r' \<and> (\<forall>x. result = Inr x \<longrightarrow> P x))"

named_theorems yields_rules "triples of the basic readings"

lemma yieldsI:
  "(\<And>r result r'. I r \<Longrightarrow> m r = (result, r') \<Longrightarrow> I r' \<and> (\<forall>x. result = Inr x \<longrightarrow> P x)) \<Longrightarrow> yields I m P"
  by (simp add: yields_def)

lemma yieldsD: "yields I m P \<Longrightarrow> I r \<Longrightarrow> m r = (result, r') \<Longrightarrow>
    I r' \<and> (\<forall>x. result = Inr x \<longrightarrow> P x)"
  by (simp add: yields_def)

lemma yields_bind:
  assumes "yields I m P" and "\<And>x. P x \<Longrightarrow> yields I (f x) Q"
  shows "yields I (bindE m f) Q"
proof (rule yieldsI)
  fix r result r' assume r: "I r" and run: "bindE m f r = (result, r')"
  obtain q r1 where q: "m r = (q, r1)" by fastforce
  with yieldsD [OF assms(1) r] have r1: "I r1" and "\<forall>x. q = Inr x \<longrightarrow> P x" by blast+
  then show "I r' \<and> (\<forall>x. result = Inr x \<longrightarrow> Q x)"
    using run q by (cases q) (auto simp: bindE_def dest: yieldsD [OF assms(2) r1])
qed

lemma yields_conseq: "yields I m P \<Longrightarrow> (\<And>x. P x \<Longrightarrow> Q x) \<Longrightarrow> yields I m Q"
  by (simp add: yields_def)

lemma yields_ret [yields_rules]: "P x \<Longrightarrow> yields I (retE x) P"
  by (simp add: yields_def)

lemma yields_fail [yields_rules]: "yields I (failE e) P"
  by (simp add: yields_def)

lemma yields_guard [yields_rules]: "(b \<Longrightarrow> P ()) \<Longrightarrow> yields I (guardE b e) P"
  by (auto simp: yields_def guardE_def retE_def failE_def)

lemma yields_if [yields_rules]:
  "(b \<Longrightarrow> yields I m P) \<Longrightarrow> (\<not> b \<Longrightarrow> yields I n P) \<Longrightarrow> yields I (if b then m else n) P"
  by simp

lemma yields_attempt: "yields I m P \<Longrightarrow> yields I (attempt m) (\<lambda>x. \<forall>y. x = Inr y \<longrightarrow> P y)"
  by (fastforce simp: yields_def attempt_def split: prod.splits)

lemma yields_guard_bind:
  "(b \<Longrightarrow> yields I m Q) \<Longrightarrow> yields I (bindE (guardE b e) (\<lambda>_. m)) Q"
  by (rule yields_bind [OF yields_guard]) auto

lemma yields_bind_prod:
  assumes "yields I m P" and "\<And>x y. P (x, y) \<Longrightarrow> yields I (f x y) Q"
  shows "yields I (bindE m (\<lambda>(x, y). f x y)) Q"
  using assms by (auto intro: yields_bind)

subsection \<open>The cache\<close>

definition reader_ok :: "('d \<Rightarrow> 'v) \<Rightarrow> 'v \<Rightarrow> bytes \<Rightarrow> 'd wasm_reader \<Rightarrow> bool" where
  "reader_ok view v data r \<longleftrightarrow> view (wr_device r) = v \<and>
     (wr_cached_size r = 0 \<or> wr_cached_begin r + wr_cached_size r \<le> length data \<and>
        wr_block r = piece data (wr_cached_begin r) (wr_cached_size r))"

lemma block_room:
  assumes "(b :: nat) \<le> x" and "x < b + k" and "x < s"
  shows "b + (if s - b < k then s - b else k) \<le> s" and "x < b + (if s - b < k then s - b else k)"
  using assms by auto

lemma piece_at: "b \<le> x \<Longrightarrow> x < b + n \<Longrightarrow> b + n \<le> length data \<Longrightarrow> piece data b n ! (x - b) = data ! x"
  using nth_piece [of "x - b" n b data] by simp

context package_source
begin

text \<open>The payload lies inside the snapshot.\<close>

definition stores :: "'d wasm_source \<Rightarrow> 'v \<Rightarrow> bytes \<Rightarrow> bool" where
  "stores src v data \<longleftrightarrow> ws_read_fn src = read_fn \<and>
     ws_base src + ws_size src \<le> length (snapshot v) \<and>
     data = piece (snapshot v) (ws_base src) (ws_size src)"

abbreviation holds :: "'v \<Rightarrow> bytes \<Rightarrow> 'd wasm_reader \<Rightarrow> bool" where
  "holds v data \<equiv> reader_ok view v data"

lemma length_payload: "stores src v data \<Longrightarrow> length data = ws_size src"
  by (simp add: stores_def)

lemma piece_payload: "stores src v data \<Longrightarrow> offset + n \<le> ws_size src \<Longrightarrow>
    piece data offset n = piece (snapshot v) (ws_base src + offset) n"
  by (simp add: stores_def piece_def drop_take add.commute min_absorb1)

lemma yields_byte_at:
  assumes src: "stores src v data"
  shows "yields (holds v data) (byte_at src offset) (\<lambda>b. offset < length data \<and> b = data ! offset)"
proof (rule yieldsI)
  fix r result r' assume r: "holds v data r" and run: "byte_at src offset r = (result, r')"
  note len = length_payload [OF src]
  let ?from = "offset div WASM_READ_BYTES * WASM_READ_BYTES"
  let ?n = "if ws_size src - ?from < WASM_READ_BYTES then ws_size src - ?from else WASM_READ_BYTES"
  have begins: "?from \<le> offset" "offset < ?from + WASM_READ_BYTES"
    using div_mod_decomp [of offset WASM_READ_BYTES] mod_less_divisor [of WASM_READ_BYTES offset]
    by (auto simp: WASM_READ_BYTES_def)
  consider (beyond) "offset \<ge> ws_size src"
    | (miss) "offset < ws_size src" "wr_cached_size r = 0 \<or> offset < wr_cached_begin r \<or>
        offset - wr_cached_begin r \<ge> wr_cached_size r"
    | (hit) "offset < ws_size src" "wr_cached_size r \<noteq> 0" "wr_cached_begin r \<le> offset"
        "offset - wr_cached_begin r < wr_cached_size r"
    by fastforce
  then show "holds v data r' \<and> (\<forall>b. result = Inr b \<longrightarrow> offset < length data \<and> b = data ! offset)"
  proof cases
    case beyond
    with run r show ?thesis by (auto simp: byte_at_def)
  next
    case hit
    with run r len show ?thesis by (auto simp: byte_at_def reader_ok_def nth_piece)
  next
    case miss
    have fn: "ws_read_fn src = read_fn" using src by (simp add: stores_def)
    have v: "view (wr_device r) = v" using r by (simp add: reader_ok_def)
    obtain answer d where read: "read_fn (ws_base src + ?from) ?n (wr_device r) = (answer, d)" by fastforce
    note got = read_run [OF read, unfolded v]
    have room: "?from + ?n \<le> ws_size src" "offset < ?from + ?n"
      using block_room [OF begins miss(1)] by simp_all
    show ?thesis
    proof (cases answer)
      case None
      with run miss got read fn show ?thesis by (auto simp: byte_at_def Let_def reader_ok_def)
    next
      case (Some block)
      with got piece_payload [OF src room(1)] have block: "block = piece data ?from ?n"
        by simp
      then have "block ! (offset - ?from) = data ! offset"
        using piece_at [OF begins(1) room(2)] room(1) len by (simp only:)
      moreover have "result = Inr (block ! (offset - ?from))"
          "r' = r\<lparr>wr_device := d, wr_block := block, wr_cached_begin := ?from, wr_cached_size := ?n\<rparr>"
        using run miss read Some fn by (simp_all add: byte_at_def Let_def)
      ultimately show ?thesis using got room block len miss(1) by (simp add: reader_ok_def)
    qed
  qed
qed

lemma yields_next_byte:
  "stores src v data \<Longrightarrow> yields (holds v data) (next_byte src e c)
     (\<lambda>(b, c'). c < e \<and> c < length data \<and> b = data ! c \<and> c' = Suc c)"
  unfolding next_byte_def
  by (intro yields_rules yields_bind [OF yields_byte_at]) auto

lemma yields_next_u32_from:
  assumes src: "stores src v data" and e: "e \<le> length data"
  shows "yields (holds v data) (next_u32_from src e ks c result)
     (\<lambda>(x, c'). read_u32_from data e (map ((*) 7) ks) c result = GO (x, c'))"
proof (induction ks arbitrary: c result)
  case Nil
  show ?case by (simp add: yields_rules)
next
  case (Cons k ks)
  show ?case
    unfolding next_u32_from.simps
  proof (intro yields_bind_prod [OF yields_next_byte [OF src]] yields_rules)
    fix octet c' assume b: "case (octet, c') of (b, c') \<Rightarrow> c < e \<and> c < length data \<and> b = data ! c \<and> c' = Suc c"
      and top: "\<not> (k = 4 \<and> octet AND 0xf0 \<noteq> 0)"
    then have k: "\<not> (7 * k = 28 \<and> data ! c AND 0xf0 \<noteq> 0)" by auto
    let ?result = "result OR push_bit (7 * k) (ucast (data ! c AND 0x7f))"
    show "yields (holds v data) (let result = result OR push_bit (7 * k) (ucast (octet AND 0x7f)) in
        if octet AND 0x80 = 0 then retE (result, c') else next_u32_from src e ks c' result)
      (\<lambda>(x, c'). read_u32_from data e (map ((*) 7) (k # ks)) c result = GO (x, c'))"
      using b k yields_conseq [OF Cons.IH [of "Suc c" ?result]]
      by (auto simp: Let_def fetch_def intro!: yields_rules)
  qed
qed

lemma yields_next_u32:
  assumes "stores src v data" and "e \<le> length data"
  shows "yields (holds v data) (next_u32 src e c) (\<lambda>(x, c'). read_u32 data e c = GO (x, c'))"
  using yields_next_u32_from [OF assms, of "[0, 1, 2, 3, 4]" c 0]
  by (simp add: next_u32_def read_u32_def)

lemma yields_compare:
  assumes src: "stores src v data"
  shows "yields (holds v data) (compare_bytes src c expected same)
    (\<lambda>m. c + length expected \<le> max c (length data) \<and>
      (m \<longleftrightarrow> same \<and> window data c (c + length expected) = expected))"
proof (induction expected arbitrary: c same)
  case Nil
  show ?case by (simp add: yields_rules)
next
  case (Cons b expected)
  show ?case
    unfolding compare_bytes.simps
  proof (rule yields_bind [OF yields_byte_at [OF src]])
    fix byte assume byte: "c < length data \<and> byte = data ! c"
    then have "window data c (c + length (b # expected)) = data ! c # window data (Suc c) (Suc c + length expected)
      \<or> Suc c + length expected > length data"
      using window_Cons [of c "c + length (b # expected)" data] by auto
    then show "yields (holds v data) (compare_bytes src (Suc c) expected (if byte \<noteq> b then False else same))
      (\<lambda>m. c + length (b # expected) \<le> max c (length data) \<and>
        (m \<longleftrightarrow> same \<and> window data c (c + length (b # expected)) = b # expected))"
      using byte by (intro yields_conseq [OF Cons.IH]) (auto split: if_splits)
  qed
qed

lemma yields_next_name:
  assumes src: "stores src v data" and e: "e \<le> length data"
  shows "yields (holds v data) (next_name_is src e c expected)
    (\<lambda>(m, c'). \<exists>name. read_name data e c = GO (name, c') \<and> (m \<longleftrightarrow> name = str_bytes expected))"
  unfolding next_name_is_def
proof (rule yields_bind_prod [OF yields_next_u32 [OF src e]], rule yields_bind [OF yields_guard])
  fix n c1 assume "case (n, c1) of (x, c') \<Rightarrow> read_u32 data e c = GO (x, c')"
  then have n: "read_u32 data e c = GO (n, c1)" by simp
  show "\<not> unat n > e - c1 \<Longrightarrow> \<not> unat n > e - c1" .
  fix u assume fits: "\<not> unat n > e - c1"
  let ?name = "window data c1 (c1 + unat n)"
  have in_data: "c1 + unat n \<le> length data" using read_u32_advances [OF n e] fits e by linarith
  then have name: "read_name data e c = GO (?name, c1 + unat n)" using n fits
    by (simp add: read_name_def scan_simps)
  have other: "unat n \<noteq> length expected \<Longrightarrow> ?name \<noteq> str_bytes expected"
    using in_data by (metis length_str_bytes window_in_bounds)
  show "yields (holds v data) (bindE (if unat n = length expected
      then compare_bytes src c1 (str_bytes expected) True else retE False)
      (\<lambda>matches. retE (matches, c1 + unat n)))
    (\<lambda>(m, c'). \<exists>name. read_name data e c = GO (name, c') \<and> (m \<longleftrightarrow> name = str_bytes expected))"
    by (rule yields_bind [where P = "\<lambda>m. m \<longleftrightarrow> ?name = str_bytes expected"])
       (use name other in \<open>auto intro!: yields_rules yields_conseq [OF yields_compare [OF src]]\<close>)
qed

end

end
