(* ===== verification/Package_Sections.thy ===== *)
theory Package_Sections
  imports Package_Reader
begin

text \<open>
  The section table that \<open>package_wasm.c\<close> builds from a stored payload against the section loop
  of the runtime's scan.  The runtime scans the exports when it meets the export section and
  looks for the memory section in a pass of its own; the package check does both later, so the
  statements here are relative to what the later scans find.
\<close>

lemma yields_prod3:
  assumes "yields I m P" and "\<And>x y z. P (x, y, z) \<Longrightarrow> yields I (f x y z) Q"
  shows "yields I (bindE m (\<lambda>(x, y, z). f x y z)) Q"
  using assms by (auto intro: yields_bind)

lemma sections_loop_step:
  "sections_loop src c last_id secs =
    (if c < ws_size src then
       bindE (next_section src c) (\<lambda>(section, b, e).
       if section > 12 \<or> section = 8 \<or> section = 4 \<or> section = 9 then retE (secs, True)
       else if section \<noteq> 0 then
         (if section \<le> last_id then failE ()
          else sections_loop src e section
            (secs[unat section := \<lparr>sec_begin = b, sec_end = e, sec_present = True\<rparr>]))
       else
         bindE (next_name_is src e b ''target_features'') (\<lambda>(target_features, _).
         if target_features then retE (secs, True) else sections_loop src e last_id secs))
     else retE (secs, False))"
  by (rule ext, subst sections_loop.simps)
     (auto simp: bindE_def split: prod.splits sum.splits)

definition place_of :: "wasm_section \<Rightarrow> nat \<times> nat" where
  "place_of s = (if sec_present s then (sec_begin s, sec_end s) else (0, 0))"

definition tracks :: "scan_state \<Rightarrow> byte \<Rightarrow> wasm_section list \<Rightarrow> bool" where
  "tracks st last_id secs \<longleftrightarrow> scan_last_section st = last_id \<and>
     (scan_type_begin st, scan_type_end st) = place_of (secs ! 1) \<and>
     (scan_import_begin st, scan_import_end st) = place_of (secs ! 2)"

definition sections_within :: "bytes \<Rightarrow> wasm_section list \<Rightarrow> bool" where
  "sections_within data secs \<longleftrightarrow> length secs = 13 \<and>
     (\<forall>k < 13. sec_present (secs ! k) \<longrightarrow>
        0 < sec_begin (secs ! k) \<and> sec_begin (secs ! k) \<le> sec_end (secs ! k) \<and>
        sec_end (secs ! k) \<le> length data)"

definition none_after :: "byte \<Rightarrow> wasm_section list \<Rightarrow> bool" where
  "none_after last_id secs \<longleftrightarrow> (\<forall>k < 13. unat last_id < k \<longrightarrow> \<not> sec_present (secs ! k))"

text \<open>What the loop from the cursor \<open>c\<close> says of the table \<open>secs'\<close> it ends with.\<close>

definition table_from :: "bytes \<Rightarrow> nat \<Rightarrow> byte \<Rightarrow> wasm_section list \<Rightarrow> wasm_section list \<times> bool \<Rightarrow> bool" where
  "table_from data c last_id secs = (\<lambda>(secs', unsupported). \<not> unsupported \<longrightarrow>
     sections_within data secs' \<and> (\<forall>k \<le> unat last_id. secs' ! k = secs ! k) \<and>
     (unat last_id < 5 \<longrightarrow> sec_present (secs' ! 5) \<longrightarrow> (\<forall>pages. memory_loop data pages c =
        memory_limits_ok data (sec_end (secs' ! 5)) (sec_begin (secs' ! 5)) pages)) \<and>
     (\<forall>st. tracks st last_id secs \<longrightarrow>
        (unat last_id < 7 \<longrightarrow> sec_present (secs' ! 7) \<longrightarrow>
           scan_exports data (sec_end (secs' ! 7)) (sec_begin (secs' ! 7)) = GO ()) \<longrightarrow>
        (\<exists>st' last'. section_loop data c st = GO st' \<and> tracks st' last' secs')))"

lemma table_from_end:
  "length data \<le> c \<Longrightarrow> sections_within data secs \<Longrightarrow> none_after last_id secs \<Longrightarrow>
     table_from data c last_id secs (secs, False)"
  by (auto simp: table_from_def none_after_def section_loop.simps)

lemma table_from_unsupported: "table_from data c last_id secs (secs', True)"
  by (simp add: table_from_def)

lemma note_custom: "note_section 0 b e st = GO st"
  by (simp add: note_section_def need_def)

lemma table_from_custom:
  assumes header: "section_header data c = GO (0, b, e)" and c: "c < length data"
    and rest: "table_from data e last_id secs x"
  shows "table_from data c last_id secs x"
  using rest c header
  by (auto simp: table_from_def note_custom section_loop.simps [of data c] memory_loop.simps [of data _ c]
      stop_as_def)

lemma note_known:
  assumes "k \<noteq> 0" "\<not> k > 12" "k \<noteq> 8" "\<not> k \<le> last_id" "tracks st last_id secs" "length secs = 13"
  shows "\<exists>st1. note_section k b e st = GO st1 \<and>
    tracks st1 k (secs[unat k := \<lparr>sec_begin = b, sec_end = e, sec_present = True\<rparr>])"
proof -
  have k: "unat k < 13" using assms(2) by (simp add: word_le_nat_alt not_less)
  have "unat k = 1 \<longleftrightarrow> k = 1" "unat k = 2 \<longleftrightarrow> k = 2" by (simp_all add: word_unat_eq_iff)
  then show ?thesis
    using assms k by (auto simp: note_section_def need_def tracks_def Let_def place_of_def nth_list_update)
qed

lemma table_from_known:
  assumes header: "section_header data c = GO (k, b, e)" and c: "c < length data"
    and known: "k \<noteq> 0" "\<not> k > 12" "k \<noteq> 8" "\<not> k \<le> last_id"
    and secs: "length secs = 13" "none_after last_id secs"
    and rest: "table_from data e k
      (secs[unat k := \<lparr>sec_begin = b, sec_end = e, sec_present = True\<rparr>]) (secs', unsupported)"
  shows "table_from data c last_id secs (secs', unsupported)"
proof (cases unsupported)
  case False
  let ?new = "\<lparr>sec_begin = b, sec_end = e, sec_present = True\<rparr>" let ?secs = "secs[unat k := ?new]"
  from rest False have within: "sections_within data secs'"
    and same: "\<And>i. i \<le> unat k \<Longrightarrow> secs' ! i = ?secs ! i"
    and memory: "\<And>pages. unat k < 5 \<Longrightarrow> sec_present (secs' ! 5) \<Longrightarrow> memory_loop data pages e =
        memory_limits_ok data (sec_end (secs' ! 5)) (sec_begin (secs' ! 5)) pages"
    and loop: "\<And>st. tracks st k ?secs \<Longrightarrow> (unat k < 7 \<Longrightarrow> sec_present (secs' ! 7) \<Longrightarrow>
           scan_exports data (sec_end (secs' ! 7)) (sec_begin (secs' ! 7)) = GO ()) \<Longrightarrow>
        \<exists>st' last'. section_loop data e st = GO st' \<and> tracks st' last' secs'"
    by (auto simp: table_from_def)
  have k: "unat k < 13" "unat last_id < unat k"
    using known(2,4) by (simp_all add: word_le_nat_alt not_less not_le)
  have new: "secs' ! unat k = ?new" using same [of "unat k"] k(1) secs(1) by simp
  have absent: "\<not> sec_present (secs' ! i)" if "unat last_id < i" "i < unat k" for i
    using same [of i] that k(1) secs(2) by (simp add: none_after_def)
  have five: "unat k = 5 \<longleftrightarrow> k = 5" and seven: "unat k = 7 \<longleftrightarrow> k = 7" by (simp_all add: word_unat_eq_iff)
  have "memory_loop data pages c = memory_limits_ok data (sec_end (secs' ! 5)) (sec_begin (secs' ! 5)) pages"
    if "unat last_id < 5" "sec_present (secs' ! 5)" for pages
  proof (cases "k = 5")
    case True
    with new have "secs' ! 5 = ?new" by simp
    then show ?thesis using c header True by (simp add: memory_loop.simps [of data pages c])
  next
    case False
    with absent [of 5] that five have "unat k < 5" by (metis linorder_neqE_nat)
    with memory that c header False show ?thesis by (simp add: memory_loop.simps [of data pages c])
  qed
  moreover have "\<exists>st' last'. section_loop data c st = GO st' \<and> tracks st' last' secs'"
    if st: "tracks st last_id secs" and exports: "unat last_id < 7 \<longrightarrow> sec_present (secs' ! 7) \<longrightarrow>
        scan_exports data (sec_end (secs' ! 7)) (sec_begin (secs' ! 7)) = GO ()" for st
  proof -
    obtain st1 where st1: "note_section k b e st = GO st1" "tracks st1 k ?secs"
      using note_known [OF known st secs(1)] by blast
    have "(if k = 7 then scan_exports data e b else GO ()) = GO ()"
    proof (cases "k = 7")
      case True
      with new have "secs' ! 7 = ?new" by simp
      with exports True k(2) show ?thesis by simp
    qed simp
    then have "section_loop data c st = section_loop data e st1"
      using c header st1(1) by (simp add: section_loop.simps [of data c] stop_as_def)
    then show ?thesis using loop [OF st1(2)] exports k(2) by simp
  qed
  moreover have "secs' ! i = secs ! i" if "i \<le> unat last_id" for i
    using same [of i] that k(2) by simp
  ultimately show ?thesis using within by (simp add: table_from_def)
qed (simp add: table_from_def)

text \<open>A complete table: what the runtime's passes over the sections will do.\<close>

definition table_ok :: "bytes \<Rightarrow> wasm_section list \<Rightarrow> bool" where
  "table_ok data secs \<longleftrightarrow> length wasm_header \<le> length data \<and>
     window data 0 (length wasm_header) = wasm_header \<and> sections_within data secs \<and>
     (\<forall>k \<in> {1, 3, 5, 7, 10}. sec_present (secs ! k)) \<and>
     (\<forall>pages. memory_loop data pages (length wasm_header) =
        memory_limits_ok data (sec_end (secs ! 5)) (sec_begin (secs ! 5)) pages) \<and>
     (scan_exports data (sec_end (secs ! 7)) (sec_begin (secs ! 7)) = GO () \<longrightarrow>
        (\<exists>st last_id. section_loop data (length wasm_header) initial_scan = GO st \<and> tracks st last_id secs))"

context package_source
begin

lemma yields_next_section:
  assumes src: "stores src v data"
  shows "yields (holds v data) (next_section src c)
    (\<lambda>(k, b, e). c < length data \<and> section_header data c = GO (k, b, e))"
  unfolding next_section_def
proof (rule yields_bind_prod [OF yields_next_byte [OF src]])
  fix k c1 assume "case (k, c1) of (x, c') \<Rightarrow> c < ws_size src \<and> c < length data \<and> x = data ! c \<and> c' = Suc c"
  then have k: "c < length data" "data ! c = k" "c1 = Suc c"
    by simp_all
  show "yields (holds v data) (bindE (next_u32 src (ws_size src) c1) (\<lambda>(size, cursor).
      bindE (guardE (\<not> unat size > ws_size src - cursor) ()) (\<lambda>_.
      retE (k, cursor, cursor + unat size))))
    (\<lambda>(k, b, e). c < length data \<and> section_header data c = GO (k, b, e))"
    using k length_payload [OF src]
    by (intro yields_bind_prod [OF yields_next_u32 [OF src]] yields_bind [OF yields_guard] yields_ret)
       (auto simp: section_header_def need_def fetch_def)
qed

lemma sections_within_known:
  "sections_within data secs \<Longrightarrow> section_header data c = GO (k, b, e) \<Longrightarrow> \<not> k > 12 \<Longrightarrow>
     sections_within data (secs[unat k := \<lparr>sec_begin = b, sec_end = e, sec_present = True\<rparr>])"
  using section_header_advances [of data c k b e]
  by (auto simp: sections_within_def nth_list_update word_less_nat_alt not_less split: if_splits)

lemma none_after_known:
  "none_after last_id secs \<Longrightarrow> \<not> k \<le> last_id \<Longrightarrow> none_after k (secs[unat k := s])"
  by (auto simp: none_after_def nth_list_update word_le_nat_alt)

lemma yields_sections_loop:
  assumes src: "stores src v data"
  shows "sections_within data secs \<Longrightarrow> none_after last_id secs \<Longrightarrow>
    yields (holds v data) (sections_loop src c last_id secs) (table_from data c last_id secs)"
proof (induction "length data - c" arbitrary: c last_id secs rule: less_induct)
  case less
  note len = length_payload [OF src]
  have later: "yields (holds v data) (sections_loop src e k secs1) (table_from data e k secs1)"
    if "section_header data c = GO (x, b, e)" "c < length data"
       "sections_within data secs1" "none_after k secs1" for x b e k secs1
    using section_header_advances [OF that(1)] that by (intro less.hyps) auto
  show ?case
  proof (cases "c < ws_size src")
    case False
    then show ?thesis using len less.prems
      by (auto simp: sections_loop_step intro!: yields_ret table_from_end)
  next
    case True
    show ?thesis
      unfolding sections_loop_step [of src c] if_P [OF True]
    proof (rule yields_prod3 [OF yields_next_section [OF src]], clarify, intro yields_if)
      fix k b e assume c: "c < length data" and header: "section_header data c = GO (k, b, e)"
      have e: "e \<le> length data" using section_header_advances [OF header] by simp
      show "yields (holds v data) (retE (secs, True)) (table_from data c last_id secs)"
        by (rule yields_ret) (rule table_from_unsupported)
      show "yields (holds v data) (failE ()) (table_from data c last_id secs)"
        by (rule yields_fail)
      show "yields (holds v data)
          (sections_loop src e k (secs[unat k := \<lparr>sec_begin = b, sec_end = e, sec_present = True\<rparr>]))
          (table_from data c last_id secs)"
        if known: "\<not> (k > 12 \<or> k = 8 \<or> k = 4 \<or> k = 9)" "k \<noteq> 0" "\<not> k \<le> last_id"
      proof (rule yields_conseq [OF later [OF header c]])
        show "none_after k (secs[unat k := \<lparr>sec_begin = b, sec_end = e, sec_present = True\<rparr>])"
          using less.prems(2) known(3) by (rule none_after_known)
        show "sections_within data (secs[unat k := \<lparr>sec_begin = b, sec_end = e, sec_present = True\<rparr>])"
          using less.prems(1) header known(1) by (intro sections_within_known) auto
      next
        fix x assume "table_from data e k (secs[unat k := \<lparr>sec_begin = b, sec_end = e, sec_present = True\<rparr>]) x"
        then show "table_from data c last_id secs x"
          using known less.prems by (cases x) (auto simp: sections_within_def intro: table_from_known [OF header c])
      qed
      show "yields (holds v data) (bindE (next_name_is src e b ''target_features'') (\<lambda>(target_features, _).
          if target_features then retE (secs, True) else sections_loop src e last_id secs))
          (table_from data c last_id secs)"
        if "\<not> k \<noteq> 0"
        using header c less.prems that
        by (intro yields_bind_prod [OF yields_next_name [OF src e]] yields_if yields_conseq [OF later [OF header c]])
           (auto intro: table_from_custom yields_ret table_from_unsupported)
    qed
  qed
qed

lemma yields_expect:
  assumes src: "stores src v data"
  shows "yields (holds v data) (expect_bytes src c expected)
    (\<lambda>_. c + length expected \<le> max c (length data) \<and> window data c (c + length expected) = expected)"
proof (induction expected arbitrary: c)
  case Nil
  show ?case by (simp add: yields_rules)
next
  case (Cons b expected)
  show ?case
    unfolding expect_bytes.simps
    using window_Cons [of c "c + length (b # expected)" data]
    by (intro yields_bind [OF yields_byte_at [OF src]] yields_bind [OF yields_guard] yields_conseq [OF Cons.IH])
       auto
qed

lemma yields_scan_sections:
  assumes src: "stores src v data"
  shows "yields (holds v data) (scan_sections src) (\<lambda>(secs, unsupported). unsupported \<or> table_ok data secs)"
  unfolding scan_sections_def
proof (rule yields_bind [OF yields_expect [OF src]])
  fix u assume header: "0 + length wasm_header \<le> max 0 (length data) \<and>
    window data 0 (0 + length wasm_header) = wasm_header"
  have zero: "sections_within data zero_sections" "none_after 0 zero_sections"
      "tracks initial_scan 0 zero_sections"
    by (simp_all add: sections_within_def none_after_def tracks_def zero_sections_def initial_scan_def
        place_of_def)
  show "yields (holds v data) (bindE (sections_loop src (length wasm_header) 0 zero_sections)
      (\<lambda>(sections, unsupported). bindE (guardE (unsupported \<or>
        sec_present (sections ! 1) \<and> sec_present (sections ! 3) \<and> sec_present (sections ! 5) \<and>
        sec_present (sections ! 7) \<and> sec_present (sections ! 10)) ())
      (\<lambda>_. retE (sections, unsupported)))) (\<lambda>(secs, unsupported). unsupported \<or> table_ok data secs)"
    using header zero(3)
    by (intro yields_bind_prod [OF yields_sections_loop [OF src zero(1,2)]] yields_bind [OF yields_guard] yields_ret)
       (auto simp: table_from_def table_ok_def)
qed

end

end
