(* ===== verification/Package_Scans.thy ===== *)
theory Package_Scans
  imports Package_Sections
begin

text \<open>
  The scans of \<open>package_wasm.c\<close> over a stored payload against those of \<open>wasm_scan.c\<close> over the
  bytes: a scan of the stored payload that succeeds means that the runtime's scan succeeds with
  the same result.
\<close>

text \<open>The four flags of a field name.\<close>

definition field_flags :: "bytes \<Rightarrow> bool \<times> bool \<times> bool \<times> bool" where
  "field_flags field = (name_is field ''monotonic_ms'', name_is field ''log'',
     name_is field ''timer_start'', name_is field ''timer_cancel'')"

lemma field_flags_wanted:
  assumes "import_wanted (field_flags field) = (cap, seen_bit, params, results)"
  shows "cap = import_capability field"
    and "seen_bit = (if name_is field ''timer_cancel'' then 8 else import_capability field)"
    and "cap \<noteq> 0 \<Longrightarrow> signature_matches cap (name_is field ''timer_cancel'') (params, results)"
  using assms
  by (auto simp: import_wanted_def field_flags_def import_capability_def name_is_def Let_def cap_defs
      signature_matches_def log_params_def start_params_def cancel_params_def i32_result_def i64_result_def
      split: if_splits)

text \<open>One export: its name, kind and index, and the cursor behind it.\<close>

definition export_at :: "bytes \<Rightarrow> nat \<Rightarrow> nat \<Rightarrow> bytes \<times> byte \<times> u32 \<Rightarrow> nat \<Rightarrow> bool" where
  "export_at data e c = (\<lambda>(name, kind, index) c'. \<exists>c1. read_name data e c = GO (name, c1) \<and>
     c1 < e \<and> data ! c1 = kind \<and> read_u32 data e (Suc c1) = GO (index, c'))"

lemma export_names_safe: "i < 4 \<Longrightarrow> \<not> dangerous_export (str_bytes (export_names ! i))"
proof -
  assume "i < 4"
  then have "i = 0 \<or> i = 1 \<or> i = 2 \<or> i = 3" by auto
  then show ?thesis by (auto simp: dangerous_export_def export_names_def)
qed

lemma export_step:
  assumes "export_at data e c (str_bytes (export_names ! i), kind, x) c'" and "i < 4"
    and "kind = (if i = 3 then 2 else 0)" and "e \<le> length data"
  shows "export_loop data e (index + Suc n) index c = export_loop data e (Suc index + n) (Suc index) c'"
  using assms export_names_safe [OF assms(2)]
  by (subst export_loop.simps) (auto simp: export_at_def stop_as_def need_def fetch_def)

context package_source
begin

subsection \<open>Types\<close>

lemma yields_match_types:
  assumes src: "stores src v data" and e: "e \<le> length data"
  shows "n \<le> e - c \<Longrightarrow> c \<le> e \<Longrightarrow> (matched \<Longrightarrow> length wanted = part + n) \<Longrightarrow>
    yields (holds v data) (match_types src e n part wanted matched c)
      (\<lambda>(m, c'). c' = c + n \<and> (m \<longleftrightarrow> matched \<and> window data c (c + n) = drop part wanted))"
proof (induction n arbitrary: part matched c)
  case 0
  then show ?case by (auto intro: yields_ret)
next
  case (Suc n)
  have c: "c < e" using Suc.prems(1) by simp
  then have win: "window data c (c + Suc n) = data ! c # window data (Suc c) (Suc c + n)"
    using window_Cons [of c "c + Suc n" data] Suc.prems(1) e by simp
  have head: "drop part wanted = wanted ! part # drop (Suc part) wanted" if matched
    using Suc.prems(3) [OF that] by (simp add: Cons_nth_drop_Suc)
  show ?case
    unfolding match_types.simps
    using c Suc.prems win head
    by (intro yields_bind_prod [OF yields_next_byte [OF src]] yields_guard_bind
        yields_conseq [OF Suc.IH]) (auto split: if_splits)
qed

lemma yields_match_entry:
  assumes src: "stores src v data" and e: "e \<le> length data"
  shows "yields (holds v data) (match_entry src e params results is_wanted c)
    (\<lambda>(m, c'). \<exists>sig. read_func_type data e c = GO (sig, c') \<and> (m \<longleftrightarrow> is_wanted \<and> sig = (params, results)))"
  unfolding match_entry_def Let_def
proof (intro yields_bind_prod [OF yields_next_byte [OF src]] yields_guard_bind
    yields_bind_prod [OF yields_next_u32 [OF src e]])
  fix form c1 ps c2
  assume "case (form, c1) of (b, c') \<Rightarrow> c < e \<and> c < length data \<and> b = data ! c \<and> c' = Suc c" "form = 0x60"
    and "case (ps, c2) of (x, c') \<Rightarrow> read_u32 data e c1 = GO (x, c')" and fits: "\<not> unat ps > e - c2"
  then have c: "c < e" "c < length data" "data ! c = 0x60" and ps: "read_u32 data e (Suc c) = GO (ps, c2)"
    by auto
  have c2: "c2 \<le> e" using read_u32_advances [OF ps e] by simp
  let ?params = "window data c2 (c2 + unat ps)"
  let ?m1 = "is_wanted \<and> unat ps = length params"
  show "yields (holds v data)
      (bindE (match_types src e (unat ps) 0 params ?m1 c2) (\<lambda>(matched, cursor).
       bindE (next_u32 src e cursor) (\<lambda>(result_count, cursor).
       bindE (guardE (\<not> unat result_count > e - cursor) ()) (\<lambda>_.
       match_types src e (unat result_count) 0 results
         (if unat result_count \<noteq> length results then False else matched) cursor))))
      (\<lambda>(m, c'). \<exists>sig. read_func_type data e c = GO (sig, c') \<and> (m \<longleftrightarrow> is_wanted \<and> sig = (params, results)))"
  proof (intro yields_bind_prod [OF yields_match_types [OF src e]] yields_guard_bind
      yields_bind_prod [OF yields_next_u32 [OF src e]])
    fix matched c3 rs c4
    assume params: "case (matched, c3) of (m, c') \<Rightarrow> c' = c2 + unat ps \<and>
        (m \<longleftrightarrow> ?m1 \<and> window data c2 (c2 + unat ps) = drop 0 params)"
      and "case (rs, c4) of (x, c') \<Rightarrow> read_u32 data e c3 = GO (x, c')" and fits_rs: "\<not> unat rs > e - c4"
    then have rs: "read_u32 data e (c2 + unat ps) = GO (rs, c4)" by simp
    have c4: "c4 \<le> e" using read_u32_advances [OF rs e] by simp
    have room: "c2 + unat ps \<le> length data" "c4 + unat rs \<le> length data"
      using fits c2 fits_rs c4 e by linarith+
    have type: "read_func_type data e c = GO ((?params, window data c4 (c4 + unat rs)), c4 + unat rs)"
      using c ps fits rs fits_rs room by (simp add: read_func_type_def need_def fetch_def fetch_slice_def)
    have len: "length (window data c4 (c4 + unat rs)) = unat rs" "length ?params = unat ps"
      using room by simp_all
    show "yields (holds v data) (match_types src e (unat rs) 0 results
        (if unat rs \<noteq> length results then False else matched) c4)
      (\<lambda>(m, c'). \<exists>sig. read_func_type data e c = GO (sig, c') \<and> (m \<longleftrightarrow> is_wanted \<and> sig = (params, results)))"
      by (rule yields_conseq [OF yields_match_types [OF src e]])
         (use params type fits_rs c4 len in \<open>auto split: if_splits\<close>)
  qed (use fits c2 in auto)
qed

lemma yields_match_entries:
  assumes src: "stores src v data" and e: "e \<le> length data"
  shows "yields (holds v data) (match_entries src e wanted params results n index found c)
    (\<lambda>(found', c'). found' \<longrightarrow> found \<or> (index \<le> unat wanted \<and> unat wanted < index + n \<and>
      (\<forall>cap cancel. type_loop data e (index + n) (unat wanted) cap cancel index c =
         need (signature_matches cap cancel (params, results)) ())))"
proof (induction n arbitrary: index found c)
  case 0
  show ?case by (simp add: yields_ret)
next
  case (Suc n)
  show ?case
    unfolding match_entries.simps
  proof (intro yields_bind_prod [OF yields_match_entry [OF src e]])
    fix matched c1
    assume "case (matched, c1) of (m, c') \<Rightarrow> \<exists>sig. read_func_type data e c = GO (sig, c') \<and>
        (m \<longleftrightarrow> index = unat wanted \<and> sig = (params, results))"
    then obtain sig where sig: "read_func_type data e c = GO (sig, c1)"
        "matched \<longleftrightarrow> index = unat wanted \<and> sig = (params, results)" by auto
    then have step: "type_loop data e (index + Suc n) (unat wanted) cap cancel index c =
        (if index = unat wanted then need (signature_matches cap cancel sig) ()
         else type_loop data e (Suc index + n) (unat wanted) cap cancel (Suc index) c1)" for cap cancel
      by (subst type_loop.simps) simp
    show "yields (holds v data) (match_entries src e wanted params results n (Suc index)
        (if index = unat wanted then matched else found) c1)
      (\<lambda>(found', c'). found' \<longrightarrow> found \<or> (index \<le> unat wanted \<and> unat wanted < index + Suc n \<and>
        (\<forall>cap cancel. type_loop data e (index + Suc n) (unat wanted) cap cancel index c =
           need (signature_matches cap cancel (params, results)) ())))"
      by (rule yields_conseq [OF Suc.IH]) (use sig(2) step in \<open>auto split: if_splits\<close>)
  qed
qed

lemma yields_type_matches:
  assumes src: "stores src v data" and within: "sec_present s \<Longrightarrow> 0 < sec_begin s \<and> sec_end s \<le> length data"
  shows "yields (holds v data) (type_matches src s wanted params results)
    (\<lambda>_. sec_present s \<and> (\<forall>cap cancel.
       import_type_matches data (sec_begin s) (sec_end s) wanted cap cancel =
         need (signature_matches cap cancel (params, results)) ()))"
  unfolding type_matches_def
proof (rule yields_guard_bind)
  assume present: "sec_present s"
  with within have e: "sec_end s \<le> length data" and b: "sec_begin s \<noteq> 0" by auto
  show "yields (holds v data) (bindE (next_u32 src (sec_end s) (sec_begin s)) (\<lambda>(count, cursor).
      bindE (guardE (\<not> unat count > sec_end s - cursor) ()) (\<lambda>_.
      bindE (match_entries src (sec_end s) wanted params results (unat count) 0 False cursor)
        (\<lambda>(found, cursor). guardE (cursor = sec_end s \<and> found) ()))))
    (\<lambda>_. sec_present s \<and> (\<forall>cap cancel.
       import_type_matches data (sec_begin s) (sec_end s) wanted cap cancel =
         need (signature_matches cap cancel (params, results)) ()))"
    using present b
    by (intro yields_bind_prod [OF yields_next_u32 [OF src e]] yields_guard_bind
        yields_bind_prod [OF yields_match_entries [OF src e]] yields_guard)
       (auto simp: import_type_matches_def need_def word_le_nat_alt)
qed

subsection \<open>Imports\<close>

lemma yields_next_name_if:
  assumes src: "stores src v data" and e: "e \<le> length data"
    and name: "\<exists>name. read_name data e c = GO (name, c1)"
  shows "yields (holds v data) (if b then next_name_is src e c expected else retE (False, c1))
    (\<lambda>(m, c'). c' = c1 \<and> (m \<longleftrightarrow> b \<and> read_name data e c = GO (str_bytes expected, c1)))"
  by (intro yields_if yields_conseq [OF yields_next_name [OF src e]] yields_ret) (use name in auto)

lemma yields_import_field:
  assumes src: "stores src v data" and e: "e \<le> length data"
  shows "yields (holds v data) (import_field src e c)
    (\<lambda>(flags, c'). \<exists>field. read_name data e c = GO (field, c') \<and> flags = field_flags field)"
  unfolding import_field_def
  by (intro yields_bind_prod [OF yields_next_name [OF src e]] yields_ret
        yields_bind_prod [OF yields_next_name_if [OF src e]])
     (auto simp: field_flags_def name_is_def)

lemma yields_next_import:
  assumes src: "stores src v data" and e: "e \<le> length data"
  shows "yields (holds v data) (next_import src e c)
    (\<lambda>((module, flags, kind, type_index), c'). module \<longrightarrow> kind = 0 \<longrightarrow>
       (\<exists>field. flags = field_flags field \<and> read_import data e c = GO ((field, type_index), c')))"
  unfolding next_import_def
  by (intro yields_bind_prod [OF yields_next_name [OF src e]] yields_bind_prod [OF yields_import_field [OF src e]]
        yields_bind_prod [OF yields_next_byte [OF src]] yields_bind_prod [OF yields_next_u32 [OF src e]] yields_ret)
     (auto simp: read_import_def stop_as_def need_def fetch_def name_is_def)

lemma yields_imports_loop:
  assumes src: "stores src v data" and types: "sec_present types \<Longrightarrow> 0 < sec_begin types \<and> sec_end types \<le> length data"
    and imps: "sec_end imports \<le> length data" "scan_import_end st = sec_end imports"
    and st: "(scan_type_begin st, scan_type_end st) = place_of types"
  shows "yields (holds v data) (imports_loop src types imports n seen abi c)
    (\<lambda>(abi', unsupported). \<not> unsupported \<longrightarrow>
       import_loop data st (index + n) index c seen (abi_imported_capabilities abi) =
         GO (abi_imported_capabilities abi', sec_end imports))"
proof (induction n arbitrary: index seen abi c)
  case 0
  show ?case
    by (auto simp: import_loop.simps intro!: yields_guard_bind yields_ret)
next
  case (Suc n)
  show ?case
    unfolding imports_loop.simps
  proof (rule yields_bind [OF yields_next_import [OF src imps(1)]], clarify, intro yields_if, goal_cases)
    case (1 module f1 f2 f3 f4 kind ti c1)
    show ?case by (simp add: yields_ret)
  next
    case (2 module f1 f2 f3 f4 kind ti c1)
    then obtain field where field: "(f1, f2, f3, f4) = field_flags field"
        "read_import data (sec_end imports) c = GO ((field, ti), c1)" by auto
    obtain cap seen_bit params results where wanted:
        "import_wanted (field_flags field) = (cap, seen_bit, params, results)"
      by (cases "import_wanted (field_flags field)") auto
    note cap = field_flags_wanted [OF wanted]
    let ?abi = "abi\<lparr>abi_imported_capabilities := abi_imported_capabilities abi OR cap,
        abi_imported_count := abi_imported_count abi + 1\<rparr>"
    have "yields (holds v data) (imports_loop src types imports n (seen OR seen_bit) ?abi c1)
      (\<lambda>(abi', unsupported). \<not> unsupported \<longrightarrow>
       import_loop data st (index + Suc n) index c seen (abi_imported_capabilities abi) =
         GO (abi_imported_capabilities abi', sec_end imports))"
      if new: "\<not> (cap = 0 \<or> seen AND seen_bit \<noteq> 0)" and present: "sec_present types"
        and matches: "\<forall>cap cancel. import_type_matches data (sec_begin types) (sec_end types) ti cap cancel =
          need (signature_matches cap cancel (params, results)) ()"
    proof (rule yields_conseq [OF Suc.IH [where index = "Suc index"]])
      have "import_type_matches data (scan_type_begin st) (scan_type_end st) ti (import_capability field)
          (name_is field ''timer_cancel'') = GO ()"
        using matches cap new present st by (simp add: need_def place_of_def)
      then have "import_loop data st (index + Suc n) index c seen (abi_imported_capabilities abi) =
          import_loop data st (Suc index + n) (Suc index) c1 (seen OR seen_bit) (abi_imported_capabilities ?abi)"
        using field(2) imps(2) new cap
        by (subst import_loop.simps) (simp add: Let_def need_def stop_as_def)
      then show "case x of (abi', unsupported) \<Rightarrow> \<not> unsupported \<longrightarrow>
          import_loop data st (Suc index + n) (Suc index) c1 (seen OR seen_bit) (abi_imported_capabilities ?abi) =
            GO (abi_imported_capabilities abi', sec_end imports) \<Longrightarrow>
        case x of (abi', unsupported) \<Rightarrow> \<not> unsupported \<longrightarrow>
          import_loop data st (index + Suc n) index c seen (abi_imported_capabilities abi) =
            GO (abi_imported_capabilities abi', sec_end imports)" for x
        by simp
    qed
    then show ?case
      unfolding field(1) wanted prod.case
      by (intro yields_if yields_bind [OF yields_attempt [OF yields_type_matches [OF src types]]])
         (auto intro: yields_ret)
  qed
qed

lemma yields_scan_imports:
  assumes src: "stores src v data" and within: "sections_within data secs" and st: "tracks st last_id secs"
  shows "yields (holds v data) (package_scan_imports src secs abi)
    (\<lambda>(abi', unsupported). \<not> unsupported \<longrightarrow> abi_imported_capabilities abi = 0 \<longrightarrow>
       scan_imports data st = GO (abi_imported_capabilities abi'))"
proof (cases "sec_present (secs ! 2)")
  case False
  then show ?thesis using st
    by (auto simp: package_scan_imports_def scan_imports_def tracks_def place_of_def intro!: yields_ret)
next
  case True
  with within st have imps: "sec_end (secs ! 2) \<le> length data" "scan_import_end st = sec_end (secs ! 2)"
      "scan_import_begin st = sec_begin (secs ! 2)" "scan_import_begin st \<noteq> 0"
    and types: "sec_present (secs ! 1) \<Longrightarrow> 0 < sec_begin (secs ! 1) \<and> sec_end (secs ! 1) \<le> length data"
      "(scan_type_begin st, scan_type_end st) = place_of (secs ! 1)"
    by (auto simp: sections_within_def tracks_def place_of_def)
  have "yields (holds v data) (bindE (next_u32 src (sec_end (secs ! 2)) (sec_begin (secs ! 2)))
      (\<lambda>(count, cursor). if count > 4 then retE (abi, True)
        else imports_loop src (secs ! 1) (secs ! 2) (unat count) 0 abi cursor))
    (\<lambda>(abi', unsupported). \<not> unsupported \<longrightarrow> abi_imported_capabilities abi = 0 \<longrightarrow>
       scan_imports data st = GO (abi_imported_capabilities abi'))"
    using imps
    by (intro yields_bind_prod [OF yields_next_u32 [OF src imps(1)]] yields_if
        yields_conseq [OF yields_imports_loop [OF src types(1) imps(1,2) types(2), where index = 0]])
       (auto simp: scan_imports_def need_def stop_as_def intro: yields_ret)
  with True show ?thesis by (simp add: package_scan_imports_def Let_def)
qed

text \<open>The same for every state of the runtime's scan that agrees with the table.\<close>

lemma yields_scan_imports_all:
  assumes src: "stores src v data" and within: "sections_within data secs"
  shows "yields (holds v data) (package_scan_imports src secs abi)
    (\<lambda>(abi', unsupported). \<not> unsupported \<longrightarrow> abi_imported_capabilities abi = 0 \<longrightarrow>
       (\<forall>st last_id. tracks st last_id secs \<longrightarrow>
          Wasm_Scan.scan_imports data st = GO (abi_imported_capabilities abi')))"
proof -
  note one = yields_scan_imports [OF src within]
  obtain st0 where st0: "tracks st0 0 secs"
  proof
    show "tracks \<lparr>scan_last_section = 0, scan_type_begin = fst (place_of (secs ! 1)),
        scan_type_end = snd (place_of (secs ! 1)), scan_import_begin = fst (place_of (secs ! 2)),
        scan_import_end = snd (place_of (secs ! 2))\<rparr> 0 secs"
      by (simp add: tracks_def)
  qed
  have "yields (holds v data) (package_scan_imports src secs abi)
      (\<lambda>x. tracks st last_id secs \<longrightarrow> (case x of (abi', unsupported) \<Rightarrow> \<not> unsupported \<longrightarrow>
         abi_imported_capabilities abi = 0 \<longrightarrow>
         Wasm_Scan.scan_imports data st = GO (abi_imported_capabilities abi')))" for st last_id
  proof (cases "tracks st last_id secs")
    case True
    then show ?thesis by (intro yields_conseq [OF one]) auto
  next
    case False
    then show ?thesis by (intro yields_conseq [OF one [OF st0]]) auto
  qed
  then show ?thesis by (auto simp: yields_def)
qed

subsection \<open>Exports\<close>

lemma yields_export_target:
  assumes src: "stores src v data" and room: "c + n \<le> length data"
  shows "yields (holds v data) (export_target src c n item names)
    (\<lambda>target. \<forall>i. target = Some i \<longrightarrow> item \<le> i \<and> i < item + length names \<and>
       window data c (c + n) = str_bytes (names ! (i - item)))"
proof (induction names arbitrary: item)
  case Nil
  show ?case by (simp add: yields_ret)
next
  case (Cons name names)
  note rest = yields_conseq [OF Cons.IH [of "Suc item"], of "\<lambda>target. \<forall>i. target = Some i \<longrightarrow>
      item \<le> i \<and> i < item + length (name # names) \<and>
      window data c (c + n) = str_bytes ((name # names) ! (i - item))"]
  show ?case
    unfolding export_target.simps
    by (intro yields_if yields_bind [OF yields_compare [OF src]] rest yields_ret)
       (auto simp: nth_Cons')
qed

lemma yields_next_export:
  assumes src: "stores src v data" and e: "e \<le> length data"
  shows "yields (holds v data) (next_export src e c)
    (\<lambda>((target, kind, index), c'). \<exists>name. export_at data e c (name, kind, index) c' \<and>
       (\<forall>i. target = Some i \<longrightarrow> i < 4 \<and> name = str_bytes (export_names ! i)))"
  unfolding next_export_def
proof (intro yields_bind_prod [OF yields_next_u32 [OF src e]] yields_guard_bind)
  fix n c1 assume "case (n, c1) of (x, c') \<Rightarrow> read_u32 data e c = GO (x, c')" and fits: "\<not> unat n > e - c1"
  then have n: "read_u32 data e c = GO (n, c1)" by simp
  have room: "c1 + unat n \<le> length data" using read_u32_advances [OF n e] fits e by linarith
  then have name: "read_name data e c = GO (window data c1 (c1 + unat n), c1 + unat n)"
    using n fits by (simp add: read_name_def scan_simps)
  show "yields (holds v data) (bindE (export_target src c1 (unat n) 0 export_names) (\<lambda>target.
      bindE (next_byte src e (c1 + unat n)) (\<lambda>(kind, cursor).
      bindE (next_u32 src e cursor) (\<lambda>(wasm_index, cursor).
      retE ((target, kind, wasm_index), cursor)))))
    (\<lambda>((target, kind, index), c'). \<exists>name. export_at data e c (name, kind, index) c' \<and>
       (\<forall>i. target = Some i \<longrightarrow> i < 4 \<and> name = str_bytes (export_names ! i)))"
    using name
    by (intro yields_bind [OF yields_export_target [OF src room]] yields_bind_prod [OF yields_next_byte [OF src]]
        yields_bind_prod [OF yields_next_u32 [OF src e]] yields_ret)
       (auto simp: export_at_def export_names_def)
qed

lemma yields_exports_loop:
  assumes src: "stores src v data" and e: "sec_end s \<le> length data"
  shows "yields (holds v data) (exports_loop src s n found abi c)
    (\<lambda>(abi', unsupported). \<not> unsupported \<longrightarrow>
       abi_imported_capabilities abi' = abi_imported_capabilities abi \<and>
       export_loop data (sec_end s) (index + n) index c = GO (sec_end s))"
proof (induction n arbitrary: index found abi c)
  case 0
  show ?case by (auto simp: export_loop.simps intro!: yields_guard_bind yields_ret)
next
  case (Suc n)
  show ?case
    unfolding exports_loop.simps
  proof (rule yields_bind_prod [OF yields_next_export [OF src e]], clarify)
    fix target kind x c1 name
    assume at: "export_at data (sec_end s) c (name, kind, x) c1"
      and target: "\<forall>i. target = Some i \<longrightarrow> i < 4 \<and> name = str_bytes (export_names ! i)"
    show "yields (holds v data) (case target of None \<Rightarrow> retE (abi, True) | Some target \<Rightarrow>
        if found AND push_bit target 1 \<noteq> 0 \<or> kind \<noteq> (if target = 3 then 2 else 0) \<or> (target = 3 \<and> x \<noteq> 0)
        then retE (abi, True)
        else exports_loop src s n (found OR push_bit target 1)
          (if target < 3 then abi\<lparr>abi_functions := (abi_functions abi)[target := x]\<rparr> else abi) c1)
      (\<lambda>(abi', unsupported). \<not> unsupported \<longrightarrow>
         abi_imported_capabilities abi' = abi_imported_capabilities abi \<and>
         export_loop data (sec_end s) (index + Suc n) index c = GO (sec_end s))"
    proof (cases target)
      case (Some i)
      with target at have i: "i < 4" "export_at data (sec_end s) c (str_bytes (export_names ! i), kind, x) c1"
        by auto
      have step: "export_loop data (sec_end s) (index + Suc n) index c = GO (sec_end s)"
        if "kind = (if i = 3 then 2 else 0)"
          "export_loop data (sec_end s) (Suc index + n) (Suc index) c1 = GO (sec_end s)"
        using export_step [OF i(2,1) that(1) e] that(2) by simp
      have same: "abi_imported_capabilities (if i < 3 then abi\<lparr>abi_functions := fs\<rparr> else abi) =
          abi_imported_capabilities abi" for fs
        by simp
      show ?thesis
        unfolding Some option.case
      proof (intro yields_if yields_conseq [OF Suc.IH [where index = "Suc index"]], goal_cases)
        case (2 x)
        then show ?case using step same by (cases x) (simp del: if_split add: add_Suc_right)
      qed (simp add: yields_ret)
    qed (simp add: yields_ret)
  qed
qed

lemma yields_scan_exports:
  assumes src: "stores src v data" and e: "sec_end s \<le> length data"
  shows "yields (holds v data) (package_scan_exports src s abi)
    (\<lambda>(abi', unsupported). \<not> unsupported \<longrightarrow>
       abi_imported_capabilities abi' = abi_imported_capabilities abi \<and>
       Wasm_Scan.scan_exports data (sec_end s) (sec_begin s) = GO ())"
  unfolding package_scan_exports_def
  by (intro yields_bind_prod [OF yields_next_u32 [OF src e]] yields_if
      yields_conseq [OF yields_exports_loop [OF src e, where index = 0]])
     (auto simp: scan_exports_def stop_as_def need_def intro: yields_ret)

subsection \<open>Memory\<close>

lemma yields_scan_memory:
  assumes src: "stores src v data" and e: "sec_end s \<le> length data"
  shows "yields (holds v data) (scan_memory src s limit)
    (\<lambda>_. memory_limits_ok data (sec_end s) (sec_begin s) (limit div WASM_PAGE_BYTES) = GO ())"
  unfolding scan_memory_def
  by (intro yields_bind_prod [OF yields_next_u32 [OF src e]] yields_guard_bind yields_guard)
     (auto simp: memory_limits_ok_def need_def)

end

end
