(* ===== verification/Package_Frame.thy ===== *)
theory Package_Frame
  imports Package_Sections
begin

text \<open>
  The reads of the package check.  A view of the device that no read of at most 512 bytes inside
  the payload changes is left alone by the whole check: so no other read is ever made, and
  nothing but reads and digests touches the device.
\<close>

definition window_read :: "nat \<Rightarrow> nat \<Rightarrow> nat \<Rightarrow> nat \<Rightarrow> bool" where
  "window_read base len offset n \<longleftrightarrow>
     0 < n \<and> n \<le> 512 \<and> base \<le> offset \<and> offset + n \<le> base + len"

definition window_keeps :: "('d \<Rightarrow> 'v) \<Rightarrow> 'd package_read_fn \<Rightarrow> nat \<Rightarrow> nat \<Rightarrow> bool" where
  "window_keeps view read_fn base len \<longleftrightarrow>
     (\<forall>offset n. window_read base len offset n \<longrightarrow> keeps view (read_fn offset n))"

definition source_keeps :: "('d \<Rightarrow> 'v) \<Rightarrow> 'd wasm_source \<Rightarrow> bool" where
  "source_keeps view src \<longleftrightarrow> window_keeps view (ws_read_fn src) (ws_base src) (ws_size src)"

abbreviation reader_view :: "('d \<Rightarrow> 'v) \<Rightarrow> 'd wasm_reader \<Rightarrow> 'v" where
  "reader_view view \<equiv> (\<lambda>r. view (wr_device r))"

lemma block_window:
  assumes "offset < len"
  shows "window_read base len (base + offset div 512 * 512)
    (if len - offset div 512 * 512 < 512 then len - offset div 512 * 512 else 512)"
proof -
  have begins: "offset div 512 * 512 \<le> offset" "offset < offset div 512 * 512 + 512"
    using div_mod_decomp [of offset 512] mod_less_divisor [of 512 offset] by auto
  show ?thesis
    using block_room [OF begins assms] begins assms by (auto simp: window_read_def)
qed

lemma byte_at_keeps [frame_intros]:
  assumes "source_keeps view src"
  shows "keeps (reader_view view) (byte_at src offset)"
proof (rule keepsI)
  fix r result r' assume run: "byte_at src offset r = (result, r')"
  let ?from = "offset div 512 * 512"
  let ?n = "if ws_size src - ?from < 512 then ws_size src - ?from else 512"
  have "keeps view (ws_read_fn src (ws_base src + ?from) ?n)" if "offset < ws_size src"
    using assms block_window [OF that] by (simp add: source_keeps_def window_keeps_def)
  then show "reader_view view r' = reader_view view r"
    using run by (auto simp: byte_at_def WASM_READ_BYTES_def Let_def simp del: if_split
        split: if_split_asm prod.splits option.splits dest!: keepsD)
qed

lemma keeps_bind_prod [frame_intros]:
  "keeps V m \<Longrightarrow> (\<And>x y. keeps V (f x y)) \<Longrightarrow> keeps V (bindE m (\<lambda>(x, y). f x y))"
  by (rule keeps_bindE) auto

lemma keeps_bind_prod3 [frame_intros]:
  "keeps V m \<Longrightarrow> (\<And>x y z. keeps V (f x y z)) \<Longrightarrow> keeps V (bindE m (\<lambda>(x, y, z). f x y z))"
  by (rule keeps_bindE) auto

lemma keeps_bind_after:
  assumes "keeps V m" and "\<And>x d d1. m d = (Inr x, d1) \<Longrightarrow> keeps V (f x)"
  shows "keeps V (bindE m f)"
proof (rule keepsI)
  fix d r d' assume "bindE m f d = (r, d')"
  then show "V d' = V d"
  proof (cases rule: bindE_cases)
    case (ok x d1)
    then show ?thesis using keepsD [OF assms(1) ok(1)] keepsD [OF assms(2) [OF ok(1)] ok(2)] by simp
  qed (rule keepsD [OF assms(1)])
qed

lemma attempt_keeps [frame_intros]: "keeps V m \<Longrightarrow> keeps V (attempt m)"
  by (auto simp: keeps_def attempt_def split: prod.splits) (metis snd_conv)

lemma next_byte_keeps [frame_intros]: "source_keeps view src \<Longrightarrow> keeps (reader_view view) (next_byte src e c)"
  unfolding next_byte_def by (intro frame_intros)

lemma next_u32_from_keeps [frame_intros]:
  "source_keeps view src \<Longrightarrow> keeps (reader_view view) (next_u32_from src e ks c v)"
proof (induction ks arbitrary: c v)
  case (Cons k ks)
  then show ?case unfolding next_u32_from.simps by (intro frame_intros)
qed (simp add: frame_intros)

lemma next_u32_keeps [frame_intros]: "source_keeps view src \<Longrightarrow> keeps (reader_view view) (next_u32 src e c)"
  unfolding next_u32_def by (intro frame_intros)

lemma compare_bytes_keeps [frame_intros]:
  "source_keeps view src \<Longrightarrow> keeps (reader_view view) (compare_bytes src c expected same)"
proof (induction expected arbitrary: c same)
  case (Cons b expected)
  then show ?case unfolding compare_bytes.simps by (intro frame_intros)
qed (simp add: frame_intros)

lemma next_name_keeps [frame_intros]:
  "source_keeps view src \<Longrightarrow> keeps (reader_view view) (next_name_is src e c s)"
  unfolding next_name_is_def by (intro frame_intros)

lemma expect_bytes_keeps [frame_intros]:
  "source_keeps view src \<Longrightarrow> keeps (reader_view view) (expect_bytes src c expected)"
proof (induction expected arbitrary: c)
  case (Cons b expected)
  then show ?case unfolding expect_bytes.simps by (intro frame_intros)
qed (simp add: frame_intros)

lemma next_section_keeps [frame_intros]:
  "source_keeps view src \<Longrightarrow> keeps (reader_view view) (next_section src c)"
  unfolding next_section_def by (intro frame_intros)

lemma sections_loop_keeps [frame_intros]:
  assumes "source_keeps view src"
  shows "keeps (reader_view view) (sections_loop src c last_id secs)"
proof (induction "ws_size src - c" arbitrary: c last_id secs rule: less_induct)
  case less
  have later: "keeps (reader_view view) (sections_loop src e l s)"
    if "next_section src c r0 = (Inr (k, b, e), r1)" "c < ws_size src" for r0 k b e r1 l s
    using less.hyps [of e l s] next_section_advances [OF that(1)] diff_less_mono2 [of c e "ws_size src"]
      that(2) by auto
  show ?case
    unfolding sections_loop_step [of src c]
    by (rule keeps_if, rule keeps_bind_after [OF next_section_keeps [OF assms]], clarify)
       (intro frame_intros later assms; simp)+
qed

lemma scan_sections_keeps [frame_intros]:
  "source_keeps view src \<Longrightarrow> keeps (reader_view view) (scan_sections src)"
  unfolding scan_sections_def by (intro frame_intros)

lemma keeps_case_prod [frame_intros]:
  "(\<And>x y. keeps V (f x y)) \<Longrightarrow> keeps V (case p of (x, y) \<Rightarrow> f x y)"
  by (cases p) simp

lemma keeps_case_prod_fun [frame_intros]:
  "(\<And>x z. keeps V (f x z y)) \<Longrightarrow> keeps V ((case p of (x, z) \<Rightarrow> f x z) y)"
  by (cases p) simp

lemma keeps_case_option [frame_intros]:
  "keeps V m \<Longrightarrow> (\<And>x. keeps V (f x)) \<Longrightarrow> keeps V (case p of None \<Rightarrow> m | Some x \<Rightarrow> f x)"
  by (cases p) simp_all

lemma match_types_keeps [frame_intros]:
  "source_keeps view src \<Longrightarrow> keeps (reader_view view) (match_types src e n part wanted m c)"
proof (induction n arbitrary: part m c)
  case (Suc n)
  then show ?case unfolding match_types.simps by (intro frame_intros)
qed (simp add: frame_intros)

lemma match_entry_keeps [frame_intros]:
  "source_keeps view src \<Longrightarrow> keeps (reader_view view) (match_entry src e params results w c)"
  unfolding match_entry_def by (intro frame_intros)

lemma match_entries_keeps [frame_intros]:
  "source_keeps view src \<Longrightarrow> keeps (reader_view view) (match_entries src e wanted params results n index found c)"
proof (induction n arbitrary: index found c)
  case (Suc n)
  then show ?case unfolding match_entries.simps by (intro frame_intros)
qed (simp add: frame_intros)

lemma type_matches_keeps [frame_intros]:
  "source_keeps view src \<Longrightarrow> keeps (reader_view view) (type_matches src s wanted params results)"
  unfolding type_matches_def by (intro frame_intros)

lemma next_import_keeps [frame_intros]:
  "source_keeps view src \<Longrightarrow> keeps (reader_view view) (next_import src e c)"
  unfolding next_import_def import_field_def by (intro frame_intros)

lemma imports_loop_keeps [frame_intros]:
  "source_keeps view src \<Longrightarrow> keeps (reader_view view) (imports_loop src types imps n seen abi c)"
proof (induction n arbitrary: seen abi c)
  case (Suc n)
  then show ?case unfolding imports_loop.simps by (intro frame_intros)
qed (simp add: frame_intros)

lemma package_scan_imports_keeps [frame_intros]:
  "source_keeps view src \<Longrightarrow> keeps (reader_view view) (package_scan_imports src secs abi)"
  unfolding package_scan_imports_def by (intro frame_intros)

lemma export_target_keeps [frame_intros]:
  "source_keeps view src \<Longrightarrow> keeps (reader_view view) (export_target src c n item names)"
proof (induction names arbitrary: item)
  case (Cons name names)
  then show ?case unfolding export_target.simps by (intro frame_intros)
qed (simp add: frame_intros)

lemma next_export_keeps [frame_intros]:
  "source_keeps view src \<Longrightarrow> keeps (reader_view view) (next_export src e c)"
  unfolding next_export_def by (intro frame_intros)

lemma exports_loop_keeps [frame_intros]:
  "source_keeps view src \<Longrightarrow> keeps (reader_view view) (exports_loop src s n found abi c)"
proof (induction n arbitrary: found abi c)
  case (Suc n)
  then show ?case unfolding exports_loop.simps by (intro frame_intros)
qed (simp add: frame_intros)

lemma package_scan_exports_keeps [frame_intros]:
  "source_keeps view src \<Longrightarrow> keeps (reader_view view) (package_scan_exports src s abi)"
  unfolding package_scan_exports_def by (intro frame_intros)

lemma function_types_keeps [frame_intros]:
  "source_keeps view src \<Longrightarrow> keeps (reader_view view) (function_types src e wanted k n index ti c)"
proof (induction n arbitrary: index ti c)
  case (Suc n)
  then show ?case unfolding function_types.simps by (intro frame_intros)
qed (simp add: frame_intros)

lemma functions_loop_keeps [frame_intros]:
  "source_keeps view src \<Longrightarrow> keeps (reader_view view) (functions_loop src secs k ks abi)"
proof (induction ks arbitrary: abi)
  case (Cons x ks)
  then show ?case unfolding functions_loop.simps function_type_def by (intro frame_intros)
qed (simp add: frame_intros)

lemma scan_memory_keeps [frame_intros]:
  "source_keeps view src \<Longrightarrow> keeps (reader_view view) (scan_memory src s limit)"
  unfolding scan_memory_def by (intro frame_intros)

lemma code_bodies_keeps [frame_intros]:
  "source_keeps view src \<Longrightarrow> keeps (reader_view view) (code_bodies src e n c)"
proof (induction n arbitrary: c)
  case (Suc n)
  then show ?case unfolding code_bodies.simps by (intro frame_intros)
qed (simp add: frame_intros)

lemma scan_code_keeps [frame_intros]:
  "source_keeps view src \<Longrightarrow> keeps (reader_view view) (scan_code src s n)"
  unfolding scan_code_def by (intro frame_intros)

lemma scan_payload_keeps:
  "source_keeps view src \<Longrightarrow> keeps (reader_view view) (scan_payload src info)"
  unfolding scan_payload_def by (intro frame_intros)

subsection \<open>The digest and the check\<close>

lemma chunk_window:
  "offset < len \<Longrightarrow> window_read base len (base + offset) (if len - offset < 512 then len - offset else 512)"
  by (auto simp: window_read_def)

context psa_frame
begin

lemma payload_loop_keeps:
  assumes src: "source_keeps view src"
  shows "keeps view (payload_loop psa src digest offset)"
proof (rule keepsI)
  fix d r d'
  show "payload_loop psa src digest offset d = (r, d') \<Longrightarrow> view d' = view d"
  proof (induction "ws_size src - offset" arbitrary: offset digest d rule: less_induct)
    case less
    let ?n = "if ws_size src - offset < WASM_READ_BYTES then ws_size src - offset else WASM_READ_BYTES"
    show ?case
    proof (cases "offset < ws_size src")
      case True
      have read: "keeps view (ws_read_fn src (ws_base src + offset) ?n)"
        using src chunk_window [OF True] unfolding source_keeps_def window_keeps_def WASM_READ_BYTES_def by blast
      have smaller: "ws_size src - (offset + ?n) < ws_size src - offset" using True by (auto simp: WASM_READ_BYTES_def)
      obtain block d1 where block: "ws_read_fn src (ws_base src + offset) ?n d = (block, d1)" by fastforce
      note v1 = keepsD [OF read block]
      show ?thesis
      proof (cases block)
        case None
        then show ?thesis using less.prems True block v1
          by (subst (asm) payload_loop.simps) (auto simp add: Let_def simp del: if_split)
      next
        case (Some bs)
        obtain ok dg d2 where dg: "digest_update psa digest bs d1 = ((ok, dg), d2)" by (metis prod.exhaust)
        note v2 = keepsD [OF digest_update_keeps dg]
        have run: "(if ok then payload_loop psa src dg (offset + ?n) d2
            else (Inl PACKAGE_WASM_INVALID, digest_abort psa dg d2)) = (r, d')"
          using less.prems True block Some dg
          by (subst (asm) payload_loop.simps)
             (cases ok; simp add: Let_def del: if_split)
        show ?thesis
        proof (cases ok)
          case True
          with run less.hyps [OF smaller] v1 v2 show ?thesis by simp
        next
          case False
          with run v1 v2 show ?thesis by auto
        qed
      qed
    next
      case False
      then show ?thesis using less.prems by (simp add: payload_loop.simps)
    qed
  qed
qed

lemma verify_payload_digest_keeps:
  assumes "source_keeps view src"
  shows "keeps view (verify_payload_digest psa src expected)"
  by (rule keepsI)
     (auto simp: verify_payload_digest_def split: prod.splits option.splits sum.splits
       dest!: keepsD [OF digest_start_keeps] keepsD [OF payload_loop_keeps [OF assms]]
         keepsD [OF digest_finish_keeps])

lemma package_wasm_check_keeps:
  assumes "\<And>rf i. read_fn = Some rf \<Longrightarrow> info = Some i \<Longrightarrow>
    window_keeps view rf (pi_wasm_offset_bytes i) (pi_wasm_size_bytes i)"
  shows "keeps view (package_wasm_check psa read_fn info authorization workspace)"
proof (rule keepsI)
  fix d r d' assume run: "package_wasm_check psa read_fn info authorization workspace d = (r, d')"
  show "view d' = view d"
  proof (cases "\<exists>rf i a b. read_fn = Some rf \<and> info = Some i \<and> authorization = Some a \<and> workspace = Some b")
    case True
    then obtain rf i a b where some: "read_fn = Some rf" "info = Some i" "authorization = Some a"
        "workspace = Some b" by blast
    let ?src = "\<lparr>ws_read_fn = rf, ws_base = pi_wasm_offset_bytes i, ws_size = pi_wasm_size_bytes i\<rparr>"
    have src: "source_keeps view ?src" using assms [OF some(1,2)] by (simp add: source_keeps_def)
    show ?thesis
      using run some
      by (auto simp: package_wasm_check_def Let_def split: if_splits prod.splits sum.splits
          dest!: keepsD [OF scan_payload_keeps [OF src]] keepsD [OF verify_payload_digest_keeps [OF src]])
  next
    case False
    then show ?thesis using run
      by (auto simp: package_wasm_check_def split: option.splits)
  qed
qed

end

end
