(* ===== verification/Package_Refine.thy ===== *)
theory Package_Refine
  imports Package_Scans Package_Frame
begin

text \<open>
  What an accepted payload is: the scans of \<open>econtainer_package_wasm_check\<close> put together, the
  digest of the second pass, and the conclusion for the runtime, which scans the same bytes
  again when it opens them.
\<close>

lemma yields_conj: "yields I m P \<Longrightarrow> yields I m Q \<Longrightarrow> yields I m (\<lambda>x. P x \<and> Q x)"
  by (auto simp: yields_def)

lemma yields_any: "yields I m P \<Longrightarrow> yields I m (\<lambda>_. True)"
  by (simp add: yields_def)

lemma table_okD:
  "table_ok data secs \<Longrightarrow> sections_within data secs"
  "table_ok data secs \<Longrightarrow> k \<in> {1, 3, 5, 7, 10} \<Longrightarrow> sec_present (secs ! k) \<and> 0 < sec_begin (secs ! k) \<and>
     sec_begin (secs ! k) \<le> sec_end (secs ! k) \<and> sec_end (secs ! k) \<le> length data"
  by (auto simp: table_ok_def sections_within_def)

lemma table_module:
  assumes table: "table_ok data secs"
    and exports: "Wasm_Scan.scan_exports data (sec_end (secs ! 7)) (sec_begin (secs ! 7)) = GO ()"
    and imps: "\<And>st last_id. tracks st last_id secs \<Longrightarrow> Wasm_Scan.scan_imports data st = GO caps"
  shows "scan_module (Some data) = GO caps"
proof -
  obtain st last_id where "section_loop data (length wasm_header) initial_scan = GO st" "tracks st last_id secs"
    using table exports by (auto simp: table_ok_def)
  then show ?thesis
    using table imps by (auto simp: table_ok_def scan_module_def need_def fetch_slice_def)
qed

lemma table_memory:
  assumes table: "table_ok data secs" and accepted: "scan_module (Some data) = GO caps" and pages: "pages \<noteq> 0"
    and limits: "memory_limits_ok data (sec_end (secs ! 5)) (sec_begin (secs ! 5)) pages = GO ()"
  shows "wasm_memory_within_limit (Some data) pages = GO ()"
proof -
  have "length wasm_header = 8" by (simp add: wasm_header_def)
  then have "memory_loop data pages 8 = GO ()" using table limits by (simp add: table_ok_def)
  moreover have "wasm_check (Some data) = GO WASM_OK" using accepted wasm_check_OK by blast
  ultimately show ?thesis using pages by (simp add: wasm_memory_within_limit_def need_def stop_as_def)
qed

text \<open>What the scans have established when \<open>scan_payload\<close> returns OK.\<close>

definition payload_scanned :: "bytes \<Rightarrow> package_info \<Rightarrow> bool" where
  "payload_scanned data info \<longleftrightarrow> (\<exists>caps. scan_module (Some data) = GO caps \<and>
     caps AND NOT (pi_requested_capabilities info) = 0 \<and>
     (pi_memory_limit_bytes info div WASM_PAGE_BYTES \<noteq> 0 \<longrightarrow>
        wasm_memory_within_limit (Some data) (pi_memory_limit_bytes info div WASM_PAGE_BYTES) = GO ()))"

context package_source
begin

lemma yields_function_types:
  assumes src: "stores src v data" and e: "e \<le> length data"
  shows "yields (holds v data) (function_types src e wanted type_count n index ti c) (\<lambda>_. True)"
proof (induction n arbitrary: index ti c)
  case (Suc n)
  then show ?case
    unfolding function_types.simps
    by (intro yields_bind_prod [OF yields_next_u32 [OF src e]] yields_guard_bind Suc.IH)
qed (simp add: yields_ret)

lemma yields_functions_loop:
  assumes src: "stores src v data" and table: "table_ok data secs"
  shows "yields (holds v data) (functions_loop src secs type_count ks abi) (\<lambda>_. True)"
proof (induction ks arbitrary: abi)
  case (Cons k ks)
  note e = table_okD(2) [OF table, of 3] and types = table_okD(2) [OF table, of 1]
  show ?case
    unfolding functions_loop.simps function_type_def
    using e types
    by (intro yields_if yields_bind_prod [OF yields_bind_prod [OF yields_next_u32 [OF src]]] yields_guard_bind
        yields_bind_prod [OF yields_function_types [OF src]] yields_bind [OF yields_type_matches [OF src]] Cons.IH)
       (auto intro: yields_ret)
qed (simp add: yields_ret)

lemma yields_code_bodies:
  assumes src: "stores src v data" and e: "e \<le> length data"
  shows "yields (holds v data) (code_bodies src e n c) (\<lambda>_. True)"
proof (induction n arbitrary: c)
  case (Suc n)
  then show ?case
    unfolding code_bodies.simps
    by (intro yields_bind_prod [OF yields_next_u32 [OF src e]] yields_guard_bind
        yields_bind [OF yields_byte_at [OF src]] Suc.IH)
qed (simp add: yields_ret)

lemma yields_scan_code:
  assumes src: "stores src v data" and e: "sec_end s \<le> length data"
  shows "yields (holds v data) (scan_code src s n) (\<lambda>_. True)"
  unfolding scan_code_def
  by (intro yields_bind_prod [OF yields_next_u32 [OF src e]] yields_guard_bind
      yields_bind [OF yields_code_bodies [OF src e]] yields_guard) auto

lemma yields_payload_rest:
  assumes src: "stores src v data" and table: "table_ok data secs"
    and caps: "scan_module (Some data) = GO caps" "caps AND NOT (pi_requested_capabilities info) = 0"
  shows "yields (holds v data)
      (bindE (next_u32 src (sec_end (secs ! 1)) (sec_begin (secs ! 1))) (\<lambda>(type_count, _).
        bindE (functions_loop src secs type_count [0, 1, 2] abi) (\<lambda>checked.
        case checked of None \<Rightarrow> retE PACKAGE_WASM_UNSUPPORTED | Some abi \<Rightarrow>
          bindE (scan_memory src (secs ! 5) (pi_memory_limit_bytes info)) (\<lambda>_.
          bindE (scan_code src (secs ! 10) (abi_defined_count abi)) (\<lambda>_.
          retE PACKAGE_WASM_OK)))))
     (\<lambda>result. result = PACKAGE_WASM_OK \<longrightarrow> payload_scanned data info)"
proof -
  note within = table_okD(2) [OF table]
  have fin: "yields (holds v data)
      (bindE (scan_memory src (secs ! 5) (pi_memory_limit_bytes info)) (\<lambda>_.
       bindE (scan_code src (secs ! 10) (abi_defined_count abi)) (\<lambda>_. retE PACKAGE_WASM_OK)))
     (\<lambda>result. result = PACKAGE_WASM_OK \<longrightarrow> payload_scanned data info)" for abi
    using within caps table_memory [OF table caps(1)]
    by (intro yields_bind [OF yields_scan_memory [OF src]] yields_bind [OF yields_scan_code [OF src]] yields_ret)
       (auto simp: payload_scanned_def)
  show ?thesis
    using within
    by (intro yields_bind_prod [OF yields_next_u32 [OF src]] yields_bind [OF yields_functions_loop [OF src table]])
       (auto intro: fin yields_ret split: option.splits)
qed

lemma yields_scan_payload:
  assumes src: "stores src v data"
  shows "yields (holds v data) (scan_payload src info)
    (\<lambda>result. result = PACKAGE_WASM_OK \<longrightarrow> payload_scanned data info)"
  unfolding scan_payload_def
proof (rule yields_bind_prod [OF yields_scan_sections [OF src]], intro yields_if)
  fix secs and unsupported :: bool
  assume "case (secs, unsupported) of (secs, unsupported) \<Rightarrow> unsupported \<or> table_ok data secs" "\<not> unsupported"
  then have table: "table_ok data secs" by simp
  note within = table_okD(1) [OF table] and exports = table_okD(2) [OF table, of 7]
  show "yields (holds v data)
      (bindE (package_scan_imports src secs zero_abi) (\<lambda>(abi, imports_unsupported).
      bindE (package_scan_exports src (secs ! 7) abi) (\<lambda>(abi, exports_unsupported).
      if imports_unsupported \<or> exports_unsupported then retE PACKAGE_WASM_UNSUPPORTED
      else if abi_imported_capabilities abi AND NOT (pi_requested_capabilities info) \<noteq> 0
      then retE PACKAGE_WASM_INVALID
      else if abi_functions abi ! 0 = abi_functions abi ! 1 \<or>
        abi_functions abi ! 0 = abi_functions abi ! 2 \<or> abi_functions abi ! 1 = abi_functions abi ! 2
      then retE PACKAGE_WASM_UNSUPPORTED
      else
        bindE (next_u32 src (sec_end (secs ! 1)) (sec_begin (secs ! 1))) (\<lambda>(type_count, _).
        bindE (functions_loop src secs type_count [0, 1, 2] abi) (\<lambda>checked.
        case checked of None \<Rightarrow> retE PACKAGE_WASM_UNSUPPORTED | Some abi \<Rightarrow>
          bindE (scan_memory src (secs ! 5) (pi_memory_limit_bytes info)) (\<lambda>_.
          bindE (scan_code src (secs ! 10) (abi_defined_count abi)) (\<lambda>_.
          retE PACKAGE_WASM_OK)))))))
     (\<lambda>result. result = PACKAGE_WASM_OK \<longrightarrow> payload_scanned data info)"
  proof (intro yields_bind_prod [OF yields_scan_imports_all [OF src within]]
      yields_bind_prod [OF yields_scan_exports [OF src]] yields_if, goal_cases)
    case (2 abi1 u1 abi2 u2)
    show ?case by (simp add: yields_ret)
  next
    case (5 abi1 u1 abi2 u2)
    then have caps: "scan_module (Some data) = GO (abi_imported_capabilities abi2)"
        "abi_imported_capabilities abi2 AND NOT (pi_requested_capabilities info) = 0"
      by (auto simp: zero_abi_def intro!: table_module [OF table])
    then show ?case by (intro yields_payload_rest [OF src table])
  qed (use exports in \<open>auto intro: yields_ret\<close>)
qed (simp add: yields_ret)

end

subsection \<open>The digest and the check\<close>

locale package_env =
  package_source read_fn view snapshot +
  digest_engine psa absorbed sha256 view
  for read_fn :: "'d package_read_fn" and view :: "'d \<Rightarrow> 'v" and snapshot
    and psa :: "('d, 'h) psa_api" and absorbed sha256
begin

lemma window_keeps_source: "window_keeps view read_fn base len"
  by (simp add: window_keeps_def read_keeps)

lemma payload_loop_sound:
  assumes src: "ws_read_fn src = read_fn"
  shows "payload_loop psa src digest offset d = (Inr digest', d') \<Longrightarrow> offset \<le> ws_size src \<Longrightarrow>
    absorbed digest' = absorbed digest @ piece (snapshot (view d)) (ws_base src + offset) (ws_size src - offset) \<and>
    (offset < ws_size src \<longrightarrow> ws_base src + ws_size src \<le> length (snapshot (view d)))"
proof (induction "ws_size src - offset" arbitrary: offset digest d rule: less_induct)
  case less
  let ?n = "if ws_size src - offset < WASM_READ_BYTES then ws_size src - offset else WASM_READ_BYTES"
  show ?case
  proof (cases "offset < ws_size src")
    case True
    have n: "0 < ?n" "offset + ?n \<le> ws_size src" using True by (auto simp: WASM_READ_BYTES_def)
    obtain block d1 where block: "read_fn (ws_base src + offset) ?n d = (Some block, d1)"
        and more: "(case digest_update psa digest block d1 of
            ((False, digest), d2) \<Rightarrow> (Inl PACKAGE_WASM_INVALID, digest_abort psa digest d2)
          | ((True, digest), d2) \<Rightarrow> payload_loop psa src digest (offset + ?n) d2) = (Inr digest', d')"
      using less.prems(1) True src
      by (subst (asm) payload_loop.simps) (auto simp add: Let_def simp del: if_split split: prod.splits option.splits)
    note got = read_run [OF block]
    obtain dg d2 where dg: "digest_update psa digest block d1 = ((True, dg), d2)"
        and rest: "payload_loop psa src dg (offset + ?n) d2 = (Inr digest', d')"
      using more by (auto split: prod.splits bool.splits)
    have v: "view d2 = view d" using keepsD [OF digest_update_keeps dg] got by simp
    have "absorbed digest' = absorbed dg @
          piece (snapshot (view d2)) (ws_base src + (offset + ?n)) (ws_size src - (offset + ?n)) \<and>
        (offset + ?n < ws_size src \<longrightarrow> ws_base src + ws_size src \<le> length (snapshot (view d2)))"
      using n by (intro less.hyps [OF _ rest]) linarith+
    moreover have "piece (snapshot (view d)) (ws_base src + offset) (ws_size src - offset) =
        piece (snapshot (view d)) (ws_base src + offset) ?n @
        piece (snapshot (view d)) (ws_base src + (offset + ?n)) (ws_size src - (offset + ?n))"
      using n piece_append [of "snapshot (view d)" "ws_base src + offset" ?n "ws_size src - (offset + ?n)"]
      by (simp add: add.assoc del: if_split)
    moreover have "absorbed dg = absorbed digest @ piece (snapshot (view d)) (ws_base src + offset) ?n"
      using digest_update_absorbed [OF dg] got by simp
    moreover have "ws_base src + ws_size src \<le> length (snapshot (view d))" if "\<not> offset + ?n < ws_size src"
      using got n that by (simp del: if_split)
    ultimately show ?thesis using v True by (auto simp del: if_split)
  next
    case False
    with less.prems show ?thesis by (simp add: payload_loop.simps)
  qed
qed

lemma payload_loop_error: "payload_loop psa src digest offset d \<noteq> (Inl PACKAGE_WASM_OK, d')"
proof -
  have "fst (payload_loop psa src digest offset d) \<noteq> Inl PACKAGE_WASM_OK"
  proof (induction "ws_size src - offset" arbitrary: offset digest d rule: less_induct)
  case less
  let ?n = "if ws_size src - offset < WASM_READ_BYTES then ws_size src - offset else WASM_READ_BYTES"
  have "ws_size src - (offset + ?n) < ws_size src - offset" if "offset < ws_size src"
    using that by (auto simp: WASM_READ_BYTES_def)
  note later = less.hyps [OF this]
  then show ?case
    by (cases "offset < ws_size src"; subst payload_loop.simps)
       (auto simp: Let_def simp del: if_split split: prod.split option.split bool.split)
  qed
  then show ?thesis by auto
qed

lemma verify_payload_digest_sound:
  assumes src: "ws_read_fn src = read_fn" and payload: "0 < ws_size src"
    and run: "verify_payload_digest psa src expected d = (PACKAGE_WASM_OK, d')"
  shows "ws_base src + ws_size src \<le> length (snapshot (view d)) \<and>
    sha256 (piece (snapshot (view d)) (ws_base src) (ws_size src)) = expected"
proof -
  obtain dg d1 dg' d2 where start: "digest_start psa d = (Some dg, d1)"
      and loop: "payload_loop psa src dg 0 d1 = (Inr dg', d2)"
      and fin: "digest_finish psa dg' d2 = (Some expected, d')"
    using run
    by (auto simp: payload_loop_error verify_payload_digest_def split: prod.splits option.splits sum.splits if_splits)
  have "view d1 = view d" using keepsD [OF digest_start_keeps start] .
  then show ?thesis
    using payload_loop_sound [OF src loop] digest_start_absorbed [OF start] digest_finish_sha256 [OF fin] payload
    by auto
qed

text \<open>
  An OK of the check: the payload lies in the snapshot and has the digest, it passes the
  runtime's scans, and what it asks for is what was signed and allowed.
\<close>

lemma package_wasm_check_sound:
  assumes run: "package_wasm_check psa (Some read_fn) (Some info) (Some authorization) workspace d =
    (PACKAGE_WASM_OK, d')"
  defines "payload \<equiv> piece (snapshot (view d)) (pi_wasm_offset_bytes info) (pi_wasm_size_bytes info)"
  shows "pi_wasm_offset_bytes info + pi_wasm_size_bytes info \<le> length (snapshot (view d)) \<and>
    sha256 payload = pi_wasm_sha256 info \<and> payload_scanned payload info \<and>
    wasm_arguments_ok info authorization \<and> wasm_authorized info authorization \<and>
    pi_guest_abi_version info = 1 \<and> pi_is_classic_profile info \<and> \<not> pi_has_unknown_capability info"
proof -
  let ?src = "\<lparr>ws_read_fn = read_fn, ws_base = pi_wasm_offset_bytes info, ws_size = pi_wasm_size_bytes info\<rparr>"
  obtain block where ws: "workspace = Some block"
    using run by (cases workspace) (auto simp: package_wasm_check_def)
  let ?reader = "\<lparr>wr_block = block, wr_cached_begin = 0, wr_cached_size = 0, wr_read_failed = False, wr_device = d\<rparr>"
  have guards: "wasm_arguments_ok info authorization" "wasm_authorized info authorization"
      "pi_guest_abi_version info = 1" "pi_is_classic_profile info" "\<not> pi_has_unknown_capability info"
    using run ws by (auto simp: package_wasm_check_def split: if_splits)
  obtain r' where scan: "scan_payload ?src info ?reader = (Inr PACKAGE_WASM_OK, r')"
      and digest: "verify_payload_digest psa ?src (pi_wasm_sha256 info) (wr_device r') = (PACKAGE_WASM_OK, d')"
    using run ws guards
    by (auto simp: package_wasm_check_def Let_def split: prod.splits sum.splits if_splits)
  have keep: "source_keeps view ?src" using window_keeps_source by (simp add: source_keeps_def)
  have v: "view (wr_device r') = view d" using keepsD [OF scan_payload_keeps [OF keep] scan] by simp
  have size: "0 < pi_wasm_size_bytes info" using guards(1) by (auto simp: wasm_arguments_ok_def)
  have whole: "pi_wasm_offset_bytes info + pi_wasm_size_bytes info \<le> length (snapshot (view d)) \<and>
      sha256 payload = pi_wasm_sha256 info"
    using verify_payload_digest_sound [OF _ _ digest] size v by (simp add: payload_def)
  then have src: "stores ?src (view d) payload" by (simp add: stores_def payload_def)
  have "reader_ok view (view d) payload ?reader" by (simp add: reader_ok_def)
  from yieldsD [OF yields_scan_payload [OF src] this scan] have "payload_scanned payload info" by simp
  with whole guards show ?thesis by blast
qed

end

end
