(* ===== verification/Package_Contents.thy ===== *)
theory Package_Contents
  imports Package_Archive Package_Refine
begin

text \<open>
  What a verified package is.  First the frame: the stream reads only pieces of at most 512
  bytes inside the package.  Then the contents: the snapshot is the canonical archive of a
  manifest, a signature and a payload, as \<open>tar_archive\<close> lays them out.
\<close>

subsection \<open>Reads of the stream\<close>

abbreviation stream_view :: "('d \<Rightarrow> 'v) \<Rightarrow> ('d, 'h) package_stream \<Rightarrow> 'v" where
  "stream_view view \<equiv> (\<lambda>s. view (st_device s))"

text \<open>The loops of the stream as actions.\<close>

lemma stream_bytes_step:
  "n \<noteq> 0 \<Longrightarrow> stream_bytes psa read_fn k n = bindE (stream_read psa read_fn k (tar_piece n))
     (\<lambda>bs. bindE (stream_bytes psa read_fn k (n - tar_piece n)) (\<lambda>rest. retE (bs @ rest)))"
  by (intro ext) (simp add: stream_bytes.simps [of _ _ _ n])

lemma stream_zeros_step:
  "n \<noteq> 0 \<Longrightarrow> stream_zeros psa read_fn k n = bindE (stream_read psa read_fn k (tar_piece n))
     (\<lambda>bs. if list_ex (\<lambda>b. b \<noteq> 0) bs then failE PACKAGE_INVALID
       else stream_zeros psa read_fn k (n - tar_piece n))"
  by (intro ext) (auto simp: stream_zeros.simps [of _ _ _ n] bindE_def split: prod.splits sum.splits)

lemma stream_nothing: "stream_bytes psa read_fn k 0 = retE []" "stream_zeros psa read_fn k 0 = retE ()"
  by (intro ext, simp add: stream_bytes.simps stream_zeros.simps)+

lemma tar_piece_less: "n \<noteq> 0 \<Longrightarrow> n - tar_piece n < n"
  using tar_piece_bounds(1) [of n] by simp

lemma on_device_keeps [frame_intros]: "keeps view m \<Longrightarrow> keeps (stream_view view) (on_device m)"
  by (auto simp: keeps_def on_device_def split: prod.splits) (metis snd_conv)

context psa_frame
begin

lemma stream_read_keeps [frame_intros]:
  assumes "window_keeps view read_fn 0 stream_size" and "n \<noteq> 0"
  shows "keeps (stream_view view) (stream_read psa read_fn stream_size n)"
proof (rule keepsI)
  fix s r s' assume run: "stream_read psa read_fn stream_size n s = (r, s')"
  have "keeps view (read_fn (st_cursor s) n)"
    if "\<not> (n > TAR_BLOCK_BYTES \<or> n > stream_size - st_cursor s)"
    using assms that by (auto simp: window_keeps_def window_read_def TAR_BLOCK_BYTES_def)
  then show "stream_view view s' = stream_view view s"
    using run
    by (auto simp: stream_read_def split: if_splits prod.splits option.splits bool.splits
        dest!: keepsD keepsD [OF digest_update_keeps])
qed

lemma stream_bytes_keeps [frame_intros]:
  assumes "window_keeps view read_fn 0 stream_size"
  shows "keeps (stream_view view) (stream_bytes psa read_fn stream_size n)"
proof (induction n rule: less_induct)
  case (less n)
  show ?case
    using assms tar_piece_bounds(1) [of n]
    by (cases "n = 0") (auto simp: stream_nothing stream_bytes_step intro!: frame_intros less)
qed

lemma stream_zeros_keeps [frame_intros]:
  assumes "window_keeps view read_fn 0 stream_size"
  shows "keeps (stream_view view) (stream_zeros psa read_fn stream_size n)"
proof (induction n rule: less_induct)
  case (less n)
  show ?case
    using assms tar_piece_bounds(1) [of n]
    by (cases "n = 0") (auto simp: stream_nothing stream_zeros_step intro!: frame_intros less)
qed

lemma stream_header_keeps [frame_intros]:
  "window_keeps view read_fn 0 stream_size \<Longrightarrow>
     keeps (stream_view view) (stream_header psa read_fn stream_size name)"
  unfolding stream_header_def by (intro frame_intros) (auto simp: TAR_BLOCK_BYTES_def)

lemma abort_wasm_keeps [frame_intros]: "keeps (stream_view view) (abort_wasm psa dg result)"
  by (simp add: keeps_def abort_wasm_def)

lemma wasm_loop_keeps [frame_intros]:
  assumes "window_keeps view read_fn 0 stream_size"
  shows "keeps (stream_view view) (wasm_loop psa read_fn stream_size m n dg)"
proof (rule keepsI)
  fix s r s'
  show "wasm_loop psa read_fn stream_size m n dg s = (r, s') \<Longrightarrow> stream_view view s' = stream_view view s"
  proof (induction n arbitrary: dg s rule: less_induct)
    case (less n)
    show ?case
    proof (cases "n = 0")
      case True
      then show ?thesis using less.prems by (simp add: wasm_loop.simps)
    next
      case False
      have read: "keeps (stream_view view) (stream_read psa read_fn stream_size (tar_piece n))"
        using tar_piece_bounds(1) [OF False] assms by (intro stream_read_keeps) auto
      obtain q s1 where q: "stream_read psa read_fn stream_size (tar_piece n) s = (q, s1)" by fastforce
      note v1 = keepsD [OF read q]
      obtain ok dg' d where dg: "digest_update psa dg (case q of Inr bs \<Rightarrow> bs | Inl _ \<Rightarrow> []) (st_device s1) = ((ok, dg'), d)"
        by (metis prod.exhaust)
      note v2 = keepsD [OF digest_update_keeps dg]
      show ?thesis
        using less.prems less.IH [of "n - tar_piece n" dg'] tar_piece_bounds(1) [OF False] False q dg v1 v2
        by (subst (asm) wasm_loop.simps)
           (cases q; cases ok; auto simp: abort_wasm_def split: if_splits)
    qed
  qed
qed

lemma verify_end_keeps [frame_intros]:
  "window_keeps view read_fn 0 stream_size \<Longrightarrow> keeps (stream_view view) (verify_end psa read_fn stream_size)"
  by (rule keepsI) (auto simp: verify_end_def split: if_splits dest: keepsD [OF stream_zeros_keeps])

lemma verify_manifest_keeps [frame_intros]:
  "window_keeps view read_fn 0 stream_size \<Longrightarrow>
     keeps (stream_view view) (verify_manifest psa read_fn stream_size key_id max_wasm)"
  unfolding verify_manifest_def by (intro frame_intros) auto

lemma verify_wasm_keeps [frame_intros]:
  "window_keeps view read_fn 0 stream_size \<Longrightarrow>
     keeps (stream_view view) (verify_wasm psa read_fn stream_size max_wasm mf)"
  unfolding verify_wasm_def
  by (intro frame_intros digest_start_keeps digest_finish_keeps) (auto simp: keeps_def)

lemma verify_signature_keeps [frame_intros]:
  assumes "window_keeps view read_fn 0 stream_size"
    and "\<And>signature. keeps view (signature_verify psa keys public_key text signature)"
  shows "keeps (stream_view view) (verify_signature psa keys read_fn stream_size public_key text)"
  unfolding verify_signature_def using assms by (intro frame_intros) auto

lemma package_verify_keeps:
  assumes reads: "\<And>rf. read_fn = Some rf \<Longrightarrow> window_keeps view rf 0 package_size"
    and keys: "\<And>key text signature. keeps view (signature_verify psa keys key text signature)"
  shows "keeps view (package_verify psa keys read_fn package_size max_wasm public_key key_id workspace info)"
proof (rule keepsI)
  fix d r d' assume run: "package_verify psa keys read_fn package_size max_wasm public_key key_id
      workspace info d = (r, d')"
  have members: "view (st_device s') = view (st_device s)"
    if "verify_members psa keys rf package_size max_wasm key ident s = (q, s')" "read_fn = Some rf"
    for rf key ident s q s'
  proof -
    have "keeps (stream_view view) (verify_members psa keys rf package_size max_wasm key ident)"
      unfolding verify_members_def using reads [OF that(2)] by (intro frame_intros keys) auto
    from keepsD [OF this that(1)] show ?thesis .
  qed
  show "view d' = view d"
    using run
    by (auto simp: package_verify_def Let_def split: option.splits if_splits prod.splits sum.splits
        dest!: keepsD [OF digest_start_keeps] keepsD [OF digest_finish_keeps] members)
qed

end

subsection \<open>The canonical archive\<close>

definition tar_member :: "string \<Rightarrow> bytes \<Rightarrow> bytes" where
  "tar_member name body = the (tar_expected name (of_nat (length body))) @ body @
     zeros (tar_padding (length body))"

definition tar_members :: "bytes \<Rightarrow> bytes \<Rightarrow> bytes \<Rightarrow> bytes" where
  "tar_members text signature wasm =
     tar_member ''manifest.json'' text @ tar_member ''signature.bin'' signature @ tar_member ''app.wasm'' wasm"

definition tar_archive :: "bytes \<Rightarrow> bytes \<Rightarrow> bytes \<Rightarrow> bytes" where
  "tar_archive text signature wasm = (let ms = tar_members text signature wasm in
     ms @ zeros (canonical_size (length ms) - length ms))"

text \<open>Where the payload stands in the archive.\<close>

definition wasm_position :: "bytes \<Rightarrow> bytes \<Rightarrow> nat" where
  "wasm_position text signature =
     length (tar_member ''manifest.json'' text @ tar_member ''signature.bin'' signature) + TAR_BLOCK_BYTES"

lemma piece_split: "piece pkg c (m + n) = piece pkg c m @ piece pkg (c + m) n"
  by (simp add: piece_append)

lemma piece_piece: "off + n \<le> len \<Longrightarrow> piece (piece pkg c len) off n = piece pkg (c + off) n"
  by (simp add: piece_def drop_take add.commute min_absorb1)

text \<open>A header, a body and the padding make a member.\<close>

lemma member_at:
  assumes header: "tar_expected name n = Some (piece pkg c TAR_BLOCK_BYTES)"
    and body: "body = piece pkg (c + TAR_BLOCK_BYTES) (unat n)"
    and pad: "piece pkg (c + TAR_BLOCK_BYTES + unat n) (tar_padding (unat n)) = zeros (tar_padding (unat n))"
    and room: "c + TAR_BLOCK_BYTES + unat n + tar_padding (unat n) \<le> length pkg"
  shows "length body = unat n"
    and "length (tar_member name body) = TAR_BLOCK_BYTES + unat n + tar_padding (unat n)"
    and "piece pkg c (length (tar_member name body)) = tar_member name body"
proof -
  show len: "length body = unat n" using body room by simp
  have head: "the (tar_expected name (of_nat (length body))) = piece pkg c TAR_BLOCK_BYTES"
    using header len by simp
  show whole: "length (tar_member name body) = TAR_BLOCK_BYTES + unat n + tar_padding (unat n)"
    using head len room by (simp add: tar_member_def)
  show "piece pkg c (length (tar_member name body)) = tar_member name body"
  proof -
    have "tar_member name body = piece pkg c TAR_BLOCK_BYTES @ piece pkg (c + TAR_BLOCK_BYTES) (unat n) @
        piece pkg (c + TAR_BLOCK_BYTES + unat n) (tar_padding (unat n))"
      using head body pad len by (simp add: tar_member_def)
    then show ?thesis unfolding whole by (simp only: piece_split append_assoc add.assoc)
  qed
qed

lemma canonical_size_ge: "c \<le> canonical_size c"
proof -
  have "c + 2 * TAR_BLOCK_BYTES + TAR_RECORD_BYTES - 1 - canonical_size c < TAR_RECORD_BYTES"
    unfolding canonical_size_def minus_div_mult_eq_mod by (simp add: TAR_RECORD_BYTES_def)
  then show ?thesis by (simp add: TAR_BLOCK_BYTES_def)
qed

subsection \<open>Steps of the stream\<close>

context package_env
begin

definition stream_ok :: "'v \<Rightarrow> ('d, 'h) package_stream \<Rightarrow> bool" where
  "stream_ok v s \<longleftrightarrow> view (st_device s) = v \<and> st_cursor s \<le> length (snapshot v) \<and>
     absorbed (st_digest s) = piece (snapshot v) 0 (st_cursor s)"

text \<open>
  \<open>streams v c m P\<close>: from a good stream at the cursor \<open>c\<close>, an OK of \<open>m\<close> leaves a good stream
  with value and cursor in \<open>P\<close>.
\<close>

definition streams :: "'v \<Rightarrow> nat \<Rightarrow> ('d, 'h, 'a) streaming \<Rightarrow> ('a \<Rightarrow> nat \<Rightarrow> bool) \<Rightarrow> bool" where
  "streams v c m P \<longleftrightarrow> (\<forall>s x s'. stream_ok v s \<longrightarrow> st_cursor s = c \<longrightarrow> m s = (Inr x, s') \<longrightarrow>
     stream_ok v s' \<and> P x (st_cursor s'))"

lemma streamsI:
  "(\<And>s x s'. stream_ok v s \<Longrightarrow> st_cursor s = c \<Longrightarrow> m s = (Inr x, s') \<Longrightarrow>
     stream_ok v s' \<and> P x (st_cursor s')) \<Longrightarrow> streams v c m P"
  by (simp add: streams_def)

lemma streamsD: "streams v c m P \<Longrightarrow> stream_ok v s \<Longrightarrow> st_cursor s = c \<Longrightarrow> m s = (Inr x, s') \<Longrightarrow>
    stream_ok v s' \<and> P x (st_cursor s')"
  by (simp add: streams_def)

lemma streams_bind:
  assumes "streams v c m P" and "\<And>x c'. P x c' \<Longrightarrow> streams v c' (f x) Q"
  shows "streams v c (bindE m f) Q"
proof (rule streamsI)
  fix s y s' assume s: "stream_ok v s" "st_cursor s = c" and "bindE m f s = (Inr y, s')"
  then obtain x s1 where x: "m s = (Inr x, s1)" "f x s1 = (Inr y, s')" by (auto simp: bindE_OK)
  with streamsD [OF assms(1) s] have "stream_ok v s1" "P x (st_cursor s1)" by simp_all
  with streamsD [OF assms(2)] x(2) show "stream_ok v s' \<and> Q y (st_cursor s')" by blast
qed

lemma streams_guard: "(b \<Longrightarrow> streams v c m Q) \<Longrightarrow> streams v c (bindE (guardE b e) (\<lambda>_. m)) Q"
  by (auto simp: streams_def bindE_OK)

lemma streams_ret: "P x c \<Longrightarrow> streams v c (retE x) P"
  by (simp add: streams_def)

lemma streams_fail: "streams v c (failE e) P"
  by (simp add: streams_def)

lemma streams_conseq: "streams v c m P \<Longrightarrow> (\<And>x c'. P x c' \<Longrightarrow> Q x c') \<Longrightarrow> streams v c m Q"
  by (simp add: streams_def)

lemma streams_read:
  "streams v c (stream_read psa read_fn stream_size n) (\<lambda>bs c'. c + n \<le> length (snapshot v) \<and>
     c + n \<le> max c stream_size \<and> bs = piece (snapshot v) c n \<and> c' = c + n)"
proof (rule streamsI)
  fix s bs s' assume s: "stream_ok v s" "st_cursor s = c"
    and run: "stream_read psa read_fn stream_size n s = (Inr bs, s')"
  then obtain d d' dg where read: "read_fn c n (st_device s) = (Some bs, d)"
      and dg: "digest_update psa (st_digest s) bs d = ((True, dg), d')" and fits: "n \<le> stream_size - c"
      and s': "s' = s\<lparr>st_cursor := st_cursor s + n, st_digest := dg, st_device := d'\<rparr>"
    by (auto simp: stream_read_def split: if_splits prod.splits option.splits bool.splits)
  note got = read_run [OF read] and v = keepsD [OF digest_update_keeps dg]
  then show "stream_ok v s' \<and> c + n \<le> length (snapshot v) \<and> c + n \<le> max c stream_size \<and>
      bs = piece (snapshot v) c n \<and> st_cursor s' = c + n"
    using s s' digest_update_absorbed [OF dg] piece_append [of "snapshot v" 0 c n] fits
    by (auto simp: stream_ok_def max_def)
qed

lemma streams_bytes:
  "streams v c (stream_bytes psa read_fn stream_size n) (\<lambda>bs c'.
     c + n \<le> max c (length (snapshot v)) \<and> bs = piece (snapshot v) c n \<and> c' = c + n)"
proof (induction n arbitrary: c rule: less_induct)
  case (less n)
  show ?case
  proof (cases "n = 0")
    case False
    note k = tar_piece_bounds(1) [OF False]
    show ?thesis
      unfolding stream_bytes_step [OF False] using k piece_split [of "snapshot v" c "tar_piece n" "n - tar_piece n"]
      by (intro streams_bind [OF streams_read] streams_bind [OF less] streams_ret) auto
  qed (simp add: stream_nothing streams_ret)
qed

lemma zero_bytes: "\<not> list_ex (\<lambda>b. b \<noteq> 0) bs \<Longrightarrow> bs = zeros (length bs)" for bs :: bytes
  by (induction bs) auto

lemma streams_zeros:
  "streams v c (stream_zeros psa read_fn stream_size n) (\<lambda>_ c'.
     c + n \<le> max c (length (snapshot v)) \<and> piece (snapshot v) c n = zeros n \<and> c' = c + n)"
proof (induction n arbitrary: c rule: less_induct)
  case (less n)
  show ?case
  proof (cases "n = 0")
    case False
    note k = tar_piece_bounds(1) [OF False]
    show ?thesis
      unfolding stream_zeros_step [OF False]
    proof (rule streams_bind [OF streams_read])
      fix bs c' assume bs: "c + tar_piece n \<le> length (snapshot v) \<and> c + tar_piece n \<le> max c stream_size \<and>
          bs = piece (snapshot v) c (tar_piece n) \<and> c' = c + tar_piece n"
      show "streams v c' (if list_ex (\<lambda>b. b \<noteq> 0) bs then failE PACKAGE_INVALID
          else stream_zeros psa read_fn stream_size (n - tar_piece n))
        (\<lambda>_ c'. c + n \<le> max c (length (snapshot v)) \<and> piece (snapshot v) c n = zeros n \<and> c' = c + n)"
      proof (cases "list_ex (\<lambda>b. b \<noteq> 0) bs")
        case False
        from zero_bytes [OF this] bs have "piece (snapshot v) c (tar_piece n) = zeros (tar_piece n)" by simp
        then show ?thesis
          using False k bs piece_split [of "snapshot v" c "tar_piece n" "n - tar_piece n"]
          by (auto intro!: streams_conseq [OF less] simp flip: replicate_add)
      qed (simp add: streams_fail)
    qed
  qed (simp add: stream_nothing streams_ret)
qed

lemma streams_header:
  "streams v c (stream_header psa read_fn stream_size name) (\<lambda>n c'. c' = c + TAR_BLOCK_BYTES \<and>
     c' \<le> length (snapshot v) \<and> tar_expected name n = Some (piece (snapshot v) c TAR_BLOCK_BYTES))"
  unfolding stream_header_def
  by (rule streams_bind [OF streams_read])
     (auto simp: tar_header_matches_def streams_fail split: option.splits intro!: streams_ret)

lemma streams_on_device:
  assumes "keeps view m"
  shows "streams v c (on_device m) (\<lambda>x c'. c' = c \<and> (\<exists>d d'. view d = v \<and> m d = (x, d')))"
proof (rule streamsI)
  fix s x s' assume s: "stream_ok v s" "st_cursor s = c" and "on_device m s = (Inr x, s')"
  then obtain d where d: "m (st_device s) = (x, d)" "s' = s\<lparr>st_device := d\<rparr>"
    by (auto simp: on_device_def split: prod.splits)
  then show "stream_ok v s' \<and> st_cursor s' = c \<and> (\<exists>d d'. view d = v \<and> m d = (x, d'))"
    using s keepsD [OF assms d(1)] by (auto simp: stream_ok_def)
qed

subsection \<open>Members\<close>

lemma streams_verify_manifest:
  "streams v c (verify_manifest psa read_fn stream_size key_id max_wasm) (\<lambda>(text, mf) c'.
     let member = tar_member ''manifest.json'' text in
     c' = c + length member \<and> c' \<le> length (snapshot v) \<and> piece (snapshot v) c (length member) = member \<and>
     0 < length text \<and> length text \<le> PACKAGE_MANIFEST_MAX_BYTES \<and>
     parse_manifest text key_id max_wasm = Some mf)"
  unfolding verify_manifest_def
proof (intro streams_bind [OF streams_header] streams_guard streams_bind [OF streams_bytes]
    streams_bind [OF streams_zeros], goal_cases)
  case (1 n c1 body c2 u c3)
  then have head: "tar_expected ''manifest.json'' n = Some (piece (snapshot v) c TAR_BLOCK_BYTES)"
    and body: "body = piece (snapshot v) (c + TAR_BLOCK_BYTES) (unat n)"
    and pad: "piece (snapshot v) (c + TAR_BLOCK_BYTES + unat n) (tar_padding (unat n)) = zeros (tar_padding (unat n))"
    and room: "c + TAR_BLOCK_BYTES + unat n + tar_padding (unat n) \<le> length (snapshot v)"
    and c3: "c3 = c + TAR_BLOCK_BYTES + unat n + tar_padding (unat n)"
    and n: "0 < unat n" "unat n \<le> PACKAGE_MANIFEST_MAX_BYTES"
    by (auto simp: max_def word_pos_iff split: if_splits)
  note at = member_at [OF head body pad room]
  show ?case
    unfolding Let_def using at c3 n room
    by (cases "parse_manifest body key_id max_wasm") (auto simp: streams_fail intro!: streams_ret)
qed

lemma streams_wasm_loop:
  "streams v c (wasm_loop psa read_fn stream_size m n dg) (\<lambda>dg' c'. c + n \<le> max c (length (snapshot v)) \<and>
     c' = c + n \<and> absorbed dg' = absorbed dg @ piece (snapshot v) c n \<and>
     (n = m \<and> n \<noteq> 0 \<longrightarrow> take 8 (piece (snapshot v) c (tar_piece n)) = wasm_header))"
proof (induction n arbitrary: c dg rule: less_induct)
  case (less n)
  show ?case
  proof (rule streamsI)
    fix s dg' s' assume s: "stream_ok v s" "st_cursor s = c"
      and run: "wasm_loop psa read_fn stream_size m n dg s = (Inr dg', s')"
    show "stream_ok v s' \<and> c + n \<le> max c (length (snapshot v)) \<and> st_cursor s' = c + n \<and>
        absorbed dg' = absorbed dg @ piece (snapshot v) c n \<and>
        (n = m \<and> n \<noteq> 0 \<longrightarrow> take 8 (piece (snapshot v) c (tar_piece n)) = wasm_header)"
    proof (cases "n = 0")
      case True
      then show ?thesis using run s by (simp add: wasm_loop.simps)
    next
      case False
      note k = tar_piece_bounds(1) [OF False]
      obtain bs s1 dg1 d where bs: "stream_read psa read_fn stream_size (tar_piece n) s = (Inr bs, s1)"
          and dg1: "digest_update psa dg bs (st_device s1) = ((True, dg1), d)"
          and rest: "wasm_loop psa read_fn stream_size m (n - tar_piece n) dg1 (s1\<lparr>st_device := d\<rparr>) = (Inr dg', s')"
          and head: "n = m \<longrightarrow> take 8 bs = wasm_header"
        using run False
        by (subst (asm) wasm_loop.simps)
           (auto simp: abort_wasm_def split: prod.splits sum.splits if_splits bool.splits)
      note got = streamsD [OF streams_read s bs]
      have ok: "stream_ok v (s1\<lparr>st_device := d\<rparr>)" "st_cursor (s1\<lparr>st_device := d\<rparr>) = c + tar_piece n"
        using got keepsD [OF digest_update_keeps dg1] by (auto simp: stream_ok_def)
      have "stream_ok v s' \<and> c + tar_piece n + (n - tar_piece n) \<le> max (c + tar_piece n) (length (snapshot v)) \<and>
          st_cursor s' = c + tar_piece n + (n - tar_piece n) \<and>
          absorbed dg' = absorbed dg1 @ piece (snapshot v) (c + tar_piece n) (n - tar_piece n)"
        using k streamsD [OF less ok rest] by simp
      then show ?thesis
        using got k head digest_update_absorbed [OF dg1] piece_split [of "snapshot v" c "tar_piece n" "n - tar_piece n"]
        by auto
    qed
  qed
qed

lemma streams_verify_wasm:
  "streams v c (verify_wasm psa read_fn stream_size max_wasm mf) (\<lambda>(offset, n, sha) c'. \<exists>wasm.
     let member = tar_member ''app.wasm'' wasm in
     offset = c + TAR_BLOCK_BYTES \<and> n = length wasm \<and> sha = sha256 wasm \<and>
     wasm = piece (snapshot v) offset n \<and>
     c' = c + length member \<and> c' \<le> length (snapshot v) \<and> piece (snapshot v) c (length member) = member \<and>
     TAR_BLOCK_BYTES + n \<le> length member \<and>
     n = unat (mf_wasm_size_bytes mf) \<and> sha = mf_wasm_sha256 mf \<and> 8 \<le> n \<and> n \<le> max_wasm \<and>
     take 8 wasm = wasm_header)"
  unfolding verify_wasm_def
proof (rule streams_bind [OF streams_header], rule streams_guard,
    rule streams_bind [where P = "\<lambda>x c'. x = c' \<and> c' = c + TAR_BLOCK_BYTES"],
    simp add: streams_def, rule streams_bind [OF streams_on_device [OF digest_start_keeps]], goal_cases)
  case (1 n c1 c1' c2 started c3)
  then have head: "tar_expected ''app.wasm'' n = Some (piece (snapshot v) c TAR_BLOCK_BYTES)"
    and at: "c + TAR_BLOCK_BYTES \<le> length (snapshot v)" "c1' = c + TAR_BLOCK_BYTES" "c3 = c + TAR_BLOCK_BYTES"
    and size: "n = mf_wasm_size_bytes mf" "8 \<le> unat n" "unat n \<le> max_wasm"
    by (auto simp: word_le_nat_alt not_less)
  show ?case
  proof (cases started)
    case None
    then show ?thesis by (simp add: streams_fail)
  next
    case (Some dg)
    with 1 have dg: "absorbed dg = []" by (auto dest: digest_start_absorbed)
    show ?thesis
      unfolding Some option.case
    proof (rule streams_bind [OF streams_wasm_loop], rule streams_bind [OF streams_on_device [OF digest_finish_keeps]],
        goal_cases)
      case (1 dg' c4 finished c5)
      let ?wasm = "piece (snapshot v) (c + TAR_BLOCK_BYTES) (unat n)"
      have "8 \<le> tar_piece (unat n)" using size by (simp add: tar_piece_def TAR_BLOCK_BYTES_def)
      then have start: "take 8 ?wasm = wasm_header"
        using 1 at size by (auto simp: piece_def min_def)
      show ?case
      proof (cases finished)
        case None
        then show ?thesis by (simp add: streams_fail)
      next
        case (Some sha)
        with 1 have sha: "sha = sha256 ?wasm" using dg at by (auto dest!: digest_finish_sha256)
        show ?thesis
          unfolding Some option.case
        proof (intro streams_guard streams_bind [OF streams_zeros] streams_ret, goal_cases)
          case (1 u c6)
          with at \<open>c5 = c4 \<and> _\<close> \<open>c3 + unat n \<le> _ \<and> _\<close>
          have pad: "piece (snapshot v) (c + TAR_BLOCK_BYTES + unat n) (tar_padding (unat n)) =
              zeros (tar_padding (unat n))"
            and room: "c + TAR_BLOCK_BYTES + unat n + tar_padding (unat n) \<le> length (snapshot v)"
            and c6: "c6 = c + TAR_BLOCK_BYTES + unat n + tar_padding (unat n)"
            by (auto simp: max_def split: if_splits)
          note member = member_at [OF head refl pad room]
          show ?case
            using member c6 room sha size at start 1
            by (auto simp: Let_def intro!: exI [of _ ?wasm])
        qed
      qed
    qed
  qed
qed

lemma streams_verify_end:
  "streams v c (verify_end psa read_fn stream_size) (\<lambda>_ c'. stream_size = canonical_size c \<and>
     c' = max c stream_size \<and> c' \<le> max c (length (snapshot v)) \<and>
     piece (snapshot v) c (stream_size - c) = zeros (stream_size - c))"
proof (rule streamsI)
  fix s x s' assume s: "stream_ok v s" "st_cursor s = c" and "verify_end psa read_fn stream_size s = (Inr x, s')"
  then have size: "canonical_size c = stream_size"
      and "stream_zeros psa read_fn stream_size (stream_size - c) s = (Inr x, s')"
    by (auto simp: verify_end_def split: if_splits)
  from streamsD [OF streams_zeros s this(2)] size
  show "stream_ok v s' \<and> stream_size = canonical_size c \<and> st_cursor s' = max c stream_size \<and>
      st_cursor s' \<le> max c (length (snapshot v)) \<and> piece (snapshot v) c (stream_size - c) = zeros (stream_size - c)"
    by auto
qed

end

subsection \<open>The results of a failing stream\<close>

lemma codes_case_option [code_intros]:
  "codes C m \<Longrightarrow> (\<And>x. codes C (f x)) \<Longrightarrow> codes C (case p of None \<Rightarrow> m | Some x \<Rightarrow> f x)"
  by (cases p) simp_all

lemma codes_bind_prod [code_intros]:
  "codes C m \<Longrightarrow> (\<And>x y. codes C (f x y)) \<Longrightarrow> codes C (bindE m (\<lambda>(x, y). f x y))"
  by (rule codes_bindE) auto

abbreviation stream_errors :: "package_result set" where
  "stream_errors \<equiv> {PACKAGE_INVALID, PACKAGE_READ_FAILED}"

lemma codes_stream_read [code_intros]: "stream_errors \<subseteq> C \<Longrightarrow> codes C (stream_read psa read_fn k n)"
  by (rule codesI) (auto simp: stream_read_def split: if_splits prod.splits option.splits bool.splits)

lemma codes_stream_bytes [code_intros]: "stream_errors \<subseteq> C \<Longrightarrow> codes C (stream_bytes psa read_fn k n)"
proof (induction n rule: less_induct)
  case (less n)
  show ?case
    by (cases "n = 0") (auto simp: stream_nothing stream_bytes_step intro!: code_intros less tar_piece_less)
qed

lemma codes_stream_zeros [code_intros]: "stream_errors \<subseteq> C \<Longrightarrow> codes C (stream_zeros psa read_fn k n)"
proof (induction n rule: less_induct)
  case (less n)
  show ?case
    using less.prems
    by (cases "n = 0") (auto simp: stream_nothing stream_zeros_step intro!: code_intros less tar_piece_less)
qed

lemma codes_stream_header [code_intros]: "stream_errors \<subseteq> C \<Longrightarrow> codes C (stream_header psa read_fn k name)"
  unfolding stream_header_def by (intro code_intros) auto

lemma codes_on_device [code_intros]: "codes C (on_device m)"
  by (rule codesI) (simp add: on_device_def split: prod.splits)

lemma codes_wasm_loop [code_intros]:
  assumes "stream_errors \<subseteq> C"
  shows "codes C (wasm_loop psa read_fn k m n dg)"
proof (rule codesI)
  fix s e s'
  show "wasm_loop psa read_fn k m n dg s = (Inl e, s') \<Longrightarrow> e \<in> C"
  proof (induction n arbitrary: dg s rule: less_induct)
    case (less n)
    show ?case
      using less.prems less.IH [OF tar_piece_less] assms
      by (subst (asm) wasm_loop.simps)
         (auto simp: abort_wasm_def split: if_splits prod.splits sum.splits bool.splits
           dest!: codesD [OF codes_stream_read [OF assms]])
  qed
qed

lemma codes_verify_members:
  "codes {PACKAGE_INVALID, PACKAGE_UNTRUSTED, PACKAGE_READ_FAILED}
     (verify_members psa keys read_fn k max_wasm public_key key_id)"
proof -
  have "codes C (\<lambda>s. (Inr (f s), s))" for C :: "package_result set" and f :: "('d, 'h) package_stream \<Rightarrow> nat"
    by (simp add: codes_def)
  moreover have "codes {PACKAGE_INVALID, PACKAGE_UNTRUSTED, PACKAGE_READ_FAILED} (verify_end psa read_fn k)"
    by (rule codesI) (auto simp: verify_end_def split: if_splits dest: codesD [OF codes_stream_zeros [OF subset_refl]])
  ultimately show ?thesis
    unfolding verify_members_def verify_manifest_def verify_signature_def verify_wasm_def
    by (intro code_intros) auto
qed

subsection \<open>Trusted packages\<close>

text \<open>A package that holds what it claims, for the key and the bounds of the caller.\<close>

definition trusted_package :: "(bytes \<Rightarrow> bytes) \<Rightarrow> (bytes \<Rightarrow> bytes \<Rightarrow> bytes \<Rightarrow> bool) \<Rightarrow> bytes \<Rightarrow> string \<Rightarrow>
    nat \<Rightarrow> bytes \<Rightarrow> bytes \<Rightarrow> bytes \<Rightarrow> bytes \<Rightarrow> manifest \<Rightarrow> bool" where
  "trusted_package sha256 verifies public_key key_id max_wasm pkg text signature wasm mf \<longleftrightarrow>
     pkg = tar_archive text signature wasm \<and>
     0 < length text \<and> length text \<le> PACKAGE_MANIFEST_MAX_BYTES \<and>
     parse_manifest text key_id max_wasm = Some mf \<and>
     length signature = PACKAGE_SIGNATURE_BYTES \<and>
     verifies public_key (sha256 (package_domain @ text)) signature \<and>
     length wasm = unat (mf_wasm_size_bytes mf) \<and> 8 \<le> length wasm \<and> length wasm \<le> max_wasm \<and>
     take 8 wasm = wasm_header \<and>
     sha256 wasm = mf_wasm_sha256 mf \<and>
     wasm = piece pkg (wasm_position text signature) (length wasm)"

locale package_trust =
  package_source read_fn view snapshot +
  signature_engine psa keys absorbed sha256 verifies key_of view
  for read_fn :: "'d package_read_fn" and view :: "'d \<Rightarrow> 'v" and snapshot
    and psa :: "('d, 'h) psa_api" and keys absorbed sha256 verifies key_of

sublocale package_trust \<subseteq> package_env read_fn view snapshot psa absorbed sha256 ..

context package_trust
begin

lemma streams_verify_signature:
  "streams v c (verify_signature psa keys read_fn stream_size public_key text) (\<lambda>signature c'.
     let member = tar_member ''signature.bin'' signature in
     c' = c + length member \<and> c' \<le> length (snapshot v) \<and> piece (snapshot v) c (length member) = member \<and>
     length signature = PACKAGE_SIGNATURE_BYTES \<and>
     verifies public_key (sha256 (package_domain @ text)) signature)"
  unfolding verify_signature_def
proof (intro streams_bind [OF streams_header] streams_guard streams_bind [OF streams_bytes]
    streams_bind [OF streams_zeros] streams_bind [OF streams_on_device [OF signature_verify_keeps]]
    streams_ret, goal_cases)
  case (1 n c1 sig c2 u c3 trusted c4)
  have n: "TAR_BLOCK_BYTES - unat n = tar_padding (unat n)"
    using 1(2) by (simp add: TAR_BLOCK_BYTES_def PACKAGE_SIGNATURE_BYTES_def tar_padding_def)
  from 1 have head: "tar_expected ''signature.bin'' n = Some (piece (snapshot v) c TAR_BLOCK_BYTES)"
    and body: "sig = piece (snapshot v) (c + TAR_BLOCK_BYTES) (unat n)"
    and pad: "piece (snapshot v) (c + TAR_BLOCK_BYTES + unat n) (tar_padding (unat n)) = zeros (tar_padding (unat n))"
    and room: "c + TAR_BLOCK_BYTES + unat n + tar_padding (unat n) \<le> length (snapshot v)"
    and c4: "c4 = c + TAR_BLOCK_BYTES + unat n + tar_padding (unat n)"
    and sig: "verifies public_key (sha256 (package_domain @ text)) sig"
    unfolding n by (auto simp: max_def split: if_splits dest: signature_verify_sound)
  show ?case
    using member_at [OF head body pad room] c4 room sig 1(2) by (simp add: Let_def)
qed

lemma streams_verify_members:
  "streams v 0 (verify_members psa keys read_fn package_size max_wasm public_key key_id)
     (\<lambda>(text, mf, signature, offset, n, sha) c'. \<exists>wasm.
        trusted_package sha256 verifies public_key key_id max_wasm
          (piece (snapshot v) 0 package_size) text signature wasm mf \<and>
        package_size \<le> length (snapshot v) \<and> c' = package_size \<and>
        offset = wasm_position text signature \<and> n = length wasm \<and> 8 \<le> n \<and> sha = sha256 wasm)"
  unfolding verify_members_def
proof (rule streams_bind [OF streams_verify_manifest], clarify,
    rule streams_bind [OF streams_verify_signature], rule streams_bind [OF streams_verify_wasm],
    clarify, rule streams_bind [OF streams_verify_end], rule streams_ret, goal_cases)
  case (1 manif mf c1 sig c2 offset n sha c3 wasm u c4)
  let ?pkg = "snapshot v"
  note m1 = 1(1) [unfolded Let_def add_0] and m2 = 1(2) [unfolded Let_def] and m3 = 1(3) [unfolded Let_def]
    and m4 = 1(4)
  let ?M = "tar_member ''manifest.json'' manif" and ?S = "tar_member ''signature.bin'' sig"
    and ?W = "tar_member ''app.wasm'' wasm"
  have c1: "c1 = length ?M" and at1: "piece ?pkg 0 (length ?M) = ?M"
    using m1 by - (elim conjE, assumption)+
  have c2: "c2 = c1 + length ?S" and at2: "piece ?pkg c1 (length ?S) = ?S"
    using m2 by - (elim conjE, assumption)+
  have c3: "c3 = c2 + length ?W" and offset: "offset = c2 + TAR_BLOCK_BYTES"
    and at3: "piece ?pkg c2 (length ?W) = ?W" and w: "wasm = piece ?pkg offset n" and n: "n = length wasm"
    and fits: "TAR_BLOCK_BYTES + n \<le> length ?W" and room: "c3 \<le> length ?pkg"
    using m3 by - (elim conjE, assumption)+
  have zeros: "piece ?pkg c3 (package_size - c3) = zeros (package_size - c3)"
    and canon: "package_size = canonical_size c3" and c4: "c4 = max c3 package_size" "c4 \<le> max c3 (length ?pkg)"
    using m4 by - (elim conjE, assumption)+
  have le: "c3 \<le> package_size" using canonical_size_ge canon by simp
  have whole: "c3 = length (tar_members manif sig wasm)" using c1 c2 c3 by (simp add: tar_members_def)
  have "piece ?pkg 0 c3 = ?M @ ?S @ ?W"
    using c1 c2 c3 at1 at2 at3 by (simp add: piece_split)
  then have members: "piece ?pkg 0 c3 = tar_members manif sig wasm" by (simp add: tar_members_def)
  have "piece ?pkg 0 package_size = piece ?pkg 0 c3 @ piece ?pkg c3 (package_size - c3)"
    using piece_split [of ?pkg 0 c3 "package_size - c3"] le by simp
  then have "piece ?pkg 0 package_size = tar_archive manif sig wasm"
    unfolding members zeros tar_archive_def Let_def whole [symmetric] canon [symmetric] .
  moreover have "wasm = piece (piece ?pkg 0 package_size) offset (length wasm)"
  proof -
    have "offset + n \<le> package_size" using c3 offset fits le by linarith
    from piece_piece [OF this, of ?pkg 0] w [symmetric] show ?thesis unfolding n [symmetric] by simp
  qed
  moreover have "offset = wasm_position manif sig"
    using c1 c2 offset by (simp add: wasm_position_def)
  moreover have "c4 = package_size" "package_size \<le> length ?pkg"
    using c4 room le by linarith+
  ultimately show ?case
    unfolding prod.case trusted_package_def using m1 m2 m3 by metis
qed

lemma package_verify_sound:
  assumes run: "package_verify psa keys (Some read_fn) package_size max_wasm (Some public_key) (Some key_id)
      (Some buffers) (Some info0) d = ((PACKAGE_OK, info, workspace), d')"
  shows "package_size \<le> length (snapshot (view d)) \<and> max_wasm \<le> PACKAGE_WASM_MAX_BYTES \<and>
    (\<exists>text signature wasm mf. trusted_package sha256 verifies public_key key_id max_wasm
        (piece (snapshot (view d)) 0 package_size) text signature wasm mf \<and>
      info = Some (package_info_of package_size text mf
        (wasm_position text signature, length wasm, sha256 wasm)
        (sha256 (piece (snapshot (view d)) 0 package_size))) \<and>
      workspace = Some \<lparr>pw_manifest = text @ drop (length text) (pw_manifest buffers),
        pw_signature = signature\<rparr>)"
proof -
  have args: "verify_arguments_ok package_size max_wasm public_key"
    using run by (auto simp: package_verify_def Let_def split: if_splits)
  obtain dg d1 manif mf sig offset n sha s sum where start: "digest_start psa d = (Some dg, d1)"
      and members: "verify_members psa keys read_fn package_size max_wasm public_key key_id
        \<lparr>st_cursor = 0, st_digest = dg, st_device = d1\<rparr> = (Inr (manif, mf, sig, offset, n, sha), s)"
      and fin: "digest_finish psa (st_digest s) (st_device s) = (Some sum, d')"
      and out: "info = Some (package_info_of package_size manif mf (offset, n, sha) sum)"
        "workspace = Some \<lparr>pw_manifest = manif @ drop (length manif) (pw_manifest buffers), pw_signature = sig\<rparr>"
    using run args
    by (auto simp: package_verify_def Let_def split: option.splits if_splits prod.splits sum.splits
        dest!: codesD [OF codes_verify_members])
  have "view d1 = view d" using keepsD [OF digest_start_keeps start] .
  then have "stream_ok (view d) \<lparr>st_cursor = 0, st_digest = dg, st_device = d1\<rparr>"
    using digest_start_absorbed [OF start] by (simp add: stream_ok_def)
  from streamsD [OF streams_verify_members this _ members]
  have ok: "stream_ok (view d) s" and c: "st_cursor s = package_size" and "package_size \<le> length (snapshot (view d))"
    and "\<exists>wasm. trusted_package sha256 verifies public_key key_id max_wasm
        (piece (snapshot (view d)) 0 package_size) manif sig wasm mf \<and>
        offset = wasm_position manif sig \<and> n = length wasm \<and> sha = sha256 wasm"
    by auto
  moreover have "sum = sha256 (piece (snapshot (view d)) 0 package_size)"
    using digest_finish_sha256 [OF fin] ok c by (simp add: stream_ok_def)
  moreover have "max_wasm \<le> PACKAGE_WASM_MAX_BYTES" using args by (simp add: verify_arguments_ok_def)
  ultimately show ?thesis using out by blast
qed

end

end
