(* ===== verification/Package_Slot.thy ===== *)
theory Package_Slot
  imports Package_Archive Package_Wasm Slots_Ops
begin

text \<open>
  The validator of slot candidates (\<open>package_slot.c\<close>): it reads the candidate through the
  bounded callback of the slot store, verifies the signed package and its Wasm payload, and
  compares what was signed with the reservation and with the product and the limits of the
  platform.
\<close>

record package_slot_validation =
  sv_expected_product_id :: "string option"
  sv_public_key_rsa_der :: "bytes option"
  sv_expected_key_id :: "string option"
  sv_max_wasm_bytes :: nat
  sv_wasm_authorization :: wasm_authorization
  sv_max_event_queue_limit :: u32
  sv_max_instruction_budget :: u32
  sv_max_host_call_timeout_ms :: u32
  sv_max_storage_limit_bytes :: u32
  sv_package_workspace :: "package_workspace option"
  sv_wasm_workspace :: "bytes option"
  sv_verified_info :: "package_info option"

definition read_slot :: "'d slot_read_fn \<Rightarrow> nat \<Rightarrow> 'd package_read_fn" where
  "read_slot read_fn package_size_bytes offset_bytes size_bytes d =
    (if size_bytes > 0 \<and> size_bytes \<le> 512 \<and> offset_bytes \<le> package_size_bytes \<and>
        size_bytes \<le> package_size_bytes - offset_bytes
     then read_fn offset_bytes size_bytes d else (None, d))"

definition product_matches :: "string \<Rightarrow> package_workspace \<Rightarrow> package_info \<Rightarrow> bool" where
  "product_matches expected_product_id buffers info \<longleftrightarrow>
    (let expected_size = length expected_product_id in
     expected_size = pi_product_id_size_bytes info \<and>
     pi_product_id_offset_bytes info \<le> pi_manifest_size_bytes info \<and>
     expected_size \<le> pi_manifest_size_bytes info - pi_product_id_offset_bytes info \<and>
     take expected_size (drop (pi_product_id_offset_bytes info) (pw_manifest buffers)) =
       str_bytes expected_product_id)"

text \<open>What was signed against the reservation and the limits of the platform.\<close>

definition slot_accepts :: "package_slot_validation \<Rightarrow> slot_operation \<Rightarrow> string \<Rightarrow> package_workspace \<Rightarrow>
    package_info \<Rightarrow> bool" where
  "slot_accepts validation operation expected_product_id buffers info \<longleftrightarrow>
    pi_package_sha256 info = so_package_sha256 operation \<and>
    pi_guest_abi_version info = so_guest_abi_version operation \<and>
    pi_data_schema_version info = so_data_schema_version operation \<and>
    product_matches expected_product_id buffers info \<and>
    pi_event_queue_limit info \<le> sv_max_event_queue_limit validation \<and>
    pi_instruction_budget info \<le> sv_max_instruction_budget validation \<and>
    pi_host_call_timeout_ms info \<le> sv_max_host_call_timeout_ms validation \<and>
    pi_storage_limit_bytes info \<le> sv_max_storage_limit_bytes validation"

definition INT32_MAX :: u32 where "INT32_MAX = 0x7fffffff"

text \<open>
  The context as the call leaves it comes back with the result: \<open>verified_info\<close> and the buffers
  of the package workspace.
\<close>

definition slot_arguments_ok :: "package_slot_validation \<Rightarrow> slot_operation option \<Rightarrow>
    'd slot_read_fn option \<Rightarrow> nat \<Rightarrow> bool" where
  "slot_arguments_ok validation operation read_fn package_size_bytes \<longleftrightarrow>
    \<not> (read_fn = None \<or> operation = None \<or> sv_expected_product_id validation = None \<or>
       sv_expected_product_id validation = Some '''' \<or> sv_public_key_rsa_der validation = None \<or>
       sv_expected_key_id validation = None \<or> sv_package_workspace validation = None \<or>
       sv_wasm_workspace validation = None \<or> sv_max_event_queue_limit validation = 0 \<or>
       sv_max_instruction_budget validation = 0 \<or> sv_max_instruction_budget validation > INT32_MAX \<or>
       sv_max_host_call_timeout_ms validation = 0 \<or>
       package_size_bytes \<noteq> unat (so_package_size_bytes (the operation)))"

definition slot_validate_context :: "('d, 'h) psa_api \<Rightarrow> 'd psa_keys \<Rightarrow> package_slot_validation option \<Rightarrow>
    slot_operation option \<Rightarrow> 'd slot_read_fn option \<Rightarrow> nat \<Rightarrow> 'd \<Rightarrow>
    (validation_result \<times> package_slot_validation option) \<times> 'd" where
  "slot_validate_context psa keys context operation read_fn package_size_bytes d =
    (case context of None \<Rightarrow> ((VALIDATION_UNTRUSTED, context), d) | Some validation \<Rightarrow>
     if sv_verified_info validation = None then ((VALIDATION_UNTRUSTED, context), d)
     else
     let validation = validation\<lparr>sv_verified_info := Some zero_info,
           sv_package_workspace := map_option (\<lambda>_. wiped_workspace) (sv_package_workspace validation)\<rparr> in
     if \<not> slot_arguments_ok validation operation read_fn package_size_bytes
     then ((VALIDATION_UNTRUSTED, Some validation), d)
     else
     let reader = read_slot (the read_fn) package_size_bytes in
     case package_verify psa keys (Some reader) package_size_bytes (sv_max_wasm_bytes validation)
       (sv_public_key_rsa_der validation) (sv_expected_key_id validation)
       (sv_package_workspace validation) (Some zero_info) d of
       ((package_result, info, workspace), d) \<Rightarrow>
     let validation = validation\<lparr>sv_package_workspace := workspace\<rparr> in
     if package_result \<noteq> PACKAGE_OK
     then ((if package_result = PACKAGE_READ_FAILED then VALIDATION_IO_FAILED else VALIDATION_UNTRUSTED,
            Some validation), d)
     else
     (case (if slot_accepts validation (the operation) (the (sv_expected_product_id validation))
              (the workspace) (the info)
            then (case package_wasm_check psa (Some reader) info
                    (Some (sv_wasm_authorization validation)) (sv_wasm_workspace validation) d of
                    (wasm_result, d) \<Rightarrow>
                      (if wasm_result = PACKAGE_WASM_OK then VALIDATION_OK
                       else if wasm_result = PACKAGE_WASM_READ_FAILED then VALIDATION_IO_FAILED
                       else VALIDATION_UNTRUSTED, d))
            else (VALIDATION_UNTRUSTED, d)) of
       (result, d) \<Rightarrow>
         if result = VALIDATION_OK
         then ((result, Some (validation\<lparr>sv_verified_info := info\<rparr>)), d)
         else ((result, Some (validation\<lparr>sv_package_workspace := Some wiped_workspace\<rparr>)), d)))"

text \<open>The validator as the slot store calls it, with the context the caller gave.\<close>

definition package_slot_validate :: "('d, 'h) psa_api \<Rightarrow> 'd psa_keys \<Rightarrow> package_slot_validation option \<Rightarrow>
    'd slot_validate_fn" where
  "package_slot_validate psa keys context operation read_fn package_size_bytes d =
    (case slot_validate_context psa keys context (Some operation) (Some read_fn) package_size_bytes d of
       ((result, _), d) \<Rightarrow> (result, d))"

end
