(* ===== verification/Package_Install.thy ===== *)
theory Package_Install
  imports Package_Contents Package_Slot Slots_Api
begin

text \<open>
  The slot store with the package validator.  A candidate that \<open>package_slot.c\<close> accepts is a
  trusted package for the reservation whose payload the runtime's scan will accept; the
  validator touches nothing, so it is one of the callbacks that the theorems on the slot store
  allow.
\<close>

text \<open>What an accepted candidate \<open>pkg\<close> of the reservation \<open>operation\<close> is.\<close>

definition signed_for :: "package_slot_validation \<Rightarrow> slot_operation \<Rightarrow> bytes \<Rightarrow> manifest \<Rightarrow> bool" where
  "signed_for validation operation text mf \<longleftrightarrow>
     mf_guest_abi_version mf = so_guest_abi_version operation \<and>
     mf_data_schema_version mf = so_data_schema_version operation \<and>
     (\<exists>product. sv_expected_product_id validation = Some product \<and>
        piece text (mf_product_id_offset_bytes mf) (mf_product_id_size_bytes mf) = str_bytes product) \<and>
     mf_event_queue_limit mf \<le> sv_max_event_queue_limit validation \<and>
     mf_instruction_budget mf \<le> sv_max_instruction_budget validation \<and>
     mf_host_call_timeout_ms mf \<le> sv_max_host_call_timeout_ms validation \<and>
     mf_storage_limit_bytes mf \<le> sv_max_storage_limit_bytes validation"

definition runnable :: "wasm_authorization \<Rightarrow> manifest \<Rightarrow> bytes \<Rightarrow> bool" where
  "runnable authorization mf wasm \<longleftrightarrow>
     mf_guest_abi_version mf = 1 \<and> mf_is_classic_profile mf \<and> \<not> mf_has_unknown_capability mf \<and>
     mf_requested_capabilities mf AND NOT (allowed_capabilities authorization) = 0 \<and>
     mf_memory_limit_bytes mf \<le> max_memory_bytes authorization \<and>
     mf_stack_limit_bytes mf \<le> max_stack_bytes authorization \<and>
     (\<exists>caps. wasm_imported_capabilities (Some wasm) True = GO caps \<and>
        caps AND NOT (mf_requested_capabilities mf) = 0) \<and>
     wasm_memory_within_limit (Some wasm) (mf_memory_limit_bytes mf div WASM_PAGE_BYTES) = GO ()"

definition admitted_package :: "(bytes \<Rightarrow> bytes) \<Rightarrow> (bytes \<Rightarrow> bytes \<Rightarrow> bytes \<Rightarrow> bool) \<Rightarrow>
    package_slot_validation \<Rightarrow> slot_operation \<Rightarrow> bytes \<Rightarrow> bool" where
  "admitted_package sha256 verifies validation operation pkg \<longleftrightarrow>
     (\<exists>key key_id text signature wasm mf.
        sv_public_key_rsa_der validation = Some key \<and> sv_expected_key_id validation = Some key_id \<and>
        trusted_package sha256 verifies key key_id (sv_max_wasm_bytes validation) pkg text signature wasm mf \<and>
        sha256 pkg = so_package_sha256 operation \<and> signed_for validation operation text mf \<and>
        runnable (sv_wasm_authorization validation) mf wasm)"

lemma piece_from_0: "length pkg = n \<Longrightarrow> piece pkg 0 n = pkg"
  by (simp add: piece_def)

lemma pages_positive:
  assumes "\<not> limit < WASM_PAGE_BYTES"
  shows "limit div WASM_PAGE_BYTES \<noteq> 0"
proof -
  have "65536 \<le> unat limit" using assms by (simp add: WASM_PAGE_BYTES_def word_less_nat_alt)
  then have "unat (limit div WASM_PAGE_BYTES) \<noteq> 0"
    by (simp add: WASM_PAGE_BYTES_def unat_div div_eq_0_iff)
  then show ?thesis by auto
qed

lemma slot_window: "(\<And>offset n. keeps view (read_fn offset n)) \<Longrightarrow>
    window_keeps view (read_slot read_fn package_size) base len"
  unfolding window_keeps_def
  by (intro allI impI keepsI) (auto simp: read_slot_def split: if_splits dest: keepsD)

subsection \<open>The candidate as a source\<close>

definition candidate_bytes :: "slot_reader \<Rightarrow> (nat \<Rightarrow> byte) \<times> bytes option \<times> bool \<Rightarrow> bytes" where
  "candidate_bytes reader v = content (fst v) (unat (rd_offset_bytes reader)) (unat (rd_size_bytes reader))"

lemma piece_content: "offset + n \<le> m \<Longrightarrow> piece (content f a m) offset n = content f (a + offset) n"
  by (simp add: piece_def content_def drop_map take_map drop_upt take_upt)

context slot_env
begin

lemma read_slot_run:
  assumes "read_slot (flash_relative_read io reader) (unat (rd_size_bytes reader)) offset n d = (Some bs, d')"
  shows "offset + n \<le> unat (rd_size_bytes reader) \<and>
    bs = content (flash d) (unat (rd_offset_bytes reader) + offset) n"
  using assms flash_relative_read_bytes [of reader offset n d bs d'] by (auto simp: read_slot_def split: if_splits)

lemma read_slot_keeps:
  "keeps (device_view flash nvs held) (read_slot (flash_relative_read io reader) k offset n)"
  by (rule keepsI) (auto simp: read_slot_def split: if_splits dest: keepsD [OF flash_relative_read_keeps])

end

sublocale slot_env \<subseteq> candidate: package_source
    "read_slot (flash_relative_read io reader) (unat (rd_size_bytes reader))" "device_view flash nvs held"
    "candidate_bytes reader" for reader
proof
  show "keeps (device_view flash nvs held)
      (read_slot (flash_relative_read io reader) (unat (rd_size_bytes reader)) offset n)" for offset n
    by (rule read_slot_keeps)
  show "read_slot (flash_relative_read io reader) (unat (rd_size_bytes reader)) offset n d = (Some bs, d') \<Longrightarrow>
      offset + n \<le> length (candidate_bytes reader (device_view flash nvs held d)) \<and>
      bs = piece (candidate_bytes reader (device_view flash nvs held d)) offset n" for offset n d bs d'
    using read_slot_run [of reader offset n d bs d']
    by (auto simp: candidate_bytes_def device_view_def piece_content)
qed

subsection \<open>The validator\<close>

text \<open>The device of the slot store with the digest and the signature engine.\<close>

locale slot_trust =
  slot_env io flash nvs held psa absorbed sha256 +
  signature_engine psa keys absorbed sha256 verifies key_of "device_view flash nvs held"
  for io :: "'d slots_io" and flash nvs held and psa :: "('d, 'h) psa_api" and keys absorbed sha256
    and verifies key_of

sublocale slot_trust \<subseteq> trusted: package_trust
    "read_slot (flash_relative_read io reader) (unat (rd_size_bytes reader))" "device_view flash nvs held"
    "candidate_bytes reader" psa keys absorbed sha256 verifies key_of for reader ..

context slot_trust
begin

lemma package_verify_quiet:
  "(\<And>offset n. keeps (device_view flash nvs held) (read_fn offset n)) \<Longrightarrow>
     keeps (device_view flash nvs held) (package_verify psa keys (Some (read_slot read_fn k)) package_size
       max_wasm public_key key_id workspace info)"
  by (rule package_verify_keeps) (auto intro: slot_window signature_verify_keeps)

lemma package_wasm_check_quiet:
  "(\<And>offset n. keeps (device_view flash nvs held) (read_fn offset n)) \<Longrightarrow>
     keeps (device_view flash nvs held) (package_wasm_check psa (Some (read_slot read_fn k)) info authorization workspace)"
  by (rule package_wasm_check_keeps) (auto intro: slot_window)

lemma package_validator_quiet:
  "quiet_validator (device_view flash nvs held) (package_slot_validate psa keys context)"
  unfolding quiet_validator_def
proof (intro allI impI keepsI)
  fix operation read_fn count d r d'
  assume reads: "\<forall>offset n. keeps (device_view flash nvs held) (read_fn offset n)"
    and run: "package_slot_validate psa keys context operation read_fn count d = (r, d')"
  note quiet = keepsD [OF package_verify_quiet [OF reads [rule_format]]]
    keepsD [OF package_wasm_check_quiet [OF reads [rule_format]]]
  show "device_view flash nvs held d' = device_view flash nvs held d"
    using run
    by (auto simp: package_slot_validate_def slot_validate_context_def Let_def
        split: prod.splits option.splits if_splits dest!: quiet)
qed

text \<open>What an accepting run of the validator has done.\<close>

lemma package_validator_steps:
  assumes run: "package_slot_validate psa keys context operation (flash_relative_read io reader)
      (unat (rd_size_bytes reader)) d = (VALIDATION_OK, d')"
    and pkg: "pkg = candidate_bytes reader (device_view flash nvs held d)"
    and read: "read_fn = read_slot (flash_relative_read io reader) (unat (rd_size_bytes reader))"
  obtains v0 product key key_id manif sig wasm mf info block d1
  where "context = Some v0" "sv_expected_product_id v0 = Some product" "sv_public_key_rsa_der v0 = Some key"
      "sv_expected_key_id v0 = Some key_id"
    and "package_verify psa keys (Some read_fn) (length pkg) (sv_max_wasm_bytes v0) (Some key) (Some key_id)
      (Some wiped_workspace) (Some zero_info) d =
        ((PACKAGE_OK, Some info, Some \<lparr>pw_manifest = manif @ drop (length manif) (pw_manifest wiped_workspace),
          pw_signature = sig\<rparr>), d1)"
    and "trusted_package sha256 verifies key key_id (sv_max_wasm_bytes v0) pkg manif sig wasm mf"
    and "info = package_info_of (length pkg) manif mf (wasm_position manif sig, length wasm, sha256 wasm) (sha256 pkg)"
    and "slot_accepts v0 operation product
      \<lparr>pw_manifest = manif @ drop (length manif) (pw_manifest wiped_workspace), pw_signature = sig\<rparr> info"
    and "package_wasm_check psa (Some read_fn) (Some info) (Some (sv_wasm_authorization v0)) (Some block) d1 =
      (PACKAGE_WASM_OK, d')"
    and "device_view flash nvs held d1 = device_view flash nvs held d"
proof -
  let ?k = "unat (rd_size_bytes reader)"
  have k: "length pkg = ?k" by (simp add: pkg candidate_bytes_def)
  obtain v0 where ctx: "context = Some v0" and given: "sv_verified_info v0 \<noteq> None"
    using run by (auto simp: package_slot_validate_def slot_validate_context_def split: option.splits if_splits)
  let ?v = "v0\<lparr>sv_verified_info := Some zero_info,
      sv_package_workspace := map_option (\<lambda>_. wiped_workspace) (sv_package_workspace v0)\<rparr>"
  have args: "slot_arguments_ok ?v (Some operation) (Some (flash_relative_read io reader)) ?k"
    using run ctx given
    by (auto simp: package_slot_validate_def slot_validate_context_def Let_def split: if_splits)
  then obtain product key key_id b0 block where some: "sv_expected_product_id v0 = Some product"
      "sv_public_key_rsa_der v0 = Some key" "sv_expected_key_id v0 = Some key_id"
      "sv_package_workspace v0 = Some b0" "sv_wasm_workspace v0 = Some block"
    by (auto simp: slot_arguments_ok_def)
  obtain info ws d1 where verify: "package_verify psa keys (Some read_fn) ?k (sv_max_wasm_bytes v0)
        (Some key) (Some key_id) (Some wiped_workspace) (Some zero_info) d = ((PACKAGE_OK, info, ws), d1)"
      and accepts: "slot_accepts (?v\<lparr>sv_package_workspace := ws\<rparr>) operation product (the ws) (the info)"
      and check: "package_wasm_check psa (Some read_fn) info (Some (sv_wasm_authorization v0))
        (Some block) d1 = (PACKAGE_WASM_OK, d')"
    using run ctx given args some
    by (auto simp: package_slot_validate_def slot_validate_context_def Let_def read
        split: prod.splits if_splits)
  obtain manif sig wasm mf where trusted: "trusted_package sha256 verifies key key_id (sv_max_wasm_bytes v0)
        pkg manif sig wasm mf"
      and info: "info = Some (package_info_of ?k manif mf (wasm_position manif sig, length wasm, sha256 wasm)
        (sha256 pkg))"
      and ws: "ws = Some \<lparr>pw_manifest = manif @ drop (length manif) (pw_manifest wiped_workspace), pw_signature = sig\<rparr>"
    using trusted.package_verify_sound [OF verify [unfolded read]] piece_from_0 [OF k]
    by (auto simp: pkg)
  have same: "device_view flash nvs held d1 = device_view flash nvs held d"
    using keepsD [OF package_verify_quiet verify [unfolded read]] flash_relative_read_keeps by blast
  have accepts: "slot_accepts v0 operation product (the ws) (the info)" using accepts by (simp add: slot_accepts_def)
  show thesis
    by (rule that [OF ctx some(1-3) _ trusted refl _ _ same])
      (use verify accepts check in \<open>simp_all only: info ws k option.sel\<close>)
qed

lemma package_validator_sound:
  assumes run: "package_slot_validate psa keys context operation (flash_relative_read io reader)
      (unat (rd_size_bytes reader)) d = (VALIDATION_OK, d')"
  shows "\<exists>validation. context = Some validation \<and> admitted_package sha256 verifies validation operation
    (candidate_bytes reader (device_view flash nvs held d))"
proof (rule package_validator_steps [OF run refl refl])
  let ?pkg = "candidate_bytes reader (device_view flash nvs held d)"
  fix v0 product key key_id manif sig wasm mf info block d1
  assume some: "context = Some v0" "sv_expected_product_id v0 = Some product" "sv_public_key_rsa_der v0 = Some key"
      "sv_expected_key_id v0 = Some key_id"
    and trusted: "trusted_package sha256 verifies key key_id (sv_max_wasm_bytes v0) ?pkg manif sig wasm mf"
    and info: "info = package_info_of (length ?pkg) manif mf (wasm_position manif sig, length wasm, sha256 wasm) (sha256 ?pkg)"
    and accepts: "slot_accepts v0 operation product
      \<lparr>pw_manifest = manif @ drop (length manif) (pw_manifest wiped_workspace), pw_signature = sig\<rparr> info"
    and check: "package_wasm_check psa (Some (read_slot (flash_relative_read io reader) (unat (rd_size_bytes reader))))
      (Some info) (Some (sv_wasm_authorization v0)) (Some block) d1 = (PACKAGE_WASM_OK, d')"
    and same: "device_view flash nvs held d1 = device_view flash nvs held d"
  note sound = trusted.package_wasm_check_sound [OF check [unfolded info], unfolded same]
  have payload: "piece ?pkg (wasm_position manif sig) (length wasm) = wasm"
    using trusted unfolding trusted_package_def by (elim conjE) (erule sym)
  have "signed_for v0 operation manif mf"
    using accepts info some
    by (auto simp: slot_accepts_def product_matches_def signed_for_def package_info_of_def piece_def Let_def)
  moreover have "runnable (sv_wasm_authorization v0) mf wasm"
    using sound payload pages_positive [of "mf_memory_limit_bytes mf"]
    by (auto simp: runnable_def package_info_of_def payload_scanned_def wasm_arguments_ok_def wasm_authorized_def
        wasm_imported_capabilities_def need_def stop_as_def not_less)
  moreover have "sha256 ?pkg = so_package_sha256 operation"
    using accepts info by (simp add: slot_accepts_def package_info_of_def)
  ultimately show ?thesis
    using some trusted unfolding admitted_package_def by blast
qed

text \<open>Preparing a candidate with this validator.\<close>

lemma validated_candidate:
  assumes run: "validate_candidate io g (package_slot_validate psa keys context) s d = (Inr u, d')"
  shows "\<exists>validation. context = Some validation \<and> admitted_package sha256 verifies validation (ss_operation s)
    (slot_content (flash d) g (so_slot (ss_operation s)) (so_package_size_bytes (ss_operation s)))"
proof -
  let ?reader = "\<lparr>rd_offset_bytes = sr_offset_bytes (slot_at g (unat (so_slot (ss_operation s)))),
      rd_size_bytes = so_package_size_bytes (ss_operation s)\<rparr>"
  obtain d1 where "package_slot_validate psa keys context (ss_operation s) (flash_relative_read io ?reader)
      (unat (rd_size_bytes ?reader)) d = (VALIDATION_OK, d1)"
    using run by (auto simp: validate_candidate_def Let_def split: prod.splits if_splits)
  from package_validator_sound [OF this] show ?thesis
    by (simp add: candidate_bytes_def device_view_def slot_content_def slot_begin_def)
qed

lemma prepare_admits:
  assumes call: "slots_write_and_prepare (Some (io_ptrs io)) psa (Some g) n source_fn
      (Some (package_slot_validate psa keys context)) state d = ((SLOTS_OK, st), d')"
  shows "\<exists>s t validation. stored nvs g d s \<and> ss_sequence s = n \<and> ss_phase s = SLOT_WRITING \<and>
    t = numbered s (s\<lparr>ss_phase := SLOT_PREPARED\<rparr>) \<and> st = Some t \<and> nvs d' = Some (encode_state t) \<and>
    context = Some validation \<and> admitted_package sha256 verifies validation (ss_operation t)
      (slot_content (flash d') g (so_slot (ss_operation t)) (so_package_size_bytes (ss_operation t)))"
proof -
  let ?validate = "package_slot_validate psa keys context"
  from call have "with_lock io state (write_and_prepare_locked io psa g n (the source_fn) ?validate) d
      = ((SLOTS_OK, st), d')"
    by (auto simp: slots_write_and_prepare_def split: if_splits)
  from this never_ok_bodies(2) obtain d1 t d2 where same: "flash d1 = flash d" "nvs d1 = nvs d"
      "flash d' = flash d2" "nvs d' = nvs d2" and st: "st = Some t"
      and body: "write_and_prepare_locked io psa g n (the source_fn) ?validate d1 = (Inr t, d2)"
    by (rule with_lock_OK)
  from body [unfolded write_and_prepare_locked_def] obtain s d3 where s: "stored nvs g d1 s" "ss_sequence s = n"
      and phase: "ss_phase s = SLOT_WRITING"
      and rest: "bindE (write_candidate io g (the source_fn) s) (\<lambda>_. bindE (hash_candidate io psa g s)
        (\<lambda>_. bindE (validate_candidate io g ?validate s)
        (\<lambda>_. commit_next io g s (s\<lparr>ss_phase := SLOT_PREPARED\<rparr>)))) d3 = (Inr t, d2)"
    by (rule begin_check_OK)
  from rest obtain d4 d5 u where check: "validate_candidate io g ?validate s d4 = (Inr u, d5)"
      and commit: "commit_next io g s (s\<lparr>ss_phase := SLOT_PREPARED\<rparr>) d5 = (Inr t, d2)"
    by (auto simp: bindE_OK)
  have flash: "flash d2 = flash d4"
    using keepsD [OF commit_next_frame commit] viewD(1) [OF validate_candidate_keeps [OF package_validator_quiet] check]
    by simp
  note t = commit_OK(1,2) [OF commit]
  have "ss_operation t = ss_operation s" by (simp add: t(1) numbered_def)
  then show ?thesis
    using validated_candidate [OF check] s phase t st same flash by (auto simp: stored_def)
qed

end

end
