(* ===== verification/Package_Tar.thy ===== *)
theory Package_Tar
  imports Package_Archive
begin

text \<open>
  The headers of the archive: the expected header exists for every size, has 512 bytes, and its
  size field reads back as that size.
\<close>

subsection \<open>Storing\<close>

lemma length_store [simp]: "offset + length bs \<le> length buffer \<Longrightarrow> length (store offset bs buffer) = length buffer"
  by (simp add: store_def)

lemma nth_store:
  assumes "i < length buffer" and "offset + length bs \<le> length buffer"
  shows "store offset bs buffer ! i =
    (if offset \<le> i \<and> i < offset + length bs then bs ! (i - offset) else buffer ! i)"
  using assms by (auto simp: store_def nth_append min_def)

lemma nth_store_before: "i < offset \<Longrightarrow> offset \<le> length buffer \<Longrightarrow> store offset bs buffer ! i = buffer ! i"
  by (simp add: store_def nth_append)

subsection \<open>Octal numbers\<close>

text \<open>The digits from the first to the last.\<close>

definition octal_text :: "nat \<Rightarrow> u32 \<Rightarrow> bytes" where
  "octal_text n number = map (\<lambda>j. 0x30 + ucast (drop_bit (3 * (n - 1 - j)) number AND 7)) [0..<n]"

lemma length_octal_text [simp]: "length (octal_text n number) = n"
  by (simp add: octal_text_def)

lemma octal_text_Suc: "octal_text (Suc n) number = octal_text n (drop_bit 3 number) @ [0x30 + ucast (number AND 7)]"
  by (auto simp: octal_text_def drop_bit_drop_bit Suc_diff_Suc simp flip: mult_Suc_right
      intro!: arg_cong [where f = "\<lambda>k. ucast (drop_bit k number AND 7)"])

lemma octal_digits_text: "octal_digits n number written = (octal_text n number @ written, drop_bit (3 * n) number)"
proof (induction n arbitrary: number written)
  case 0
  then show ?case by (simp add: octal_text_def)
next
  case (Suc n)
  then show ?case by (simp add: octal_text_Suc drop_bit_drop_bit add.commute)
qed

lemma unat_drop_bit_u32: "unat (drop_bit n (x :: u32)) = unat x div 2 ^ n"
  unfolding unat_drop_bit_eq by (rule drop_bit_eq_div)

lemma unat_octal_digit: "unat (x AND 7 :: u32) = unat x mod 8"
proof -
  have "unat (x AND 7) = take_bit 3 (unat x)"
    by (simp add: unsigned_and_eq take_bit_eq_mask mask_eq_exp_minus_1)
  then show ?thesis by (simp add: take_bit_eq_mod)
qed

lemma octal_fits:
  assumes "unat (number :: u32) < 2 ^ (3 * digits)"
  shows "tar_octal digits number = (octal_text digits number @ [0], True)"
proof -
  have "unat (drop_bit (3 * digits) number) = 0" using assms by (simp add: unat_drop_bit_u32)
  then have "drop_bit (3 * digits) number = 0" by (simp only: unat_eq_0)
  then show ?thesis by (simp add: tar_octal_def octal_digits_text)
qed

lemma unat_ucast_byte_64: "unat (ucast (b :: byte) :: u64) = unat b"
  using unat_byte_lt [of b] by (simp add: unsigned_ucast_eq take_bit_eq_mod)

lemma ucast_back: "ucast (ucast (n :: u32) :: u64) = n"
proof -
  have "unat (ucast (ucast n :: u64) :: u32) = take_bit 32 (unat n)" unfolding unsigned_ucast_eq [of "ucast n"] by simp
  also have "\<dots> = unat n" using unat_u32_lt [of n] by (simp add: take_bit_nat_eq_self)
  finally show ?thesis by (simp only: word_unat_eq_iff)
qed

lemma octal_digit_byte:
  fixes x :: u32
  defines "b \<equiv> 0x30 + ucast (x AND 7) :: byte"
  shows "\<not> (b < 0x30 \<or> b > 0x37)" and "unat (ucast (b - 0x30) :: u64) = unat x mod 8"
proof -
  have small: "unat (ucast (x AND 7) :: byte) = unat x mod 8"
    by (simp add: unsigned_ucast_eq take_bit_eq_mod unat_octal_digit)
  then have b: "unat b = 48 + unat x mod 8"
    unfolding b_def by (subst unat_add_lem [THEN iffD1]) auto
  then show "\<not> (b < 0x30 \<or> b > 0x37)" by (auto simp: word_less_nat_alt)
  have "b - 0x30 = ucast (x AND 7)" by (simp add: b_def)
  then show "unat (ucast (b - 0x30) :: u64) = unat x mod 8"
    using unat_byte_lt [of "b - 0x30"] small by (simp add: unat_ucast_byte_64)
qed

text \<open>Reading the digits back: \<open>m\<close> digits are left, the others have been read.\<close>

lemma tar_size_from_octal:
  assumes "\<And>j. j < m \<Longrightarrow> header ! (i + j) = 0x30 + ucast (drop_bit (3 * (m - 1 - j)) x AND 7)"
    and "unat a = unat x div 2 ^ (3 * m)"
  shows "tar_size_from header i m a = Some (ucast (x :: u32))"
  using assms
proof (induction m arbitrary: i a)
  case 0
  have "a = ucast x" using 0(2) by (intro word_unat_eq_iff [THEN iffD2]) simp
  then show ?case by simp
next
  case (Suc m)
  let ?y = "drop_bit (3 * m) x"
  let ?a = "a * 8 + ucast (header ! i - 0x30) :: u64"
  have byte: "header ! i = 0x30 + ucast (?y AND 7)" using Suc.prems(1) [of 0] by simp
  have y: "unat ?y = unat x div 2 ^ (3 * m)" by (rule unat_drop_bit_u32)
  have a: "unat a = unat ?y div 8"
    using Suc.prems(2) unfolding y mult_Suc_right add.commute [of 3] power_add div_mult2_eq by simp
  have small: "unat ?y < 2 ^ 32" using unat_u32_lt [of ?y] by simp
  have digit: "unat (ucast (header ! i - 0x30) :: u64) = unat ?y mod 8"
    unfolding byte by (rule octal_digit_byte(2))
  have eight: "unat (a * 8) = unat a * 8"
    using a small by (subst unat_mult_lem [THEN iffD1]) auto
  have "unat ?a = unat (a * 8) + unat (ucast (header ! i - 0x30) :: u64)"
    using a small digit eight by (intro unat_add_lem [THEN iffD1]) simp
  then have next_a: "unat ?a = unat ?y" using a digit eight by simp
  have "\<not> ?a > 0xffffffff" using next_a small by (simp add: word_less_nat_alt)
  moreover have "tar_size_from header (Suc i) m ?a = Some (ucast x)"
  proof (rule Suc.IH)
    show "header ! (Suc i + j) = 0x30 + ucast (drop_bit (3 * (m - 1 - j)) x AND 7)" if "j < m" for j
      using Suc.prems(1) [of "Suc j"] that by simp
    show "unat ?a = unat x div 2 ^ (3 * m)" using next_a y by simp
  qed
  moreover have "\<not> (header ! i < 0x30 \<or> header ! i > 0x37)" unfolding byte by (rule octal_digit_byte(1))
  ultimately show ?case by (simp add: Let_def)
qed

subsection \<open>The expected header\<close>

lemma sum_bytes_bound: "unat (sum_list (map ucast bs) :: u32) \<le> 255 * length (bs :: bytes)"
proof (induction bs)
  case (Cons b bs)
  have "unat (ucast b :: u32) \<le> 255" using unat_byte_lt [of b] by (simp add: unsigned_ucast_eq take_bit_eq_mod)
  then show ?case using Cons unat_plus_simple unat_word_ariths(1) [of "ucast b :: u32"]
    by (auto simp: intro: order_trans [OF mod_less_eq_dividend])
qed simp

lemma header_parts [simp]:
  "length (str_bytes ''0000644'') = 7" "length (str_bytes ''0000000'') = 7"
  "length (str_bytes ''00000000000'') = 11" "length (str_bytes ''0'') = 1"
  "length (str_bytes ''ustar'') = 5" "length (str_bytes ''00'') = 2"
  by (simp_all add: str_bytes_def)

lemma tar_expected_header:
  assumes "length name < 100"
  obtains header where "tar_expected name n = Some header" and "length header = 512" and "tar_size header = Some n"
proof -
  have size: "unat n < 2 ^ (3 * 11)" using unat_u32_lt [of n] by simp
  define front where "front = store 124 (octal_text 11 n @ [0]) (store 116 (str_bytes ''0000000'')
    (store 108 (str_bytes ''0000000'') (store 100 (str_bytes ''0000644'') (store 0 (str_bytes name) (zeros 512)))))"
  define middle where "middle = store 263 (str_bytes ''00'') (store 257 (str_bytes ''ustar'') (store 156 (str_bytes ''0'')
    (store 148 (replicate 8 0x20) (store 136 (str_bytes ''00000000000'') front))))"
  define checksum :: u32 where "checksum = sum_list (map ucast middle)"
  define header where "header = store 155 [0x20] (store 148 (octal_text 6 checksum @ [0]) middle)"
  have name: "length (str_bytes name) < 100" using assms by (simp add: str_bytes_def)
  then have len: "length front = 512" "length middle = 512" "length header = 512"
    by (simp_all add: front_def middle_def header_def)
  have "unat checksum < 2 ^ (3 * 6)" using sum_bytes_bound [of middle] len(2) by (simp add: checksum_def)
  note octal = octal_fits [OF size] octal_fits [OF this]
  have "\<not> 100 \<le> length name" using assms by simp
  then have expected: "tar_expected name n = Some header"
    unfolding tar_expected_def Let_def octal(1) prod.case
    by (simp only: if_False not_True_eq_False octal(2) prod.case header_def flip: front_def middle_def checksum_def)
  have field: "header ! i = (octal_text 11 n @ [0]) ! (i - 124)" if "124 \<le> i" "i < 136" for i
  proof -
    have "header ! i = front ! i"
      using that(2) len(1) by (simp add: header_def middle_def nth_store_before)
    also have "\<dots> = (octal_text 11 n @ [0]) ! (i - 124)"
      using that name unfolding front_def by (subst nth_store) simp_all
    finally show ?thesis .
  qed
  have "tar_size_from header 124 11 0 = Some (ucast n)"
  proof (rule tar_size_from_octal)
    show "header ! (124 + j) = 0x30 + ucast (drop_bit (3 * (11 - 1 - j)) n AND 7)" if "j < 11" for j
      using field [of "124 + j"] that by (simp add: nth_append octal_text_def)
    show "unat (0 :: u64) = unat n div 2 ^ (3 * 11)" using size by simp
  qed
  moreover have "header ! 135 = 0" using field [of 135] by (simp add: nth_append)
  ultimately have "tar_size header = Some n" by (simp add: tar_size_def ucast_back)
  with expected len(3) show thesis by (rule that)
qed

end
