(* ===== verification/Package_Live.thy ===== *)
theory Package_Live
  imports Package_Contents Package_Tar
begin

text \<open>
  The stream on a device that does not fail: it accepts every trusted package.  With the
  soundness of \<open>Package_Contents\<close> it accepts exactly the trusted packages.

  \<open>attains v c m P\<close> is the total form of \<open>streams v c m P\<close>: from a good stream at the cursor
  \<open>c\<close> on a healthy device, \<open>m\<close> is OK with value and cursor in \<open>P\<close>, and the device stays healthy.
\<close>

subsection \<open>The pieces of a member\<close>

lemma piece_within:
  "piece pkg c len = whole \<Longrightarrow> off + n \<le> len \<Longrightarrow> piece pkg (c + off) n = piece whole off n"
  using piece_piece [of off n len pkg c] by simp

lemma piece_head: "8 \<le> m \<Longrightarrow> 8 \<le> n \<Longrightarrow> take 8 (piece pkg c m) = take 8 (piece pkg c n)"
  by (simp add: piece_def min_absorb1)

lemma length_tar_member:
  assumes "length name < 100"
  shows "length (tar_member name body) = TAR_BLOCK_BYTES + length body + tar_padding (length body)"
proof -
  obtain header where "tar_expected name (of_nat (length body)) = Some header" "length header = 512"
    using tar_expected_header [OF assms] by blast
  then show ?thesis unfolding tar_member_def by (simp add: TAR_BLOCK_BYTES_def)
qed

lemma member_pieces:
  assumes name: "length name < 100" and small: "length body < 4294967296"
    and at: "piece pkg c (length (tar_member name body)) = tar_member name body"
  obtains n :: u32 where "unat n = length body"
    and "tar_expected name n = Some (piece pkg c TAR_BLOCK_BYTES)"
    and "tar_size (piece pkg c TAR_BLOCK_BYTES) = Some n"
    and "piece pkg (c + TAR_BLOCK_BYTES) (length body) = body"
    and "piece pkg (c + TAR_BLOCK_BYTES + length body) (tar_padding (length body)) = zeros (tar_padding (length body))"
proof -
  obtain header where header: "tar_expected name (of_nat (length body)) = Some header" "length header = 512"
      "tar_size header = Some (of_nat (length body))"
    using tar_expected_header [OF name] by blast
  define z where "z = tar_padding (length body)"
  have member: "tar_member name body = header @ body @ zeros z" by (simp add: tar_member_def header(1) z_def)
  note within = piece_within [OF at, unfolded member]
  have "piece pkg (c + 0) 512 = header"
    using header(2) by (subst within) (simp_all add: piece_def)
  moreover have "piece pkg (c + 512) (length body) = body"
    using header(2) by (subst within) (simp_all add: piece_def)
  moreover have "piece pkg (c + (512 + length body)) z = zeros z"
    using header(2) by (subst within) (simp_all add: piece_def)
  moreover have "unat (of_nat (length body) :: u32) = length body"
    using small by (simp add: unat_of_nat)
  ultimately show thesis
    using header that by (simp add: TAR_BLOCK_BYTES_def add.assoc flip: z_def)
qed

text \<open>Where the parts of an archive stand.\<close>

lemma length_tar_archive: "length (tar_archive text signature wasm) = canonical_size (length (tar_members text signature wasm))"
  using canonical_size_ge [of "length (tar_members text signature wasm)"] by (simp add: tar_archive_def Let_def)

lemma piece_append_eq: "piece (as @ bs @ cs) (length as) (length bs) = bs"
  by (simp add: piece_def)

lemma archive_pieces:
  fixes manif signature wasm
  defines "archive \<equiv> tar_archive manif signature wasm"
    and "m \<equiv> tar_member ''manifest.json'' manif" and "s \<equiv> tar_member ''signature.bin'' signature"
    and "w \<equiv> tar_member ''app.wasm'' wasm"
    and "c \<equiv> length (tar_members manif signature wasm)"
  shows "piece archive 0 (length m) = m"
    and "piece archive (length m) (length s) = s"
    and "piece archive (length m + length s) (length w) = w"
    and "piece archive c (length archive - c) = zeros (length archive - c)"
proof -
  have archive: "archive = m @ s @ w @ zeros (canonical_size c - c)" and c: "c = length m + length s + length w"
    by (simp_all add: archive_def tar_archive_def tar_members_def m_def s_def w_def c_def Let_def)
  note at = piece_append_eq
  show "piece archive 0 (length m) = m" using at [of "[]"] by (simp add: archive)
  show "piece archive (length m) (length s) = s" unfolding archive by (rule at)
  show "piece archive (length m + length s) (length w) = w"
    using at [of "m @ s" w "zeros (canonical_size c - c)"] by (simp add: archive)
  show "piece archive c (length archive - c) = zeros (length archive - c)"
    using at [of "m @ s @ w" "zeros (canonical_size c - c)" "[]"] c by (simp add: archive add.assoc)
qed

lemma archive_payload: "piece (tar_archive text signature wasm) (wasm_position text signature) (length wasm) = wasm"
proof -
  obtain header where "tar_expected ''app.wasm'' (of_nat (length wasm)) = Some header" "length header = 512"
    using tar_expected_header [of "''app.wasm''"] by auto
  then have member: "tar_member ''app.wasm'' wasm = header @ wasm @ zeros (tar_padding (length wasm))"
      and "512 + length wasm \<le> length (tar_member ''app.wasm'' wasm)" "length header = 512"
    by (simp_all add: tar_member_def)
  from piece_within [OF archive_pieces(3) this(2)] show ?thesis
    unfolding wasm_position_def TAR_BLOCK_BYTES_def member using \<open>length header = 512\<close>
    by (simp add: piece_def)
qed

subsection \<open>Total steps\<close>

locale package_live =
  package_source read_fn view snapshot +
  live_signature psa keys absorbed sha256 verifies key_of view healthy importable
  for read_fn :: "'d package_read_fn" and view :: "'d \<Rightarrow> 'v" and snapshot
    and psa :: "('d, 'h) psa_api" and keys absorbed sha256 verifies key_of healthy importable +
  assumes read_healthy: "healthy d \<Longrightarrow> 0 < n \<Longrightarrow> n \<le> 512 \<Longrightarrow> offset + n \<le> length (snapshot (view d)) \<Longrightarrow>
      \<exists>bs d'. read_fn offset n d = (Some bs, d') \<and> healthy d'"

sublocale package_live \<subseteq> package_trust read_fn view snapshot psa keys absorbed sha256 verifies key_of ..

context package_live
begin

definition attains :: "'v \<Rightarrow> nat \<Rightarrow> ('d, 'h, 'a) streaming \<Rightarrow> ('a \<Rightarrow> nat \<Rightarrow> bool) \<Rightarrow> bool" where
  "attains v c m P \<longleftrightarrow> (\<forall>s. stream_ok v s \<longrightarrow> st_cursor s = c \<longrightarrow> healthy (st_device s) \<longrightarrow>
     (\<exists>x s'. m s = (Inr x, s') \<and> stream_ok v s' \<and> healthy (st_device s') \<and> P x (st_cursor s')))"

lemma attainsI:
  assumes "streams v c m P"
    and "\<And>s. stream_ok v s \<Longrightarrow> st_cursor s = c \<Longrightarrow> healthy (st_device s) \<Longrightarrow>
      \<exists>x s'. m s = (Inr x, s') \<and> healthy (st_device s')"
  shows "attains v c m P"
  unfolding attains_def using assms(2) streamsD [OF assms(1)] by blast

lemma attainsD:
  assumes "attains v c m P" and "stream_ok v s" and "st_cursor s = c" and "healthy (st_device s)"
  obtains x s' where "m s = (Inr x, s')" and "stream_ok v s'" and "healthy (st_device s')" and "P x (st_cursor s')"
  using assms unfolding attains_def by blast

lemma attains_bind:
  assumes "attains v c m P" and "\<And>x c'. P x c' \<Longrightarrow> attains v c' (f x) Q"
  shows "attains v c (bindE m f) Q"
  unfolding attains_def
proof (intro allI impI)
  fix s assume "stream_ok v s" "st_cursor s = c" "healthy (st_device s)"
  with assms(1) obtain x s1 where x: "m s = (Inr x, s1)" "stream_ok v s1" "healthy (st_device s1)" "P x (st_cursor s1)"
    by (rule attainsD)
  from assms(2) [OF x(4)] x(2) refl x(3) obtain y s2 where "f x s1 = (Inr y, s2)" "stream_ok v s2"
      "healthy (st_device s2)" "Q y (st_cursor s2)"
    by (rule attainsD)
  with x(1) show "\<exists>x s'. bindE m f s = (Inr x, s') \<and> stream_ok v s' \<and> healthy (st_device s') \<and> Q x (st_cursor s')"
    by (auto simp: bindE_def)
qed

lemma attains_guard: "b \<Longrightarrow> attains v c m Q \<Longrightarrow> attains v c (bindE (guardE b e) (\<lambda>_. m)) Q"
  by (simp add: attains_def bindE_def guardE_def retE_def)

lemma attains_ret: "P x c \<Longrightarrow> attains v c (retE x) P"
  by (auto simp: attains_def)

lemma attains_conseq: "attains v c m P \<Longrightarrow> (\<And>x c'. P x c' \<Longrightarrow> Q x c') \<Longrightarrow> attains v c m Q"
  unfolding attains_def by blast

lemma attains_on_device:
  assumes "keeps view m" and "\<And>d. healthy d \<Longrightarrow> \<exists>x d'. m d = (x, d') \<and> healthy d' \<and> P x"
  shows "attains v c (on_device m) (\<lambda>x c'. c' = c \<and> P x)"
  unfolding attains_def
proof (intro allI impI)
  fix s assume s: "stream_ok v s" "st_cursor s = c" "healthy (st_device s)"
  from assms(2) [OF s(3)] obtain x d' where x: "m (st_device s) = (x, d')" "healthy d'" "P x" by blast
  then show "\<exists>x s'. on_device m s = (Inr x, s') \<and> stream_ok v s' \<and> healthy (st_device s') \<and> st_cursor s' = c \<and> P x"
    using s keepsD [OF assms(1) x(1)] by (auto simp: on_device_def stream_ok_def)
qed

lemma attains_read:
  assumes "0 < n" and "n \<le> 512" and "c + n \<le> stream_size" and "stream_size \<le> length (snapshot v)"
  shows "attains v c (stream_read psa read_fn stream_size n) (\<lambda>bs c'. bs = piece (snapshot v) c n \<and> c' = c + n)"
proof (rule attainsI)
  show "streams v c (stream_read psa read_fn stream_size n) (\<lambda>bs c'. bs = piece (snapshot v) c n \<and> c' = c + n)"
    by (rule streams_conseq [OF streams_read]) simp
  fix s assume s: "stream_ok v s" "st_cursor s = c" "healthy (st_device s)"
  have "c + n \<le> length (snapshot (view (st_device s)))" using s(1) assms by (simp add: stream_ok_def)
  from read_healthy [OF s(3) assms(1,2) this] obtain bs d1 where bs: "read_fn c n (st_device s) = (Some bs, d1)"
      "healthy d1" by blast
  from digest_update_live [OF bs(2)] obtain dg d2 where "digest_update psa (st_digest s) bs d1 = ((True, dg), d2)"
      "healthy d2" by blast
  with bs s(2) assms show "\<exists>x s'. stream_read psa read_fn stream_size n s = (Inr x, s') \<and> healthy (st_device s')"
    by (auto simp: stream_read_def TAR_BLOCK_BYTES_def)
qed

lemma attains_bytes:
  assumes "stream_size \<le> length (snapshot v)"
  shows "c + n \<le> stream_size \<Longrightarrow> attains v c (stream_bytes psa read_fn stream_size n)
    (\<lambda>bs c'. bs = piece (snapshot v) c n \<and> c' = c + n)"
proof (induction n arbitrary: c rule: less_induct)
  case (less n)
  show ?case
  proof (cases "n = 0")
    case False
    note k = tar_piece_bounds(1) [OF False] tar_piece_bounds(2) [of n, unfolded TAR_BLOCK_BYTES_def]
    show ?thesis
      unfolding stream_bytes_step [OF False]
      using k less.prems piece_split [of "snapshot v" c "tar_piece n" "n - tar_piece n"]
      by (intro attains_bind [OF attains_read [OF _ _ _ assms]] attains_bind [OF less.IH] attains_ret) auto
  qed (simp add: stream_nothing attains_ret)
qed

lemma attains_zeros:
  assumes "stream_size \<le> length (snapshot v)"
  shows "c + n \<le> stream_size \<Longrightarrow> piece (snapshot v) c n = zeros n \<Longrightarrow>
    attains v c (stream_zeros psa read_fn stream_size n) (\<lambda>_ c'. c' = c + n)"
proof (induction n arbitrary: c rule: less_induct)
  case (less n)
  show ?case
  proof (cases "n = 0")
    case False
    note k = tar_piece_bounds(1) [OF False] tar_piece_bounds(2) [of n, unfolded TAR_BLOCK_BYTES_def]
    have parts: "piece (snapshot v) (c + 0) (tar_piece n) = zeros (tar_piece n)"
        "piece (snapshot v) (c + tar_piece n) (n - tar_piece n) = zeros (n - tar_piece n)"
      using k by (subst piece_within [OF less.prems(2)]; simp add: piece_def)+
    have "\<not> list_ex (\<lambda>b. b \<noteq> 0) (zeros j)" for j by (induction j) simp_all
    then show ?thesis
      unfolding stream_zeros_step [OF False]
      using k less.prems(1) parts
      by (intro attains_bind [OF attains_read [OF _ _ _ assms]])
         (auto intro!: attains_conseq [OF less.IH])
  qed (simp add: stream_nothing attains_ret)
qed

lemma attains_header:
  assumes "stream_size \<le> length (snapshot v)" and "c + TAR_BLOCK_BYTES \<le> stream_size"
    and "tar_expected name n = Some (piece (snapshot v) c TAR_BLOCK_BYTES)"
    and "tar_size (piece (snapshot v) c TAR_BLOCK_BYTES) = Some n"
  shows "attains v c (stream_header psa read_fn stream_size name) (\<lambda>x c'. x = n \<and> c' = c + TAR_BLOCK_BYTES)"
  unfolding stream_header_def
  using assms by (intro attains_bind [OF attains_read])
     (auto simp: tar_header_matches_def TAR_BLOCK_BYTES_def intro!: attains_ret)

subsection \<open>Members\<close>

text \<open>A member of the archive stands at the cursor.\<close>

definition member_here :: "'v \<Rightarrow> nat \<Rightarrow> nat \<Rightarrow> string \<Rightarrow> bytes \<Rightarrow> bool" where
  "member_here v stream_size c name body \<longleftrightarrow> stream_size \<le> length (snapshot v) \<and>
     c + length (tar_member name body) \<le> stream_size \<and>
     piece (snapshot v) c (length (tar_member name body)) = tar_member name body"

lemma member_here_steps:
  assumes here: "member_here v stream_size c name body"
    and name: "length name < 100" and small: "length body < 4294967296"
  obtains n :: u32 where "unat n = length body" and "stream_size \<le> length (snapshot v)"
    and "c + length (tar_member name body) = c + TAR_BLOCK_BYTES + unat n + tar_padding (unat n)"
    and "c + TAR_BLOCK_BYTES + unat n + tar_padding (unat n) \<le> stream_size"
    and "attains v c (stream_header psa read_fn stream_size name) (\<lambda>x c'. x = n \<and> c' = c + TAR_BLOCK_BYTES)"
    and "piece (snapshot v) (c + TAR_BLOCK_BYTES) (unat n) = body"
    and "piece (snapshot v) (c + TAR_BLOCK_BYTES + unat n) (tar_padding (unat n)) = zeros (tar_padding (unat n))"
proof -
  have room: "stream_size \<le> length (snapshot v)" "c + length (tar_member name body) \<le> stream_size"
    and at: "piece (snapshot v) c (length (tar_member name body)) = tar_member name body"
    using here by (simp_all add: member_here_def)
  from name small at obtain n :: u32 where n: "unat n = length body"
      "tar_expected name n = Some (piece (snapshot v) c TAR_BLOCK_BYTES)"
      "tar_size (piece (snapshot v) c TAR_BLOCK_BYTES) = Some n"
      "piece (snapshot v) (c + TAR_BLOCK_BYTES) (length body) = body"
      "piece (snapshot v) (c + TAR_BLOCK_BYTES + length body) (tar_padding (length body)) = zeros (tar_padding (length body))"
    by (rule member_pieces)
  note len = length_tar_member [OF name, of body]
  show thesis
    using n room len by (intro that [OF n(1)] attains_header) auto
qed

lemma attains_verify_manifest:
  assumes "member_here v stream_size c ''manifest.json'' text"
    and "0 < length text" and "length text \<le> PACKAGE_MANIFEST_MAX_BYTES"
    and parsed: "parse_manifest text key_id max_wasm = Some mf"
  shows "attains v c (verify_manifest psa read_fn stream_size key_id max_wasm)
    (\<lambda>r c'. r = (text, mf) \<and> c' = c + length (tar_member ''manifest.json'' text))"
proof -
  have "length text < 4294967296" "length ''manifest.json'' < 100"
    using assms(3) by (simp_all add: PACKAGE_MANIFEST_MAX_BYTES_def)
  then obtain n :: u32 where n: "unat n = length text" and size: "stream_size \<le> length (snapshot v)"
    and at: "c + length (tar_member ''manifest.json'' text) = c + TAR_BLOCK_BYTES + unat n + tar_padding (unat n)"
      "c + TAR_BLOCK_BYTES + unat n + tar_padding (unat n) \<le> stream_size"
    and header: "attains v c (stream_header psa read_fn stream_size ''manifest.json'')
      (\<lambda>x c'. x = n \<and> c' = c + TAR_BLOCK_BYTES)"
    and body: "piece (snapshot v) (c + TAR_BLOCK_BYTES) (unat n) = text"
    and pad: "piece (snapshot v) (c + TAR_BLOCK_BYTES + unat n) (tar_padding (unat n)) = zeros (tar_padding (unat n))"
    using member_here_steps [OF assms(1)] by metis
  have "\<not> (n = 0 \<or> unat n > PACKAGE_MANIFEST_MAX_BYTES)" using n assms(2,3) by auto
  then show ?thesis
    unfolding verify_manifest_def
    by (intro attains_bind [OF header] attains_bind [OF attains_bytes [OF size]]
        attains_bind [OF attains_zeros [OF size]])
       (use at body pad parsed in \<open>auto intro!: attains_guard attains_bind [OF attains_bytes [OF size]]
          attains_bind [OF attains_zeros [OF size]] attains_ret\<close>)
qed

lemma attains_verify_signature:
  assumes "member_here v stream_size c ''signature.bin'' signature"
    and sig: "length signature = PACKAGE_SIGNATURE_BYTES" "importable public_key"
      "verifies public_key (sha256 (package_domain @ text)) signature"
  shows "attains v c (verify_signature psa keys read_fn stream_size public_key text)
    (\<lambda>r c'. r = signature \<and> c' = c + length (tar_member ''signature.bin'' signature))"
proof -
  have "length signature < 4294967296" "length ''signature.bin'' < 100"
    using sig(1) by (simp_all add: PACKAGE_SIGNATURE_BYTES_def)
  then obtain n :: u32 where n: "unat n = length signature" and size: "stream_size \<le> length (snapshot v)"
    and at: "c + length (tar_member ''signature.bin'' signature) = c + TAR_BLOCK_BYTES + unat n + tar_padding (unat n)"
      "c + TAR_BLOCK_BYTES + unat n + tar_padding (unat n) \<le> stream_size"
    and header: "attains v c (stream_header psa read_fn stream_size ''signature.bin'')
      (\<lambda>x c'. x = n \<and> c' = c + TAR_BLOCK_BYTES)"
    and body: "piece (snapshot v) (c + TAR_BLOCK_BYTES) (unat n) = signature"
    and pad: "piece (snapshot v) (c + TAR_BLOCK_BYTES + unat n) (tar_padding (unat n)) = zeros (tar_padding (unat n))"
    using member_here_steps [OF assms(1)] by metis
  have rest: "TAR_BLOCK_BYTES - unat n = tar_padding (unat n)"
    using n sig(1) by (simp add: TAR_BLOCK_BYTES_def PACKAGE_SIGNATURE_BYTES_def tar_padding_def)
  have verify: "attains v c' (on_device (signature_verify psa keys public_key text sig))
      (\<lambda>trusted c''. c'' = c' \<and> trusted)" if "sig = signature" for c' sig
    using signature_verify_live [OF _ sig(2,3)] that
    by (intro attains_on_device [OF signature_verify_keeps]) blast
  show ?thesis
    unfolding verify_signature_def
    by (rule attains_bind [OF header])
       (use at body pad n sig(1) rest in \<open>auto intro!: attains_guard attains_bind [OF attains_bytes [OF size]]
          attains_bind [OF attains_zeros [OF size]] attains_bind [OF verify] attains_ret\<close>)
qed

lemma attains_wasm_loop:
  assumes size: "stream_size \<le> length (snapshot v)"
  shows "c + n \<le> stream_size \<Longrightarrow> n \<le> m \<Longrightarrow>
    (n = m \<longrightarrow> n \<noteq> 0 \<longrightarrow> take 8 (piece (snapshot v) c (tar_piece n)) = wasm_header) \<Longrightarrow>
    attains v c (wasm_loop psa read_fn stream_size m n dg)
      (\<lambda>dg' c'. c' = c + n \<and> absorbed dg' = absorbed dg @ piece (snapshot v) c n)"
proof (induction n arbitrary: c dg rule: less_induct)
  case (less n)
  show ?case
  proof (cases "n = 0")
    case True
    then show ?thesis by (auto simp: attains_def wasm_loop.simps)
  next
    case False
    note k = tar_piece_bounds(1) [OF False] tar_piece_bounds(2) [of n, unfolded TAR_BLOCK_BYTES_def]
    show ?thesis
    proof (rule attainsI [OF streams_conseq [OF streams_wasm_loop]])
      fix s assume s: "stream_ok v s" "st_cursor s = c" "healthy (st_device s)"
      have "attains v c (stream_read psa read_fn stream_size (tar_piece n))
          (\<lambda>bs c'. bs = piece (snapshot v) c (tar_piece n) \<and> c' = c + tar_piece n)"
        using k less.prems(1) by (intro attains_read [OF _ _ _ size]) auto
      from this s obtain bs s1 where bs: "stream_read psa read_fn stream_size (tar_piece n) s = (Inr bs, s1)"
          "stream_ok v s1" "healthy (st_device s1)"
          "bs = piece (snapshot v) c (tar_piece n) \<and> st_cursor s1 = c + tar_piece n"
        by (rule attainsD)
      obtain dg1 d where dg1: "digest_update psa dg bs (st_device s1) = ((True, dg1), d)" "healthy d"
        using digest_update_live [OF bs(3)] by blast
      have ok: "stream_ok v (s1\<lparr>st_device := d\<rparr>)"
        using bs(2) keepsD [OF digest_update_keeps dg1(1)] by (simp add: stream_ok_def)
      have "attains v (c + tar_piece n) (wasm_loop psa read_fn stream_size m (n - tar_piece n) dg1)
          (\<lambda>dg' c'. c' = c + tar_piece n + (n - tar_piece n) \<and>
             absorbed dg' = absorbed dg1 @ piece (snapshot v) (c + tar_piece n) (n - tar_piece n))"
        using k less.prems tar_piece_less [OF False] by (intro less.IH) auto
      moreover have "st_cursor (s1\<lparr>st_device := d\<rparr>) = c + tar_piece n" "healthy (st_device (s1\<lparr>st_device := d\<rparr>))"
        using bs(4) dg1(2) by simp_all
      ultimately obtain dg' s' where
        "wasm_loop psa read_fn stream_size m (n - tar_piece n) dg1 (s1\<lparr>st_device := d\<rparr>) = (Inr dg', s')"
        "healthy (st_device s')" using ok by (metis attainsD)
      then show "\<exists>x s'. wasm_loop psa read_fn stream_size m n dg s = (Inr x, s') \<and> healthy (st_device s')"
        using False bs less.prems(3) dg1(1) by (subst wasm_loop.simps) auto
    qed auto
  qed
qed

lemma attains_verify_wasm:
  assumes "member_here v stream_size c ''app.wasm'' wasm"
    and wasm: "length wasm = unat (mf_wasm_size_bytes mf)" "8 \<le> length wasm" "length wasm \<le> max_wasm"
      "take 8 wasm = wasm_header" "sha256 wasm = mf_wasm_sha256 mf"
  shows "attains v c (verify_wasm psa read_fn stream_size max_wasm mf)
    (\<lambda>r c'. r = (c + TAR_BLOCK_BYTES, length wasm, sha256 wasm) \<and> c' = c + length (tar_member ''app.wasm'' wasm))"
proof -
  have "length wasm < 4294967296" "length ''app.wasm'' < 100"
    using unat_u32_lt [of "mf_wasm_size_bytes mf"] by (simp_all add: wasm(1))
  then obtain n :: u32 where n: "unat n = length wasm" and size: "stream_size \<le> length (snapshot v)"
    and at: "c + length (tar_member ''app.wasm'' wasm) = c + TAR_BLOCK_BYTES + unat n + tar_padding (unat n)"
      "c + TAR_BLOCK_BYTES + unat n + tar_padding (unat n) \<le> stream_size"
    and header: "attains v c (stream_header psa read_fn stream_size ''app.wasm'')
      (\<lambda>x c'. x = n \<and> c' = c + TAR_BLOCK_BYTES)"
    and body: "piece (snapshot v) (c + TAR_BLOCK_BYTES) (unat n) = wasm"
    and pad: "piece (snapshot v) (c + TAR_BLOCK_BYTES + unat n) (tar_padding (unat n)) = zeros (tar_padding (unat n))"
    using member_here_steps [OF assms(1)] by metis
  have n_mf: "n = mf_wasm_size_bytes mf" using n wasm(1) by (simp add: word_unat_eq_iff)
  have guard: "\<not> (n \<noteq> mf_wasm_size_bytes mf \<or> n < 8 \<or> unat n > max_wasm)"
    using n n_mf wasm(2,3) by (simp add: word_less_nat_alt)
  have eight: "8 \<le> unat n" "8 \<le> tar_piece (unat n)"
    using n wasm(2) by (simp_all add: tar_piece_def TAR_BLOCK_BYTES_def)
  have first: "take 8 (piece (snapshot v) (c + TAR_BLOCK_BYTES) (tar_piece (unat n))) = wasm_header"
    unfolding piece_head [OF eight(2,1)] body by (rule wasm(4))
  have start: "attains v c' (on_device (digest_start psa))
      (\<lambda>x c''. c'' = c' \<and> (\<exists>dg. x = Some dg \<and> absorbed dg = []))" for c'
  proof (rule attains_on_device [OF digest_start_keeps])
    show "\<exists>x d'. digest_start psa d = (x, d') \<and> healthy d' \<and> (\<exists>dg. x = Some dg \<and> absorbed dg = [])"
      if "healthy d" for d
      using digest_start_live [OF that] by (auto dest: digest_start_absorbed)
  qed
  have finish: "attains v c' (on_device (digest_finish psa dg)) (\<lambda>x c''. c'' = c' \<and> x = Some (sha256 (absorbed dg)))"
    for c' dg
    using digest_finish_live [of _ dg] by (intro attains_on_device [OF digest_finish_keeps]) simp
  have cursor: "attains v c' (\<lambda>s. (Inr (st_cursor s), s)) (\<lambda>x c''. c'' = c' \<and> x = c')" for c'
    by (auto simp: attains_def)
  show ?thesis
    unfolding verify_wasm_def
    by (rule attains_bind [OF header])
       (use at body pad n guard first wasm(5) n_mf in \<open>auto intro!: attains_guard attains_bind [OF cursor]
          attains_bind [OF start] attains_bind [OF attains_wasm_loop [OF size]] attains_bind [OF finish]
          attains_bind [OF attains_zeros [OF size]] attains_ret\<close>)
qed

lemma attains_verify_end:
  assumes "stream_size \<le> length (snapshot v)" and "canonical_size c = stream_size"
    and "piece (snapshot v) c (stream_size - c) = zeros (stream_size - c)"
  shows "attains v c (verify_end psa read_fn stream_size) (\<lambda>_ c'. c' = stream_size)"
proof -
  have "c \<le> stream_size" using canonical_size_ge [of c] assms(2) by simp
  then have "attains v c (stream_zeros psa read_fn stream_size (stream_size - c)) (\<lambda>_ c'. c' = stream_size)"
    using attains_conseq [OF attains_zeros [OF assms(1) _ assms(3)]] by simp
  then show ?thesis using assms(2) by (simp add: attains_def verify_end_def)
qed

subsection \<open>The package\<close>

lemma attains_verify_members:
  assumes size: "package_size \<le> length (snapshot v)" and key: "importable public_key"
    and trusted: "trusted_package sha256 verifies public_key key_id max_wasm (piece (snapshot v) 0 package_size)
      text signature wasm mf"
  shows "attains v 0 (verify_members psa keys read_fn package_size max_wasm public_key key_id)
    (\<lambda>r c. r = (text, mf, signature, wasm_position text signature, length wasm, sha256 wasm) \<and> c = package_size)"
proof -
  let ?m = "tar_member ''manifest.json'' text" and ?s = "tar_member ''signature.bin'' signature"
    and ?w = "tar_member ''app.wasm'' wasm" and ?c = "length (tar_members text signature wasm)"
  have archive: "piece (snapshot v) 0 package_size = tar_archive text signature wasm"
    and parsed: "0 < length text" "length text \<le> PACKAGE_MANIFEST_MAX_BYTES" "parse_manifest text key_id max_wasm = Some mf"
    and sig: "length signature = PACKAGE_SIGNATURE_BYTES" "verifies public_key (sha256 (package_domain @ text)) signature"
    and wasm: "length wasm = unat (mf_wasm_size_bytes mf)" "8 \<le> length wasm" "length wasm \<le> max_wasm"
      "take 8 wasm = wasm_header" "sha256 wasm = mf_wasm_sha256 mf"
    using trusted unfolding trusted_package_def by blast+
  have whole: "package_size = length (tar_archive text signature wasm)"
    using archive length_piece [of 0 package_size "snapshot v"] size by simp
  have canon: "package_size = canonical_size ?c" unfolding whole by (rule length_tar_archive)
  have c: "?c = length ?m + length ?s + length ?w" "?c \<le> package_size"
    using canonical_size_ge [of ?c] canon by (simp_all add: tar_members_def)
  note within = piece_within [OF archive, of _ _, unfolded add_0]
  note pieces = archive_pieces [of "text" signature wasm]
  have "member_here v package_size 0 ''manifest.json'' text"
    using size c within [of 0 "length ?m"] pieces(1) by (simp add: member_here_def)
  note first = attains_verify_manifest [OF this parsed]
  have "member_here v package_size (length ?m) ''signature.bin'' signature"
    using size c within [of "length ?m" "length ?s"] pieces(2) by (simp add: member_here_def)
  note second = attains_verify_signature [OF this sig(1) key sig(2)]
  have "member_here v package_size (length ?m + length ?s) ''app.wasm'' wasm"
    using size c within [of "length ?m + length ?s" "length ?w"] pieces(3) by (simp add: member_here_def)
  note third = attains_verify_wasm [OF this wasm]
  have "piece (snapshot v) ?c (package_size - ?c) = zeros (package_size - ?c)"
    using c(2) within [of ?c "package_size - ?c"] pieces(4) whole by simp
  note last = attains_verify_end [OF size canon [symmetric] this, unfolded c(1) add.assoc]
  show ?thesis
    unfolding verify_members_def
    by (rule attains_bind [OF first])
       (auto simp: add.assoc wasm_position_def intro!: attains_bind [OF second] attains_bind [OF third] attains_bind [OF last] attains_ret)
qed

lemma package_verify_live:
  assumes healthy: "healthy d" and size: "package_size \<le> length (snapshot (view d))" and key: "importable public_key"
    and args: "verify_arguments_ok package_size max_wasm public_key"
    and trusted: "trusted_package sha256 verifies public_key key_id max_wasm
      (piece (snapshot (view d)) 0 package_size) text signature wasm mf"
  shows "\<exists>d'. package_verify psa keys (Some read_fn) package_size max_wasm (Some public_key)
      (Some key_id) (Some buffers) (Some info0) d =
    ((PACKAGE_OK,
      Some (package_info_of package_size text mf (wasm_position text signature, length wasm, sha256 wasm)
        (sha256 (piece (snapshot (view d)) 0 package_size))),
      Some \<lparr>pw_manifest = text @ drop (length text) (pw_manifest buffers), pw_signature = signature\<rparr>), d') \<and>
    healthy d'"
proof -
  obtain dg d1 where start: "digest_start psa d = (Some dg, d1)" "healthy d1" using digest_start_live [OF healthy] by blast
  let ?s = "\<lparr>st_cursor = 0, st_digest = dg, st_device = d1\<rparr>"
  have s0: "stream_ok (view d) ?s" "st_cursor ?s = 0" "healthy (st_device ?s)"
    using keepsD [OF digest_start_keeps start(1)] digest_start_absorbed [OF start(1)] start(2)
    by (simp_all add: stream_ok_def)
  obtain s where
    members: "verify_members psa keys read_fn package_size max_wasm public_key key_id ?s =
        (Inr (text, mf, signature, wasm_position text signature, length wasm, sha256 wasm), s)"
      "healthy (st_device s)" "stream_ok (view d) s" "st_cursor s = package_size"
    by (rule attainsD [OF attains_verify_members [OF size key trusted] s0]) blast
  have "absorbed (st_digest s) = piece (snapshot (view d)) 0 package_size"
    using members(3,4) by (simp add: stream_ok_def)
  with digest_finish_live [OF members(2), of "st_digest s"] obtain d2 where
    "digest_finish psa (st_digest s) (st_device s) = (Some (sha256 (piece (snapshot (view d)) 0 package_size)), d2)"
    "healthy d2" by auto
  with start members args show ?thesis by (simp add: package_verify_def Let_def)
qed

text \<open>On a healthy device the answer is exact.\<close>

lemma package_verify_exact:
  assumes healthy: "healthy d" and size: "package_size \<le> length (snapshot (view d))" and key: "importable public_key"
    and call: "package_verify psa keys (Some read_fn) package_size max_wasm (Some public_key) (Some key_id)
      (Some buffers) (Some info0) d = ((result, info, workspace), d')"
  shows "result = PACKAGE_OK \<longleftrightarrow> verify_arguments_ok package_size max_wasm public_key \<and>
    (\<exists>text signature wasm mf. trusted_package sha256 verifies public_key key_id max_wasm
      (piece (snapshot (view d)) 0 package_size) text signature wasm mf)"
proof
  assume "result = PACKAGE_OK"
  with call have run: "package_verify psa keys (Some read_fn) package_size max_wasm (Some public_key) (Some key_id)
      (Some buffers) (Some info0) d = ((PACKAGE_OK, info, workspace), d')" by simp
  then have "verify_arguments_ok package_size max_wasm public_key"
    by (auto simp: package_verify_def Let_def split: if_splits)
  with package_verify_sound [OF run] show "verify_arguments_ok package_size max_wasm public_key \<and>
    (\<exists>text signature wasm mf. trusted_package sha256 verifies public_key key_id max_wasm
      (piece (snapshot (view d)) 0 package_size) text signature wasm mf)" by blast
next
  assume "verify_arguments_ok package_size max_wasm public_key \<and>
    (\<exists>text signature wasm mf. trusted_package sha256 verifies public_key key_id max_wasm
      (piece (snapshot (view d)) 0 package_size) text signature wasm mf)"
  with package_verify_live [OF healthy size key, of max_wasm key_id _ _ _ _ buffers info0] call
  show "result = PACKAGE_OK" by (metis fst_conv)
qed

end

end
