(* ===== verification/Package_Memory.thy ===== *)
theory Package_Memory
  imports Package_Refine
begin

text \<open>
  The package check against a check in memory.  Two sources that serve the same payload make
  every scan return the same result, whatever blocks are cached and in whatever devices; with
  the payload in memory as the second source the scan becomes a function of the payload.  So on
  a device that does not fail the streaming check is \<open>payload_check\<close>.
\<close>

subsection \<open>Two sources of one payload\<close>

definition serves_payload :: "'d wasm_source \<Rightarrow> bytes \<Rightarrow> ('d \<Rightarrow> bool) \<Rightarrow> bool" where
  "serves_payload src data good \<longleftrightarrow> length data = ws_size src \<and>
     (\<forall>d offset n. good d \<longrightarrow> window_read (ws_base src) (ws_size src) offset n \<longrightarrow>
        (\<exists>d'. ws_read_fn src offset n d = (Some (piece data (offset - ws_base src) n), d') \<and> good d'))"

definition reader_on :: "bytes \<Rightarrow> ('d \<Rightarrow> bool) \<Rightarrow> 'd wasm_reader \<Rightarrow> bool" where
  "reader_on data good r \<longleftrightarrow> good (wr_device r) \<and> \<not> wr_read_failed r \<and> reader_ok (\<lambda>_. ()) () data r"

lemma byte_at_served:
  assumes src: "serves_payload src data good" and r: "reader_on data good r"
  shows "fst (byte_at src i r) = (if i < length data then Inr (data ! i) else Inl ()) \<and>
    reader_on data good (snd (byte_at src i r))"
proof -
  let ?from = "i div 512 * 512"
  let ?n = "if ws_size src - ?from < 512 then ws_size src - ?from else 512"
  have len: "length data = ws_size src" using src by (simp add: serves_payload_def)
  consider (beyond) "i \<ge> ws_size src"
    | (miss) "i < ws_size src" "wr_cached_size r = 0 \<or> i < wr_cached_begin r \<or>
        i - wr_cached_begin r \<ge> wr_cached_size r"
    | (hit) "i < ws_size src" "wr_cached_size r \<noteq> 0" "wr_cached_begin r \<le> i" "i - wr_cached_begin r < wr_cached_size r"
    by fastforce
  then show ?thesis
  proof cases
    case beyond
    with r len show ?thesis by (simp add: byte_at_def)
  next
    case hit
    with r len show ?thesis by (auto simp: byte_at_def reader_on_def reader_ok_def nth_piece)
  next
    case miss
    have begins: "?from \<le> i" "i < ?from + 512"
      using div_mod_decomp [of i 512] mod_less_divisor [of 512 i] by auto
    note room = block_room [OF begins miss(1)]
    have good: "good (wr_device r)" using r by (simp add: reader_on_def)
    obtain d where read: "ws_read_fn src (ws_base src + ?from) ?n (wr_device r) = (Some (piece data ?from ?n), d)"
        and d: "good d"
      using src good block_window [OF miss(1), of "ws_base src"]
      unfolding serves_payload_def by (metis add_diff_cancel_left')
    have run: "byte_at src i r = (Inr (piece data ?from ?n ! (i - ?from)),
        r\<lparr>wr_device := d, wr_block := piece data ?from ?n, wr_cached_begin := ?from, wr_cached_size := ?n\<rparr>)"
      unfolding byte_at_def WASM_READ_BYTES_def Let_def using miss read by (simp split del: if_split)
    have "piece data ?from ?n ! (i - ?from) = data ! i"
      using begins(1) room len by (intro piece_at) (simp_all del: if_split)
    then show ?thesis
      unfolding run fst_conv snd_conv using miss(1) len d r room(1)
      by (simp add: reader_on_def reader_ok_def del: if_split)
  qed
qed

text \<open>\<open>agree A B m m'\<close>: from states in \<open>A\<close> and \<open>B\<close> both return the same and end in \<open>A\<close> and \<open>B\<close>.\<close>

definition agree :: "('s \<Rightarrow> bool) \<Rightarrow> ('t \<Rightarrow> bool) \<Rightarrow> ('s, 'e, 'a) act \<Rightarrow> ('t, 'e, 'a) act \<Rightarrow> bool" where
  "agree A B m m' \<longleftrightarrow> (\<forall>r r'. A r \<longrightarrow> B r' \<longrightarrow>
     fst (m r) = fst (m' r') \<and> A (snd (m r)) \<and> B (snd (m' r')))"

named_theorems agree_intros "two runs of one scan agree"

lemma agreeD: "agree A B m m' \<Longrightarrow> A r \<Longrightarrow> B r' \<Longrightarrow> m r = (x, s) \<Longrightarrow> m' r' = (x', s') \<Longrightarrow> x' = x \<and> A s \<and> B s'"
  unfolding agree_def by (metis fst_conv snd_conv)

lemma agree_basic [agree_intros]: "agree A B (retE x) (retE x)" "agree A B (failE e) (failE e)"
    "agree A B (guardE b e) (guardE b e)"
  by (simp_all add: agree_def retE_def failE_def guardE_def)

lemma agree_bind [agree_intros]:
  assumes m: "agree A B m m'" and f: "\<And>x. agree A B (f x) (f' x)"
  shows "agree A B (bindE m f) (bindE m' f')"
  unfolding agree_def
proof (intro allI impI)
  fix r r' assume "A r" "B r'"
  obtain x s x' s' where run: "m r = (x, s)" "m' r' = (x', s')" by fastforce
  with agreeD [OF m \<open>A r\<close> \<open>B r'\<close>] have same: "x' = x" and s: "A s" "B s'" by simp_all
  show "fst (bindE m f r) = fst (bindE m' f' r') \<and> A (snd (bindE m f r)) \<and> B (snd (bindE m' f' r'))"
  proof (cases x)
    case (Inr y)
    with f [of y] s show ?thesis unfolding bindE_def run same by (simp add: agree_def)
  qed (use s in \<open>simp add: bindE_def run same\<close>)
qed

lemma agree_bind_prod [agree_intros]:
  "agree A B m m' \<Longrightarrow> (\<And>x y. agree A B (f x y) (f' x y)) \<Longrightarrow>
    agree A B (bindE m (\<lambda>(x, y). f x y)) (bindE m' (\<lambda>(x, y). f' x y))"
  by (rule agree_bind) auto

lemma agree_bind_prod3 [agree_intros]:
  "agree A B m m' \<Longrightarrow> (\<And>x y z. agree A B (f x y z) (f' x y z)) \<Longrightarrow>
    agree A B (bindE m (\<lambda>(x, y, z). f x y z)) (bindE m' (\<lambda>(x, y, z). f' x y z))"
  by (rule agree_bind) auto

lemma agree_if [agree_intros]:
  "agree A B m m' \<Longrightarrow> agree A B n n' \<Longrightarrow> agree A B (if b then m else n) (if b then m' else n')"
  by simp

lemma agree_attempt [agree_intros]: "agree A B m m' \<Longrightarrow> agree A B (attempt m) (attempt m')"
  by (auto simp: agree_def attempt_def split: prod.splits) (metis fst_conv snd_conv)+

lemma agree_case_prod [agree_intros]:
  "(\<And>x y. agree A B (f x y) (f' x y)) \<Longrightarrow> agree A B (case p of (x, y) \<Rightarrow> f x y) (case p of (x, y) \<Rightarrow> f' x y)"
  by (cases p) simp

lemma agree_case_prod_fun [agree_intros]:
  "(\<And>x z. agree A B (f x z y) (f' x z y)) \<Longrightarrow>
    agree A B ((case p of (x, z) \<Rightarrow> f x z) y) ((case p of (x, z) \<Rightarrow> f' x z) y)"
  by (cases p) simp

lemma agree_case_option [agree_intros]:
  "agree A B m m' \<Longrightarrow> (\<And>x. agree A B (f x) (f' x)) \<Longrightarrow>
    agree A B (case p of None \<Rightarrow> m | Some x \<Rightarrow> f x) (case p of None \<Rightarrow> m' | Some x \<Rightarrow> f' x)"
  by (cases p) simp_all

text \<open>Two sources of the payload \<open>data\<close>; \<open>twins\<close> is the relation of their readings.\<close>

definition both_serve :: "bytes \<Rightarrow> 'd wasm_source \<Rightarrow> ('d \<Rightarrow> bool) \<Rightarrow> 'e wasm_source \<Rightarrow> ('e \<Rightarrow> bool) \<Rightarrow> bool" where
  "both_serve data src good src' good' \<longleftrightarrow> serves_payload src data good \<and> serves_payload src' data good'"

abbreviation twins :: "bytes \<Rightarrow> ('d \<Rightarrow> bool) \<Rightarrow> ('e \<Rightarrow> bool) \<Rightarrow> ('d, 'a) reading \<Rightarrow> ('e, 'a) reading \<Rightarrow> bool" where
  "twins data good good' \<equiv> agree (reader_on data good) (reader_on data good')"

lemma both_serve_size: "both_serve data src good src' good' \<Longrightarrow> ws_size src = length data \<and> ws_size src' = length data"
  by (simp add: both_serve_def serves_payload_def)

lemma twins_byte_at [agree_intros]:
  "both_serve data src good src' good' \<Longrightarrow> twins data good good' (byte_at src i) (byte_at src' i)"
  using byte_at_served [of src data good] byte_at_served [of src' data good']
  by (simp add: both_serve_def agree_def)

lemma twins_next_byte [agree_intros]:
  "both_serve data src good src' good' \<Longrightarrow> twins data good good' (next_byte src e c) (next_byte src' e c)"
  unfolding next_byte_def by (intro agree_intros)

lemma twins_next_u32_from [agree_intros]:
  "both_serve data src good src' good' \<Longrightarrow>
    twins data good good' (next_u32_from src e ks c v) (next_u32_from src' e ks c v)"
proof (induction ks arbitrary: c v)
  case (Cons k ks)
  then show ?case unfolding next_u32_from.simps Let_def by (intro agree_intros)
qed (simp add: agree_intros)

lemma twins_next_u32 [agree_intros]:
  "both_serve data src good src' good' \<Longrightarrow> twins data good good' (next_u32 src e c) (next_u32 src' e c)"
  unfolding next_u32_def by (intro agree_intros)

lemma twins_compare_bytes [agree_intros]:
  "both_serve data src good src' good' \<Longrightarrow>
    twins data good good' (compare_bytes src c expected same) (compare_bytes src' c expected same)"
proof (induction expected arbitrary: c same)
  case (Cons b expected)
  then show ?case unfolding compare_bytes.simps by (intro agree_intros)
qed (simp add: agree_intros)

lemma twins_next_name [agree_intros]:
  "both_serve data src good src' good' \<Longrightarrow> twins data good good' (next_name_is src e c s) (next_name_is src' e c s)"
  unfolding next_name_is_def by (intro agree_intros)

lemma twins_expect_bytes [agree_intros]:
  "both_serve data src good src' good' \<Longrightarrow>
    twins data good good' (expect_bytes src c expected) (expect_bytes src' c expected)"
proof (induction expected arbitrary: c)
  case (Cons b expected)
  then show ?case unfolding expect_bytes.simps by (intro agree_intros)
qed (simp add: agree_intros)

lemma twins_next_section [agree_intros]:
  assumes "both_serve data src good src' good'"
  shows "twins data good good' (next_section src c) (next_section src' c)"
  using both_serve_size [OF assms] unfolding next_section_def by (auto intro!: agree_intros assms)

text \<open>The loops, from the inside to the outside.\<close>

lemma agree_bind_after:
  assumes m: "agree A B m m'" and f: "\<And>x r r1. m r = (Inr x, r1) \<Longrightarrow> agree A B (f x) (f' x)"
  shows "agree A B (bindE m f) (bindE m' f')"
  unfolding agree_def
proof (intro allI impI)
  fix r r' assume "A r" "B r'"
  obtain x s x' s' where run: "m r = (x, s)" "m' r' = (x', s')" by fastforce
  with agreeD [OF m \<open>A r\<close> \<open>B r'\<close>] have same: "x' = x" and s: "A s" "B s'" by simp_all
  show "fst (bindE m f r) = fst (bindE m' f' r') \<and> A (snd (bindE m f r)) \<and> B (snd (bindE m' f' r'))"
  proof (cases x)
    case (Inr y)
    with f [of r y s] run s show ?thesis unfolding bindE_def run same by (simp add: agree_def)
  qed (use s in \<open>simp add: bindE_def run same\<close>)
qed

lemma twins_sections_loop [agree_intros]:
  assumes both: "both_serve data src good src' good'"
  shows "twins data good good' (sections_loop src c last_id secs) (sections_loop src' c last_id secs)"
proof (induction "length data - c" arbitrary: c last_id secs rule: less_induct)
  case less
  have size: "ws_size src = length data" "ws_size src' = length data" using both_serve_size [OF both] by simp_all
  have later: "twins data good good' (sections_loop src e l s) (sections_loop src' e l s)"
    if "next_section src c r0 = (Inr (k, b, e), r1)" "c < length data" for r0 k b e r1 l s
    using less.hyps [of e l s] next_section_advances [OF that(1)] diff_less_mono2 [of c e "length data"]
      that(2) by auto
  show ?case
  proof (cases "c < length data")
    case True
    show ?thesis
      unfolding sections_loop_step [of src c] sections_loop_step [of src' c] size if_P [OF True]
      by (rule agree_bind_after [OF twins_next_section [OF both]], clarify)
         (intro agree_intros both later [OF _ True]; assumption)
  qed (simp add: sections_loop_step [of src c] sections_loop_step [of src' c] size agree_basic)
qed

lemma twins_scan_sections [agree_intros]:
  "both_serve data src good src' good' \<Longrightarrow> twins data good good' (scan_sections src) (scan_sections src')"
  unfolding scan_sections_def by (intro agree_intros)

lemma twins_match_types [agree_intros]:
  "both_serve data src good src' good' \<Longrightarrow>
    twins data good good' (match_types src e n part wanted m c) (match_types src' e n part wanted m c)"
proof (induction n arbitrary: part m c)
  case (Suc n)
  then show ?case unfolding match_types.simps by (intro agree_intros)
qed (simp add: agree_intros)

lemma twins_match_entry [agree_intros]:
  "both_serve data src good src' good' \<Longrightarrow>
    twins data good good' (match_entry src e params results w c) (match_entry src' e params results w c)"
  unfolding match_entry_def Let_def by (intro agree_intros)

lemma twins_match_entries [agree_intros]:
  "both_serve data src good src' good' \<Longrightarrow> twins data good good'
    (match_entries src e wanted params results n index found c)
    (match_entries src' e wanted params results n index found c)"
proof (induction n arbitrary: index found c)
  case (Suc n)
  then show ?case unfolding match_entries.simps by (intro agree_intros)
qed (simp add: agree_intros)

lemma twins_type_matches [agree_intros]:
  "both_serve data src good src' good' \<Longrightarrow> twins data good good'
    (type_matches src s wanted params results) (type_matches src' s wanted params results)"
  unfolding type_matches_def by (intro agree_intros)

lemma twins_next_import [agree_intros]:
  "both_serve data src good src' good' \<Longrightarrow> twins data good good' (next_import src e c) (next_import src' e c)"
  unfolding next_import_def import_field_def by (intro agree_intros)

lemma twins_imports_loop [agree_intros]:
  "both_serve data src good src' good' \<Longrightarrow> twins data good good'
    (imports_loop src types imps n seen abi c) (imports_loop src' types imps n seen abi c)"
proof (induction n arbitrary: seen abi c)
  case (Suc n)
  then show ?case unfolding imports_loop.simps by (intro agree_intros)
qed (simp add: agree_intros)

lemma twins_package_scan_imports [agree_intros]:
  "both_serve data src good src' good' \<Longrightarrow> twins data good good'
    (package_scan_imports src secs abi) (package_scan_imports src' secs abi)"
  unfolding package_scan_imports_def Let_def by (intro agree_intros)

lemma twins_export_target [agree_intros]:
  "both_serve data src good src' good' \<Longrightarrow> twins data good good'
    (export_target src c n item names) (export_target src' c n item names)"
proof (induction names arbitrary: item)
  case (Cons name names)
  then show ?case unfolding export_target.simps by (intro agree_intros)
qed (simp add: agree_intros)

lemma twins_next_export [agree_intros]:
  "both_serve data src good src' good' \<Longrightarrow> twins data good good' (next_export src e c) (next_export src' e c)"
  unfolding next_export_def by (intro agree_intros)

lemma twins_exports_loop [agree_intros]:
  "both_serve data src good src' good' \<Longrightarrow> twins data good good'
    (exports_loop src s n found abi c) (exports_loop src' s n found abi c)"
proof (induction n arbitrary: found abi c)
  case (Suc n)
  then show ?case unfolding exports_loop.simps by (intro agree_intros)
qed (simp add: agree_intros)

lemma twins_package_scan_exports [agree_intros]:
  "both_serve data src good src' good' \<Longrightarrow> twins data good good'
    (package_scan_exports src s abi) (package_scan_exports src' s abi)"
  unfolding package_scan_exports_def by (intro agree_intros)

lemma twins_function_types [agree_intros]:
  "both_serve data src good src' good' \<Longrightarrow> twins data good good'
    (function_types src e wanted k n index ti c) (function_types src' e wanted k n index ti c)"
proof (induction n arbitrary: index ti c)
  case (Suc n)
  then show ?case unfolding function_types.simps by (intro agree_intros)
qed (simp add: agree_intros)

lemma twins_functions_loop [agree_intros]:
  "both_serve data src good src' good' \<Longrightarrow> twins data good good'
    (functions_loop src secs k ks abi) (functions_loop src' secs k ks abi)"
proof (induction ks arbitrary: abi)
  case (Cons x ks)
  then show ?case unfolding functions_loop.simps function_type_def by (intro agree_intros)
qed (simp add: agree_intros)

lemma twins_scan_memory [agree_intros]:
  "both_serve data src good src' good' \<Longrightarrow> twins data good good' (scan_memory src s limit) (scan_memory src' s limit)"
  unfolding scan_memory_def by (intro agree_intros)

lemma twins_code_bodies [agree_intros]:
  "both_serve data src good src' good' \<Longrightarrow> twins data good good' (code_bodies src e n c) (code_bodies src' e n c)"
proof (induction n arbitrary: c)
  case (Suc n)
  then show ?case unfolding code_bodies.simps by (intro agree_intros)
qed (simp add: agree_intros)

lemma twins_scan_code [agree_intros]:
  "both_serve data src good src' good' \<Longrightarrow> twins data good good' (scan_code src s n) (scan_code src' s n)"
  unfolding scan_code_def by (intro agree_intros)

lemma twins_scan_payload:
  "both_serve data src good src' good' \<Longrightarrow> twins data good good' (scan_payload src info) (scan_payload src' info)"
  unfolding scan_payload_def by (intro agree_intros)

subsection \<open>The check in memory\<close>

definition memory_source :: "bytes \<Rightarrow> unit wasm_source" where
  "memory_source payload = \<lparr>ws_read_fn = \<lambda>offset n u. (Some (piece payload offset n), u), ws_base = 0,
     ws_size = length payload\<rparr>"

definition memory_reader :: "unit wasm_reader" where
  "memory_reader = \<lparr>wr_block = [], wr_cached_begin = 0, wr_cached_size = 0, wr_read_failed = False, wr_device = ()\<rparr>"

text \<open>What \<open>econtainer_package_wasm_check\<close> answers for a payload that can be read.\<close>

definition payload_check :: "(bytes \<Rightarrow> bytes) \<Rightarrow> bytes \<Rightarrow> package_info \<Rightarrow> wasm_authorization \<Rightarrow> package_wasm_result" where
  "payload_check sha256 payload info authorization =
    (if \<not> wasm_arguments_ok info authorization then PACKAGE_WASM_INVALID
     else if pi_guest_abi_version info \<noteq> 1 \<or> \<not> pi_is_classic_profile info \<or> pi_has_unknown_capability info
     then PACKAGE_WASM_UNSUPPORTED
     else if \<not> wasm_authorized info authorization then PACKAGE_WASM_NOT_AUTHORIZED
     else case fst (scan_payload (memory_source payload) info memory_reader) of
       Inl _ \<Rightarrow> PACKAGE_WASM_INVALID
     | Inr result \<Rightarrow> if result \<noteq> PACKAGE_WASM_OK then result
         else if sha256 payload = pi_wasm_sha256 info then PACKAGE_WASM_OK else PACKAGE_WASM_INVALID)"

lemma memory_serves: "serves_payload (memory_source payload) payload (\<lambda>_. True)"
  by (simp add: serves_payload_def memory_source_def)

lemma memory_reader_on: "reader_on payload (\<lambda>_. True) memory_reader"
  by (simp add: reader_on_def memory_reader_def reader_ok_def)

lemma scan_payload_in_memory:
  assumes src: "serves_payload src payload good" and r: "reader_on payload good r"
    and run: "scan_payload src info r = (result, r')"
  shows "result = fst (scan_payload (memory_source payload) info memory_reader) \<and> reader_on payload good r'"
proof -
  have "both_serve payload src good (memory_source payload) (\<lambda>_. True)"
    using src memory_serves by (simp add: both_serve_def)
  from twins_scan_payload [OF this, of info] r memory_reader_on run show ?thesis
    unfolding agree_def by (metis fst_conv snd_conv)
qed

subsection \<open>The digest of the payload\<close>

context live_engine
begin

lemma payload_loop_live:
  assumes src: "serves_payload src payload good" and good: "\<And>d. good d \<longleftrightarrow> healthy d \<and> view d = v"
  shows "good d \<Longrightarrow> offset \<le> ws_size src \<Longrightarrow>
    \<exists>dg d'. payload_loop psa src digest offset d = (Inr dg, d') \<and> good d' \<and>
      absorbed dg = absorbed digest @ drop offset payload"
proof (induction "ws_size src - offset" arbitrary: offset digest d rule: less_induct)
  case less
  let ?n = "if ws_size src - offset < WASM_READ_BYTES then ws_size src - offset else WASM_READ_BYTES"
  have len: "length payload = ws_size src" using src by (simp add: serves_payload_def)
  show ?case
  proof (cases "offset < ws_size src")
    case True
    have n: "0 < ?n" "offset + ?n \<le> ws_size src" using True by (auto simp: WASM_READ_BYTES_def)
    obtain d1 where read: "ws_read_fn src (ws_base src + offset) ?n d = (Some (piece payload offset ?n), d1)" "good d1"
      using src less.prems(1) chunk_window [OF True, of "ws_base src"]
      unfolding serves_payload_def WASM_READ_BYTES_def by (metis add_diff_cancel_left')
    then obtain dg d2 where dg: "digest_update psa digest (piece payload offset ?n) d1 = ((True, dg), d2)" "healthy d2"
      using digest_update_live good by blast
    have d2: "good d2" using dg keepsD [OF digest_update_keeps dg(1)] read(2) good by simp
    have "ws_size src - (offset + ?n) < ws_size src - offset" using n by linarith
    from less.hyps [OF this d2 n(2), of dg] obtain dg' d' where
      rest: "payload_loop psa src dg (offset + ?n) d2 = (Inr dg', d')" "good d'"
        "absorbed dg' = absorbed dg @ drop (offset + ?n) payload" by blast
    have "payload_loop psa src digest offset d = (Inr dg', d')"
      using True read(1) dg(1) rest(1) by (subst payload_loop.simps) (simp add: Let_def split del: if_split)
    moreover have "absorbed dg' = absorbed digest @ drop offset payload"
      using rest(3) digest_update_absorbed [OF dg(1)] append_take_drop_id [of ?n "drop offset payload"]
      by (simp add: piece_def add.commute split del: if_split)
    ultimately show ?thesis using rest(2) by blast
  next
    case False
    with less.prems len show ?thesis by (simp add: payload_loop.simps)
  qed
qed

lemma verify_payload_digest_live:
  assumes src: "serves_payload src payload good" and good: "\<And>d. good d \<longleftrightarrow> healthy d \<and> view d = v" and d: "good d"
  shows "\<exists>d'. verify_payload_digest psa src expected d =
    (if sha256 payload = expected then PACKAGE_WASM_OK else PACKAGE_WASM_INVALID, d') \<and> good d'"
proof -
  obtain dg d1 where start: "digest_start psa d = (Some dg, d1)" "healthy d1"
    using digest_start_live d good by blast
  have d1: "good d1" using keepsD [OF digest_start_keeps start(1)] start(2) d good by simp
  from payload_loop_live [OF src good d1, of 0 dg] digest_start_absorbed [OF start(1)] obtain dg' d2 where
    loop: "payload_loop psa src dg 0 d1 = (Inr dg', d2)" "good d2" "absorbed dg' = payload" by auto
  obtain d3 where fin: "digest_finish psa dg' d2 = (Some (sha256 payload), d3)" "healthy d3"
    using digest_finish_live loop good by metis
  have "good d3" using keepsD [OF digest_finish_keeps fin(1)] fin(2) loop(2) good by simp
  with start(1) loop(1) fin(1) show ?thesis by (auto simp: verify_payload_digest_def)
qed

lemma package_wasm_check_live:
  assumes src: "serves_payload \<lparr>ws_read_fn = read_fn, ws_base = pi_wasm_offset_bytes info,
      ws_size = pi_wasm_size_bytes info\<rparr> payload good"
    and good: "\<And>d. good d \<longleftrightarrow> healthy d \<and> view d = v" and d: "good d"
  shows "\<exists>d'. package_wasm_check psa (Some read_fn) (Some info) (Some authorization) (Some block) d =
    (payload_check sha256 payload info authorization, d') \<and> good d'"
proof (cases "wasm_arguments_ok info authorization \<and> pi_guest_abi_version info = 1 \<and> pi_is_classic_profile info \<and>
    \<not> pi_has_unknown_capability info \<and> wasm_authorized info authorization")
  case False
  then show ?thesis using d by (auto simp: package_wasm_check_def payload_check_def)
next
  case True
  let ?src = "\<lparr>ws_read_fn = read_fn, ws_base = pi_wasm_offset_bytes info, ws_size = pi_wasm_size_bytes info\<rparr>"
  let ?r = "\<lparr>wr_block = block, wr_cached_begin = 0, wr_cached_size = 0, wr_read_failed = False, wr_device = d\<rparr>"
  have r: "reader_on payload good ?r" using d by (simp add: reader_on_def reader_ok_def)
  obtain result r' where run: "scan_payload ?src info ?r = (result, r')" by fastforce
  note mem = scan_payload_in_memory [OF src r run]
  then have r': "good (wr_device r')" "\<not> wr_read_failed r'"
    and answer: "fst (scan_payload (memory_source payload) info memory_reader) = result"
    by (simp_all add: reader_on_def)
  show ?thesis
  proof (cases "result = Inr PACKAGE_WASM_OK")
    case True
    obtain d' where "verify_payload_digest psa ?src (pi_wasm_sha256 info) (wr_device r') =
        (if sha256 payload = pi_wasm_sha256 info then PACKAGE_WASM_OK else PACKAGE_WASM_INVALID, d')" "good d'"
      using verify_payload_digest_live [OF src good r'(1)] by blast
    then show ?thesis
      using run True answer \<open>wasm_arguments_ok info authorization \<and> _\<close>
      by (simp add: package_wasm_check_def payload_check_def Let_def)
  next
    case False
    then show ?thesis
      using run answer r' \<open>wasm_arguments_ok info authorization \<and> _\<close>
      by (cases result) (simp_all add: package_wasm_check_def payload_check_def Let_def)
  qed
qed

end

end
