(* ===== verification/Package_Accept.thy ===== *)
theory Package_Accept
  imports Package_Install Package_Live Package_Memory Slots_Write
begin

text \<open>
  The package functions on a device that does not fail, as facts about the code: what
  \<open>Package_Live\<close> and \<open>Package_Memory\<close> show in their locales, for a reader of a slot.  A slot
  that holds an admissible package passes the validator, so it is one that
  \<open>econtainer_slots_write_and_prepare\<close> prepares.
\<close>

context package_live
begin

lemma serves_payload_live:
  assumes "offset + n \<le> length (snapshot v)"
  shows "serves_payload \<lparr>ws_read_fn = read_fn, ws_base = offset, ws_size = n\<rparr> (piece (snapshot v) offset n)
    (\<lambda>d. healthy d \<and> view d = v)"
  unfolding serves_payload_def
proof (intro conjI allI impI)
  fix d at k assume d: "healthy d \<and> view d = v"
    and window: "window_read (ws_base \<lparr>ws_read_fn = read_fn, ws_base = offset, ws_size = n\<rparr>)
      (ws_size \<lparr>ws_read_fn = read_fn, ws_base = offset, ws_size = n\<rparr>) at k"
  then have inside: "0 < k" "k \<le> 512" "offset \<le> at" "at + k \<le> offset + n" by (simp_all add: window_read_def)
  obtain bs d' where read: "read_fn at k d = (Some bs, d')" "healthy d'"
    using read_healthy [of d k at] d inside assms by auto
  with read_run [OF read(1)] d inside
  show "\<exists>d'. ws_read_fn \<lparr>ws_read_fn = read_fn, ws_base = offset, ws_size = n\<rparr> at k d =
      (Some (piece (piece (snapshot v) offset n) (at - ws_base \<lparr>ws_read_fn = read_fn, ws_base = offset, ws_size = n\<rparr>) k), d') \<and>
      healthy d' \<and> view d' = v"
    by (simp add: piece_piece)
qed (use assms in simp)

text \<open>The streaming check is the check of the stored payload in memory.\<close>

lemma package_wasm_check_in_memory:
  assumes "healthy d" and "pi_wasm_offset_bytes info + pi_wasm_size_bytes info \<le> length (snapshot (view d))"
  shows "\<exists>d'. package_wasm_check psa (Some read_fn) (Some info) (Some authorization) (Some block) d =
    (payload_check sha256 (piece (snapshot (view d)) (pi_wasm_offset_bytes info) (pi_wasm_size_bytes info))
       info authorization, d') \<and> healthy d' \<and> view d' = view d"
  using package_wasm_check_live [OF serves_payload_live [OF assms(2)] refl, of d authorization block] assms(1)
  by simp

end

subsection \<open>Slots\<close>

text \<open>The five calls of an update, each with the state and the sequence number of the one before.\<close>

definition run_update :: "'d slots_io \<Rightarrow> ('d, 'h) psa_api \<Rightarrow> slots_geometry \<Rightarrow> firmware_set \<Rightarrow> slot_operation \<Rightarrow>
    'd slot_source_fn \<Rightarrow> 'd slot_validate_fn \<Rightarrow> bytes \<Rightarrow> slots_state \<Rightarrow> 'd \<Rightarrow>
    slots_result list \<times> slots_state option \<times> 'd" where
  "run_update io psa g f p source_fn validate_fn boot_id s d =
    (case slots_reserve (Some (io_ptrs io)) psa (Some g) (ss_sequence s) (Some f) (Some p) (Some s) d of
       ((r1, t1), d1) \<Rightarrow>
     case slots_write_and_prepare (Some (io_ptrs io)) psa (Some g) (ss_sequence (the t1)) (Some source_fn)
       (Some validate_fn) t1 d1 of ((r2, t2), d2) \<Rightarrow>
     case slots_begin_trial (Some (io_ptrs io)) psa (Some g) (ss_sequence (the t2))
       (Some (running_firmware_sha256 f)) (Some boot_id) t2 d2 of ((r3, t3), d3) \<Rightarrow>
     case slots_mark_healthy (Some (io_ptrs io)) psa (Some g) (ss_sequence (the t3)) (Some boot_id) t3 d3 of
       ((r4, t4), d4) \<Rightarrow>
     case slots_confirm (Some (io_ptrs io)) psa (Some g) (ss_sequence (the t4))
       (Some (running_firmware_sha256 f)) (Some boot_id) t4 d4 of ((r5, t5), d5) \<Rightarrow>
       ([r1, r2, r3, r4, r5], t5, d5))"

text \<open>The packages the validator accepts for an operation, as a predicate on their bytes.\<close>

definition acceptable_package :: "(bytes \<Rightarrow> bytes) \<Rightarrow> (bytes \<Rightarrow> bytes \<Rightarrow> bytes \<Rightarrow> bool) \<Rightarrow>
    package_slot_validation \<Rightarrow> slot_operation \<Rightarrow> bytes \<Rightarrow> bool" where
  "acceptable_package sha256 verifies validation operation pkg \<longleftrightarrow>
     (\<exists>key key_id product text signature wasm mf info.
        sv_public_key_rsa_der validation = Some key \<and> sv_expected_key_id validation = Some key_id \<and>
        sv_expected_product_id validation = Some product \<and>
        verify_arguments_ok (length pkg) (sv_max_wasm_bytes validation) key \<and>
        trusted_package sha256 verifies key key_id (sv_max_wasm_bytes validation) pkg text signature wasm mf \<and>
        info = package_info_of (length pkg) text mf (wasm_position text signature, length wasm, sha256 wasm) (sha256 pkg) \<and>
        slot_accepts validation operation product
          \<lparr>pw_manifest = text @ drop (length text) (pw_manifest wiped_workspace), pw_signature = signature\<rparr> info \<and>
        payload_check sha256 wasm info (sv_wasm_authorization validation) = PACKAGE_WASM_OK)"

text \<open>What the platform has to configure: every pointer, limits that are not zero, a key it can import.\<close>

definition validation_configured :: "(bytes \<Rightarrow> bool) \<Rightarrow> package_slot_validation \<Rightarrow> bool" where
  "validation_configured importable validation \<longleftrightarrow>
     sv_expected_product_id validation \<notin> {None, Some ''''} \<and> sv_expected_key_id validation \<noteq> None \<and>
     (\<exists>key. sv_public_key_rsa_der validation = Some key \<and> importable key) \<and>
     sv_package_workspace validation \<noteq> None \<and> sv_wasm_workspace validation \<noteq> None \<and>
     sv_verified_info validation \<noteq> None \<and> sv_max_event_queue_limit validation \<noteq> 0 \<and>
     sv_max_instruction_budget validation \<noteq> 0 \<and> sv_max_instruction_budget validation \<le> INT32_MAX \<and>
     sv_max_host_call_timeout_ms validation \<noteq> 0"

locale slot_live =
  reliable_env io flash nvs held psa absorbed sha256 g healthy +
  live_signature psa keys absorbed sha256 verifies key_of "device_view flash nvs held" healthy importable
  for io :: "'d slots_io" and flash nvs held and psa :: "('d, 'h) psa_api" and keys absorbed sha256
    and verifies key_of g healthy importable

sublocale slot_live \<subseteq> slot_trust io flash nvs held psa keys absorbed sha256 verifies key_of ..

context slot_live
begin

lemma slot_reader_live:
  assumes i: "i < SLOT_COUNT" and n: "unat n \<le> slot_size g i"
    and reader: "reader = \<lparr>rd_offset_bytes = sr_offset_bytes (slot_at g i), rd_size_bytes = n\<rparr>"
  shows "package_live (read_slot (flash_relative_read io reader) (unat (rd_size_bytes reader)))
    (device_view flash nvs held) (candidate_bytes reader) psa keys absorbed sha256 verifies key_of healthy importable"
proof (intro package_live.intro package_live_axioms.intro)
  show "package_source (read_slot (flash_relative_read io reader) (unat (rd_size_bytes reader)))
      (device_view flash nvs held) (candidate_bytes reader)"
    by (rule candidate.package_source_axioms)
  show "live_signature psa keys absorbed sha256 verifies key_of (device_view flash nvs held) healthy importable"
    by (rule live_signature_axioms)
  fix d k offset
  assume d: "healthy d" and k: "0 < k" "k \<le> 512"
    and inside: "offset + k \<le> length (candidate_bytes reader (device_view flash nvs held d))"
  have inside: "offset + k \<le> unat n" using inside by (simp add: candidate_bytes_def reader)
  from flash_relative_read_live [OF d i n k(1) inside] inside k
  show "\<exists>bs d'. read_slot (flash_relative_read io reader) (unat (rd_size_bytes reader)) offset k d = (Some bs, d') \<and>
      healthy d'"
    by (auto simp: read_slot_def reader)
qed

text \<open>A candidate that the validator accepts when nothing fails.\<close>

lemma package_validator_live:
  assumes d: "healthy d" and i: "i < SLOT_COUNT" and n: "unat n \<le> slot_size g i"
    and reader: "reader = \<lparr>rd_offset_bytes = sr_offset_bytes (slot_at g i), rd_size_bytes = n\<rparr>"
    and args: "slot_arguments_ok validation (Some operation) (Some (flash_relative_read io reader)) (unat n)"
      "sv_verified_info validation \<noteq> None"
    and given: "sv_public_key_rsa_der validation = Some key" "sv_expected_key_id validation = Some key_id"
      "sv_expected_product_id validation = Some product" "importable key"
      "verify_arguments_ok (unat n) (sv_max_wasm_bytes validation) key"
    and pkg: "candidate_bytes reader (device_view flash nvs held d) = pkg"
    and trusted: "trusted_package sha256 verifies key key_id (sv_max_wasm_bytes validation) pkg text signature wasm mf"
    and info: "info = package_info_of (unat n) text mf (wasm_position text signature, length wasm, sha256 wasm) (sha256 pkg)"
    and accepts: "slot_accepts validation operation product
      \<lparr>pw_manifest = text @ drop (length text) (pw_manifest wiped_workspace), pw_signature = signature\<rparr> info"
    and check: "payload_check sha256 wasm info (sv_wasm_authorization validation) = PACKAGE_WASM_OK"
  shows "\<exists>d'. package_slot_validate psa keys (Some validation) operation (flash_relative_read io reader) (unat n) d
    = (VALIDATION_OK, d') \<and> healthy d'"
proof -
  let ?read = "read_slot (flash_relative_read io reader) (unat n)" and ?view = "device_view flash nvs held"
  note live = slot_reader_live [OF i n reader, unfolded reader, simplified, folded reader]
  have len: "length pkg = unat n" using pkg by (auto simp: candidate_bytes_def reader)
  have whole: "piece (candidate_bytes reader (?view d)) 0 (unat n) = pkg"
    using pkg piece_from_0 [OF len] by simp
  obtain buffers block where ws: "sv_package_workspace validation = Some buffers" "sv_wasm_workspace validation = Some block"
    using args(1) by (auto simp: slot_arguments_ok_def)
  have "unat n \<le> length (candidate_bytes reader (?view d))" using pkg len by simp
  from package_live.package_verify_live [OF live d this given(4,5) trusted [folded whole], where
      buffers = wiped_workspace and ?info0.0 = zero_info, unfolded whole] info
  obtain d1 where verify: "package_verify psa keys (Some ?read) (unat n) (sv_max_wasm_bytes validation) (Some key)
      (Some key_id) (Some wiped_workspace) (Some zero_info) d = ((PACKAGE_OK, Some info,
        Some \<lparr>pw_manifest = text @ drop (length text) (pw_manifest wiped_workspace), pw_signature = signature\<rparr>), d1)"
      "healthy d1"
    by blast
  have v1: "?view d1 = ?view d"
    using keepsD [OF package_verify_quiet verify(1)] flash_relative_read_keeps by blast
  have at: "pi_wasm_offset_bytes info = wasm_position text signature" "pi_wasm_size_bytes info = length wasm"
    using info by (simp_all add: package_info_of_def)
  have payload: "piece pkg (wasm_position text signature) (length wasm) = wasm"
    using trusted unfolding trusted_package_def by (elim conjE) (erule sym)
  have "pi_wasm_offset_bytes info + pi_wasm_size_bytes info \<le> length pkg"
    using check info len by (auto simp: payload_check_def wasm_arguments_ok_def package_info_of_def split: if_splits)
  then have "pi_wasm_offset_bytes info + pi_wasm_size_bytes info \<le> length (candidate_bytes reader (?view d1))"
    using pkg v1 by simp
  from package_live.package_wasm_check_in_memory [OF live verify(2) this, of "sv_wasm_authorization validation" block]
    check payload pkg v1 at
  obtain d2 where "package_wasm_check psa (Some ?read) (Some info) (Some (sv_wasm_authorization validation)) (Some block) d1
      = (PACKAGE_WASM_OK, d2)" "healthy d2"
    by auto
  with verify(1) accepts args given ws show ?thesis
    by (auto simp: package_slot_validate_def slot_validate_context_def Let_def slot_arguments_ok_def slot_accepts_def)
qed

text \<open>So the validator accepts every acceptable package, wherever the slot store has put it.\<close>

lemma acceptable_validated:
  assumes d: "healthy d" and i: "i < SLOT_COUNT" and n: "unat n \<le> slot_size g i"
    and reader: "reader = \<lparr>rd_offset_bytes = sr_offset_bytes (slot_at g i), rd_size_bytes = n\<rparr>"
    and pkg: "acceptable_package sha256 verifies validation p pkg"
    and configured: "validation_configured importable validation"
    and size: "n = so_package_size_bytes p"
    and bytes: "candidate_bytes reader (device_view flash nvs held d) = pkg"
  shows "\<exists>d'. package_slot_validate psa keys (Some validation) p (flash_relative_read io reader) (unat n) d
      = (VALIDATION_OK, d') \<and> healthy d'"
proof -
  have len: "length pkg = unat n" using bytes by (auto simp: candidate_bytes_def reader)
  from pkg obtain key key_id product "text" signature wasm mf info where given:
      "sv_public_key_rsa_der validation = Some key" "sv_expected_key_id validation = Some key_id"
      "sv_expected_product_id validation = Some product"
    and args: "verify_arguments_ok (unat n) (sv_max_wasm_bytes validation) key"
    and trusted: "trusted_package sha256 verifies key key_id (sv_max_wasm_bytes validation) pkg text signature wasm mf"
    and info: "info = package_info_of (unat n) text mf (wasm_position text signature, length wasm, sha256 wasm) (sha256 pkg)"
    and fits: "slot_accepts validation p product
      \<lparr>pw_manifest = text @ drop (length text) (pw_manifest wiped_workspace), pw_signature = signature\<rparr> info"
    and check: "payload_check sha256 wasm info (sv_wasm_authorization validation) = PACKAGE_WASM_OK"
    unfolding acceptable_package_def len by blast
  have ok: "slot_arguments_ok validation (Some p) (Some (flash_relative_read io reader)) (unat n)"
    "sv_verified_info validation \<noteq> None" "importable key"
    using configured given size by (auto simp: slot_arguments_ok_def validation_configured_def)
  show ?thesis
    by (rule package_validator_live [OF d i n reader ok(1,2) given ok(3) args bytes trusted info fits check])
qed

lemma acceptable_accepts:
  assumes pkg: "acceptable_package sha256 verifies validation p pkg"
    and configured: "validation_configured importable validation"
    and slot: "unat (so_slot p) < SLOT_COUNT" "unat (so_package_size_bytes p) \<le> slot_size g (unat (so_slot p))"
  shows "accepts (device_view flash nvs held) flash healthy io g (package_slot_validate psa keys (Some validation)) p pkg"
  unfolding accepts_def
proof (intro conjI allI impI package_validator_quiet)
  fix d assume d: "healthy d" and content: "slot_content (flash d) g (so_slot p) (so_package_size_bytes p) = pkg"
  let ?reader = "\<lparr>rd_offset_bytes = sr_offset_bytes (slot_at g (unat (so_slot p))),
    rd_size_bytes = so_package_size_bytes p\<rparr>"
  have "candidate_bytes ?reader (device_view flash nvs held d) = pkg"
    using content by (simp add: candidate_bytes_def device_view_def slot_content_def slot_begin_def)
  from acceptable_validated [OF d slot refl pkg configured refl this]
  show "\<exists>d'. package_slot_validate psa keys (Some validation) p (flash_relative_read io ?reader)
      (unat (so_package_size_bytes p)) d = (VALIDATION_OK, d') \<and> healthy d'" .
qed

text \<open>It accepts no other.\<close>

lemma package_validator_exact:
  assumes d: "healthy d" and i: "i < SLOT_COUNT" and n: "unat n \<le> slot_size g i"
    and reader: "reader = \<lparr>rd_offset_bytes = sr_offset_bytes (slot_at g i), rd_size_bytes = n\<rparr>"
    and configured: "validation_configured importable validation"
    and size: "n = so_package_size_bytes operation"
    and run: "package_slot_validate psa keys (Some validation) operation (flash_relative_read io reader) (unat n) d = (r, d')"
  shows "r = VALIDATION_OK \<longleftrightarrow>
    acceptable_package sha256 verifies validation operation (candidate_bytes reader (device_view flash nvs held d))"
proof
  let ?read = "read_slot (flash_relative_read io reader) (unat n)" and ?view = "device_view flash nvs held"
  obtain pkg where pkg: "candidate_bytes reader (?view d) = pkg" by simp
  have len: "length pkg = unat n" using pkg by (auto simp: candidate_bytes_def reader)
  note live = slot_reader_live [OF i n reader, unfolded reader, simplified, folded reader]
  assume "r = VALIDATION_OK"
  with run have ok: "package_slot_validate psa keys (Some validation) operation (flash_relative_read io reader)
      (unat (rd_size_bytes reader)) d = (VALIDATION_OK, d')" by (simp add: reader)
  have read: "?read = read_slot (flash_relative_read io reader) (unat (rd_size_bytes reader))" by (simp add: reader)
  show "acceptable_package sha256 verifies validation operation (candidate_bytes reader (?view d))"
    unfolding pkg
  proof (rule package_validator_steps [OF ok pkg [symmetric] read])
    fix v0 product key key_id manif sig wasm mf info block d1
    assume some: "Some validation = Some v0" "sv_expected_product_id v0 = Some product"
        "sv_public_key_rsa_der v0 = Some key" "sv_expected_key_id v0 = Some key_id"
      and verify: "package_verify psa keys (Some ?read) (length pkg) (sv_max_wasm_bytes v0) (Some key) (Some key_id)
        (Some wiped_workspace) (Some zero_info) d =
          ((PACKAGE_OK, Some info, Some \<lparr>pw_manifest = manif @ drop (length manif) (pw_manifest wiped_workspace),
            pw_signature = sig\<rparr>), d1)"
      and trusted: "trusted_package sha256 verifies key key_id (sv_max_wasm_bytes v0) pkg manif sig wasm mf"
      and info: "info = package_info_of (length pkg) manif mf (wasm_position manif sig, length wasm, sha256 wasm) (sha256 pkg)"
      and accepts: "slot_accepts v0 operation product
        \<lparr>pw_manifest = manif @ drop (length manif) (pw_manifest wiped_workspace), pw_signature = sig\<rparr> info"
      and check: "package_wasm_check psa (Some ?read) (Some info) (Some (sv_wasm_authorization v0)) (Some block) d1 =
        (PACKAGE_WASM_OK, d')"
      and same: "device_view flash nvs held d1 = device_view flash nvs held d"
    have key: "importable key" using configured some by (auto simp: validation_configured_def)
    have args: "verify_arguments_ok (length pkg) (sv_max_wasm_bytes v0) key"
      using verify by (auto simp: package_verify_def Let_def split: if_splits)
    have whole: "piece (candidate_bytes reader (?view d)) 0 (unat n) = pkg" using pkg piece_from_0 [OF len] by simp
    have "unat n \<le> length (candidate_bytes reader (?view d))" using pkg len by simp
    from package_live.package_verify_live [OF live d this key args [unfolded len] trusted [folded whole], where
        buffers = wiped_workspace and ?info0.0 = zero_info, unfolded whole] verify
    have d1: "healthy d1" by (auto simp: len)
    have inside: "pi_wasm_offset_bytes info + pi_wasm_size_bytes info \<le> length pkg"
      using check info
      by (auto simp: package_wasm_check_def wasm_arguments_ok_def package_info_of_def split: if_splits)
    have payload: "piece pkg (wasm_position manif sig) (length wasm) = wasm"
      using trusted unfolding trusted_package_def by (elim conjE) (erule sym)
    have "payload_check sha256 wasm info (sv_wasm_authorization v0) = PACKAGE_WASM_OK"
      using package_live.package_wasm_check_in_memory [OF live d1, of info "sv_wasm_authorization v0" block]
        inside check payload info by (simp add: same pkg package_info_of_def)
    with some args trusted info accepts
    show "acceptable_package sha256 verifies validation operation pkg"
      unfolding acceptable_package_def option.inject by blast
  qed
next
  let ?pkg = "candidate_bytes reader (device_view flash nvs held d)"
  assume pkg: "acceptable_package sha256 verifies validation operation ?pkg"
  from acceptable_validated [OF d i n reader pkg configured size refl] run show "r = VALIDATION_OK" by auto
qed

text \<open>An acceptable package for an admissible request is installed.\<close>

lemma signed_update_completes:
  assumes "ready sha256 flash nvs held g healthy d s" and "unat (ss_sequence s) + 5 < 4294967295"
    and "\<not> phase_pending (ss_phase s)"
    and "firmware_set_valid (Some f)" and "firmware_set_matches s f"
    and "schema_compatible s (running_firmware_sha256 f) p" and "operation_requestable f p"
    and "ss_phase s = SLOT_IDLE \<or> so_operation_id (ss_operation s) \<noteq> so_operation_id p"
    and choice: "select_slot s g (so_package_size_bytes p) = Some i"
    and size: "length pkg = unat (so_package_size_bytes p)"
    and "serves (device_view flash nvs held) healthy source_fn pkg"
    and pkg: "acceptable_package sha256 verifies validation p pkg"
    and configured: "validation_configured importable validation"
    and "length boot_id = 16" and "\<not> all_zero boot_id"
  shows "\<exists>t d'. run_update io psa g f p source_fn (package_slot_validate psa keys (Some validation)) boot_id s d =
      (replicate 5 SLOTS_OK, Some t, d') \<and> stored nvs g d' t \<and>
    (\<exists>b \<in> set (ss_bindings t). sb_firmware_sha256 b = running_firmware_sha256 f \<and>
      sb_package_present b \<and> sb_package_sha256 b = so_package_sha256 p \<and> binding_intact sha256 (flash d') g b)"
proof -
  have i: "i < SLOT_COUNT" "unat (so_package_size_bytes p) \<le> slot_size g i"
    using select_slot_Some(1,2) [OF choice] by (simp_all add: slot_size_def word_le_nat_alt)
  then have at: "unat (so_slot (p\<lparr>so_slot := of_nat i\<rparr>)) = i" by (simp add: unat_of_nat SLOT_COUNT_def)
  have digest: "sha256 pkg = so_package_sha256 p"
    using pkg by (auto simp: acceptable_package_def slot_accepts_def package_info_of_def)
  have "acceptable_package sha256 verifies validation (p\<lparr>so_slot := of_nat i\<rparr>) pkg"
    using pkg by (simp add: acceptable_package_def slot_accepts_def)
  from acceptable_accepts [OF this configured] at i
  have accept: "accepts (device_view flash nvs held) flash healthy io g
      (package_slot_validate psa keys (Some validation)) (p\<lparr>so_slot := of_nat i\<rparr>) pkg"
    by simp
  from update_completes [OF assms(1-9) size digest assms(11) accept assms(14,15)] show ?thesis
    by (elim exE conjE) (auto simp: run_update_def numeral_eq_Suc)
qed

end

end
