(* ===== verification/Package_Render.thy ===== *)
theory Package_Render
  imports Package_Manifest
begin

text \<open>
  The canonical text of a manifest, and the proof that \<open>parse_manifest\<close> reads it back.  A
  parser is followed along the text by rules of one form: when the rest of the text begins with
  what the parser reads, the parser succeeds and the continuation runs on what is left.
\<close>

subsection \<open>The rest of the text\<close>

definition rest :: "bytes \<Rightarrow> nat \<Rightarrow> bytes \<Rightarrow> bool" where
  "rest data cursor s \<longleftrightarrow> cursor \<le> length data \<and> drop cursor data = s"

lemma rest_after:
  assumes "rest data c (a @ s)"
  shows "rest data (c + length a) s"
proof -
  have c: "c \<le> length data" "drop c data = a @ s" using assms by (simp_all add: rest_def)
  have "drop (c + length a) data = drop (length a) (drop c data)" by (simp add: add.commute)
  also have "\<dots> = s" by (simp add: c(2))
  finally have "drop (c + length a) data = s" .
  moreover have "length data - c = length a + length s" using arg_cong [OF c(2), of length] by simp
  then have "c + length a \<le> length data" using c(1) by linarith
  ultimately show ?thesis by (simp add: rest_def)
qed

lemma rest_length: "rest data c (a @ s) \<Longrightarrow> c + length a \<le> length data"
  using rest_after by (auto simp: rest_def)

lemma rest_take: "rest data c (a @ s) \<Longrightarrow> take (length a) (drop c data) = a"
  by (simp add: rest_def)

lemma rest_Cons: "rest data c (b # s) \<Longrightarrow> c < length data \<and> data ! c = b \<and> rest data (Suc c) s"
  using rest_after [of data c "[b]" s] by (auto simp: rest_def nth_via_drop intro: Suc_le_lessD)

lemma rest_0: "rest data 0 data"
  by (simp add: rest_def)

lemma rest_end: "rest data c [] \<Longrightarrow> c = length data"
  by (simp add: rest_def)

subsection \<open>Literals\<close>

lemma json_literal_rest: "rest data c (str_bytes lit @ s) \<Longrightarrow> json_literal data lit c = Some ((), c + length lit)"
  using rest_length [of data c "str_bytes lit" s] rest_take [of data c "str_bytes lit" s]
  by (auto simp: json_literal_def)

lemma literal_step:
  assumes "rest data c (str_bytes lit @ s)" and "rest data (c + length lit) s \<Longrightarrow> f () (c + length lit) = r"
  shows "bindP (json_literal data lit c) f = r"
  using assms rest_after [of data c "str_bytes lit" s] by (simp add: bindP_def json_literal_rest)

lemma literal_end:
  assumes at: "rest data c (str_bytes lit)" and "c + length lit = length data \<Longrightarrow> f () (c + length lit) = r"
  shows "bindP (json_literal data lit c) f = r"
proof -
  have "rest data c (str_bytes lit @ [])" using at by simp
  from literal_step [OF this] rest_end assms(2) show ?thesis by blast
qed

subsection \<open>Numbers\<close>

text \<open>The decimal text of a number.\<close>

fun decimal :: "nat \<Rightarrow> bytes" where
  "decimal n = (if n < 10 then [0x30 + of_nat n] else decimal (n div 10) @ [0x30 + of_nat (n mod 10)])"

declare decimal.simps [simp del]

definition digits_value :: "nat \<Rightarrow> bytes \<Rightarrow> nat" where
  "digits_value = foldl (\<lambda>a b. a * 10 + unat (b - 0x30))"

lemma digits_value_simps [simp]: "digits_value a [] = a" "digits_value a (b # bs) = digits_value (a * 10 + unat (b - 0x30)) bs"
  by (simp_all add: digits_value_def)

lemma digits_value_append [simp]: "digits_value a (bs @ cs) = digits_value (digits_value a bs) cs"
  by (simp add: digits_value_def)

lemma digits_value_ge: "a \<le> digits_value a bs"
proof (induction bs arbitrary: a)
  case (Cons b bs)
  show ?case using Cons [of "a * 10 + unat (b - 0x30)"] by simp
qed simp

lemma unat_small_byte: "n < 10 \<Longrightarrow> unat (of_nat n :: byte) = n"
  by (simp add: unat_of_nat)

lemma digit_byte:
  assumes "n < 10"
  shows "is_digit (0x30 + of_nat n)" and "unat ((0x30 + of_nat n :: byte) - 0x30) = n"
    and "(0x30 + of_nat n :: byte) = 0x30 \<longleftrightarrow> n = 0"
proof -
  have small: "unat (of_nat n :: byte) = n" using assms by (rule unat_small_byte)
  then have sum: "unat (0x30 + of_nat n :: byte) = 48 + n"
    using assms by (subst unat_add_lem [THEN iffD1]) auto
  show "is_digit (0x30 + of_nat n)" using sum assms by (simp add: is_digit_def word_le_nat_alt)
  show "unat ((0x30 + of_nat n :: byte) - 0x30) = n" using small by simp
  show "(0x30 + of_nat n :: byte) = 0x30 \<longleftrightarrow> n = 0" using sum by (simp add: word_unat_eq_iff)
qed

lemma decimal_digits: "list_all is_digit (decimal n)"
proof (induction n rule: decimal.induct)
  case (1 n)
  then show ?case by (subst decimal.simps) (simp add: digit_byte)
qed

lemma decimal_value: "digits_value 0 (decimal n) = n"
proof (induction n rule: decimal.induct)
  case (1 n)
  then show ?case by (subst decimal.simps) (simp add: unat_small_byte)
qed

lemma decimal_length: "n < 10 ^ Suc k \<Longrightarrow> 0 < length (decimal n) \<and> length (decimal n) \<le> Suc k"
proof (induction k arbitrary: n)
  case 0
  then show ?case by (simp add: decimal.simps [of n])
next
  case (Suc k)
  show ?case
  proof (cases "n < 10")
    case False
    have "n div 10 < 10 ^ Suc k" using Suc.prems by (simp add: less_mult_imp_div_less)
    with Suc.IH [OF this] False show ?thesis by (simp add: decimal.simps [of n])
  qed (simp add: decimal.simps [of n])
qed

lemma decimal_zero: "hd (decimal n) = 0x30 \<longleftrightarrow> n = 0"
proof (induction n rule: decimal.induct)
  case (1 n)
  have "decimal (n div 10) \<noteq> []" by (subst decimal.simps) simp
  with 1 show ?case
    using digit_byte(3) [of n] by (auto simp: decimal.simps [of n] div_eq_0_iff)
qed

lemma json_digits_rest:
  "rest data c (ds @ s) \<Longrightarrow> list_all is_digit ds \<Longrightarrow> s = [] \<or> \<not> is_digit (hd s) \<Longrightarrow> k + length ds \<le> 10 \<Longrightarrow>
    digits_value (unat a) ds < 2 ^ 32 \<Longrightarrow>
    json_digits data c a k = Some ((of_nat (digits_value (unat a) ds), k + length ds), c + length ds)"
proof (induction ds arbitrary: c a k)
  case Nil
  have "\<not> (c < length data \<and> is_digit (data ! c))"
    using Nil(1,3) rest_Cons [of data c] rest_end [of data c] by (cases s) auto
  then show ?case by (subst json_digits.simps) (simp only: if_False, simp)
next
  case (Cons b ds)
  let ?a = "a * 10 + ucast (b - 0x30) :: u64"
  have here: "c < length data" "data ! c = b" "rest data (Suc c) (ds @ s)"
    using rest_Cons [of data c b "ds @ s"] Cons.prems(1) by simp_all
  have b: "is_digit b" "list_all is_digit ds" using Cons.prems(2) by simp_all
  have total: "digits_value (unat a * 10 + unat (b - 0x30)) ds < 2 ^ 32" using Cons.prems(5) by simp
  then have small: "unat a * 10 + unat (b - 0x30) < 2 ^ 32"
    using digits_value_ge [of "unat a * 10 + unat (b - 0x30)" ds] by simp
  have ten: "unat (a * 10) = unat a * 10" using small by (subst unat_mult_lem [THEN iffD1]) auto
  have digit: "unat (ucast (b - 0x30) :: u64) = unat (b - 0x30)"
    by (simp add: unsigned_ucast_eq take_bit_nat_eq_self order.strict_trans [OF unsigned_less])
  have sum: "unat ?a = unat a * 10 + unat (b - 0x30)"
    using small ten digit by (subst unat_add_lem [THEN iffD1]) auto
  have fits: "\<not> (Suc k > 10 \<or> ?a > 0xffffffff)"
    using Cons.prems(4) small sum by (simp add: word_less_nat_alt)
  have "json_digits data (Suc c) ?a (Suc k) =
      Some ((of_nat (digits_value (unat ?a) ds), Suc k + length ds), Suc c + length ds)"
    using Cons.prems(4) total sum by (intro Cons.IH [OF here(3) b(2) Cons.prems(3)]) simp_all
  then show ?case
    using here b(1) fits sum by (subst json_digits.simps) (simp add: Let_def)
qed

lemma json_uint32_rest:
  fixes n :: u32
  assumes at: "rest data c (decimal (unat n) @ s)" and after: "s = [] \<or> \<not> is_digit (hd s)" and zero: "allow_zero \<or> n \<noteq> 0"
  shows "json_uint32 data allow_zero c = Some (n, c + length (decimal (unat n)))"
proof -
  let ?ds = "decimal (unat n)"
  have size: "unat n < 2 ^ 32" using unat_u32_lt [of n] by simp
  then have len: "0 < length ?ds" "length ?ds \<le> 10" using decimal_length [of "unat n" 9] by simp_all
  have c: "c \<noteq> length data" using rest_length [OF at] len by linarith
  have run: "json_digits data c 0 0 = Some ((of_nat (unat n), length ?ds), c + length ?ds)"
    using json_digits_rest [OF at decimal_digits after, of 0 0] len size by (simp add: decimal_value)
  have same: "ucast (of_nat (unat n) :: u64) = n" 
  proof -
    define m :: u64 where "m = of_nat (unat n)"
    have "unat m = unat n" using size by (simp add: m_def unat_of_nat)
    then have "unat (ucast m :: u32) = unat n"
      using size by (simp add: unsigned_ucast_eq take_bit_nat_eq_self)
    then show ?thesis unfolding m_def by (simp only: word_unat_eq_iff)
  qed
  obtain b bs where ds: "?ds = b # bs" using len(1) by (cases ?ds) auto
  then have "data ! c = hd ?ds" using rest_Cons [of data c b "bs @ s"] at by simp
  then have "\<not> (data ! c = 0x30 \<and> length ?ds \<noteq> 1)"
    using decimal_zero [of "unat n"] by (auto simp: decimal.simps [of 0])
  moreover have "(of_nat (unat n) :: u64) = 0 \<longrightarrow> n = 0" using same by force
  ultimately show ?thesis
    using c run len zero same by (auto simp: json_uint32_def bindP_def)
qed

subsection \<open>Keys\<close>

definition key_text :: "string \<Rightarrow> bytes" where
  "key_text key = str_bytes ''\"'' @ str_bytes key @ str_bytes ''\":''"

lemma json_identifier_key_rest:
  assumes "rest data c (key_text key @ s)"
  shows "json_identifier_key data key c = Some ((), c + length (key_text key))"
proof -
  have first: "rest data c (str_bytes ''\"'' @ str_bytes key @ str_bytes ''\":'' @ s)"
    using assms by (simp add: key_text_def)
  note second = rest_after [OF first] and third = rest_after [OF rest_after [OF first]]
  show ?thesis
    using json_literal_rest [OF first] json_literal_rest [OF second] json_literal_rest [OF third]
    by (simp add: json_identifier_key_def bindP_def key_text_def)
qed

lemma key_step:
  assumes at: "rest data c (key_text key @ s)"
    and more: "rest data (c + length (key_text key)) s \<Longrightarrow> f () (c + length (key_text key)) = r"
  shows "bindP (json_identifier_key data key c) f = r"
  using more [OF rest_after [OF at]] by (simp add: json_identifier_key_rest [OF at] bindP_def)

lemma number_key_step:
  fixes n :: u32
  assumes at: "rest data c (key_text key @ decimal (unat n) @ s)"
    and after: "s = [] \<or> \<not> is_digit (hd s)" and zero: "allow_zero \<or> n \<noteq> 0"
    and more: "rest data (c + length (key_text key) + length (decimal (unat n))) s \<Longrightarrow>
      f n (c + length (key_text key) + length (decimal (unat n))) = r"
  shows "bindP (json_number_key data key allow_zero c) f = r"
  using json_identifier_key_rest [OF at] json_uint32_rest [OF rest_after [OF at] after zero]
    more [OF rest_after [OF rest_after [OF at]]]
  by (simp add: json_number_key_def bindP_def)

subsection \<open>Identifiers\<close>

text \<open>
  Lower-case letters, digits and single hyphens between them; the flag says that no hyphen may
  come next.
\<close>

fun identifier_from :: "bool \<Rightarrow> bytes \<Rightarrow> bool" where
  "identifier_from no_hyphen [] = (\<not> no_hyphen)"
| "identifier_from no_hyphen (b # bs) =
    (if b = 0x2d then \<not> no_hyphen \<and> identifier_from True bs
     else is_alphanumeric b \<and> identifier_from False bs)"

abbreviation is_identifier :: "bytes \<Rightarrow> bool" where
  "is_identifier \<equiv> identifier_from True"

lemma json_identifier_chars_rest:
  "rest data c (bs @ 0x22 # s) \<Longrightarrow> identifier_from (c = start \<or> hyphen) bs \<Longrightarrow> start \<le> c \<Longrightarrow>
    json_identifier_chars data start c hyphen = Some (False, c + length bs) \<and> (bs = [] \<longrightarrow> c \<noteq> start)"
proof (induction bs arbitrary: c hyphen)
  case Nil
  then have "c < length data" "data ! c = 0x22" "\<not> hyphen" "c \<noteq> start"
    using rest_Cons [of data c] by simp_all
  then show ?case by (subst json_identifier_chars.simps) (simp add: is_alphanumeric_def is_digit_def)
next
  case (Cons b bs)
  have here: "c < length data" "data ! c = b" "rest data (Suc c) (bs @ 0x22 # s)"
    using rest_Cons [of data c b "bs @ 0x22 # s"] Cons.prems(1) by simp_all
  have ok: "b = 0x2d \<longrightarrow> c \<noteq> start \<and> \<not> hyphen" "b \<noteq> 0x2d \<longrightarrow> is_alphanumeric b"
    and more: "identifier_from (Suc c = start \<or> b = 0x2d) bs"
    using Cons.prems(2,3) by (auto split: if_splits)
  have "json_identifier_chars data start (Suc c) (b = 0x2d) = Some (False, Suc c + length bs)"
    using Cons.IH [OF here(3) more] Cons.prems(3) by simp
  then show ?case
    using here ok by (subst json_identifier_chars.simps) (auto simp: Let_def)
qed

text \<open>The quoted identifier, and the identifier as a value of a key.\<close>

definition quoted :: "bytes \<Rightarrow> bytes" where
  "quoted bs = [0x22] @ bs @ [0x22]"

lemma length_quoted [simp]: "length (quoted bs) = length bs + 2"
  by (simp add: quoted_def)

lemma json_literal_quote: "rest data c (0x22 # s) \<Longrightarrow> json_literal data ''\"'' c = Some ((), Suc c)"
  using json_literal_rest [of data c "''\"''" s] by (simp add: str_bytes_def)

lemma json_identifier_rest:
  assumes at: "rest data c (quoted bs @ s)" and ok: "is_identifier bs"
  shows "json_identifier data c = Some ((Suc c, length bs), c + length (quoted bs))"
    and "take (length bs) (drop (Suc c) data) = bs"
proof -
  have first: "rest data c (0x22 # bs @ 0x22 # s)" using at by (simp add: quoted_def)
  then have second: "rest data (Suc c) (bs @ 0x22 # s)" using rest_Cons by blast
  note third = rest_after [OF second]
  note chars = json_identifier_chars_rest [OF second, of "Suc c" False]
  show "json_identifier data c = Some ((Suc c, length bs), c + length (quoted bs))"
    using chars ok json_literal_quote [OF first] json_literal_quote [OF third]
    by (auto simp: json_identifier_def bindP_def)
  show "take (length bs) (drop (Suc c) data) = bs" using rest_take [OF second] .
qed

lemma identifier_is_bytes:
  "take (length bs) (drop c data) = bs \<Longrightarrow> identifier_is data (c, length bs) name \<longleftrightarrow> bs = str_bytes name"
  by (auto simp: identifier_is_def)

lemma identifier_value_step:
  assumes at: "rest data c (key_text key @ quoted bs @ s)" and ok: "is_identifier bs"
    and more: "rest data (c + length (key_text key) + length (quoted bs)) s \<Longrightarrow>
      take (length bs) (drop (Suc (c + length (key_text key))) data) = bs \<Longrightarrow>
      f (Suc (c + length (key_text key)), length bs) (c + length (key_text key) + length (quoted bs)) = r"
  shows "bindP (json_identifier_value data key c) f = r"
  using json_identifier_key_rest [OF at] json_identifier_rest [OF rest_after [OF at] ok]
    more [OF rest_after [OF rest_after [OF at]]]
  by (simp add: json_identifier_value_def bindP_def)

subsection \<open>Digests\<close>

definition hex_digit :: "byte \<Rightarrow> byte" where
  "hex_digit n = (if n < 10 then 0x30 + n else 0x61 + (n - 10))"

definition hex_text :: "bytes \<Rightarrow> bytes" where
  "hex_text bs = concat (map (\<lambda>b. [hex_digit (drop_bit 4 b), hex_digit (b AND 0xf)]) bs)"

lemma hex_text_simps [simp]: "hex_text [] = []"
    "hex_text (b # bs) = hex_digit (drop_bit 4 b) # hex_digit (b AND 0xf) # hex_text bs"
  by (simp_all add: hex_text_def)

lemma length_hex_text [simp]: "length (hex_text bs) = 2 * length bs"
  by (induction bs) simp_all

lemma hex_octet_digit:
  assumes "n < 16"
  shows "hex_octet (hex_digit n) = Some n"
proof -
  have n: "unat n < 16" using assms by (simp add: word_less_nat_alt)
  show ?thesis
  proof (cases "n < 10")
    case True
    then have "unat (0x30 + n) = 48 + unat n" by (subst unat_add_lem [THEN iffD1]) (auto simp: word_less_nat_alt)
    then show ?thesis using True by (simp add: hex_octet_def hex_digit_def word_le_nat_alt word_less_nat_alt)
  next
    case False
    then have ten: "10 \<le> n" by simp
    have sub: "unat (n - 10) = unat n - 10" using unat_sub [OF ten] by simp
    then have "unat (0x61 + (n - 10)) = 97 + (unat n - 10)"
      using n by (subst unat_add_lem [THEN iffD1]) auto
    then show ?thesis using False n sub by (simp add: hex_octet_def hex_digit_def word_le_nat_alt word_less_nat_alt)
  qed
qed

lemma nibbles: "drop_bit 4 (b :: byte) < 16" "b AND 0xf < 16" "push_bit 4 (drop_bit 4 b) OR (b AND 0xf) = b"
proof -
  have "unat (drop_bit 4 b) < 16" using unat_byte_lt [of b] unfolding unat_drop_bit_eq by (simp add: drop_bit_eq_div)
  then show "drop_bit 4 b < 16" by (simp add: word_less_nat_alt)
  have mask: "b AND 0xf = take_bit 4 b" by (simp add: take_bit_eq_mask mask_eq_exp_minus_1)
  show "b AND 0xf < 16" using and_mask_less' [of 4 b] by (simp add: mask_eq_exp_minus_1)
  show "push_bit 4 (drop_bit 4 b) OR (b AND 0xf) = b"
    unfolding mask by (rule bit_eqI) (auto simp: bit_simps)
qed

lemma json_hex_rest:
  "rest data c (hex_text bs @ s) \<Longrightarrow> json_hex data (length bs) c = Some (bs, c + 2 * length bs)"
proof (induction bs arbitrary: c)
  case (Cons b bs)
  have here: "data ! c = hex_digit (drop_bit 4 b)" "rest data (Suc c) (hex_digit (b AND 0xf) # hex_text bs @ s)"
    using rest_Cons [of data c] Cons.prems by simp_all
  have second: "data ! Suc c = hex_digit (b AND 0xf)" "rest data (Suc (Suc c)) (hex_text bs @ s)"
    using rest_Cons [OF here(2)] by simp_all
  show ?case
    using Cons.IH [OF second(2)] here second nibbles [of b] by (simp add: hex_octet_digit bindP_def)
qed simp

lemma sha256_step:
  assumes at: "rest data c (quoted (hex_text sha) @ s)" and len: "length sha = 32"
    and more: "rest data (c + 66) s \<Longrightarrow> f sha (c + 66) = r"
  shows "bindP (json_sha256 data c) f = r"
proof -
  have first: "rest data c (0x22 # hex_text sha @ 0x22 # s)" using at by (simp add: quoted_def)
  then have second: "rest data (Suc c) (hex_text sha @ 0x22 # s)" using rest_Cons by blast
  note third = rest_after [OF second]
  have room: "\<not> length data - Suc c < 65"
    using rest_Cons [OF third] len by auto
  have last: "rest data (c + 66) s" using rest_after [OF at] len by simp
  show ?thesis
    using json_literal_quote [OF first] json_hex_rest [OF second] json_literal_quote [OF third] room len more [OF last]
    by (simp add: json_sha256_def bindP_def add.commute [of c])
qed

subsection \<open>Capabilities\<close>

text \<open>The identifiers of the array, in strictly ascending order, and what they ask for.\<close>

definition capability :: "u32 \<times> bool \<Rightarrow> bytes \<Rightarrow> u32 \<times> bool" where
  "capability caps bs =
    (if bs = str_bytes ''monotonic-time'' then (fst caps OR CAP_MONOTONIC_TIME, snd caps)
     else if bs = str_bytes ''log'' then (fst caps OR CAP_LOG, snd caps)
     else if bs = str_bytes ''timer'' then (fst caps OR CAP_TIMER, snd caps)
     else (fst caps, True))"

fun capabilities_body :: "bytes list \<Rightarrow> bytes" where
  "capabilities_body [] = []"
| "capabilities_body [bs] = quoted bs"
| "capabilities_body (bs # others) = quoted bs @ [0x2c] @ capabilities_body others"

text \<open>The array between its brackets, with one more comma when \<open>trailing\<close>; it has at most 16 rounds.\<close>

definition capabilities_text :: "bool \<Rightarrow> bytes list \<Rightarrow> bytes" where
  "capabilities_text trailing caps = capabilities_body caps @ (if trailing then [0x2c] else [])"

definition capabilities_ok :: "nat \<Rightarrow> bool \<Rightarrow> bytes list \<Rightarrow> bool" where
  "capabilities_ok n trailing caps \<longleftrightarrow> list_all is_identifier caps \<and> sorted_wrt ord_class.lexordp caps \<and>
     length caps \<le> n \<and> (trailing \<longrightarrow> caps \<noteq> [] \<and> length caps < n)"

lemma capabilities_text_Cons:
  "others \<noteq> [] \<Longrightarrow> capabilities_text trailing (bs # others) = quoted bs @ [0x2c] @ capabilities_text trailing others"
  by (cases others) (simp_all add: capabilities_text_def)

text \<open>The order of the reader is the strict lexicographic order of the bytes.\<close>

lemma memcmp_sign_order:
  "\<not> (memcmp_sign (take (min (length as) (length bs)) as) (take (min (length as) (length bs)) bs) > 0 \<or>
      memcmp_sign (take (min (length as) (length bs)) as) (take (min (length as) (length bs)) bs) = 0 \<and>
      length as \<ge> length bs) \<longleftrightarrow> ord_class.lexordp as bs"
proof (induction as arbitrary: bs)
  case (Cons a as)
  then show ?case by (cases bs) auto
qed simp

lemma identifier_follows_order:
  assumes "take (length as) (drop c data) = as" and "take (length bs) (drop d data) = bs"
  shows "identifier_follows data (c, length as) (d, length bs) \<longleftrightarrow> ord_class.lexordp as bs"
proof -
  let ?k = "min (length as) (length bs)"
  have "take ?k (drop c data) = take ?k as" "take ?k (drop d data) = take ?k bs"
    using arg_cong [OF assms(1), of "take ?k"] arg_cong [OF assms(2), of "take ?k"] by simp_all
  moreover have "(if length as < length bs then length as else length bs) = ?k" by simp
  ultimately show ?thesis
    unfolding memcmp_sign_order [symmetric] identifier_follows_def Let_def fst_conv snd_conv by simp
qed

lemma add_capability_bytes:
  "take (length bs) (drop c data) = bs \<Longrightarrow> add_capability data (c, length bs) caps = capability caps bs"
  by (simp add: add_capability_def capability_def identifier_is_bytes)

text \<open>One round: an identifier, then the end of the array or a comma and the next round.\<close>

lemma json_literal_byte:
  "rest data c (b # s) \<Longrightarrow> json_literal data [x] c = (if b = of_char x then Some ((), Suc c) else None)"
  by (auto simp: json_literal_def rest_def str_bytes_def)

lemma caps_round:
  assumes at: "rest data c (quoted bs @ b # s)" and ok: "is_identifier bs" and b: "b = 0x5d \<or> b = 0x2c"
    and previous: "previous = None \<or> (\<exists>p as. previous = Some (p, length as) \<and> take (length as) (drop p data) = as \<and>
      ord_class.lexordp as bs)"
  shows "json_caps_loop data (Suc m) previous caps c =
    (if b = 0x5d then Some (capability caps bs, c + length (quoted bs) + 1)
     else json_caps_loop data m (Some (Suc c, length bs)) (capability caps bs) (c + length (quoted bs) + 1))"
    and "rest data (c + length (quoted bs) + 1) s" and "take (length bs) (drop (Suc c) data) = bs"
proof -
  note ident = json_identifier_rest [OF at ok] and after = rest_after [OF at]
  have "rest data c (0x22 # bs @ 0x22 # b # s)" using at by (simp add: quoted_def)
  then have "json_literal data '']'' c = None" by (simp add: json_literal_byte)
  moreover have "case previous of None \<Rightarrow> True | Some p \<Rightarrow> identifier_follows data p (Suc c, length bs)"
    using previous identifier_follows_order [OF _ ident(2)] by (elim disjE exE conjE) simp_all
  ultimately show "json_caps_loop data (Suc m) previous caps c =
      (if b = 0x5d then Some (capability caps bs, c + length (quoted bs) + 1)
       else json_caps_loop data m (Some (Suc c, length bs)) (capability caps bs) (c + length (quoted bs) + 1))"
    using ident after b
    by (auto simp: bindP_def Let_def add_capability_bytes json_literal_byte split: option.splits)
  show "rest data (c + length (quoted bs) + 1) s" using rest_Cons [OF after] by simp
  show "take (length bs) (drop (Suc c) data) = bs" by (rule ident(2))
qed

lemma caps_finish:
  assumes "rest data c (0x5d # s)"
  shows "json_caps_loop data (Suc m) previous caps c = Some (caps, Suc c)"
  using assms by (simp add: json_literal_byte)

lemma json_caps_loop_rest:
  assumes "rest data c (capabilities_text trailing (bs # others) @ 0x5d # s)" and "capabilities_ok n trailing (bs # others)"
    and "previous = None \<or> (\<exists>p as. previous = Some (p, length as) \<and> take (length as) (drop p data) = as \<and>
      ord_class.lexordp as bs)"
  shows "json_caps_loop data n previous caps c =
    Some (foldl capability caps (bs # others), c + length (capabilities_text trailing (bs # others)) + 1)"
  using assms
proof (induction others arbitrary: bs n previous caps c)
  case Nil
  then obtain m where n: "n = Suc m" by (cases n) (auto simp: capabilities_ok_def)
  show ?case
  proof (cases trailing)
    case True
    then obtain k where m: "m = Suc k" using Nil.prems(2) n by (cases m) (auto simp: capabilities_ok_def)
    have at: "rest data c (quoted bs @ 0x2c # 0x5d # s)" and ok: "is_identifier bs"
      using Nil.prems(1,2) True by (simp_all add: capabilities_text_def capabilities_ok_def)
    note round = caps_round [OF at ok _ Nil.prems(3)]
    show ?thesis
      unfolding n m using True round(1) caps_finish [OF round(2)] by (simp add: capabilities_text_def)
  next
    case False
    have "rest data c (quoted bs @ 0x5d # s)" "is_identifier bs"
      using Nil.prems(1,2) False by (simp_all add: capabilities_text_def capabilities_ok_def)
    from caps_round(1) [OF this _ Nil.prems(3)] show ?thesis
      unfolding n using False by (simp add: capabilities_text_def)
  qed
next
  case (Cons b2 others)
  then obtain m where n: "n = Suc m" by (cases n) (auto simp: capabilities_ok_def)
  let ?tail = "capabilities_text trailing (b2 # others) @ 0x5d # s"
  have at: "rest data c (quoted bs @ 0x2c # ?tail)" and ok: "is_identifier bs"
    using Cons.prems(1,2) by (simp_all add: capabilities_text_Cons capabilities_ok_def)
  note round = caps_round [OF at ok _ Cons.prems(3)]
  have "capabilities_ok m trailing (b2 # others)" using Cons.prems(2) n by (auto simp: capabilities_ok_def)
  moreover have "ord_class.lexordp bs b2" using Cons.prems(2) by (simp add: capabilities_ok_def)
  ultimately have "json_caps_loop data m (Some (Suc c, length bs)) (capability caps bs) (c + length (quoted bs) + 1) =
      Some (foldl capability (capability caps bs) (b2 # others),
        c + length (quoted bs) + 1 + length (capabilities_text trailing (b2 # others)) + 1)"
    using Cons.IH [OF round(2)] round(3) by blast
  then show ?case using round(1) n by (simp add: capabilities_text_Cons)
qed

lemma caps_step:
  assumes at: "rest data c (key_text ''required_capabilities'' @ [0x5b] @ capabilities_text trailing caps @ [0x5d] @ s)"
    and ok: "capabilities_ok 16 trailing caps"
    and more: "rest data (c + length (key_text ''required_capabilities'') + length (capabilities_text trailing caps) + 2) s \<Longrightarrow>
      f (foldl capability (0, False) caps)
        (c + length (key_text ''required_capabilities'') + length (capabilities_text trailing caps) + 2) = r"
  shows "bindP (json_caps data c) f = r"
proof -
  let ?k = "key_text ''required_capabilities''"
  have after: "rest data (c + length ?k) (0x5b # capabilities_text trailing caps @ 0x5d # s)"
    using rest_after [OF at] by simp
  then have inner: "rest data (Suc (c + length ?k)) (capabilities_text trailing caps @ 0x5d # s)" using rest_Cons by blast
  have "json_caps_loop data 16 None (0, False) (Suc (c + length ?k)) =
      Some (foldl capability (0, False) caps, Suc (c + length ?k) + length (capabilities_text trailing caps) + 1)"
  proof (cases caps)
    case Nil
    then have "\<not> trailing" "rest data (Suc (c + length ?k)) (0x5d # s)"
      using ok inner by (auto simp: capabilities_ok_def capabilities_text_def)
    then show ?thesis using Nil caps_finish [of data _ s 15] by (simp add: capabilities_text_def numeral_eq_Suc)
  next
    case (Cons bs others)
    with json_caps_loop_rest [of data _ trailing bs others s 16 None] inner ok show ?thesis by blast
  qed
  moreover have "rest data (c + length ?k + length (capabilities_text trailing caps) + 2) s"
    using rest_after [OF inner] rest_Cons by fastforce
  ultimately show ?thesis
    using json_identifier_key_rest [OF at] after more
    by (simp add: json_caps_def bindP_def json_literal_byte)
qed

subsection \<open>The canonical manifest\<close>

record manifest_fields =
  mt_data_schema_version :: u32
  mt_guest_abi_version :: u32
  mt_event_queue_limit :: u32
  mt_host_call_timeout_ms :: u32
  mt_instruction_budget :: u32
  mt_memory_limit_bytes :: u32
  mt_stack_limit_bytes :: u32
  mt_storage_limit_bytes :: u32
  mt_wasm_sha256 :: bytes
  mt_wasm_size_bytes :: u32
  mt_product_id :: bytes
  mt_product_version :: bytes
  mt_capabilities :: "bytes list"
  mt_runtime_profile :: bytes
  mt_signing_key_id :: bytes

abbreviation comma :: bytes where "comma \<equiv> str_bytes '',''"
abbreviation number_text :: "string \<Rightarrow> u32 \<Rightarrow> bytes" where
  "number_text key n \<equiv> key_text key @ decimal (unat n)"

definition limits_text :: "manifest_fields \<Rightarrow> bytes" where
  "limits_text m = str_bytes '',\"limits\":{'' @
     number_text ''event_queue_limit'' (mt_event_queue_limit m) @ comma @
     number_text ''host_call_timeout_ms'' (mt_host_call_timeout_ms m) @ comma @
     number_text ''instruction_budget'' (mt_instruction_budget m) @ comma @
     number_text ''memory_limit_bytes'' (mt_memory_limit_bytes m) @ comma @
     number_text ''stack_limit_bytes'' (mt_stack_limit_bytes m) @ comma @
     number_text ''storage_limit_bytes'' (mt_storage_limit_bytes m) @ str_bytes ''},''"

definition payload_text :: "manifest_fields \<Rightarrow> bytes" where
  "payload_text m = str_bytes '',\"payload\":{'' @ key_text ''path'' @ str_bytes ''\"app.wasm\",'' @
     key_text ''sha256'' @ quoted (hex_text (mt_wasm_sha256 m)) @ comma @
     number_text ''size_bytes'' (mt_wasm_size_bytes m) @ str_bytes ''},''"

text \<open>The text before the product identifier, and the whole text.\<close>

definition head_text :: "manifest_fields \<Rightarrow> bytes" where
  "head_text m = str_bytes ''{'' @
     number_text ''data_schema_version'' (mt_data_schema_version m) @ comma @
     number_text ''guest_abi_version'' (mt_guest_abi_version m) @ limits_text m @
     number_text ''package_format_version'' 1 @ payload_text m"

definition manifest_text_with :: "bool \<Rightarrow> manifest_fields \<Rightarrow> bytes" where
  "manifest_text_with trailing m = head_text m @
     key_text ''product_id'' @ quoted (mt_product_id m) @ comma @
     key_text ''product_version'' @ quoted (mt_product_version m) @ comma @
     key_text ''required_capabilities'' @ [0x5b] @ capabilities_text trailing (mt_capabilities m) @ [0x5d] @ comma @
     key_text ''runtime_profile'' @ quoted (mt_runtime_profile m) @
     str_bytes '',\"signature_algorithm\":\"rsa-3072-pss-sha256\",'' @
     key_text ''signing_key_id'' @ quoted (mt_signing_key_id m) @ str_bytes ''}''"

definition manifest_text :: "manifest_fields \<Rightarrow> bytes" where
  "manifest_text m = manifest_text_with False m"

definition limits_ok :: "manifest_fields \<Rightarrow> bool" where
  "limits_ok m \<longleftrightarrow> mt_event_queue_limit m \<noteq> 0 \<and> mt_host_call_timeout_ms m \<noteq> 0 \<and> mt_instruction_budget m \<noteq> 0 \<and>
     mt_memory_limit_bytes m \<noteq> 0 \<and> mt_stack_limit_bytes m \<noteq> 0"

definition manifest_ok :: "manifest_fields \<Rightarrow> string \<Rightarrow> nat \<Rightarrow> bool" where
  "manifest_ok m key_id max_wasm_bytes \<longleftrightarrow>
     mt_data_schema_version m \<noteq> 0 \<and> mt_guest_abi_version m \<noteq> 0 \<and> limits_ok m \<and>
     length (mt_wasm_sha256 m) = 32 \<and> 8 \<le> mt_wasm_size_bytes m \<and> unat (mt_wasm_size_bytes m) \<le> max_wasm_bytes \<and>
     is_identifier (mt_product_id m) \<and> is_identifier (mt_product_version m) \<and>
     list_all is_identifier (mt_capabilities m) \<and> sorted_wrt ord_class.lexordp (mt_capabilities m) \<and>
     length (mt_capabilities m) \<le> 16 \<and> is_identifier (mt_runtime_profile m) \<and>
     is_identifier (mt_signing_key_id m) \<and> mt_signing_key_id m = str_bytes key_id"

text \<open>What the reader keeps of it.\<close>

definition manifest_of :: "manifest_fields \<Rightarrow> manifest" where
  "manifest_of m =
    (let id_at = length (head_text m) + length (key_text ''product_id'') + 1;
         version_at = id_at + length (mt_product_id m) + 2 + length (key_text ''product_version'') + 1;
         caps = foldl capability (0, False) (mt_capabilities m) in
     \<lparr>mf_wasm_size_bytes = mt_wasm_size_bytes m, mf_wasm_sha256 = mt_wasm_sha256 m,
      mf_guest_abi_version = mt_guest_abi_version m, mf_data_schema_version = mt_data_schema_version m,
      mf_memory_limit_bytes = mt_memory_limit_bytes m, mf_stack_limit_bytes = mt_stack_limit_bytes m,
      mf_event_queue_limit = mt_event_queue_limit m, mf_instruction_budget = mt_instruction_budget m,
      mf_host_call_timeout_ms = mt_host_call_timeout_ms m, mf_storage_limit_bytes = mt_storage_limit_bytes m,
      mf_product_id_offset_bytes = id_at, mf_product_id_size_bytes = length (mt_product_id m),
      mf_product_version_offset_bytes = version_at, mf_product_version_size_bytes = length (mt_product_version m),
      mf_requested_capabilities = fst caps, mf_has_unknown_capability = snd caps,
      mf_is_classic_profile = (mt_runtime_profile m = str_bytes ''wamr-classic-v1'')\<rparr>)"

subsection \<open>Reading it back\<close>

text \<open>A number before a literal that does not begin with a digit.\<close>

lemma number_literal_step:
  fixes n :: u32
  assumes at: "rest data c (key_text key @ decimal (unat n) @ str_bytes lit @ s)"
    and lit: "lit \<noteq> [] \<and> \<not> is_digit (of_char (hd lit))" and zero: "allow_zero \<or> n \<noteq> 0"
    and more: "rest data (c + length (key_text key) + length (decimal (unat n))) (str_bytes lit @ s) \<Longrightarrow>
      f n (c + length (key_text key) + length (decimal (unat n))) = r"
  shows "bindP (json_number_key data key allow_zero c) f = r"
proof -
  have "str_bytes lit @ s = [] \<or> \<not> is_digit (hd (str_bytes lit @ s))"
    using lit by (cases lit) (simp_all add: str_bytes_def)
  then show ?thesis
    by (rule number_key_step [where s = "str_bytes lit @ s", OF at]) (fact zero, rule more)
qed

lemma limits_step:
  assumes at: "rest data c (limits_text m @ s)" and ok: "limits_ok m"
    and more: "rest data (c + length (limits_text m)) s \<Longrightarrow>
      f (mt_event_queue_limit m, mt_host_call_timeout_ms m, mt_instruction_budget m, mt_memory_limit_bytes m,
        mt_stack_limit_bytes m, mt_storage_limit_bytes m) (c + length (limits_text m)) = r"
  shows "bindP (parse_limits data c) f = r"
proof -
  have "parse_limits data c = Some ((mt_event_queue_limit m, mt_host_call_timeout_ms m, mt_instruction_budget m,
      mt_memory_limit_bytes m, mt_stack_limit_bytes m, mt_storage_limit_bytes m), c + length (limits_text m))"
    using at ok unfolding parse_limits_def limits_text_def limits_ok_def append_assoc
    by (elim conjE)
       ((erule literal_step | (erule number_literal_step, simp add: is_digit_def, simp))+, simp add: add.assoc)
  then show ?thesis using more [OF rest_after [OF at]] by (simp add: bindP_def)
qed

lemma payload_step:
  assumes at: "rest data c (payload_text m @ s)" and sha: "length (mt_wasm_sha256 m) = 32"
    and size: "8 \<le> mt_wasm_size_bytes m" "unat (mt_wasm_size_bytes m) \<le> max_wasm_bytes"
    and more: "rest data (c + length (payload_text m)) s \<Longrightarrow>
      f (mt_wasm_sha256 m, mt_wasm_size_bytes m) (c + length (payload_text m)) = r"
  shows "bindP (parse_payload data max_wasm_bytes c) f = r"
proof -
  have nonzero: "mt_wasm_size_bytes m \<noteq> 0" using size(1) by auto
  have guard: "\<not> (mt_wasm_size_bytes m < 8 \<or> unat (mt_wasm_size_bytes m) > max_wasm_bytes)" using size by auto
  have "parse_payload data max_wasm_bytes c =
      Some ((mt_wasm_sha256 m, mt_wasm_size_bytes m), c + length (payload_text m))"
    using at sha nonzero unfolding parse_payload_def payload_text_def append_assoc
    by - ((erule literal_step key_step | (erule sha256_step, assumption) |
        (erule number_literal_step, simp add: is_digit_def, simp) | subst if_not_P [OF guard])+, simp add: add.assoc)
  then show ?thesis using more [OF rest_after [OF at]] by (simp add: bindP_def)
qed

lemma json_runtime_profile_step:
  assumes at: "rest data c (key_text ''runtime_profile'' @ quoted bs @ s)" and ok: "is_identifier bs"
    and more: "rest data (c + length (key_text ''runtime_profile'') + length (quoted bs)) s \<Longrightarrow>
      f (bs = str_bytes ''wamr-classic-v1'') (c + length (key_text ''runtime_profile'') + length (quoted bs)) = r"
  shows "bindP (json_runtime_profile data c) f = r"
proof -
  have "json_runtime_profile data c = Some (bs = str_bytes ''wamr-classic-v1'',
      c + length (key_text ''runtime_profile'') + length (quoted bs))"
    unfolding json_runtime_profile_def
    by (rule identifier_value_step [OF at ok]) (simp add: identifier_is_bytes)
  then show ?thesis using more [OF rest_after [OF rest_after [OF at]]] by (simp add: bindP_def)
qed

lemma parse_manifest_rest:
  assumes at: "rest data 0 (manifest_text_with trailing m)" and ok: "manifest_ok m key_id max_wasm_bytes"
    and array: "capabilities_ok 16 trailing (mt_capabilities m)"
  shows "parse_manifest data key_id max_wasm_bytes = Some (manifest_of m)"
proof -
  obtain caps unknown where caps: "foldl capability (0, False) (mt_capabilities m) = (caps, unknown)" by fastforce
  have format: "s = payload_text m @ t \<Longrightarrow> s = [] \<or> \<not> is_digit (hd s)" for s t
    by (simp add: payload_text_def str_bytes_def is_digit_def)
  show ?thesis
    using at ok unfolding parse_manifest_def manifest_ok_def manifest_text_with_def head_text_def append_assoc
    apply (elim conjE)
    apply (erule literal_step)
    apply (erule number_literal_step, simp add: is_digit_def, simp)
    apply (erule literal_step)
    apply (erule number_key_step, simp add: limits_text_def str_bytes_def is_digit_def, simp)
    apply (erule limits_step, assumption, unfold prod.case)
    apply (erule number_key_step, rule format [OF refl], simp, unfold not_True_eq_False refl [THEN eqTrueI] if_False)
    apply (erule payload_step, assumption, assumption, assumption, unfold prod.case)
    apply (erule identifier_value_step, assumption)
    apply (erule literal_step)
    apply (erule identifier_value_step, assumption)
    apply (erule literal_step)
    apply (erule caps_step, rule array, unfold caps prod.case)
    apply (erule literal_step)
    apply (erule json_runtime_profile_step, assumption)
    apply (erule literal_step)
    apply (erule identifier_value_step, assumption)
    apply (subst if_not_P, unfold not_not, rule identifier_is_bytes [THEN iffD2], assumption, assumption)
    apply (erule literal_end)
    apply (simp add: manifest_of_def Let_def caps head_text_def add.assoc)
    done
qed

lemma parse_manifest_text_with:
  "manifest_ok m key_id max_wasm_bytes \<Longrightarrow> capabilities_ok 16 trailing (mt_capabilities m) \<Longrightarrow>
     parse_manifest (manifest_text_with trailing m) key_id max_wasm_bytes = Some (manifest_of m)"
  by (rule parse_manifest_rest [OF rest_0])

lemma parse_manifest_text:
  "manifest_ok m key_id max_wasm_bytes \<Longrightarrow>
     parse_manifest (manifest_text m) key_id max_wasm_bytes = Some (manifest_of m)"
  unfolding manifest_text_def by (rule parse_manifest_text_with) (auto simp: manifest_ok_def capabilities_ok_def)

text \<open>The offsets point to the product identifier and the product version in the text.\<close>

lemma manifest_of_offsets:
  "piece (manifest_text m) (mf_product_id_offset_bytes (manifest_of m)) (mf_product_id_size_bytes (manifest_of m)) =
     mt_product_id m"
  "piece (manifest_text m) (mf_product_version_offset_bytes (manifest_of m))
     (mf_product_version_size_bytes (manifest_of m)) = mt_product_version m"
proof -
  have at: "piece (as @ bs @ cs) (length as) (length bs) = bs" for as bs cs :: bytes by (simp add: piece_def)
  obtain tail where "manifest_text m = (head_text m @ key_text ''product_id'' @ [0x22]) @ mt_product_id m @ tail"
    by (simp add: manifest_text_def manifest_text_with_def quoted_def)
  then show "piece (manifest_text m) (mf_product_id_offset_bytes (manifest_of m))
      (mf_product_id_size_bytes (manifest_of m)) = mt_product_id m"
    using at [of "head_text m @ key_text ''product_id'' @ [0x22]" "mt_product_id m" tail]
    by (simp add: manifest_of_def Let_def add.assoc)
  obtain tail where "manifest_text m = (head_text m @ key_text ''product_id'' @ quoted (mt_product_id m) @ comma @
      key_text ''product_version'' @ [0x22]) @ mt_product_version m @ tail"
    by (simp add: manifest_text_def manifest_text_with_def quoted_def)
  then show "piece (manifest_text m) (mf_product_version_offset_bytes (manifest_of m))
      (mf_product_version_size_bytes (manifest_of m)) = mt_product_version m"
    using at [of "head_text m @ key_text ''product_id'' @ quoted (mt_product_id m) @ comma @
      key_text ''product_version'' @ [0x22]" "mt_product_version m" tail]
    by (simp add: manifest_of_def Let_def add.assoc)
qed

end
