(* ===== verification/Package_Demo.thy ===== *)
theory Package_Demo
  imports Package_Accept Package_Render Slots_Demo
begin

text \<open>
  A package of the demonstration product, on the simulated platform: a module that imports
  \<open>log\<close>, its canonical manifest, a signature under the demonstration key and the archive of
  the three, with the validation context that accepts it.  The signature engine is the same
  for every digest function and every verification predicate.
\<close>

subsection \<open>A signature engine\<close>

text \<open>It imports one key, under the identifier 1.\<close>

definition reference_keys :: "(bytes \<Rightarrow> bytes \<Rightarrow> bytes \<Rightarrow> bool) \<Rightarrow> bytes \<Rightarrow> 'd psa_keys" where
  "reference_keys verifies trusted = \<lparr>
     psa_import_key = (\<lambda>key d. (if key = trusted then (True, 1) else (False, 0), d)),
     psa_verify_hash = (\<lambda>key_id hash signature d. (key_id = 1 \<and> verifies trusted hash signature, d)),
     psa_destroy_key = (\<lambda>key_id d. (True, d))\<rparr>"

definition reference_key_of :: "bytes \<Rightarrow> 'd \<Rightarrow> nat \<Rightarrow> bytes option" where
  "reference_key_of trusted d key_id = (if key_id = 1 then Some trusted else None)"

lemma sim_slot_live:
  assumes "bound_provider p" and "\<And>bs. length (sha bs) = 32"
  shows "slot_live (provider_io sim_api p) (sim_flash p) (sim_nvs p) (sim_held p) (reference_psa sha)
    (reference_keys verifies trusted) (\<lambda>h. h) sha verifies (reference_key_of trusted) (pv_geometry p)
    (\<lambda>w. sim_faults w = []) (\<lambda>key. key = trusted)"
proof (intro slot_live.intro live_signature.intro)
  note reliable = sim_reliable [OF assms(1), where sha = sha, OF assms(2)]
  show "reliable_env (provider_io sim_api p) (sim_flash p) (sim_nvs p) (sim_held p) (reference_psa sha)
      (\<lambda>h. h) sha (pv_geometry p) (\<lambda>w. sim_faults w = [])" by (rule reliable)
  show engine: "live_engine (reference_psa sha) (\<lambda>h. h) sha (device_view (sim_flash p) (sim_nvs p) (sim_held p))
      (\<lambda>w :: sim_world. sim_faults w = [])"
    using reliable_env.axioms(2) [OF reliable] .
  show "signature_engine (reference_psa sha) (reference_keys verifies trusted) (\<lambda>h. h) sha verifies
      (reference_key_of trusted) (device_view (sim_flash p) (sim_nvs p) (sim_held p) :: sim_world \<Rightarrow> _)"
    by (intro signature_engine.intro live_engine.axioms(1) [OF engine] signature_engine_axioms.intro)
       (auto simp: reference_keys_def reference_key_of_def keeps_def split: if_splits)
  show "live_signature_axioms (reference_keys verifies trusted) verifies (reference_key_of trusted)
      (\<lambda>w :: sim_world. sim_faults w = []) (\<lambda>key. key = trusted)"
    by (intro live_signature_axioms.intro) (auto simp: reference_keys_def reference_key_of_def split: if_splits)
qed

subsection \<open>The package\<close>

definition demo_payload :: bytes where
  "demo_payload =
    [0, 97, 115, 109, 1, 0, 0, 0, 1, 11, 2, 96, 0, 1, 127, 96, 2, 127, 127, 1,
     127, 2, 18, 1, 10, 101, 99, 111, 110, 116, 97, 105, 110, 101, 114, 3, 108, 111, 103, 0,
     1, 3, 4, 3, 0, 1, 0, 5, 4, 1, 1, 1, 2, 7, 68, 4, 15, 101, 99, 111,
     110, 116, 97, 105, 110, 101, 114, 95, 105, 110, 105, 116, 0, 1, 19, 101, 99, 111, 110, 116,
     97, 105, 110, 101, 114, 95, 111, 110, 95, 101, 118, 101, 110, 116, 0, 2, 15, 101, 99, 111,
     110, 116, 97, 105, 110, 101, 114, 95, 115, 116, 111, 112, 0, 3, 6, 109, 101, 109, 111, 114,
     121, 2, 0, 10, 16, 3, 4, 0, 65, 0, 11, 4, 0, 65, 0, 11, 4, 0, 65, 0,
     11]"

definition demo_fields :: manifest_fields where
  "demo_fields = \<lparr>mt_data_schema_version = 1, mt_guest_abi_version = 1, mt_event_queue_limit = 4,
     mt_host_call_timeout_ms = 100, mt_instruction_budget = 10000, mt_memory_limit_bytes = 131072,
     mt_stack_limit_bytes = 4096, mt_storage_limit_bytes = 0, mt_wasm_sha256 = demo_digest demo_payload,
     mt_wasm_size_bytes = 141, mt_product_id = str_bytes ''demo'', mt_product_version = str_bytes ''v1'',
     mt_capabilities = [str_bytes ''log''], mt_runtime_profile = str_bytes ''wamr-classic-v1'',
     mt_signing_key_id = str_bytes ''key-1''\<rparr>"

definition demo_manifest :: bytes where
  "demo_manifest = manifest_text demo_fields"

definition demo_public_key :: bytes where "demo_public_key = [0x30, 0x82]"

text \<open>The demonstration signature of a hash is the key and the hash, filled up with zeros.\<close>

definition demo_sign :: "bytes \<Rightarrow> bytes \<Rightarrow> bytes" where
  "demo_sign key hash = take 384 (key @ hash @ zeros 384)"

definition demo_verifies :: "bytes \<Rightarrow> bytes \<Rightarrow> bytes \<Rightarrow> bool" where
  "demo_verifies key hash signature \<longleftrightarrow> signature = demo_sign key hash"

definition demo_signature :: bytes where
  "demo_signature = demo_sign demo_public_key (demo_digest (package_domain @ demo_manifest))"

definition demo_archive :: bytes where
  "demo_archive = tar_archive demo_manifest demo_signature demo_payload"

lemma length_demo_payload: "length demo_payload = 141"
  by (simp add: demo_payload_def)

lemma demo_manifest_ok: "manifest_ok demo_fields ''key-1'' 4096"
  by code_simp

lemma length_demo_manifest: "length demo_manifest = 541"
  by (simp add: demo_manifest_def manifest_text_def manifest_text_with_def capabilities_text_def head_text_def limits_text_def payload_text_def key_text_def
      demo_fields_def decimal.simps length_demo_digest)

lemma length_demo_signature: "length demo_signature = 384"
  by (simp add: demo_signature_def demo_sign_def demo_public_key_def length_demo_digest)

lemma length_demo_archive: "length demo_archive = 10240"
  by (simp add: demo_archive_def length_tar_archive tar_members_def length_tar_member length_demo_manifest
      length_demo_signature length_demo_payload tar_padding_def TAR_BLOCK_BYTES_def canonical_size_def TAR_RECORD_BYTES_def)

lemma demo_trusted:
  "trusted_package demo_digest demo_verifies demo_public_key ''key-1'' 4096 demo_archive demo_manifest demo_signature demo_payload
     (manifest_of demo_fields)"
proof -
  have "take 8 demo_payload = wasm_header" by code_simp
  moreover have "parse_manifest demo_manifest ''key-1'' 4096 = Some (manifest_of demo_fields)"
    unfolding demo_manifest_def by (rule parse_manifest_text [OF demo_manifest_ok])
  moreover have "mf_wasm_size_bytes (manifest_of demo_fields) = 141"
    "mf_wasm_sha256 (manifest_of demo_fields) = demo_digest demo_payload"
    by (simp_all add: manifest_of_def demo_fields_def Let_def)
  moreover have "demo_payload = piece demo_archive (wasm_position demo_manifest demo_signature) (length demo_payload)"
    by (simp add: demo_archive_def archive_payload)
  moreover have "demo_verifies demo_public_key (demo_digest (package_domain @ demo_manifest)) demo_signature"
    by (simp add: demo_verifies_def demo_signature_def)
  ultimately show ?thesis
    unfolding trusted_package_def
    by (intro conjI; assumption | simp add: length_demo_manifest length_demo_signature length_demo_payload demo_archive_def
        PACKAGE_MANIFEST_MAX_BYTES_def PACKAGE_SIGNATURE_BYTES_def)
qed

subsection \<open>The reservation and the validation context\<close>

text \<open>The digest of the archive is its first 32 bytes, which begin the first header.\<close>

definition package_sha :: bytes where
  "package_sha = str_bytes ''manifest.json'' @ zeros 19"

lemma digest_demo_archive: "demo_digest demo_archive = package_sha"
proof -
  obtain header where header: "tar_expected ''manifest.json'' 541 = Some header" "length header = 512"
    using tar_expected_header [of "''manifest.json''" 541] by auto
  have "take 32 (the (tar_expected ''manifest.json'' 541)) = package_sha" by code_simp
  then have "take 32 header = package_sha" using header(1) by simp
  moreover have "take 32 demo_archive = take 32 header"
    using header by (simp add: demo_archive_def tar_archive_def tar_members_def tar_member_def Let_def length_demo_manifest)
  ultimately show ?thesis
    using length_demo_archive by (simp add: demo_digest_def)
qed

definition package_request :: slot_operation where
  "package_request = demo_request\<lparr>so_package_sha256 := package_sha, so_package_size_bytes := 10240\<rparr>"

definition package_state :: slots_state where
  "package_state = (demo_state SLOT_WRITING (zeros 16))\<lparr>ss_operation := package_request\<rparr>"

definition demo_validation :: package_slot_validation where
  "demo_validation = \<lparr>sv_expected_product_id = Some ''demo'', sv_public_key_rsa_der = Some demo_public_key,
     sv_expected_key_id = Some ''key-1'', sv_max_wasm_bytes = 4096,
     sv_wasm_authorization = \<lparr>allowed_capabilities = CAP_ALL, max_memory_bytes = 131072, max_stack_bytes = 8192\<rparr>,
     sv_max_event_queue_limit = 8, sv_max_instruction_budget = 100000, sv_max_host_call_timeout_ms = 1000,
     sv_max_storage_limit_bytes = 0, sv_package_workspace = Some wiped_workspace, sv_wasm_workspace = Some [],
     sv_verified_info = Some zero_info\<rparr>"

abbreviation "demo_keys \<equiv> reference_keys demo_verifies demo_public_key"
abbreviation "demo_reader \<equiv> \<lparr>rd_offset_bytes = sr_offset_bytes (slot_at demo_geometry 0), rd_size_bytes = 10240\<rparr>"

interpretation demo_live: slot_live demo_io demo_flash demo_nvs_blob demo_held demo_psa demo_keys "\<lambda>h. h" demo_digest
    demo_verifies "reference_key_of demo_public_key" demo_geometry demo_healthy "\<lambda>key. key = demo_public_key"
  using sim_slot_live [OF demo_bound length_demo_digest] by simp

interpretation demo_candidate: package_live "read_slot (flash_relative_read demo_io demo_reader) (unat (rd_size_bytes demo_reader))"
    demo_view "candidate_bytes demo_reader" demo_psa demo_keys "\<lambda>h. h" demo_digest demo_verifies
    "reference_key_of demo_public_key" demo_healthy "\<lambda>key. key = demo_public_key"
  by (rule demo_live.slot_reader_live [of 0 10240])
     (simp_all add: SLOT_COUNT_def slot_size_def slot_at_def demo_geometry_def bound_geometry_def demo_slots_def)

subsection \<open>The package on the device\<close>

text \<open>The first slot holds the archive.\<close>

definition demo_filled :: "slots_state option \<Rightarrow> sim_world" where
  "demo_filled record = (demo_world record)\<lparr>sim_parts := (\<lambda>_ a. demo_archive ! a)\<rparr>"

lemma content_nth: "length bs = n \<Longrightarrow> (\<And>i. i < n \<Longrightarrow> f (a + i) = bs ! i) \<Longrightarrow> content f a n = bs"
  by (simp add: content_def list_eq_iff_nth_eq)

lemma demo_filled_candidate: "candidate_bytes demo_reader (demo_view (demo_filled record)) = demo_archive"
  unfolding candidate_bytes_def
  by (rule content_nth)
     (simp_all add: length_demo_archive device_view_def provider_flash_def demo_provider_def demo_filled_def
        demo_package_def slot_at_def demo_geometry_def bound_geometry_def demo_slots_def)

lemma demo_filled_healthy: "sim_faults (demo_filled record) = []"
  by (simp add: demo_filled_def demo_world_def)

text \<open>What the verified package says of itself, and the check of its payload.\<close>

definition demo_info :: package_info where
  "demo_info = package_info_of 10240 demo_manifest (manifest_of demo_fields)
     (wasm_position demo_manifest demo_signature, length demo_payload, demo_digest demo_payload) (demo_digest demo_archive)"

definition scanned_info :: package_info where
  "scanned_info = zero_info\<lparr>pi_requested_capabilities := CAP_LOG, pi_memory_limit_bytes := 131072\<rparr>"

lemma scan_payload_info:
  assumes "pi_requested_capabilities info = pi_requested_capabilities info'"
    and "pi_memory_limit_bytes info = pi_memory_limit_bytes info'"
  shows "scan_payload src info = scan_payload src info'"
  unfolding scan_payload_def assms ..

lemma demo_info_fields:
  "pi_requested_capabilities demo_info = CAP_LOG" "pi_memory_limit_bytes demo_info = 131072"
  "pi_stack_limit_bytes demo_info = 4096" "pi_guest_abi_version demo_info = 1" "pi_is_classic_profile demo_info"
  "\<not> pi_has_unknown_capability demo_info" "pi_wasm_size_bytes demo_info = 141" "pi_wasm_offset_bytes demo_info = 3072"
  "pi_package_size_bytes demo_info = 10240" "pi_wasm_sha256 demo_info = demo_digest demo_payload"
  "pi_package_sha256 demo_info = package_sha"
  by (simp_all add: demo_info_def package_info_of_def manifest_of_def demo_fields_def Let_def capability_def
      str_bytes_def length_demo_payload digest_demo_archive wasm_position_def length_tar_member length_demo_manifest
      length_demo_signature tar_padding_def TAR_BLOCK_BYTES_def)

lemma demo_payload_scan: "fst (scan_payload (memory_source demo_payload) scanned_info memory_reader) = Inr PACKAGE_WASM_OK"
  by code_simp

lemma demo_payload_check:
  "payload_check demo_digest demo_payload demo_info (sv_wasm_authorization demo_validation) = PACKAGE_WASM_OK"
proof -
  have scan: "scan_payload (memory_source demo_payload) demo_info = scan_payload (memory_source demo_payload) scanned_info"
    by (rule scan_payload_info) (simp_all add: demo_info_fields scanned_info_def)
  have caps: "CAP_LOG AND NOT CAP_ALL = 0" "CAP_ALL AND NOT CAP_ALL = 0" by code_simp+
  then have "wasm_arguments_ok demo_info (sv_wasm_authorization demo_validation)"
      "wasm_authorized demo_info (sv_wasm_authorization demo_validation)"
    by (simp_all add: wasm_arguments_ok_def wasm_authorized_def demo_info_fields demo_validation_def
        PACKAGE_WASM_MAX_BYTES_def WASM_PAGE_BYTES_def word_less_nat_alt word_le_nat_alt)
  then show ?thesis
    by (simp add: payload_check_def demo_info_fields scan demo_payload_scan)
qed

subsection \<open>Preparing the package\<close>

abbreviation demo_validator :: "sim_world slot_validate_fn" where
  "demo_validator \<equiv> package_slot_validate demo_psa demo_keys (Some demo_validation)"

definition archive_source :: "sim_world slot_source_fn" where
  "archive_source offset count w = (Some (take count (drop offset demo_archive)), w)"

lemma demo_request_slot: "unat (so_slot package_request) = 0" "so_package_size_bytes package_request = 10240"
  by (simp_all add: package_request_def demo_request_def)

lemma demo_slot_accepts:
  "slot_accepts demo_validation package_request ''demo''
     \<lparr>pw_manifest = demo_manifest @ drop (length demo_manifest) (pw_manifest wiped_workspace), pw_signature = demo_signature\<rparr>
     demo_info"
proof -
  let ?mf = "manifest_of demo_fields"
  have size: "mf_product_id_size_bytes ?mf = length ''demo''"
    by (simp add: manifest_of_def demo_fields_def Let_def str_bytes_def)
  have at: "take (length ''demo'') (drop (mf_product_id_offset_bytes ?mf) demo_manifest) = str_bytes ''demo''"
    using manifest_of_offsets(1) [of demo_fields] unfolding size piece_def demo_manifest_def
    by (simp add: demo_fields_def)
  have room: "mf_product_id_offset_bytes ?mf + length ''demo'' \<le> 541"
    by (simp add: manifest_of_def Let_def head_text_def limits_text_def payload_text_def key_text_def
        demo_fields_def decimal.simps length_demo_digest)
  have "mf_guest_abi_version ?mf = 1" "mf_data_schema_version ?mf = 1" "mf_event_queue_limit ?mf = 4"
    "mf_instruction_budget ?mf = 10000" "mf_host_call_timeout_ms ?mf = 100" "mf_storage_limit_bytes ?mf = 0"
    by (simp_all add: manifest_of_def demo_fields_def Let_def)
  with size at room show ?thesis
    by (simp add: slot_accepts_def product_matches_def Let_def demo_info_def package_info_of_def package_request_def
        demo_request_def demo_validation_def digest_demo_archive length_demo_manifest)
qed

lemma demo_configured: "validation_configured (\<lambda>key. key = demo_public_key) demo_validation"
  by (simp add: validation_configured_def demo_validation_def INT32_MAX_def)

lemma demo_acceptable: "acceptable_package demo_digest demo_verifies demo_validation package_request demo_archive"
  unfolding acceptable_package_def
proof (intro exI conjI)
  show "sv_public_key_rsa_der demo_validation = Some demo_public_key" "sv_expected_key_id demo_validation = Some ''key-1''"
      "sv_expected_product_id demo_validation = Some ''demo''"
    by (simp_all add: demo_validation_def)
  show "verify_arguments_ok (length demo_archive) (sv_max_wasm_bytes demo_validation) demo_public_key"
    by (simp add: demo_validation_def verify_arguments_ok_def demo_public_key_def PACKAGE_WASM_MAX_BYTES_def
        TAR_BLOCK_BYTES_def PACKAGE_MANIFEST_MAX_BYTES_def length_demo_archive)
  show "trusted_package demo_digest demo_verifies demo_public_key ''key-1'' (sv_max_wasm_bytes demo_validation)
      demo_archive demo_manifest demo_signature demo_payload (manifest_of demo_fields)"
    using demo_trusted by (simp add: demo_validation_def)
  show "demo_info = package_info_of (length demo_archive) demo_manifest (manifest_of demo_fields)
      (wasm_position demo_manifest demo_signature, length demo_payload, demo_digest demo_payload) (demo_digest demo_archive)"
    by (simp add: demo_info_def length_demo_archive)
qed (rule demo_slot_accepts demo_payload_check)+

lemma demo_package_room:
  "unat (so_slot package_request) < SLOT_COUNT"
  "unat (so_package_size_bytes package_request) \<le> slot_size demo_geometry (unat (so_slot package_request))"
  by (simp_all add: demo_request_slot SLOT_COUNT_def slot_size_def slot_at_def demo_geometry_def bound_geometry_def
      demo_slots_def)

lemma demo_accepts_package:
  "accepts demo_view demo_flash demo_healthy demo_io demo_geometry demo_validator package_request demo_archive"
  by (rule demo_live.acceptable_accepts [OF demo_acceptable demo_configured demo_package_room])

text \<open>The request for it, made of the idle store.\<close>

lemma package_request_facts:
  "schema_compatible demo_idle (running_firmware_sha256 demo_firmware_set) package_request"
  "operation_requestable demo_firmware_set package_request"
  "select_slot demo_idle demo_geometry (so_package_size_bytes package_request) = Some 0"
  by code_simp+

lemma archive_serves: "serves demo_view demo_healthy archive_source demo_archive"
  by (simp add: serves_def quiet_source_def keeps_def archive_source_def)

lemma package_ready:
  "ready demo_digest demo_flash demo_nvs_blob demo_held demo_geometry demo_healthy (demo_world (Some package_state))
     package_state"
proof -
  have "state_shape package_state" "state_valid package_state demo_geometry"
    by code_simp+
  from demo_world_stored [OF this] show ?thesis
    by (simp add: ready_def demo_world_def provider_held_def package_state_def demo_state_def demo_bindings_def
        state_packages_intact_def zero_binding_def binding_intact_def)
qed

lemma package_prepared:
  obtains t d' where "slots_write_and_prepare (Some (io_ptrs demo_io)) demo_psa (Some demo_geometry) 5
      (Some archive_source) (Some demo_validator) (Some zero_state) (demo_world (Some package_state))
      = ((SLOTS_OK, Some t), d')"
proof -
  have facts: "ss_phase package_state = SLOT_WRITING" "ss_sequence package_state = 5"
    "length demo_archive = unat (so_package_size_bytes (ss_operation package_state))"
    "demo_digest demo_archive = so_package_sha256 (ss_operation package_state)"
    by (simp_all add: package_state_def demo_state_def package_request_def length_demo_archive digest_demo_archive)
  have accept: "accepts demo_view demo_flash demo_healthy demo_io demo_geometry demo_validator (ss_operation package_state)
      demo_archive"
    using demo_accepts_package by (simp add: package_state_def)
  from reliable_env.prepare_live [OF demo_reliable package_ready facts(1,3,4) archive_serves accept, where state = zero_state]
  show thesis using that facts(2) by auto
qed

end
