(* ===== verification/Package_Work.thy ===== *)
theory Package_Work
  imports Package_Contents
begin

text \<open>
  How much work a verification is.  Whatever the device answers and wherever the package is
  wrong, the number of reads is bounded by the number of blocks of the package and a constant:
  a read of a whole block advances the cursor by a block, which is never moved back, and each
  of the three members has at most two shorter reads.

  \<open>paced\<close> is the account: 512 for a read is paid by the cursor up to a deficit, and a step that
  fails may have made one more read.
\<close>

named_theorems pace_intros "rules that bound the reads of a step of the stream"

definition paced :: "('d \<Rightarrow> nat) \<Rightarrow> nat \<Rightarrow> nat \<Rightarrow> ('d, 'h, 'a) streaming \<Rightarrow> bool" where
  "paced reads len deficit m \<longleftrightarrow> (\<forall>s r s'. m s = (r, s') \<longrightarrow> st_cursor s \<le> len \<longrightarrow> st_cursor s' \<le> len \<and>
     512 * reads (st_device s') + st_cursor s \<le>
       512 * reads (st_device s) + st_cursor s' + deficit + (case r of Inl _ \<Rightarrow> 512 | Inr _ \<Rightarrow> 0))"

lemma pacedI:
  assumes "\<And>s r s'. m s = (r, s') \<Longrightarrow> st_cursor s \<le> len \<Longrightarrow> st_cursor s' \<le> len \<and>
    512 * reads (st_device s') + st_cursor s \<le>
      512 * reads (st_device s) + st_cursor s' + deficit + (case r of Inl _ \<Rightarrow> 512 | Inr _ \<Rightarrow> 0)"
  shows "paced reads len deficit m"
  using assms by (auto simp: paced_def)

lemma pacedD:
  assumes "paced reads len deficit m" and "m s = (r, s')" and "st_cursor s \<le> len"
  shows "st_cursor s' \<le> len"
    and "512 * reads (st_device s') + st_cursor s \<le>
      512 * reads (st_device s) + st_cursor s' + deficit + (case r of Inl _ \<Rightarrow> 512 | Inr _ \<Rightarrow> 0)"
  using assms by (auto simp: paced_def)

lemma paced_weaken: "paced reads len j m \<Longrightarrow> j \<le> k \<Longrightarrow> paced reads len k m"
  by (fastforce simp: paced_def)

lemma paced_retE [pace_intros]: "paced reads len 0 (retE x)"
  by (rule pacedI) (auto simp: retE_eq)

lemma paced_failE [pace_intros]: "paced reads len 0 (failE e)"
  by (rule pacedI) (auto simp: failE_eq)

lemma paced_guardE [pace_intros]: "paced reads len 0 (guardE b e)"
  by (cases b) (auto simp: guardE_def pace_intros)

lemma paced_bind:
  assumes "paced reads len j m" and "\<And>x. paced reads len k (f x)"
  shows "paced reads len (j + k) (bindE m f)"
proof (rule pacedI)
  fix s r s' assume "bindE m f s = (r, s')" and room: "st_cursor s \<le> len"
  then show "st_cursor s' \<le> len \<and> 512 * reads (st_device s') + st_cursor s \<le>
      512 * reads (st_device s) + st_cursor s' + (j + k) + (case r of Inl _ \<Rightarrow> 512 | Inr _ \<Rightarrow> 0)"
  proof (cases rule: bindE_cases)
    case (ok x s1)
    note first = pacedD [OF assms(1) ok(1) room]
    from first(2) pacedD [OF assms(2) ok(2) first(1)] show ?thesis by (auto split: sum.splits)
  qed (use pacedD [OF assms(1) _ room] in fastforce)
qed

text \<open>The reads are counted by \<open>reads\<close>; nothing else that the verification calls reads the package.\<close>

locale counted_reads = psa_frame psa reads
  for psa :: "('d, 'h) psa_api" and reads :: "'d \<Rightarrow> nat" +
  fixes keys :: "'d psa_keys" and read_fn :: "'d package_read_fn"
  assumes one_read: "reads (snd (read_fn offset n d)) \<le> Suc (reads d)"
    and signature_quiet: "keeps reads (signature_verify psa keys key text signature)"
begin

lemma paced_on_device [pace_intros]: "keeps reads m \<Longrightarrow> paced reads len 0 (on_device m)"
  by (rule pacedI) (auto simp: on_device_def split: prod.splits dest: keepsD)

lemma stream_read_paced:
  assumes "n \<le> 512"
  shows "paced reads len (512 - n) (stream_read psa read_fn len n)"
proof (rule pacedI)
  fix s r s' assume run: "stream_read psa read_fn len n s = (r, s')" and room: "st_cursor s \<le> len"
  obtain answer d where answer: "read_fn (st_cursor s) n (st_device s) = (answer, d)" by fastforce
  have one: "reads d \<le> Suc (reads (st_device s))" using one_read [of "st_cursor s" n "st_device s"] answer by simp
  show "st_cursor s' \<le> len \<and> 512 * reads (st_device s') + st_cursor s \<le>
      512 * reads (st_device s) + st_cursor s' + (512 - n) + (case r of Inl _ \<Rightarrow> 512 | Inr _ \<Rightarrow> 0)"
    using run room answer one assms
    by (auto simp: stream_read_def split: if_splits option.splits prod.splits bool.splits
        dest!: keepsD [OF digest_update_keeps])
qed

lemma piece_then:
  assumes "n \<noteq> 0" and "\<And>x. paced reads len (if n \<le> 512 then 0 else 512) (f x)"
  shows "paced reads len 512 (bindE (stream_read psa read_fn len (tar_piece n)) f)"
proof (rule paced_weaken [OF paced_bind [OF stream_read_paced assms(2)]])
  show "tar_piece n \<le> 512" "512 - tar_piece n + (if n \<le> 512 then 0 else 512) \<le> 512"
    by (auto simp: tar_piece_def TAR_BLOCK_BYTES_def)
qed

lemma stream_bytes_paced: "paced reads len (if n = 0 then 0 else 512) (stream_bytes psa read_fn len n)"
proof (induction n rule: less_induct)
  case (less n)
  show ?case
  proof (cases "n = 0")
    case False
    have "paced reads len (if n \<le> 512 then 0 else 512)
        (bindE (stream_bytes psa read_fn len (n - tar_piece n)) (\<lambda>rest. retE (bs @ rest)))" for bs
      by (rule paced_weaken [OF paced_bind [OF less paced_retE]])
        (use tar_piece_bounds(1) [OF False] False in \<open>auto simp: tar_piece_def TAR_BLOCK_BYTES_def\<close>)
    from piece_then [OF False this] False show ?thesis by (simp add: stream_bytes_step)
  qed (simp add: stream_nothing pace_intros)
qed

lemma stream_zeros_paced: "paced reads len (if n = 0 then 0 else 512) (stream_zeros psa read_fn len n)"
proof (induction n rule: less_induct)
  case (less n)
  show ?case
  proof (cases "n = 0")
    case False
    have "paced reads len (if n \<le> 512 then 0 else 512)
        (if list_ex (\<lambda>b. b \<noteq> 0) bs then failE PACKAGE_INVALID
         else stream_zeros psa read_fn len (n - tar_piece n))" for bs
      using paced_weaken [OF less [of "n - tar_piece n"]] paced_weaken [OF paced_failE] tar_piece_bounds(1) [OF False]
      by (auto simp: tar_piece_def TAR_BLOCK_BYTES_def split: if_splits)
    from piece_then [OF False this] False show ?thesis by (simp add: stream_zeros_step)
  qed (simp add: stream_nothing pace_intros)
qed

lemma stream_pieces_paced [pace_intros]:
  "paced reads len 512 (stream_bytes psa read_fn len n)" "paced reads len 512 (stream_zeros psa read_fn len n)"
  using paced_weaken [OF stream_bytes_paced [of len n], of 512] paced_weaken [OF stream_zeros_paced [of len n], of 512]
  by auto

lemma stream_header_paced [pace_intros]: "paced reads len 0 (stream_header psa read_fn len name)"
proof -
  have answer: "paced reads len 0 (case tar_size block of None \<Rightarrow> failE PACKAGE_INVALID
      | Some n \<Rightarrow> if tar_header_matches block name n then retE n else failE PACKAGE_INVALID)" for block
    by (auto intro: pace_intros split: option.splits)
  show ?thesis
    unfolding stream_header_def TAR_BLOCK_BYTES_def
    by (rule paced_weaken [OF paced_bind [OF stream_read_paced answer]]) auto
qed

lemma paced_abort: "paced reads len 0 (abort_wasm psa digest result)"
  by (rule pacedI) (auto simp: abort_wasm_def)

lemma wasm_loop_step:
  "n \<noteq> 0 \<Longrightarrow> wasm_loop psa read_fn len member_size n digest s =
    (case stream_read psa read_fn len (tar_piece n) s of
       (Inl result, s) \<Rightarrow> abort_wasm psa digest result s
     | (Inr block, s) \<Rightarrow>
         (if n = member_size \<and> take 8 block \<noteq> wasm_header then abort_wasm psa digest PACKAGE_INVALID
          else bindE (on_device (digest_update psa digest block)) (\<lambda>(ok, digest).
            if ok then wasm_loop psa read_fn len member_size (n - tar_piece n) digest
            else abort_wasm psa digest PACKAGE_INVALID)) s)"
  by (subst wasm_loop.simps) (auto simp: bindE_def on_device_def split: prod.splits sum.splits bool.splits)

lemma wasm_loop_paced:
  "paced reads len (if n = 0 then 0 else 512) (wasm_loop psa read_fn len member_size n digest)"
proof (induction n arbitrary: digest rule: less_induct)
  case (less n)
  show ?case
  proof (cases "n = 0")
    case False
    let ?later = "if n \<le> 512 then 0 else (512 :: nat)"
    have later: "paced reads len ?later (if n = member_size \<and> take 8 block \<noteq> wasm_header
        then abort_wasm psa digest PACKAGE_INVALID
        else bindE (on_device (digest_update psa digest block)) (\<lambda>(ok, digest).
          if ok then wasm_loop psa read_fn len member_size (n - tar_piece n) digest
          else abort_wasm psa digest PACKAGE_INVALID))" for block
      using paced_weaken [OF paced_bind [OF paced_on_device [OF digest_update_keeps [of digest block]],
            of len ?later "\<lambda>(ok, digest). if ok then wasm_loop psa read_fn len member_size (n - tar_piece n) digest
              else abort_wasm psa digest PACKAGE_INVALID"], of ?later]
        paced_weaken [OF less [of "n - tar_piece n"], of ?later] paced_weaken [OF paced_abort, of ?later]
        tar_piece_bounds(1) [OF False]
      by (auto simp: tar_piece_def TAR_BLOCK_BYTES_def split: if_splits)
    have "paced reads len 512 (wasm_loop psa read_fn len member_size n digest)"
    proof (rule pacedI)
      fix s r s'
      assume run: "wasm_loop psa read_fn len member_size n digest s = (r, s')" and room: "st_cursor s \<le> len"
      obtain q s1 where read: "stream_read psa read_fn len (tar_piece n) s = (q, s1)" by fastforce
      have "tar_piece n \<le> 512" using tar_piece_bounds(2) [of n] by (simp add: TAR_BLOCK_BYTES_def)
      note first = pacedD [OF stream_read_paced [OF this] read room]
      have gap: "512 - tar_piece n + ?later \<le> 512" by (auto simp: tar_piece_def TAR_BLOCK_BYTES_def)
      show "st_cursor s' \<le> len \<and> 512 * reads (st_device s') + st_cursor s \<le>
          512 * reads (st_device s) + st_cursor s' + 512 + (case r of Inl _ \<Rightarrow> 512 | Inr _ \<Rightarrow> 0)"
      proof (cases q)
        case (Inl result)
        then show ?thesis using run read first False by (auto simp: wasm_loop_step abort_wasm_def)
      next
        case (Inr block)
        note rest = pacedD [OF later [of block] _ first(1), of r s']
        show ?thesis using run read first(2) rest gap Inr False by (auto simp: wasm_loop_step split: sum.splits)
      qed
    qed
    then show ?thesis using False by simp
  qed (simp add: wasm_loop.simps [abs_def] pace_intros)
qed

lemma wasm_pieces_paced [pace_intros]: "paced reads len 512 (wasm_loop psa read_fn len member_size n digest)"
  using paced_weaken [OF wasm_loop_paced] by simp

lemma paced_bind_0 [pace_intros]:
  "paced reads len 0 m \<Longrightarrow> (\<And>x. paced reads len k (f x)) \<Longrightarrow> paced reads len k (bindE m f)"
  using paced_bind [of reads len 0 m k f] by simp

lemma paced_bind_512:
  "paced reads len 512 m \<Longrightarrow> (\<And>x. paced reads len k (f x)) \<Longrightarrow> paced reads len (512 + k) (bindE m f)"
  by (rule paced_bind)

lemma paced_option [pace_intros]:
  "paced reads len k m \<Longrightarrow> (\<And>x. paced reads len k (f x)) \<Longrightarrow>
     paced reads len k (case p of None \<Rightarrow> m | Some x \<Rightarrow> f x)"
  by (cases p) simp_all

lemma paced_fail [pace_intros]: "paced reads len k (failE e)"
  by (rule paced_weaken [OF paced_failE]) simp

lemma verify_manifest_paced: "paced reads len (512 + (512 + 0)) (verify_manifest psa read_fn len key_id max_wasm)"
  unfolding verify_manifest_def
  by (intro paced_bind_0 paced_bind_512 pace_intros)

lemma verify_signature_paced: "paced reads len (512 + (512 + 0)) (verify_signature psa keys read_fn len key text)"
  unfolding verify_signature_def
  by (intro paced_bind_0 paced_bind_512 pace_intros signature_quiet)

lemma verify_wasm_paced: "paced reads len (512 + (512 + 0)) (verify_wasm psa read_fn len max_wasm mf)"
proof -
  have position: "paced reads len 0 (\<lambda>s. (Inr (st_cursor s), s))"
    by (rule pacedI) auto
  show ?thesis
    unfolding verify_wasm_def
    by (intro paced_bind_0 paced_bind_512 pace_intros position digest_start_keeps digest_finish_keeps)
qed

lemma verify_end_paced: "paced reads len 512 (verify_end psa read_fn len)"
proof (rule pacedI)
  fix s r s' assume "verify_end psa read_fn len s = (r, s')" and "st_cursor s \<le> len"
  then show "st_cursor s' \<le> len \<and> 512 * reads (st_device s') + st_cursor s \<le>
      512 * reads (st_device s) + st_cursor s' + 512 + (case r of Inl _ \<Rightarrow> 512 | Inr _ \<Rightarrow> 0)"
    using pacedD [OF stream_pieces_paced(2)]
    by (fastforce simp: verify_end_def failE_eq split: if_splits)
qed

lemma paced_bind_1024:
  "paced reads len (512 + (512 + 0)) m \<Longrightarrow> (\<And>x. paced reads len k (f x)) \<Longrightarrow>
     paced reads len (1024 + k) (bindE m f)"
  using paced_bind [of reads len 1024 m k f] by simp

lemma paced_case_prod [pace_intros]:
  "(\<And>x y. paced reads len k (f x y)) \<Longrightarrow> paced reads len k (case p of (x, y) \<Rightarrow> f x y)"
  by (cases p) simp

lemma verify_members_paced: "paced reads len 3584 (verify_members psa keys read_fn len max_wasm key key_id)"
proof -
  have "paced reads len (1024 + (1024 + (1024 + (512 + 0))))
      (verify_members psa keys read_fn len max_wasm key key_id)"
    unfolding verify_members_def
    by (intro paced_bind_1024 paced_bind_512 pace_intros verify_manifest_paced verify_signature_paced
        verify_wasm_paced verify_end_paced)
  then show ?thesis by simp
qed

text \<open>The whole verification.\<close>

lemma package_verify_reads:
  "reads (snd (package_verify psa keys (Some read_fn) len max_wasm public_key key_id workspace info d)) \<le>
     reads d + len div 512 + 8"
proof -
  obtain r d' where run: "package_verify psa keys (Some read_fn) len max_wasm public_key key_id workspace info d = (r, d')"
    by fastforce
  have members: "reads (st_device s') \<le> reads (st_device s) + len div 512 + 8"
    if "verify_members psa keys read_fn len max_wasm key ident s = (q, s')" "st_cursor s = 0" for key ident s q s'
    using pacedD [OF verify_members_paced that(1)] that(2) by (auto split: sum.splits)
  show ?thesis
    using run
    by (auto simp: package_verify_def Let_def split: option.splits if_splits prod.splits sum.splits
        dest!: keepsD [OF digest_start_keeps] keepsD [OF digest_finish_keeps] members)
qed

text \<open>A package that is larger than the platform allows is not read at all.\<close>

lemma package_verify_reads_at_most:
  "reads (snd (package_verify psa keys (Some read_fn) len max_wasm public_key key_id workspace info d)) \<le>
     reads d + min (len div 512 + 8) 1056"
proof (cases "\<exists>key. public_key = Some key \<and> verify_arguments_ok len max_wasm key")
  case True
  then have "len \<le> 536576"
    by (auto simp: verify_arguments_ok_def PACKAGE_WASM_MAX_BYTES_def PACKAGE_MANIFEST_MAX_BYTES_def)
  then have "len div 512 + 8 \<le> 1056" using div_le_mono [of len 536576 512] by simp
  with package_verify_reads [of len max_wasm public_key key_id workspace info d] show ?thesis by simp
next
  case False
  then have "snd (package_verify psa keys (Some read_fn) len max_wasm public_key key_id workspace info d) = d"
    by (auto simp: package_verify_def Let_def split: option.splits)
  then show ?thesis by simp
qed

end

end
