(* ===== verification/Package_Parse.thy ===== *)
theory Package_Parse
  imports Package_Render
begin

text \<open>
  What a manifest that parses looks like: nothing but the canonical text of its fields, up to one
  comma before the end of the capabilities.  A parser that succeeds from a cursor has read a
  text, and \<open>spans\<close> says which; the texts of a sequence of parsers are joined.
\<close>

definition spans :: "bytes \<Rightarrow> nat \<Rightarrow> bytes \<Rightarrow> nat \<Rightarrow> bool" where
  "spans data c s d \<longleftrightarrow> d = c + length s \<and> d \<le> length data \<and> take (length s) (drop c data) = s"

lemma spans_join: "spans data c a d \<Longrightarrow> spans data d b e \<Longrightarrow> spans data c (a @ b) e"
  by (auto simp: spans_def take_add add.commute)

lemma spans_Nil: "c \<le> length data \<Longrightarrow> spans data c [] c"
  by (simp add: spans_def)

lemma spans_le: "spans data c s d \<Longrightarrow> d \<le> length data"
  by (simp add: spans_def)

lemma spans_all: "spans data 0 s (length data) \<Longrightarrow> data = s"
  by (auto simp: spans_def)

lemma spans_byte: "c < length data \<Longrightarrow> data ! c = b \<Longrightarrow> spans data c [b] (Suc c)"
  by (auto simp: spans_def take_Suc_conv_app_nth)

subsection \<open>The parsers of values\<close>

lemma json_literal_spans:
  "json_literal data lit c = Some (u, d) \<Longrightarrow> c \<le> length data \<Longrightarrow> spans data c (str_bytes lit) d"
  by (auto simp: json_literal_def spans_def split: if_splits)

lemma digits_value_snoc: "digits_value a (bs @ [b]) = digits_value a bs * 10 + unat (b - 0x30)"
  by simp

lemma is_digit_value: "is_digit b \<Longrightarrow> unat (b - 0x30) < 10 \<and> b = 0x30 + of_nat (unat (b - 0x30))"
  by (auto simp: is_digit_def word_le_nat_alt unat_sub)

lemma decimal_of_digits:
  "list_all is_digit ds \<Longrightarrow> ds \<noteq> [] \<Longrightarrow> hd ds = 0x30 \<longrightarrow> length ds = 1 \<Longrightarrow> decimal (digits_value 0 ds) = ds"
proof (induction ds rule: rev_induct)
  case (snoc b bs)
  have b: "unat (b - 0x30) < 10" "0x30 + of_nat (unat (b - 0x30)) = b" and bs: "list_all is_digit bs"
    using snoc.prems(1) is_digit_value [of b] by auto
  show ?case
  proof (cases "bs = []")
    case True
    then show ?thesis using b by (simp add: decimal.simps)
  next
    case False
    then have lead: "hd bs \<noteq> 0x30" using snoc.prems(3) by (auto simp: hd_append)
    then have ih: "decimal (digits_value 0 bs) = bs" using snoc.IH [OF bs False] by simp
    then have "digits_value 0 bs \<noteq> 0" using lead decimal_zero [of "digits_value 0 bs"] by auto
    then have "digits_value 0 (bs @ [b]) \<ge> 10" by simp
    then show ?thesis
      using ih b by (subst decimal.simps) (simp add: digits_value_snoc)
  qed
qed simp

lemma digit_step_value:
  fixes a :: u64 and b :: byte
  assumes "unat a < 2 ^ 32"
  shows "unat (a * 10 + ucast (b - 0x30)) = unat a * 10 + unat (b - 0x30)"
proof -
  have digit: "unat (ucast (b - 0x30) :: u64) = unat (b - 0x30)"
    by (simp add: unsigned_ucast_eq take_bit_nat_eq_self order.strict_trans [OF unsigned_less])
  have ten: "unat (a * 10) = unat a * 10" using assms by (subst unat_mult_lem [THEN iffD1]) auto
  show ?thesis using assms ten digit unat_byte_lt [of "b - 0x30"] by (subst unat_add_lem [THEN iffD1]) auto
qed

lemma json_digits_spans:
  "json_digits data c a k = Some ((v, n), d) \<Longrightarrow> c \<le> length data \<Longrightarrow> unat a < 2 ^ 32 \<Longrightarrow>
    \<exists>ds. spans data c ds d \<and> list_all is_digit ds \<and> n = k + length ds \<and>
      unat v = digits_value (unat a) ds \<and> unat v < 2 ^ 32"
proof (induction data c a k rule: json_digits.induct)
  case (1 data c a k)
  show ?case
  proof (cases "c < length data \<and> is_digit (data ! c)")
    case False
    then have "v = a" "n = k" "d = c" using "1.prems"(1) by (auto simp: json_digits.simps [of data c])
    then show ?thesis using "1.prems"(2,3) by (intro exI [of _ "[]"]) (simp add: spans_Nil)
  next
    case True
    let ?a = "a * 10 + ucast (data ! c - 0x30) :: u64"
    have fits: "\<not> (Suc k > 10 \<or> ?a > 0xffffffff)" and run: "json_digits data (Suc c) ?a (Suc k) = Some ((v, n), d)"
      using "1.prems"(1) True by (auto simp: json_digits.simps [of data c] Let_def split: if_splits)
    have "Suc c \<le> length data" "unat ?a < 2 ^ 32" using True fits by (auto simp: word_less_nat_alt)
    from "1.IH" [OF True refl fits run this] obtain ds where
      "spans data (Suc c) ds d" "list_all is_digit ds" "n = Suc k + length ds" "unat v = digits_value (unat ?a) ds"
      "unat v < 2 ^ 32" by blast
    then show ?thesis
      using True spans_join [OF spans_byte [of c data] , of "data ! c" ds d] digit_step_value [OF "1.prems"(3)]
      by (intro exI [of _ "data ! c # ds"]) simp
  qed
qed

lemma json_uint32_spans:
  assumes "json_uint32 data allow_zero c = Some (n, d)" and "c \<le> length data"
  shows "spans data c (decimal (unat n)) d" and "allow_zero \<or> n \<noteq> 0"
proof -
  obtain v k where run: "json_digits data c 0 0 = Some ((v, k), d)" and c: "c < length data"
    and k: "k \<noteq> 0" "data ! c = 0x30 \<longrightarrow> k = 1" "allow_zero \<or> v \<noteq> 0" and n: "n = ucast v"
    using assms by (auto simp: json_uint32_def bindP_def split: if_splits option.splits)
  from json_digits_spans [OF run assms(2)] obtain ds where ds: "spans data c ds d" "list_all is_digit ds"
    "k = length ds" "unat v = digits_value 0 ds" "unat v < 2 ^ 32" by auto
  have "hd ds = data ! c" using ds(1,3) k(1) c by (cases ds) (auto simp: spans_def Cons_nth_drop_Suc [symmetric])
  then have "decimal (unat v) = ds" using decimal_of_digits [OF ds(2)] ds(3,4) k by auto
  moreover have same: "unat n = unat v" using ds(5) by (simp add: n unsigned_ucast_eq take_bit_nat_eq_self)
  ultimately show "spans data c (decimal (unat n)) d" using ds(1) by simp
  show "allow_zero \<or> n \<noteq> 0" using k(3) same by (auto simp: word_unat_eq_iff)
qed

lemma bindP_Some: "bindP p f = Some r \<longleftrightarrow> (\<exists>x d. p = Some (x, d) \<and> f x d = Some r)"
  by (auto simp: bindP_def split: option.splits)

text \<open>A step of the parser: what has been read so far, and the equation of what is left.\<close>

lemma read_literal:
  assumes "spans data s t c \<and> bindP (json_literal data lit c) f = Some r"
  obtains d where "spans data s (t @ str_bytes lit) d \<and> f () d = Some r"
proof -
  from assms obtain d where "json_literal data lit c = Some ((), d)" "f () d = Some r"
    by (auto simp: bindP_Some)
  with assms json_literal_spans [OF this(1)] that show ?thesis by (blast intro: spans_join dest: spans_le)
qed

lemma json_identifier_key_spans:
  assumes "json_identifier_key data key c = Some (u, d)" and "c \<le> length data"
  shows "spans data c (key_text key) d"
proof -
  have "spans data c [] c \<and> json_identifier_key data key c = Some (u, d)" using assms by (simp add: spans_Nil)
  then show ?thesis unfolding json_identifier_key_def
    by (elim read_literal conjE) (auto simp: key_text_def dest!: json_literal_spans elim: spans_join spans_le dest: spans_le spans_join)
qed

lemma read_key:
  assumes "spans data s t c \<and> bindP (json_identifier_key data key c) f = Some r"
  obtains d where "spans data s (t @ key_text key) d \<and> f () d = Some r"
proof -
  from assms obtain d where "json_identifier_key data key c = Some ((), d)" "f () d = Some r"
    by (auto simp: bindP_Some)
  with assms json_identifier_key_spans [OF this(1)] that show ?thesis by (blast intro: spans_join dest: spans_le)
qed

lemma read_number:
  assumes "spans data s t c \<and> bindP (json_number_key data key allow_zero c) f = Some r"
  obtains n d where "spans data s (t @ number_text key n) d \<and> f n d = Some r" and "allow_zero \<or> n \<noteq> 0"
proof -
  from assms obtain n d where "bindP (json_identifier_key data key c) (\<lambda>_. json_uint32 data allow_zero) = Some (n, d)"
    and f: "f n d = Some r" by (auto simp: bindP_Some json_number_key_def)
  with assms have "spans data s t c \<and>
      bindP (json_identifier_key data key c) (\<lambda>_. json_uint32 data allow_zero) = Some (n, d)" by simp
  then obtain e where key: "spans data s (t @ key_text key) e" "json_uint32 data allow_zero e = Some (n, d)"
    by (rule read_key) blast
  note number = json_uint32_spans [OF key(2) spans_le [OF key(1)]]
  show ?thesis using that f number(2) spans_join [OF key(1) number(1)] by simp
qed

lemma read_guard:
  assumes "spans data s t c \<and> (if b then None else m) = Some r"
  obtains "\<not> b" and "spans data s t c \<and> m = Some r"
  using assms by (auto split: if_splits)

subsection \<open>Identifiers\<close>

lemma json_identifier_chars_spans:
  "json_identifier_chars data start c hyphen = Some (previous, d) \<Longrightarrow> c \<le> length data \<Longrightarrow> start \<le> c \<Longrightarrow>
    \<not> previous \<Longrightarrow> d \<noteq> start \<Longrightarrow>
    \<exists>bs. spans data c bs d \<and> identifier_from (c = start \<or> hyphen) bs"
proof (induction data start c hyphen rule: json_identifier_chars.induct)
  case (1 data start c hyphen)
  show ?case
  proof (cases "c < length data \<and> (is_alphanumeric (data ! c) \<or> data ! c = 0x2d)")
    case False
    then have "d = c" "previous = hyphen"
      using "1.prems"(1) by (auto simp: json_identifier_chars.simps [of data _ c] Let_def split: if_splits)
    then show ?thesis
      using "1.prems"(2,4,5) by (intro exI [of _ "[]"]) (simp add: spans_Nil)
  next
    case True
    let ?b = "data ! c"
    have ok: "\<not> (?b = 0x2d \<and> (c = start \<or> hyphen))" and char: "\<not> (\<not> is_alphanumeric ?b \<and> ?b \<noteq> 0x2d)"
      and run: "json_identifier_chars data start (Suc c) (?b = 0x2d) = Some (previous, d)"
      using "1.prems"(1) True by (auto simp: json_identifier_chars.simps [of data _ c] Let_def split: if_splits)
    have "Suc c \<le> length data" "start \<le> Suc c" using True "1.prems"(3) by auto
    from "1.IH" [OF _ refl char ok run this "1.prems"(4,5)] True obtain bs where
      bs: "spans data (Suc c) bs d" "identifier_from (Suc c = start \<or> ?b = 0x2d) bs" by blast
    have "identifier_from (c = start \<or> hyphen) (?b # bs)"
      using bs(2) ok char "1.prems"(3) by auto
    moreover have "spans data c (?b # bs) d"
      using True spans_join [OF spans_byte [of c data ?b] bs(1)] by simp
    ultimately show ?thesis by blast
  qed
qed

lemma json_identifier_spans:
  assumes "json_identifier data c = Some (ident, d)" and "c \<le> length data"
  obtains bs where "spans data c (quoted bs) d" and "is_identifier bs" and "ident = (Suc c, length bs)"
    and "take (length bs) (drop (Suc c) data) = bs"
proof -
  obtain start e where first: "json_literal data ''\"'' c = Some ((), start)"
    and chars: "json_identifier_chars data start start False = Some (False, e)" "e \<noteq> start"
    and last: "json_literal data ''\"'' e = Some ((), d)" and ident: "ident = (start, e - start)"
    using assms(1) by (auto simp: json_identifier_def bindP_Some split: if_splits)
  note quote = json_literal_spans [OF first assms(2)]
  from json_identifier_chars_spans [OF chars(1) spans_le [OF quote] order_refl _ chars(2)] obtain bs where
    bs: "spans data start bs e" "is_identifier bs" by auto
  note unquote = json_literal_spans [OF last spans_le [OF bs(1)]]
  have "spans data c (quoted bs) d"
    using spans_join [OF spans_join [OF quote bs(1)] unquote] by (simp add: quoted_def str_bytes_def)
  moreover have "start = Suc c" using quote by (simp add: spans_def)
  ultimately show ?thesis using that [of bs] bs ident by (simp add: spans_def)
qed

lemma read_identifier:
  assumes "spans data s t c \<and> bindP (json_identifier_value data key c) f = Some r"
  obtains bs d where "spans data s (t @ key_text key @ quoted bs) d \<and>
      f (Suc (s + length (t @ key_text key)), length bs) d = Some r"
    and "is_identifier bs" and "take (length bs) (drop (Suc (s + length (t @ key_text key))) data) = bs"
proof -
  from assms obtain ident d where "bindP (json_identifier_key data key c) (\<lambda>_. json_identifier data) = Some (ident, d)"
    and f: "f ident d = Some r" by (auto simp: bindP_Some json_identifier_value_def)
  with assms have "spans data s t c \<and>
      bindP (json_identifier_key data key c) (\<lambda>_. json_identifier data) = Some (ident, d)" by simp
  then obtain e where key: "spans data s (t @ key_text key) e" "json_identifier data e = Some (ident, d)"
    by (rule read_key) blast
  obtain bs where bs: "spans data e (quoted bs) d" "is_identifier bs" "ident = (Suc e, length bs)"
      "take (length bs) (drop (Suc e) data) = bs"
    using json_identifier_spans [OF key(2) spans_le [OF key(1)]] by blast
  have e: "e = s + length (t @ key_text key)" using key(1) by (simp add: spans_def)
  show ?thesis
    using that [of bs d] f bs(2-4) spans_join [OF key(1) bs(1)] unfolding e by simp
qed

subsection \<open>Digests\<close>

lemma hex_octet_Some:
  assumes "hex_octet b = Some n"
  shows "n < 16" and "hex_digit n = b"
proof -
  show "n < 16"
    using assms by (auto simp: hex_octet_def word_le_nat_alt word_less_nat_alt unat_sub unat_word_ariths split: if_splits)
  show "hex_digit n = b"
    using assms by (auto simp: hex_octet_def hex_digit_def word_le_nat_alt word_less_nat_alt unat_sub unat_word_ariths
        split: if_splits)
qed

lemma nibbles_join:
  fixes high low :: byte
  assumes "high < 16" and "low < 16"
  shows "drop_bit 4 (push_bit 4 high OR low) = high" and "(push_bit 4 high OR low) AND 0xf = low"
proof -
  have "take_bit 4 high = high" "take_bit 4 low = low"
    using assms by (simp_all add: word_unat_eq_iff unsigned_take_bit_eq word_less_nat_alt take_bit_nat_eq_self)
  then have bits: "bit high n \<Longrightarrow> n < 4" "bit low n \<Longrightarrow> n < 4" for n
    by (metis bit_take_bit_iff)+
  have mask: "x AND 0xf = take_bit 4 x" for x :: byte by (simp add: take_bit_eq_mask mask_eq_exp_minus_1)
  show "drop_bit 4 (push_bit 4 high OR low) = high"
    by (rule bit_eqI) (use bits in \<open>auto simp: bit_simps\<close>)
  show "(push_bit 4 high OR low) AND 0xf = low"
    unfolding mask by (rule bit_eqI) (use bits in \<open>auto simp: bit_simps\<close>)
qed

lemma json_hex_spans:
  "json_hex data n c = Some (bs, d) \<Longrightarrow> c + 2 * n \<le> length data \<Longrightarrow> spans data c (hex_text bs) d \<and> length bs = n"
proof (induction n arbitrary: c bs d)
  case 0
  then show ?case by (auto simp: spans_Nil)
next
  case (Suc n)
  obtain high low more where octets: "hex_octet (data ! c) = Some high" "hex_octet (data ! Suc c) = Some low"
    and run: "json_hex data n (Suc (Suc c)) = Some (more, d)" and bs: "bs = (push_bit 4 high OR low) # more"
    using Suc.prems(1) by (auto simp: bindP_Some split: option.splits)
  have room: "Suc (Suc c) + 2 * n \<le> length data" using Suc.prems(2) by simp
  note later = Suc.IH [OF run room]
  have "spans data c [data ! c] (Suc c)" "spans data (Suc c) [data ! Suc c] (Suc (Suc c))"
    using room by (auto intro: spans_byte)
  from spans_join [OF spans_join [OF this] later [THEN conjunct1]]
  show ?case
    using later octets [THEN hex_octet_Some(2)] nibbles_join [OF octets [THEN hex_octet_Some(1)]] by (simp add: bs)
qed

lemma read_sha256:
  assumes "spans data s t c \<and> bindP (json_sha256 data c) f = Some r"
  obtains sha d where "spans data s (t @ quoted (hex_text sha)) d \<and> f sha d = Some r" and "length sha = 32"
proof -
  from assms obtain sha d e e2 where first: "json_literal data ''\"'' c = Some ((), e)"
    and room: "\<not> length data - e < 65" and hex: "json_hex data 32 e = Some (sha, e2)"
    and last: "json_literal data ''\"'' e2 = Some ((), d)" and f: "f sha d = Some r"
    by (auto simp: bindP_Some json_sha256_def split: if_splits)
  have at: "c \<le> length data" using assms spans_le by blast
  note quote = json_literal_spans [OF first at]
  have "e + 2 * 32 \<le> length data" using room by simp
  from json_hex_spans [OF hex this] have sha: "spans data e (hex_text sha) e2" "length sha = 32" by simp_all
  note unquote = json_literal_spans [OF last spans_le [OF sha(1)]]
  have "spans data c (quoted (hex_text sha)) d"
    using spans_join [OF spans_join [OF quote sha(1)] unquote] by (simp add: quoted_def str_bytes_def)
  with that f sha(2) assms show ?thesis by (blast intro: spans_join)
qed

subsection \<open>Capabilities\<close>

lemma sorted_lexordp_Cons:
  fixes bs :: bytes
  assumes "sorted_wrt ord_class.lexordp others" and "others \<noteq> [] \<longrightarrow> ord_class.lexordp bs (hd others)"
  shows "sorted_wrt ord_class.lexordp (bs # others)"
  using assms lexordp_trans by (cases others) auto

lemma json_caps_loop_spans:
  "json_caps_loop data n previous caps c = Some (result, d) \<Longrightarrow> c \<le> length data \<Longrightarrow>
    \<exists>bss trailing. spans data c (capabilities_text trailing bss @ [0x5d]) d \<and> capabilities_ok n trailing bss \<and>
      result = foldl capability caps bss \<and>
      (\<forall>p as. previous = Some (p, length as) \<and> take (length as) (drop p data) = as \<and> bss \<noteq> [] \<longrightarrow>
        ord_class.lexordp as (hd bss))"
proof (induction n arbitrary: previous caps c)
  case (Suc n)
  show ?case
  proof (cases "json_literal data '']'' c")
    case (Some x)
    then have "json_literal data '']'' c = Some ((), d)" "result = caps" using Suc.prems(1) by (auto split: prod.splits)
    with json_literal_spans [OF this(1) Suc.prems(2)] show ?thesis
      by (intro exI [of _ "[]"] exI [of _ False]) (simp add: capabilities_text_def capabilities_ok_def str_bytes_def)
  next
    case None
    then obtain ident e where first: "json_identifier data c = Some (ident, e)"
      and order: "\<forall>p. previous = Some p \<longrightarrow> identifier_follows data p ident"
      and going: "(case json_literal data '']'' e of Some (_, e) \<Rightarrow> Some (add_capability data ident caps, e)
        | None \<Rightarrow> bindP (json_literal data '','' e) (\<lambda>_ e.
            json_caps_loop data n (Some ident) (add_capability data ident caps) e)) = Some (result, d)"
      using Suc.prems(1) by (auto simp: bindP_Some Let_def split: if_splits option.splits prod.splits)
    obtain bs where bs: "spans data c (quoted bs) e" "is_identifier bs" "ident = (Suc c, length bs)"
        "take (length bs) (drop (Suc c) data) = bs"
      using json_identifier_spans [OF first Suc.prems(2)] by blast
    have cap: "add_capability data ident caps = capability caps bs"
      using bs(3,4) by (simp add: add_capability_bytes)
    have after: "ord_class.lexordp as bs" if "previous = Some (p, length as)" "take (length as) (drop p data) = as" for p as
      using order that bs(3) identifier_follows_order [OF that(2) bs(4)] by blast
    show ?thesis
    proof (cases "json_literal data '']'' e")
      case (Some x)
      then have "json_literal data '']'' e = Some ((), d)" "result = capability caps bs"
        using going cap by (auto split: prod.splits)
      with spans_join [OF bs(1) json_literal_spans [OF this(1) spans_le [OF bs(1)]]] bs(2) after show ?thesis
        by (intro exI [of _ "[bs]"] exI [of _ False])
          (simp add: capabilities_text_def capabilities_ok_def str_bytes_def)
    next
      case None
      with going obtain e2 where comma: "json_literal data '','' e = Some ((), e2)"
        and later: "json_caps_loop data n (Some ident) (capability caps bs) e2 = Some (result, d)"
        by (auto simp: bindP_Some cap)
      have at: "spans data e [0x2c] e2"
        using json_literal_spans [OF comma spans_le [OF bs(1)]] by (simp add: str_bytes_def)
      from Suc.IH [OF later spans_le [OF at]] obtain bss trailing where
        tail: "spans data e2 (capabilities_text trailing bss @ [0x5d]) d" "capabilities_ok n trailing bss"
          "result = foldl capability (capability caps bs) bss"
        and follows: "bss \<noteq> [] \<longrightarrow> ord_class.lexordp bs (hd bss)"
        using bs(3,4) by blast
      have n: "n \<noteq> 0" using later by (cases n) auto
      have "capabilities_text (trailing \<or> bss = []) (bs # bss) = quoted bs @ [0x2c] @ capabilities_text trailing bss"
        using tail(2) by (cases bss) (auto simp: capabilities_ok_def capabilities_text_def)
      then have "spans data c (capabilities_text (trailing \<or> bss = []) (bs # bss) @ [0x5d]) d"
        using spans_join [OF bs(1) spans_join [OF at tail(1)]] by simp
      moreover have "capabilities_ok (Suc n) (trailing \<or> bss = []) (bs # bss)"
        using tail(2) bs(2) sorted_lexordp_Cons [OF _ follows] n by (auto simp: capabilities_ok_def)
      moreover have "result = foldl capability caps (bs # bss)" using tail(3) by simp
      ultimately show ?thesis using after by (intro exI [of _ "bs # bss"] exI conjI) auto
    qed
  qed
qed simp

lemma read_caps:
  assumes "spans data s t c \<and> bindP (json_caps data c) (\<lambda>(a, b) c. f a b c) = Some r"
  obtains caps trailing d where "capabilities_ok 16 trailing caps"
    and "spans data s (t @ key_text ''required_capabilities'' @ [0x5b] @ capabilities_text trailing caps @ [0x5d]) d \<and>
      f (fst (foldl capability (0, False) caps)) (snd (foldl capability (0, False) caps)) d = Some r"
proof -
  from assms obtain a b d where "bindP (json_identifier_key data ''required_capabilities'' c) (\<lambda>_ c.
      bindP (json_literal data ''['' c) (\<lambda>_ c. json_caps_loop data 16 None (0, False) c)) = Some ((a, b), d)"
    and f: "f a b d = Some r" by (auto simp: bindP_Some json_caps_def)
  with assms have "spans data s t c \<and> bindP (json_identifier_key data ''required_capabilities'' c) (\<lambda>_ c.
      bindP (json_literal data ''['' c) (\<lambda>_ c. json_caps_loop data 16 None (0, False) c)) = Some ((a, b), d)" by simp
  then obtain e where key: "spans data s ((t @ key_text ''required_capabilities'') @ str_bytes ''['') e"
    and loop: "json_caps_loop data 16 None (0, False) e = Some ((a, b), d)"
    by (elim read_key read_literal) auto
  from json_caps_loop_spans [OF loop spans_le [OF key]] obtain caps trailing where
    caps: "spans data e (capabilities_text trailing caps @ [0x5d]) d" "capabilities_ok 16 trailing caps"
      "(a, b) = foldl capability (0, False) caps" by blast
  show ?thesis
    using that [OF caps(2), of d] spans_join [OF key caps(1)] f caps(3) [symmetric] by (simp add: str_bytes_def)
qed

subsection \<open>The manifest\<close>

lemma read_limits:
  assumes "spans data s t c \<and> bindP (parse_limits data c) (\<lambda>(q, h, b, m, k, z) c. f q h b m k z c) = Some r"
  obtains q h b m k z d where "q \<noteq> 0" "h \<noteq> 0" "b \<noteq> 0" "m \<noteq> 0" "k \<noteq> 0"
    and "spans data s (t @ str_bytes '',\"limits\":{'' @ number_text ''event_queue_limit'' q @ comma @
      number_text ''host_call_timeout_ms'' h @ comma @ number_text ''instruction_budget'' b @ comma @
      number_text ''memory_limit_bytes'' m @ comma @ number_text ''stack_limit_bytes'' k @ comma @
      number_text ''storage_limit_bytes'' z @ str_bytes ''},'') d \<and> f q h b m k z d = Some r"
proof -
  from assms obtain x d where run: "spans data s t c \<and> parse_limits data c = Some (x, d)"
    and f: "(case x of (q, h, b, m, k, z) \<Rightarrow> f q h b m k z) d = Some r" by (auto simp: bindP_Some)
  from run show ?thesis
    unfolding parse_limits_def
    by (elim read_literal read_number conjE) (rule that, use f in \<open>auto split: prod.splits\<close>)
qed

lemma read_payload:
  assumes "spans data s t c \<and> bindP (parse_payload data max_wasm_bytes c) (\<lambda>(sha, n) c. f sha n c) = Some r"
  obtains sha n d where "length sha = 32" "8 \<le> n" "unat n \<le> max_wasm_bytes"
    and "spans data s (t @ str_bytes '',\"payload\":{'' @ key_text ''path'' @ str_bytes ''\"app.wasm\",'' @
      key_text ''sha256'' @ quoted (hex_text sha) @ comma @ number_text ''size_bytes'' n @ str_bytes ''},'') d \<and>
      f sha n d = Some r"
proof -
  from assms obtain x d where run: "spans data s t c \<and> parse_payload data max_wasm_bytes c = Some (x, d)"
    and f: "(case x of (sha, n) \<Rightarrow> f sha n) d = Some r" by (auto simp: bindP_Some)
  from run show ?thesis
    unfolding parse_payload_def
    by (elim read_literal read_key read_sha256 read_number read_guard conjE)
      (rule that, use f in \<open>auto simp: not_less split: prod.splits\<close>)
qed

lemma read_profile:
  assumes "spans data s t c \<and> bindP (json_runtime_profile data c) f = Some r"
  obtains bs d where "is_identifier bs"
    and "spans data s (t @ key_text ''runtime_profile'' @ quoted bs) d \<and> f (bs = str_bytes ''wamr-classic-v1'') d = Some r"
proof -
  from assms obtain x d where run: "spans data s t c \<and> json_runtime_profile data c = Some (x, d)"
    and f: "f x d = Some r" by (auto simp: bindP_Some)
  from run show ?thesis
    unfolding json_runtime_profile_def
    by (elim read_identifier conjE) (rule that, use f in \<open>auto simp: identifier_is_bytes\<close>)
qed

lemma parse_manifest_shape:
  assumes "parse_manifest data key_id max_wasm_bytes = Some mf"
  obtains m trailing where "data = manifest_text_with trailing m" and "manifest_ok m key_id max_wasm_bytes"
    and "capabilities_ok 16 trailing (mt_capabilities m)" and "mf = manifest_of m"
proof -
  have "spans data 0 [] 0 \<and> parse_manifest data key_id max_wasm_bytes = Some mf" using assms by (simp add: spans_Nil)
  then show ?thesis
    unfolding parse_manifest_def
    apply (elim read_literal read_number read_limits read_payload read_guard read_identifier read_caps read_profile conjE)
    subgoal premises prems for _ schema _ _ abi _ queue timeout budget memory stack storage _ format _ sha wasm_size _
      product _ _ version _ _ caps trailing _ _ profile _ _ key _ finish
    proof -
      let ?m = "\<lparr>mt_data_schema_version = schema, mt_guest_abi_version = abi,
            mt_event_queue_limit = queue, mt_host_call_timeout_ms = timeout, mt_instruction_budget = budget,
            mt_memory_limit_bytes = memory, mt_stack_limit_bytes = stack, mt_storage_limit_bytes = storage,
            mt_wasm_sha256 = sha, mt_wasm_size_bytes = wasm_size, mt_product_id = product,
            mt_product_version = version, mt_capabilities = caps, mt_runtime_profile = profile,
            mt_signing_key_id = key\<rparr>"
      have ends: "finish = length data" and format: "format = 1" using prems(9,22) by simp_all
      have "data = manifest_text_with trailing ?m"
        by (rule trans [OF spans_all [OF prems(23) [unfolded ends]]])
          (simp add: format manifest_text_with_def head_text_def limits_text_def payload_text_def)
      moreover have "key = str_bytes key_id" using prems(20,21) by (simp add: identifier_is_bytes)
      then have "manifest_ok ?m key_id max_wasm_bytes"
        using prems(1-8,10-13,15,17-19) by (simp add: manifest_ok_def limits_ok_def capabilities_ok_def)
      moreover have "mf = manifest_of ?m"
        by (rule option.inject [THEN iffD1, OF trans [OF prems(24) [symmetric]]])
          (simp add: format manifest_of_def Let_def head_text_def limits_text_def payload_text_def)
      ultimately show ?thesis using that [of trailing ?m] prems(17) by simp
    qed
    done
qed

text \<open>The reader is exact.\<close>

lemma parse_manifest_iff:
  "parse_manifest data key_id max_wasm_bytes = Some mf \<longleftrightarrow>
     (\<exists>m trailing. data = manifest_text_with trailing m \<and> manifest_ok m key_id max_wasm_bytes \<and>
       capabilities_ok 16 trailing (mt_capabilities m) \<and> mf = manifest_of m)"
  using parse_manifest_text_with by (auto elim!: parse_manifest_shape)

end
