(* ===== verification/Package_Openssl.thy ===== *)
theory Package_Openssl
  imports Package_Crypto
begin

text \<open>
  The other branch of \<open>package_crypto.c\<close>: the same interface over OpenSSL, for the host build.  The
  EVP calls are a parameter, a record of functions on a message context \<open>'c\<close>, a key \<open>'k\<close>, a
  message digest \<open>'m\<close> and the state \<open>'d\<close> of the process; \<open>True\<close> is the result 1, \<open>None\<close> a NULL pointer.
  A context that the code holds is the value behind its pointer.

  The locale \<open>evp_contract\<close> is what the branch relies on, with accounts of the contexts and keys
  that are allocated.  The branch is a \<open>digest_engine\<close> under an adapter, so what is shown of the
  readers of digests holds for it; its signature check accepts what the PSA branch accepts, and
  no path of it leaks a context or a key.
\<close>

record ('d, 'c, 'k, 'm) evp_api =
  EVP_MD_CTX_new :: "'d \<Rightarrow> 'c option \<times> 'd"
  EVP_MD_CTX_free :: "'c option \<Rightarrow> 'd \<Rightarrow> 'd"
  EVP_sha256 :: 'm
  EVP_DigestInit_ex :: "'c \<Rightarrow> 'm \<Rightarrow> 'd \<Rightarrow> (bool \<times> 'c) \<times> 'd"
  EVP_DigestUpdate :: "'c \<Rightarrow> bytes \<Rightarrow> 'd \<Rightarrow> (bool \<times> 'c) \<times> 'd"
  EVP_DigestFinal_ex :: "'c \<Rightarrow> 'd \<Rightarrow> (bytes option \<times> 'c) \<times> 'd"
  EVP_PKEY_RSA :: int
  RSA_PKCS1_PSS_PADDING :: int
  d2i_PublicKey :: "int \<Rightarrow> bytes \<Rightarrow> 'd \<Rightarrow> ('k \<times> nat) option \<times> 'd"
  EVP_PKEY_free :: "'k \<Rightarrow> 'd \<Rightarrow> 'd"
  EVP_PKEY_base_id :: "'k \<Rightarrow> int"
  EVP_PKEY_bits :: "'k \<Rightarrow> int"
  EVP_DigestVerifyInit :: "'m \<Rightarrow> 'k \<Rightarrow> 'c \<Rightarrow> 'd \<Rightarrow> (bool \<times> 'c) \<times> 'd"
  EVP_PKEY_CTX_set_rsa_padding :: "int \<Rightarrow> 'c \<Rightarrow> 'd \<Rightarrow> (bool \<times> 'c) \<times> 'd"
  EVP_PKEY_CTX_set_rsa_mgf1_md :: "'m \<Rightarrow> 'c \<Rightarrow> 'd \<Rightarrow> (bool \<times> 'c) \<times> 'd"
  EVP_PKEY_CTX_set_rsa_pss_saltlen :: "int \<Rightarrow> 'c \<Rightarrow> 'd \<Rightarrow> (bool \<times> 'c) \<times> 'd"
  EVP_DigestVerifyUpdate :: "bytes \<Rightarrow> 'c \<Rightarrow> 'd \<Rightarrow> (bool \<times> 'c) \<times> 'd"
  EVP_DigestVerifyFinal :: "bytes \<Rightarrow> 'c \<Rightarrow> 'd \<Rightarrow> (bool \<times> 'c) \<times> 'd"

subsection \<open>The digest functions\<close>

text \<open>The struct \<open>econtainer_package_digest_t\<close> is its context, \<open>None\<close> after the end of the digest.\<close>

definition openssl_digest_start :: "('d, 'c, 'k, 'm) evp_api \<Rightarrow> 'd \<Rightarrow> 'c option \<times> 'd" where
  "openssl_digest_start evp d =
    (case EVP_MD_CTX_new evp d of
       (None, d1) \<Rightarrow> (None, d1)
     | (Some context, d1) \<Rightarrow>
         (case EVP_DigestInit_ex evp context (EVP_sha256 evp) d1 of
            ((False, context), d2) \<Rightarrow> (None, EVP_MD_CTX_free evp (Some context) d2)
          | ((True, context), d2) \<Rightarrow> (Some context, d2)))"

definition openssl_digest_update :: "('d, 'c, 'k, 'm) evp_api \<Rightarrow> 'c \<Rightarrow> bytes \<Rightarrow> 'd \<Rightarrow> (bool \<times> 'c) \<times> 'd" where
  "openssl_digest_update evp context data d = EVP_DigestUpdate evp context data d"

definition openssl_digest_finish :: "('d, 'c, 'k, 'm) evp_api \<Rightarrow> 'c \<Rightarrow> 'd \<Rightarrow> bytes option \<times> 'd" where
  "openssl_digest_finish evp context d =
    (case EVP_DigestFinal_ex evp context d of ((output, context), d1) \<Rightarrow>
     (case output of
        None \<Rightarrow> None
      | Some hash \<Rightarrow> if length hash = 32 then Some hash else None,
      EVP_MD_CTX_free evp (Some context) d1))"

definition openssl_digest_abort :: "('d, 'c, 'k, 'm) evp_api \<Rightarrow> 'c option \<Rightarrow> 'd \<Rightarrow> 'd" where
  "openssl_digest_abort evp context d = EVP_MD_CTX_free evp context d"

subsection \<open>The signature check\<close>

text \<open>The conjunction of calls on one context, which ends at the first that fails.\<close>

definition and_then :: "('c \<Rightarrow> 'd \<Rightarrow> (bool \<times> 'c) \<times> 'd) \<Rightarrow> ('c \<Rightarrow> 'd \<Rightarrow> (bool \<times> 'c) \<times> 'd) \<Rightarrow> 'c \<Rightarrow> 'd \<Rightarrow>
    (bool \<times> 'c) \<times> 'd" where
  "and_then f g context d =
    (case f context d of
       ((False, context), d1) \<Rightarrow> ((False, context), d1)
     | ((True, context), d1) \<Rightarrow> g context d1)"

definition openssl_verify_steps :: "('d, 'c, 'k, 'm) evp_api \<Rightarrow> 'k \<Rightarrow> bytes \<Rightarrow> bytes \<Rightarrow> 'c \<Rightarrow> 'd \<Rightarrow>
    (bool \<times> 'c) \<times> 'd" where
  "openssl_verify_steps evp key manifest signature =
    and_then (EVP_DigestVerifyInit evp (EVP_sha256 evp) key)
    (and_then (EVP_PKEY_CTX_set_rsa_padding evp (RSA_PKCS1_PSS_PADDING evp))
    (and_then (EVP_PKEY_CTX_set_rsa_mgf1_md evp (EVP_sha256 evp))
    (and_then (EVP_PKEY_CTX_set_rsa_pss_saltlen evp 32)
    (and_then (EVP_DigestVerifyUpdate evp package_domain)
    (and_then (EVP_DigestVerifyUpdate evp manifest)
      (EVP_DigestVerifyFinal evp signature))))))"

text \<open>The host has a \<open>long\<close> of 64 bits.\<close>

definition LONG_MAX :: nat where "LONG_MAX = 2 ^ 63 - 1"

definition openssl_signature_verify :: "('d, 'c, 'k, 'm) evp_api \<Rightarrow> bytes \<Rightarrow> bytes \<Rightarrow> bytes \<Rightarrow> 'd \<Rightarrow>
    bool \<times> 'd" where
  "openssl_signature_verify evp public_key manifest signature d =
    (if length public_key > LONG_MAX then (False, d)
     else case d2i_PublicKey evp (EVP_PKEY_RSA evp) public_key d of
       (None, d1) \<Rightarrow> (False, d1)
     | (Some (key, cursor), d1) \<Rightarrow>
         (case EVP_MD_CTX_new evp d1 of
            (None, d2) \<Rightarrow> (False, EVP_PKEY_free evp key (EVP_MD_CTX_free evp None d2))
          | (Some context, d2) \<Rightarrow>
              (case (if cursor = length public_key \<and> EVP_PKEY_base_id evp key = EVP_PKEY_RSA evp \<and>
                       EVP_PKEY_bits evp key = 3072
                     then openssl_verify_steps evp key manifest signature context d2
                     else ((False, context), d2)) of
                 ((success, context), d3) \<Rightarrow>
                   (success, EVP_PKEY_free evp key (EVP_MD_CTX_free evp (Some context) d3)))))"

subsection \<open>What the branch relies on\<close>

text \<open>
  What a context has been told: the key, the padding, the digest of the mask generation, the
  length of the salt and the data to be verified.
\<close>

record ('k, 'm) verify_setup =
  vs_key :: "'k option"
  vs_padding :: int
  vs_mgf1 :: "'m option"
  vs_saltlen :: int
  vs_data :: bytes

text \<open>A call on a context that leaves a view of the process and both accounts alone.\<close>

definition balanced :: "('d \<Rightarrow> 'v) \<Rightarrow> ('d \<Rightarrow> int \<times> int) \<Rightarrow> ('d \<Rightarrow> 'r \<times> 'd) \<Rightarrow> bool" where
  "balanced view accounts f \<longleftrightarrow> keeps (\<lambda>d. (view d, accounts d)) f"

lemma balancedD: "balanced view accounts f \<Longrightarrow> f d = (r, d') \<Longrightarrow> view d' = view d \<and> accounts d' = accounts d"
  by (auto simp: balanced_def dest: keepsD)

locale evp_contract =
  fixes evp :: "('d, 'c, 'k, 'm) evp_api"
    and absorbed :: "'c \<Rightarrow> bytes"
    and setup_of :: "'c \<Rightarrow> ('k, 'm) verify_setup"
    and key_bytes :: "'k \<Rightarrow> bytes"
    and sha256 :: "bytes \<Rightarrow> bytes"
    and verifies :: "bytes \<Rightarrow> bytes \<Rightarrow> bytes \<Rightarrow> bool"
    and view :: "'d \<Rightarrow> 'v"
    and accounts :: "'d \<Rightarrow> int \<times> int"
  assumes new_accounts: "EVP_MD_CTX_new evp d = (r, d') \<Longrightarrow> view d' = view d \<and>
      accounts d' = (fst (accounts d) + (if r = None then 0 else 1), snd (accounts d))"
    and free_accounts: "view (EVP_MD_CTX_free evp (Some c) d) = view d \<and>
      accounts (EVP_MD_CTX_free evp (Some c) d) = (fst (accounts d) - 1, snd (accounts d))"
    and free_null: "EVP_MD_CTX_free evp None d = d"
    and key_accounts: "d2i_PublicKey evp i bs d = (k, d') \<Longrightarrow> view d' = view d \<and>
      accounts d' = (fst (accounts d), snd (accounts d) + (if k = None then 0 else 1))"
    and key_free_accounts: "view (EVP_PKEY_free evp key d) = view d \<and>
      accounts (EVP_PKEY_free evp key d) = (fst (accounts d), snd (accounts d) - 1)"
    and digest_balanced: "balanced view accounts (EVP_DigestInit_ex evp c m)"
      "balanced view accounts (EVP_DigestUpdate evp c bs)" "balanced view accounts (EVP_DigestFinal_ex evp c)"
    and verify_balanced: "balanced view accounts (EVP_DigestVerifyInit evp m key c)"
      "balanced view accounts (EVP_PKEY_CTX_set_rsa_padding evp i c)"
      "balanced view accounts (EVP_PKEY_CTX_set_rsa_mgf1_md evp m c)"
      "balanced view accounts (EVP_PKEY_CTX_set_rsa_pss_saltlen evp i c)"
      "balanced view accounts (EVP_DigestVerifyUpdate evp bs c)"
      "balanced view accounts (EVP_DigestVerifyFinal evp signature c)"
    and init_absorbed: "EVP_DigestInit_ex evp c (EVP_sha256 evp) d = ((True, c'), d') \<Longrightarrow> absorbed c' = []"
    and update_absorbed: "EVP_DigestUpdate evp c bs d = ((True, c'), d') \<Longrightarrow> absorbed c' = absorbed c @ bs"
    and final_sha256: "EVP_DigestFinal_ex evp c d = ((Some out, c'), d') \<Longrightarrow> out = sha256 (absorbed c)"
    and key_parsed: "d2i_PublicKey evp i bs d = (Some (key, n), d') \<Longrightarrow> key_bytes key = take n bs"
    and verify_init: "EVP_DigestVerifyInit evp m key c d = ((True, c'), d') \<Longrightarrow>
      vs_key (setup_of c') = Some key \<and> vs_data (setup_of c') = []"
    and padding_set: "EVP_PKEY_CTX_set_rsa_padding evp i c d = ((True, c'), d') \<Longrightarrow>
      setup_of c' = (setup_of c)\<lparr>vs_padding := i\<rparr>"
    and mgf1_set: "EVP_PKEY_CTX_set_rsa_mgf1_md evp m c d = ((True, c'), d') \<Longrightarrow>
      setup_of c' = (setup_of c)\<lparr>vs_mgf1 := Some m\<rparr>"
    and saltlen_set: "EVP_PKEY_CTX_set_rsa_pss_saltlen evp i c d = ((True, c'), d') \<Longrightarrow>
      setup_of c' = (setup_of c)\<lparr>vs_saltlen := i\<rparr>"
    and verify_update: "EVP_DigestVerifyUpdate evp bs c d = ((True, c'), d') \<Longrightarrow>
      setup_of c' = (setup_of c)\<lparr>vs_data := vs_data (setup_of c) @ bs\<rparr>"
    and verify_final: "EVP_DigestVerifyFinal evp signature c d = ((True, c'), d') \<Longrightarrow>
      setup_of c = \<lparr>vs_key = Some key, vs_padding = RSA_PKCS1_PSS_PADDING evp, vs_mgf1 = Some (EVP_sha256 evp),
        vs_saltlen = 32, vs_data = text\<rparr> \<Longrightarrow>
      EVP_PKEY_base_id evp key = EVP_PKEY_RSA evp \<Longrightarrow> EVP_PKEY_bits evp key = 3072 \<Longrightarrow>
      verifies (key_bytes key) (sha256 text) signature"
begin

text \<open>A chain of calls: each link is balanced, and what holds of the context is handed on.\<close>

lemma chain_balanced:
  assumes "\<And>c. balanced view accounts (f c)" and "\<And>c. balanced view accounts (g c)"
  shows "balanced view accounts (and_then f g c)"
  unfolding balanced_def
  by (rule keepsI) (auto simp: and_then_def split: prod.splits bool.splits
      dest!: balancedD [OF assms(1)] balancedD [OF assms(2)])

lemma chain_OK:
  assumes "and_then f g c d = ((True, c'), d')"
  obtains c1 d1 where "f c d = ((True, c1), d1)" and "g c1 d1 = ((True, c'), d')"
  using assms that by (auto simp: and_then_def split: prod.splits bool.splits)

lemma steps_balanced: "balanced view accounts (openssl_verify_steps evp key manifest signature c)"
  unfolding openssl_verify_steps_def by (intro chain_balanced verify_balanced)

lemma steps_sound:
  assumes "openssl_verify_steps evp key manifest signature c d = ((True, c'), d')"
    and "EVP_PKEY_base_id evp key = EVP_PKEY_RSA evp" and "EVP_PKEY_bits evp key = 3072"
  shows "verifies (key_bytes key) (sha256 (package_domain @ manifest)) signature"
proof -
  from assms(1) obtain c1 d1 c2 d2 c3 d3 c4 d4 c5 d5 c6 d6 where
      c1: "EVP_DigestVerifyInit evp (EVP_sha256 evp) key c d = ((True, c1), d1)"
    and c2: "EVP_PKEY_CTX_set_rsa_padding evp (RSA_PKCS1_PSS_PADDING evp) c1 d1 = ((True, c2), d2)"
    and c3: "EVP_PKEY_CTX_set_rsa_mgf1_md evp (EVP_sha256 evp) c2 d2 = ((True, c3), d3)"
    and c4: "EVP_PKEY_CTX_set_rsa_pss_saltlen evp 32 c3 d3 = ((True, c4), d4)"
    and c5: "EVP_DigestVerifyUpdate evp package_domain c4 d4 = ((True, c5), d5)"
    and c6: "EVP_DigestVerifyUpdate evp manifest c5 d5 = ((True, c6), d6)"
    and last: "EVP_DigestVerifyFinal evp signature c6 d6 = ((True, c'), d')"
    unfolding openssl_verify_steps_def by (elim chain_OK) blast
  have "setup_of c6 = \<lparr>vs_key = Some key, vs_padding = RSA_PKCS1_PSS_PADDING evp,
      vs_mgf1 = Some (EVP_sha256 evp), vs_saltlen = 32, vs_data = package_domain @ manifest\<rparr>"
    using verify_init [OF c1] padding_set [OF c2] mgf1_set [OF c3] saltlen_set [OF c4] verify_update [OF c5]
      verify_update [OF c6] by (cases "setup_of c1") simp
  from verify_final [OF last this assms(2,3)] show ?thesis .
qed

text \<open>The signature check keeps the view and both accounts on every path, and accepts only what verifies.\<close>

lemma openssl_signature_verify_balanced:
  "balanced view accounts (openssl_signature_verify evp public_key manifest signature)"
  unfolding balanced_def
  by (rule keepsI)
     (auto simp: openssl_signature_verify_def free_accounts key_free_accounts free_null
       split: prod.splits option.splits if_splits
       dest!: balancedD [OF steps_balanced] key_accounts new_accounts)

lemma openssl_signature_verify_sound:
  assumes "openssl_signature_verify evp public_key manifest signature d = (True, d')"
  shows "verifies public_key (sha256 (package_domain @ manifest)) signature"
proof -
  from assms obtain key d1 c d2 c' d3 where
      key: "d2i_PublicKey evp (EVP_PKEY_RSA evp) public_key d = (Some (key, length public_key), d1)"
    and rsa: "EVP_PKEY_base_id evp key = EVP_PKEY_RSA evp" "EVP_PKEY_bits evp key = 3072"
    and steps: "openssl_verify_steps evp key manifest signature c d2 = ((True, c'), d3)"
    by (auto simp: openssl_signature_verify_def split: prod.splits option.splits if_splits)
  from steps_sound [OF steps rsa] key_parsed [OF key] show ?thesis by simp
qed

text \<open>A digest holds one context from its start to its end.\<close>

lemma openssl_digest_start_accounts:
  "openssl_digest_start evp d = (r, d') \<Longrightarrow> view d' = view d \<and>
     accounts d' = (fst (accounts d) + (if r = None then 0 else 1), snd (accounts d))"
  by (auto simp: openssl_digest_start_def free_accounts split: prod.splits option.splits bool.splits
      dest!: new_accounts balancedD [OF digest_balanced(1)])

lemma openssl_digest_end_accounts:
  "openssl_digest_finish evp c d = (r, d') \<Longrightarrow> view d' = view d \<and>
     accounts d' = (fst (accounts d) - 1, snd (accounts d))"
  "accounts (openssl_digest_abort evp (Some c) d) = (fst (accounts d) - 1, snd (accounts d))"
  by (auto simp: openssl_digest_finish_def openssl_digest_abort_def free_accounts split: prod.splits option.splits
      dest!: balancedD [OF digest_balanced(3)])

end

subsection \<open>As an engine for the readers of digests\<close>

text \<open>The calls in the shape of the PSA calls, with a context that may be NULL.\<close>

definition evp_psa :: "('d, 'c, 'k, 'm) evp_api \<Rightarrow> ('d, 'c option) psa_api" where
  "evp_psa evp = \<lparr>
     psa_crypto_init = (\<lambda>d. (True, d)), psa_hash_operation_init = None,
     psa_hash_setup = (\<lambda>h d. case EVP_MD_CTX_new evp d of
        (None, d1) \<Rightarrow> ((False, None), d1)
      | (Some c, d1) \<Rightarrow> map_prod (map_prod id Some) id (EVP_DigestInit_ex evp c (EVP_sha256 evp) d1)),
     psa_hash_update = (\<lambda>h bs d. case h of
        None \<Rightarrow> ((False, None), d)
      | Some c \<Rightarrow> map_prod (map_prod id Some) id (EVP_DigestUpdate evp c bs d)),
     psa_hash_finish = (\<lambda>h d. case h of
        None \<Rightarrow> ((None, None), d)
      | Some c \<Rightarrow> map_prod (map_prod id Some) id (EVP_DigestFinal_ex evp c d)),
     psa_hash_abort = (\<lambda>h d. (None, EVP_MD_CTX_free evp h d))\<rparr>"

lemma evp_digest_update:
  "digest_update (evp_psa evp) (Some c) bs d = map_prod (map_prod id Some) id (openssl_digest_update evp c bs d)"
  by (simp add: digest_update_def openssl_digest_update_def evp_psa_def)

lemma evp_digest_finish: "digest_finish (evp_psa evp) (Some c) d = openssl_digest_finish evp c d"
  by (simp add: digest_finish_def digest_abort_def openssl_digest_finish_def evp_psa_def split: prod.splits)

lemma evp_digest_abort: "digest_abort (evp_psa evp) h d = openssl_digest_abort evp h d"
  by (simp add: digest_abort_def openssl_digest_abort_def evp_psa_def)

context evp_contract
begin

lemma evp_digest_start: "digest_start (evp_psa evp) d = map_prod (map_option Some) id (openssl_digest_start evp d)"
  by (simp add: digest_start_def digest_abort_def openssl_digest_start_def evp_psa_def free_null
      split: prod.splits option.splits bool.splits)

lemma free_view: "view (EVP_MD_CTX_free evp h d) = view d"
  using free_accounts free_null by (cases h) simp_all

end

sublocale evp_contract \<subseteq> host: digest_engine "evp_psa evp" "case_option [] absorbed" sha256 view
proof
  show "keeps view (psa_crypto_init (evp_psa evp))" by (simp add: evp_psa_def keeps_def)
  show "keeps view (psa_hash_setup (evp_psa evp) h)" for h
    by (rule keepsI) (auto simp: evp_psa_def map_prod_def split: prod.splits option.splits
        dest!: new_accounts balancedD [OF digest_balanced(1)])
  show "keeps view (psa_hash_update (evp_psa evp) h bs)" for h bs
    by (rule keepsI) (auto simp: evp_psa_def map_prod_def split: prod.splits option.splits
        dest!: balancedD [OF digest_balanced(2)])
  show "keeps view (psa_hash_finish (evp_psa evp) h)" for h
    by (rule keepsI) (auto simp: evp_psa_def map_prod_def split: prod.splits option.splits
        dest!: balancedD [OF digest_balanced(3)])
  show "keeps view (psa_hash_abort (evp_psa evp) h)" for h
    by (rule keepsI) (auto simp: evp_psa_def free_view)
  show "case_option [] absorbed h' = []" if "psa_hash_setup (evp_psa evp) h d = ((True, h'), d')" for h d h' d'
    using that by (auto simp: evp_psa_def map_prod_def split: prod.splits option.splits dest: init_absorbed)
  show "case_option [] absorbed h' = case_option [] absorbed h @ bs"
    if "psa_hash_update (evp_psa evp) h bs d = ((True, h'), d')" for h bs d h' d'
    using that by (auto simp: evp_psa_def map_prod_def split: prod.splits option.splits dest: update_absorbed)
  show "out = sha256 (case_option [] absorbed h)"
    if "psa_hash_finish (evp_psa evp) h d = ((Some out, h'), d')" for h d out h' d'
    using that by (auto simp: evp_psa_def map_prod_def split: prod.splits option.splits dest: final_sha256)
qed

subsection \<open>A process in which no call fails\<close>

locale evp_live = evp_contract evp absorbed setup_of key_bytes sha256 verifies view accounts
  for evp :: "('d, 'c, 'k, 'm) evp_api" and absorbed setup_of key_bytes sha256 verifies
    and view :: "'d \<Rightarrow> 'v" and accounts +
  fixes healthy :: "'d \<Rightarrow> bool" and importable :: "bytes \<Rightarrow> bool"
  assumes new_healthy: "healthy d \<Longrightarrow> \<exists>c d'. EVP_MD_CTX_new evp d = (Some c, d') \<and> healthy d'"
    and key_healthy: "healthy d \<Longrightarrow> importable bs \<Longrightarrow>
      \<exists>key d'. d2i_PublicKey evp (EVP_PKEY_RSA evp) bs d = (Some (key, length bs), d') \<and>
        EVP_PKEY_base_id evp key = EVP_PKEY_RSA evp \<and> EVP_PKEY_bits evp key = 3072 \<and> healthy d'"
    and importable_size: "importable bs \<Longrightarrow> length bs \<le> LONG_MAX"
    and verify_healthy:
      "healthy d \<Longrightarrow> \<exists>c' d'. EVP_DigestVerifyInit evp m key c d = ((True, c'), d') \<and> healthy d'"
      "healthy d \<Longrightarrow> \<exists>c' d'. EVP_PKEY_CTX_set_rsa_padding evp i c d = ((True, c'), d') \<and> healthy d'"
      "healthy d \<Longrightarrow> \<exists>c' d'. EVP_PKEY_CTX_set_rsa_mgf1_md evp m c d = ((True, c'), d') \<and> healthy d'"
      "healthy d \<Longrightarrow> \<exists>c' d'. EVP_PKEY_CTX_set_rsa_pss_saltlen evp i c d = ((True, c'), d') \<and> healthy d'"
      "healthy d \<Longrightarrow> \<exists>c' d'. EVP_DigestVerifyUpdate evp bs c d = ((True, c'), d') \<and> healthy d'"
    and final_healthy: "healthy d \<Longrightarrow>
      setup_of c = \<lparr>vs_key = Some key, vs_padding = RSA_PKCS1_PSS_PADDING evp, vs_mgf1 = Some (EVP_sha256 evp),
        vs_saltlen = 32, vs_data = text\<rparr> \<Longrightarrow> verifies (key_bytes key) (sha256 text) signature \<Longrightarrow>
      \<exists>c' d'. EVP_DigestVerifyFinal evp signature c d = ((True, c'), d')"
begin

lemma steps_live:
  assumes "healthy d" and "verifies (key_bytes key) (sha256 (package_domain @ manifest)) signature"
  shows "\<exists>c' d'. openssl_verify_steps evp key manifest signature c d = ((True, c'), d')"
proof -
  obtain c1 d1 where 1: "EVP_DigestVerifyInit evp (EVP_sha256 evp) key c d = ((True, c1), d1)" "healthy d1"
    using verify_healthy(1) [OF assms(1)] by blast
  obtain c2 d2 where 2: "EVP_PKEY_CTX_set_rsa_padding evp (RSA_PKCS1_PSS_PADDING evp) c1 d1 = ((True, c2), d2)"
      "healthy d2" using verify_healthy(2) [OF 1(2)] by blast
  obtain c3 d3 where 3: "EVP_PKEY_CTX_set_rsa_mgf1_md evp (EVP_sha256 evp) c2 d2 = ((True, c3), d3)" "healthy d3"
    using verify_healthy(3) [OF 2(2)] by blast
  obtain c4 d4 where 4: "EVP_PKEY_CTX_set_rsa_pss_saltlen evp 32 c3 d3 = ((True, c4), d4)" "healthy d4"
    using verify_healthy(4) [OF 3(2)] by blast
  obtain c5 d5 where 5: "EVP_DigestVerifyUpdate evp package_domain c4 d4 = ((True, c5), d5)" "healthy d5"
    using verify_healthy(5) [OF 4(2)] by blast
  obtain c6 d6 where 6: "EVP_DigestVerifyUpdate evp manifest c5 d5 = ((True, c6), d6)" "healthy d6"
    using verify_healthy(5) [OF 5(2)] by blast
  have "setup_of c6 = \<lparr>vs_key = Some key, vs_padding = RSA_PKCS1_PSS_PADDING evp,
      vs_mgf1 = Some (EVP_sha256 evp), vs_saltlen = 32, vs_data = package_domain @ manifest\<rparr>"
    using verify_init [OF 1(1)] padding_set [OF 2(1)] mgf1_set [OF 3(1)] saltlen_set [OF 4(1)]
      verify_update [OF 5(1)] verify_update [OF 6(1)] by (cases "setup_of c1") simp
  from final_healthy [OF 6(2) this assms(2)] 1(1) 2(1) 3(1) 4(1) 5(1) 6(1) show ?thesis
    by (auto simp: openssl_verify_steps_def and_then_def)
qed

lemma openssl_signature_verify_exact:
  assumes "healthy d" and "importable key"
  shows "fst (openssl_signature_verify evp key manifest signature d) \<longleftrightarrow>
    verifies key (sha256 (package_domain @ manifest)) signature"
proof
  assume "fst (openssl_signature_verify evp key manifest signature d)"
  then show "verifies key (sha256 (package_domain @ manifest)) signature"
    using openssl_signature_verify_sound [of key manifest signature d] by (metis prod.collapse)
next
  assume ok: "verifies key (sha256 (package_domain @ manifest)) signature"
  obtain k d1 where k: "d2i_PublicKey evp (EVP_PKEY_RSA evp) key d = (Some (k, length key), d1)"
      "EVP_PKEY_base_id evp k = EVP_PKEY_RSA evp" "EVP_PKEY_bits evp k = 3072" "healthy d1"
    using key_healthy [OF assms] by blast
  obtain c d2 where c: "EVP_MD_CTX_new evp d1 = (Some c, d2)" "healthy d2" using new_healthy [OF k(4)] by blast
  have "key_bytes k = key" using key_parsed [OF k(1)] by simp
  with steps_live [OF c(2), of k manifest signature c] ok
  obtain c' d3 where "openssl_verify_steps evp k manifest signature c d2 = ((True, c'), d3)" by auto
  with k c importable_size [OF assms(2)] show "fst (openssl_signature_verify evp key manifest signature d)"
    by (simp add: openssl_signature_verify_def)
qed

end

text \<open>So does the PSA branch decide on a device that does not fail.\<close>

context live_signature
begin

lemma signature_verify_exact:
  assumes "healthy d" and "importable key"
  shows "fst (signature_verify psa keys key manifest signature d) \<longleftrightarrow>
    verifies key (sha256 (package_domain @ manifest)) signature"
  using signature_verify_live [OF assms] signature_verify_sound by (metis prod.collapse fst_conv)

end

subsection \<open>A reference library\<close>

text \<open>It parses one key and keeps the two accounts beside the state of the rest of the process; the
  contexts record what they were told.\<close>

definition reference_evp :: "(bytes \<Rightarrow> bytes) \<Rightarrow> (bytes \<Rightarrow> bytes \<Rightarrow> bytes \<Rightarrow> bool) \<Rightarrow> bytes \<Rightarrow>
    ('d \<times> int \<times> int, bytes \<times> (bytes, unit) verify_setup, bytes, unit) evp_api" where
  "reference_evp sha verifies trusted = \<lparr>
     EVP_MD_CTX_new = (\<lambda>(d, cs, ks). (Some ([], \<lparr>vs_key = None, vs_padding = 0, vs_mgf1 = None, vs_saltlen = 0,
       vs_data = []\<rparr>), (d, cs + 1, ks))),
     EVP_MD_CTX_free = (\<lambda>c (d, cs, ks). case c of None \<Rightarrow> (d, cs, ks) | Some _ \<Rightarrow> (d, cs - 1, ks)),
     EVP_sha256 = (), EVP_DigestInit_ex = (\<lambda>c m d. ((True, ([], snd c)), d)),
     EVP_DigestUpdate = (\<lambda>c bs d. ((True, (fst c @ bs, snd c)), d)),
     EVP_DigestFinal_ex = (\<lambda>c d. ((Some (sha (fst c)), c), d)), EVP_PKEY_RSA = 6, RSA_PKCS1_PSS_PADDING = 6,
     d2i_PublicKey = (\<lambda>i bs (d, cs, ks). if bs = trusted then (Some (bs, length bs), (d, cs, ks + 1)) else (None, (d, cs, ks))),
     EVP_PKEY_free = (\<lambda>key (d, cs, ks). (d, cs, ks - 1)), EVP_PKEY_base_id = (\<lambda>_. 6), EVP_PKEY_bits = (\<lambda>_. 3072),
     EVP_DigestVerifyInit = (\<lambda>m key c d. ((True, (fst c, (snd c)\<lparr>vs_key := Some key, vs_data := []\<rparr>)), d)),
     EVP_PKEY_CTX_set_rsa_padding = (\<lambda>i c d. ((True, (fst c, (snd c)\<lparr>vs_padding := i\<rparr>)), d)),
     EVP_PKEY_CTX_set_rsa_mgf1_md = (\<lambda>m c d. ((True, (fst c, (snd c)\<lparr>vs_mgf1 := Some m\<rparr>)), d)),
     EVP_PKEY_CTX_set_rsa_pss_saltlen = (\<lambda>i c d. ((True, (fst c, (snd c)\<lparr>vs_saltlen := i\<rparr>)), d)),
     EVP_DigestVerifyUpdate = (\<lambda>bs c d. ((True, (fst c, (snd c)\<lparr>vs_data := vs_data (snd c) @ bs\<rparr>)), d)),
     EVP_DigestVerifyFinal = (\<lambda>signature c d. ((case vs_key (snd c) of None \<Rightarrow> False
       | Some key \<Rightarrow> vs_padding (snd c) = 6 \<and> vs_mgf1 (snd c) = Some () \<and> vs_saltlen (snd c) = 32 \<and>
           verifies key (sha (vs_data (snd c))) signature, c), d))\<rparr>"

text \<open>The process may hold any number of contexts and keys; both accounts are what it counts.\<close>

interpretation reference_evp: evp_live "reference_evp sha verifies trusted" fst snd "\<lambda>key. key" sha verifies
    fst snd "\<lambda>_. True" "\<lambda>key. key = trusted \<and> length key \<le> LONG_MAX"
  for sha verifies trusted
  by unfold_locales
     (auto simp: reference_evp_def balanced_def keeps_def split: prod.splits if_splits option.splits)

end
