(* ===== verification/Package_Properties.thy ===== *)
theory Package_Properties
  imports Package_Demo Package_Work Package_Parse Package_Openssl
begin

text \<open>
  The properties of stored packages: what a prepared slot holds, which packages are accepted,
  the packages the validator accepts and their installation, the agreement of the payload check with the runtime's scan, the
  canonical manifest, and the reads.  Each is followed by its use at the demonstration package.
\<close>

text \<open>C21: With the package validator, a slot is prepared only for an admitted package: the content of
  the slot is the canonical archive of a manifest signed by the key of the platform and of the
  payload the manifest names, for this reservation, product and these limits, and the runtime's
  scan accepts the payload with the capabilities and the memory that were signed.\<close>

theorem prepared_slots_hold_admitted_packages:
  assumes "slot_trust io flash nvs held psa keys absorbed sha256 verifies key_of"
    and "slots_write_and_prepare (Some (io_ptrs io)) psa (Some g) n source_fn
      (Some (package_slot_validate psa keys context)) state d = ((SLOTS_OK, st), d')"
  shows "\<exists>s t validation. stored nvs g d s \<and> ss_sequence s = n \<and> ss_phase s = SLOT_WRITING \<and>
    t = numbered s (s\<lparr>ss_phase := SLOT_PREPARED\<rparr>) \<and> st = Some t \<and> nvs d' = Some (encode_state t) \<and>
    context = Some validation \<and> admitted_package sha256 verifies validation (ss_operation t)
      (slot_content (flash d') g (so_slot (ss_operation t)) (so_package_size_bytes (ss_operation t)))"
  using slot_trust.prepare_admits [OF assms] .

theorem prepared_slots_hold_admitted_packages_witness:
  "\<exists>w operation. admitted_package demo_digest demo_verifies demo_validation operation
     (slot_content (demo_flash w) demo_geometry (so_slot operation) (so_package_size_bytes operation))"
proof -
  obtain t w where call: "slots_write_and_prepare (Some (io_ptrs demo_io)) demo_psa (Some demo_geometry) 5
      (Some archive_source) (Some demo_validator) (Some zero_state) (demo_world (Some package_state))
      = ((SLOTS_OK, Some t), w)"
    by (rule package_prepared)
  from prepared_slots_hold_admitted_packages [OF demo_live.slot_trust_axioms call] show ?thesis by blast
qed

text \<open>C22: On a device that does not fail, a package is verified if and only if it is the canonical archive of
  a manifest that parses, a signature of it under the given key, and the payload with the size
  and the digest the manifest names; what the call stores is then determined by those three.\<close>

theorem package_verify_is_exact:
  assumes "package_live read_fn view snapshot psa keys absorbed sha256 verifies key_of healthy importable"
    and "healthy d" and "package_size \<le> length (snapshot (view d))" and "importable public_key"
    and "package_verify psa keys (Some read_fn) package_size max_wasm (Some public_key) (Some key_id)
      (Some buffers) (Some info0) d = ((result, info, workspace), d')"
  shows "(result = PACKAGE_OK \<longleftrightarrow> verify_arguments_ok package_size max_wasm public_key \<and>
      (\<exists>text signature wasm mf. trusted_package sha256 verifies public_key key_id max_wasm
        (piece (snapshot (view d)) 0 package_size) text signature wasm mf)) \<and>
    (\<forall>text signature wasm mf. verify_arguments_ok package_size max_wasm public_key \<and>
      trusted_package sha256 verifies public_key key_id max_wasm
        (piece (snapshot (view d)) 0 package_size) text signature wasm mf \<longrightarrow>
      info = Some (package_info_of package_size text mf (wasm_position text signature, length wasm, sha256 wasm)
        (sha256 (piece (snapshot (view d)) 0 package_size))) \<and>
      workspace = Some \<lparr>pw_manifest = text @ drop (length text) (pw_manifest buffers), pw_signature = signature\<rparr>)"
proof (intro conjI allI impI package_live.package_verify_exact [OF assms])
  fix "text" signature wasm mf
  assume "verify_arguments_ok package_size max_wasm public_key \<and>
    trusted_package sha256 verifies public_key key_id max_wasm
      (piece (snapshot (view d)) 0 package_size) text signature wasm mf"
  with package_live.package_verify_live [OF assms(1-4), of max_wasm key_id "text" signature wasm mf buffers info0] assms(5)
  show "info = Some (package_info_of package_size text mf (wasm_position text signature, length wasm, sha256 wasm)
        (sha256 (piece (snapshot (view d)) 0 package_size)))"
    and "workspace = Some \<lparr>pw_manifest = text @ drop (length text) (pw_manifest buffers), pw_signature = signature\<rparr>"
    by auto
qed

lemma demo_archive_at:
  "piece (candidate_bytes demo_reader (demo_view (demo_filled record))) 0 10240 = demo_archive"
  by (simp add: demo_filled_candidate piece_from_0 length_demo_archive)

theorem package_verify_is_exact_witness:
  "\<exists>workspace w. package_verify demo_psa demo_keys
     (Some (read_slot (flash_relative_read demo_io demo_reader) (unat (rd_size_bytes demo_reader)))) 10240 4096
     (Some demo_public_key) (Some ''key-1'') (Some wiped_workspace) (Some zero_info) (demo_filled None) =
   ((PACKAGE_OK, Some demo_info, workspace), w)"
proof -
  let ?read = "read_slot (flash_relative_read demo_io demo_reader) (unat (rd_size_bytes demo_reader))"
  obtain result info workspace w where call: "package_verify demo_psa demo_keys (Some ?read) 10240 4096
      (Some demo_public_key) (Some ''key-1'') (Some wiped_workspace) (Some zero_info) (demo_filled None) =
      ((result, info, workspace), w)"
    by (cases "package_verify demo_psa demo_keys (Some ?read) 10240 4096 (Some demo_public_key) (Some ''key-1'')
      (Some wiped_workspace) (Some zero_info) (demo_filled None)") auto
  have size: "10240 \<le> length (candidate_bytes demo_reader (demo_view (demo_filled None)))"
    by (simp add: demo_filled_candidate length_demo_archive)
  have "verify_arguments_ok 10240 4096 demo_public_key"
    by (simp add: verify_arguments_ok_def demo_public_key_def PACKAGE_WASM_MAX_BYTES_def TAR_BLOCK_BYTES_def
        PACKAGE_MANIFEST_MAX_BYTES_def)
  with package_verify_is_exact [OF demo_candidate.package_live_axioms demo_filled_healthy size refl call]
    demo_trusted show ?thesis
    unfolding demo_archive_at using call by (auto simp: demo_info_def)
qed



lemma demo_payload_at:
  "piece (candidate_bytes demo_reader (demo_view (demo_filled record))) (pi_wasm_offset_bytes demo_info)
     (pi_wasm_size_bytes demo_info) = demo_payload"
proof -
  have "pi_wasm_offset_bytes demo_info = wasm_position demo_manifest demo_signature"
    "pi_wasm_size_bytes demo_info = length demo_payload"
    by (simp_all add: demo_info_def package_info_of_def)
  then show ?thesis by (simp only: demo_filled_candidate demo_archive_def archive_payload)
qed

lemma demo_payload_room:
  "pi_wasm_offset_bytes demo_info + pi_wasm_size_bytes demo_info \<le>
     length (candidate_bytes demo_reader (demo_view (demo_filled record)))"
  by (simp add: demo_filled_candidate length_demo_archive demo_info_fields)

text \<open>C24: On a device that does not fail, an acceptable package for an admissible request is installed:
  reserve, write with the package validator, trial, health and confirmation return OK one after
  the other, and the binding of the running firmware then holds the package, intact.\<close>

theorem signed_packages_are_installed:
  assumes "slot_live io flash nvs held psa keys absorbed sha256 verifies key_of g healthy importable"
    and "ready sha256 flash nvs held g healthy d s" and "unat (ss_sequence s) + 5 < 4294967295"
    and "\<not> phase_pending (ss_phase s)"
    and "firmware_set_valid (Some f)" and "firmware_set_matches s f"
    and "schema_compatible s (running_firmware_sha256 f) p" and "operation_requestable f p"
    and "ss_phase s = SLOT_IDLE \<or> so_operation_id (ss_operation s) \<noteq> so_operation_id p"
    and "select_slot s g (so_package_size_bytes p) = Some i"
    and "length pkg = unat (so_package_size_bytes p)"
    and "serves (device_view flash nvs held) healthy source_fn pkg"
    and "acceptable_package sha256 verifies validation p pkg" and "validation_configured importable validation"
    and "length boot_id = 16" and "\<not> all_zero boot_id"
  shows "\<exists>t d'. run_update io psa g f p source_fn (package_slot_validate psa keys (Some validation)) boot_id s d =
      (replicate 5 SLOTS_OK, Some t, d') \<and> stored nvs g d' t \<and>
    (\<exists>b \<in> set (ss_bindings t). sb_firmware_sha256 b = running_firmware_sha256 f \<and>
      sb_package_present b \<and> sb_package_sha256 b = so_package_sha256 p \<and> binding_intact sha256 (flash d') g b)"
  using slot_live.signed_update_completes [OF assms] .

theorem signed_packages_are_installed_witness:
  "\<exists>t w. run_update demo_io demo_psa demo_geometry demo_firmware_set package_request archive_source demo_validator
      demo_boot demo_idle (demo_world (Some demo_idle)) = (replicate 5 SLOTS_OK, Some t, w) \<and>
    (\<exists>b \<in> set (ss_bindings t). sb_package_sha256 b = package_sha)"
proof -
  have ready: "ready demo_digest demo_flash demo_nvs_blob demo_held demo_geometry demo_healthy
      (demo_world (Some demo_idle)) demo_idle"
    by (rule demo_ready) simp
  have room: "unat (ss_sequence demo_idle) + 5 < 4294967295" by (simp add: demo_idle_facts)
  have size: "length demo_archive = unat (so_package_size_bytes package_request)"
    by (simp add: length_demo_archive demo_request_slot)
  have sha: "so_package_sha256 package_request = package_sha" by (simp add: package_request_def)
  have boot: "length demo_boot = 16" "\<not> all_zero demo_boot" by code_simp+
  from signed_packages_are_installed [OF demo_live.slot_live_axioms ready room demo_idle_facts(1)
      demo_request_facts(1,2) package_request_facts(1,2) disjI1 [OF demo_idle_facts(2)] package_request_facts(3)
      size archive_serves demo_acceptable demo_configured boot] sha
  show ?thesis by metis
qed

text \<open>C25: A payload that the package check accepts has the signed digest, and the scan that the runtime
  repeats at open accepts the same bytes, with no more capabilities than were signed and allowed
  and with a memory inside the signed bound.\<close>

theorem checked_payloads_pass_the_runtime_scan:
  assumes "package_env read_fn view snapshot psa absorbed sha256"
    and "package_wasm_check psa (Some read_fn) (Some info) (Some authorization) workspace d = (PACKAGE_WASM_OK, d')"
    and "payload = piece (snapshot (view d)) (pi_wasm_offset_bytes info) (pi_wasm_size_bytes info)"
  shows "sha256 payload = pi_wasm_sha256 info \<and> length payload = pi_wasm_size_bytes info \<and>
    (\<exists>caps. wasm_imported_capabilities (Some payload) True = GO caps \<and>
       caps AND NOT (pi_requested_capabilities info) = 0 \<and>
       pi_requested_capabilities info AND NOT (allowed_capabilities authorization) = 0) \<and>
    wasm_memory_within_limit (Some payload) (pi_memory_limit_bytes info div WASM_PAGE_BYTES) = GO () \<and>
    pi_memory_limit_bytes info \<le> max_memory_bytes authorization"
proof -
  note sound = package_env.package_wasm_check_sound [OF assms(1,2), folded assms(3)]
  then have "payload_scanned payload info" "wasm_arguments_ok info authorization" "wasm_authorized info authorization"
    by blast+
  then show ?thesis
    using sound assms(3) pages_positive [of "pi_memory_limit_bytes info"]
    by (auto simp: payload_scanned_def wasm_arguments_ok_def wasm_authorized_def wasm_imported_capabilities_def
        need_def stop_as_def not_less)
qed

theorem checked_payloads_pass_the_runtime_scan_witness:
  "wasm_memory_within_limit (Some demo_payload) (131072 div WASM_PAGE_BYTES) = GO () \<and>
     (\<exists>caps. wasm_imported_capabilities (Some demo_payload) True = GO caps \<and> caps AND NOT CAP_LOG = 0)"
proof -
  obtain w where call: "package_wasm_check demo_psa
     (Some (read_slot (flash_relative_read demo_io demo_reader) (unat (rd_size_bytes demo_reader))))
     (Some demo_info) (Some (sv_wasm_authorization demo_validation)) (Some []) (demo_filled None) = (PACKAGE_WASM_OK, w)"
    using package_live.package_wasm_check_in_memory [OF demo_candidate.package_live_axioms demo_filled_healthy
        demo_payload_room, of "sv_wasm_authorization demo_validation" "[]"] demo_payload_check
    unfolding demo_payload_at by auto
  have "package_env (read_slot (flash_relative_read demo_io demo_reader) (unat (rd_size_bytes demo_reader))) demo_view
      (candidate_bytes demo_reader) demo_psa (\<lambda>h. h) demo_digest"
    using package_env.intro [OF package_live.axioms(1) [OF demo_candidate.package_live_axioms]
      signature_engine.axioms(1) [OF slot_trust.axioms(2) [OF demo_live.slot_trust_axioms]]] .
  from checked_payloads_pass_the_runtime_scan [OF this call demo_payload_at [symmetric]]
  show ?thesis by (auto simp: demo_info_fields)
qed

text \<open>C26: The reader of manifests is exact: a text parses if and only if it is the canonical text of
  admissible fields, or that text with one comma before the end of the capabilities; the result
  has the fields, the bits of the capabilities, and offsets at which the canonical text has the
  product identifier and version.\<close>

theorem manifest_reading_is_exact:
  "(parse_manifest data key_id max_wasm_bytes = Some mf \<longleftrightarrow>
      (\<exists>m trailing. data = manifest_text_with trailing m \<and> manifest_ok m key_id max_wasm_bytes \<and>
        capabilities_ok 16 trailing (mt_capabilities m) \<and> mf = manifest_of m)) \<and>
    (manifest_ok m key_id max_wasm_bytes \<longrightarrow>
      parse_manifest (manifest_text m) key_id max_wasm_bytes = Some (manifest_of m) \<and>
      piece (manifest_text m) (mf_product_id_offset_bytes (manifest_of m)) (mf_product_id_size_bytes (manifest_of m)) =
        mt_product_id m \<and>
      piece (manifest_text m) (mf_product_version_offset_bytes (manifest_of m))
        (mf_product_version_size_bytes (manifest_of m)) = mt_product_version m)"
  using parse_manifest_iff parse_manifest_text manifest_of_offsets by blast

theorem manifest_reading_is_exact_witness:
  "parse_manifest (manifest_text demo_fields) ''key-1'' 4096 = Some (manifest_of demo_fields) \<and>
    piece (manifest_text demo_fields) (mf_product_id_offset_bytes (manifest_of demo_fields))
      (mf_product_id_size_bytes (manifest_of demo_fields)) = mt_product_id demo_fields"
  using manifest_reading_is_exact [of _ _ _ _ demo_fields] demo_manifest_ok by blast

text \<open>C27: Nothing is read outside the package, and no read is longer than a block: a view of the device that
  no read of at most 512 bytes inside the package changes is the same after the verification,
  and one that no such read inside the payload changes is the same after the check, on every
  path.\<close>

theorem package_reads_stay_inside:
  assumes "psa_frame psa view" and "\<forall>key text signature. keeps view (signature_verify psa keys key text signature)"
    and "window_keeps view read_fn 0 package_size"
    and "window_keeps view wasm_read_fn (pi_wasm_offset_bytes verified) (pi_wasm_size_bytes verified)"
  shows "keeps view (package_verify psa keys (Some read_fn) package_size max_wasm public_key key_id workspace info) \<and>
    keeps view (package_wasm_check psa (Some wasm_read_fn) (Some verified) authorization block)"
proof (intro conjI)
  show "keeps view (package_verify psa keys (Some read_fn) package_size max_wasm public_key key_id workspace info)"
    by (rule psa_frame.package_verify_keeps [OF assms(1)]) (use assms(2,3) in auto)
  show "keeps view (package_wasm_check psa (Some wasm_read_fn) (Some verified) authorization block)"
    by (rule psa_frame.package_wasm_check_keeps [OF assms(1)]) (use assms(4) in auto)
qed

text \<open>The reference digests and keys do not touch the device.\<close>

lemma reference_quiet: "keeps view (signature_verify (reference_psa demo_digest) demo_keys key body signature)"
  by (simp add: keeps_def signature_verify_def manifest_hash_def digest_start_def digest_update_def digest_finish_def
      digest_abort_def reference_psa_def reference_keys_def length_demo_digest)

text \<open>A device that counts the reads outside the first 10240 bytes.\<close>

definition counting_read :: "nat package_read_fn" where
  "counting_read offset n d = (None, if window_read 0 10240 offset n then d else Suc d)"

theorem package_reads_stay_inside_witness:
  "snd (package_verify (reference_psa demo_digest) (demo_keys :: nat psa_keys) (Some counting_read) 10240 4096
     (Some demo_public_key) (Some ''key-1'') (Some wiped_workspace) (Some zero_info) 0) = 0"
proof -
  have frame: "psa_frame (reference_psa demo_digest) (\<lambda>d :: nat. d)"
    by (rule reference.psa_frame_axioms)
  have counts: "window_keeps (\<lambda>d. d) counting_read 0 10240"
    by (auto simp: window_keeps_def counting_read_def keeps_def)
  then have payload: "window_keeps (\<lambda>d. d) counting_read (pi_wasm_offset_bytes demo_info) (pi_wasm_size_bytes demo_info)"
    by (auto simp: window_keeps_def window_read_def demo_info_fields)
  have quiet: "\<forall>key body signature.
      keeps (\<lambda>d :: nat. d) (signature_verify (reference_psa demo_digest) demo_keys key body signature)"
    by (simp add: reference_quiet)
  from package_reads_stay_inside [OF frame quiet counts payload] show ?thesis
    by (simp add: keeps_def)
qed

text \<open>C28: A verification ends after a bounded number of reads, whatever the device answers and whatever
  the package holds: at most one for each of its blocks and eight more, and never more than 1056.\<close>

theorem package_verify_work_is_bounded:
  assumes "counted_reads psa reads keys read_fn"
  shows "reads (snd (package_verify psa keys (Some read_fn) package_size max_wasm public_key key_id workspace info d)) \<le>
    reads d + min (package_size div 512 + 8) 1056"
  using counted_reads.package_verify_reads_at_most [OF assms] .

text \<open>The reads of the slot store with a counter beside the device.\<close>

definition counted_read :: "'d package_read_fn \<Rightarrow> ('d \<times> nat) package_read_fn" where
  "counted_read read_fn offset n = (\<lambda>(d, k). case read_fn offset n d of (r, d') \<Rightarrow> (r, (d', Suc k)))"

interpretation demo_counted: counted_reads "reference_psa demo_digest"
  "snd :: sim_world \<times> nat \<Rightarrow> nat" demo_keys
  "counted_read (read_slot (flash_relative_read demo_io demo_reader) (unat (rd_size_bytes demo_reader)))"
proof -
  have "psa_frame (reference_psa demo_digest) (snd :: sim_world \<times> nat \<Rightarrow> nat)"
    by (rule reference.psa_frame_axioms)
  moreover have "counted_reads_axioms (reference_psa demo_digest) snd demo_keys
      (counted_read (read_slot (flash_relative_read demo_io demo_reader) (unat (rd_size_bytes demo_reader))))"
    by unfold_locales (auto simp: counted_read_def reference_quiet split: prod.splits)
  ultimately show "counted_reads (reference_psa demo_digest) (snd :: sim_world \<times> nat \<Rightarrow> nat) demo_keys
      (counted_read (read_slot (flash_relative_read demo_io demo_reader) (unat (rd_size_bytes demo_reader))))"
    by (rule counted_reads.intro)
qed

theorem package_verify_work_is_bounded_witness:
  "snd (snd (package_verify (reference_psa demo_digest) demo_keys
     (Some (counted_read (read_slot (flash_relative_read demo_io demo_reader) (unat (rd_size_bytes demo_reader)))))
     10240 4096 (Some demo_public_key) (Some ''key-1'') (Some wiped_workspace) (Some zero_info)
     (demo_filled None, 0))) \<le> 28"
  using package_verify_work_is_bounded [OF demo_counted.counted_reads_axioms, of 10240 4096 "Some demo_public_key"
      "Some ''key-1''" "Some wiped_workspace" "Some zero_info" "(demo_filled None, 0)"] by simp

text \<open>C29: The two branches of the crypto file agree: where no call of their libraries fails and the key can
  be imported, each accepts a signature exactly when it verifies the digest of the domain and
  the manifest; and the OpenSSL branch, on every path, gives back the contexts and keys it took.\<close>

theorem crypto_branches_agree:
  assumes "live_signature psa keys absorbed sha256 verifies key_of view healthy importable"
    and "evp_live evp hashed setup_of key_bytes sha256 verifies host_view accounts alive importable"
    and "healthy d" and "alive e" and "importable key"
  shows "(fst (signature_verify psa keys key manifest signature d) \<longleftrightarrow>
      verifies key (sha256 (package_domain @ manifest)) signature) \<and>
    (fst (openssl_signature_verify evp key manifest signature e) \<longleftrightarrow>
      fst (signature_verify psa keys key manifest signature d)) \<and>
    accounts (snd (openssl_signature_verify evp any_key any_manifest any_signature any)) = accounts any"
proof (intro conjI)
  note contract = evp_live.axioms(1) [OF assms(2)]
  show psa: "fst (signature_verify psa keys key manifest signature d) \<longleftrightarrow>
      verifies key (sha256 (package_domain @ manifest)) signature"
    by (rule live_signature.signature_verify_exact [OF assms(1,3,5)])
  show "fst (openssl_signature_verify evp key manifest signature e) \<longleftrightarrow>
      fst (signature_verify psa keys key manifest signature d)"
    unfolding psa by (rule evp_live.openssl_signature_verify_exact [OF assms(2,4,5)])
  show "accounts (snd (openssl_signature_verify evp any_key any_manifest any_signature any)) = accounts any"
    using balancedD [OF evp_contract.openssl_signature_verify_balanced [OF contract]] by (metis prod.collapse)
qed

theorem crypto_branches_agree_witness:
  "fst (openssl_signature_verify (reference_evp demo_digest demo_verifies demo_public_key) demo_public_key
     demo_manifest demo_signature ((), 0, 0)) \<and>
   snd (snd (openssl_signature_verify (reference_evp demo_digest demo_verifies demo_public_key) [1]
     demo_manifest demo_signature ((), 0, 0))) = (0, 0)"
proof -
  have key: "length demo_public_key \<le> LONG_MAX" by (simp add: demo_public_key_def LONG_MAX_def)
  have same: "(\<lambda>key. key = demo_public_key) = (\<lambda>key. key = demo_public_key \<and> length key \<le> LONG_MAX)"
    using key by auto
  note live = demo_live.live_signature_axioms [unfolded same]
  from crypto_branches_agree [OF live reference_evp.evp_live_axioms demo_filled_healthy [of None] TrueI
      conjI [OF refl key], where e = "((), 0, 0)" and manifest = demo_manifest and signature = demo_signature and
      any_key = "[1]" and any_manifest = demo_manifest and any_signature = demo_signature and any = "((), 0, 0)"]
    demo_trusted
  show ?thesis by (auto simp: trusted_package_def)
qed

end
