(* ===== verification/Package_Findings.thy ===== *)
theory Package_Findings
  imports Package_Demo
begin

text \<open>
  Three places where the package code and what its documents say of it differ, each at a concrete
  input.
\<close>

text \<open>
  A failed read inside \<open>type_matches\<close> ends \<open>scan_imports\<close> as unsupported, and the check then
  answers UNSUPPORTED although the reader has noted the failure.  The payload is the one of the
  demonstration with 517 bytes of a custom section before its imports, so that the import
  section and the type section are in different blocks; its reader fails once, at the third read.
\<close>

definition flaky_payload :: bytes where
  "flaky_payload = take 21 demo_payload @ [0, 0x82, 0x04, 1, 0x78] @ zeros 512 @ drop 21 demo_payload"

definition flaky_read :: "nat \<Rightarrow> nat package_read_fn" where
  "flaky_read failing offset n count =
    (if count = failing then None else Some (piece flaky_payload offset n), Suc count)"

definition flaky_info :: package_info where
  "flaky_info = demo_info\<lparr>pi_wasm_offset_bytes := 0, pi_wasm_size_bytes := 658\<rparr>"

lemma flaky_scan:
  "case scan_payload \<lparr>ws_read_fn = flaky_read 2, ws_base = 0, ws_size = 658\<rparr> scanned_info
     \<lparr>wr_block = [], wr_cached_begin = 0, wr_cached_size = 0, wr_read_failed = False, wr_device = 0\<rparr> of
   (result, reader) \<Rightarrow> result = Inr PACKAGE_WASM_UNSUPPORTED \<and> wr_read_failed reader \<and> wr_device reader = 4"
  by code_simp

lemma failed_read_is_reported_as_unsupported:
  "package_wasm_check (reference_psa demo_digest) (Some (flaky_read 2)) (Some flaky_info)
     (Some (sv_wasm_authorization demo_validation)) (Some []) 0 = (PACKAGE_WASM_UNSUPPORTED, 4)"
proof -
  have info: "scan_payload src flaky_info = scan_payload src scanned_info" for src :: "nat wasm_source"
    by (rule scan_payload_info) (simp_all add: flaky_info_def demo_info_fields scanned_info_def)
  have caps: "CAP_LOG AND NOT CAP_ALL = 0" "CAP_ALL AND NOT CAP_ALL = 0" by code_simp+
  then have "wasm_arguments_ok flaky_info (sv_wasm_authorization demo_validation)"
      "wasm_authorized flaky_info (sv_wasm_authorization demo_validation)"
    by (simp_all add: wasm_arguments_ok_def wasm_authorized_def flaky_info_def demo_info_fields demo_validation_def
        PACKAGE_WASM_MAX_BYTES_def WASM_PAGE_BYTES_def word_less_nat_alt word_le_nat_alt)
  moreover have "pi_wasm_offset_bytes flaky_info = 0" "pi_wasm_size_bytes flaky_info = 658"
      "pi_guest_abi_version flaky_info = 1" "pi_is_classic_profile flaky_info" "\<not> pi_has_unknown_capability flaky_info"
    by (simp_all add: flaky_info_def demo_info_fields)
  ultimately show ?thesis
    using flaky_scan by (auto simp: package_wasm_check_def info Let_def split: prod.splits)
qed

text \<open>A comma before the end of the list of capabilities is accepted, so two texts are read as one manifest.\<close>

lemma trailing_comma_is_accepted:
  "manifest_text_with True demo_fields \<noteq> manifest_text demo_fields \<and>
    parse_manifest (manifest_text_with True demo_fields) ''key-1'' 4096 =
      parse_manifest (manifest_text demo_fields) ''key-1'' 4096 \<and>
    parse_manifest (manifest_text demo_fields) ''key-1'' 4096 = Some (manifest_of demo_fields)"
proof -
  have "capabilities_ok 16 trailing (mt_capabilities demo_fields)" for trailing
    by (simp add: capabilities_ok_def demo_fields_def is_alphanumeric_def is_digit_def str_bytes_def)
  note parses = parse_manifest_text_with [OF demo_manifest_ok this]
  have "manifest_text_with True demo_fields \<noteq> manifest_text_with False demo_fields"
    by (simp add: manifest_text_with_def capabilities_text_def str_bytes_def)
  then show ?thesis using parses [of True] parses [of False] by (simp add: manifest_text_def)
qed

text \<open>
  A canonical archive ends at a multiple of 10240 bytes, but the bound on the size allows for
  less: with a manifest of 541 bytes and a payload of the allowed 7000 bytes the archive has
  20480 bytes and is refused.
\<close>

lemma size_bound_refuses_canonical_packages:
  assumes "length text = 541" and "length signature = PACKAGE_SIGNATURE_BYTES" and "length wasm = 7000"
  shows "length (tar_archive text signature wasm) = 20480 \<and> \<not> verify_arguments_ok 20480 7000 public_key"
proof -
  have members: "length (tar_members text signature wasm) = 10240"
    using assms by (simp add: tar_members_def length_tar_member tar_padding_def TAR_BLOCK_BYTES_def
        PACKAGE_SIGNATURE_BYTES_def)
  show ?thesis
    by (simp add: tar_archive_def Let_def members canonical_size_def TAR_BLOCK_BYTES_def TAR_RECORD_BYTES_def
        verify_arguments_ok_def PACKAGE_MANIFEST_MAX_BYTES_def)
qed

end
