(* ===== verification/Wasm_Properties.thy ===== *)
theory Wasm_Properties
  imports Wasm_Grammar
begin

text \<open>The properties of the module scan.\<close>

text \<open>C30: No scan reads a byte outside the module, whatever its contents, NULL included.\<close>

theorem scans_read_inside_the_module:
  "scan_module wasm \<noteq> OUT_OF_BOUNDS \<and> wasm_check wasm \<noteq> OUT_OF_BOUNDS \<and>
   wasm_imported_capabilities wasm has_output \<noteq> OUT_OF_BOUNDS \<and>
   wasm_memory_within_limit wasm pages \<noteq> OUT_OF_BOUNDS"
  by (auto simp: wasm_imported_capabilities_def scan_simps in_bounds)

text \<open>C31: The module check accepts exactly the modules of the grammar: strictly ordered known sections,
  no start section, exports with no name that runs at instantiation, and at most the four host
  functions, each once and with its signature; the capabilities are those of the imports.\<close>

theorem scan_accepts_exactly_the_grammar:
  "wasm_imported_capabilities (Some wasm) True = GO caps \<longleftrightarrow>
    (\<exists>secs hs. g_module wasm secs hs \<and> caps = capability_mask hs)"
  by (simp add: wasm_imported_capabilities_def scan_simps scan_module_iff)

text \<open>C32: The memory check holds exactly for a module of the grammar whose memory section declares one
  memory with a minimum and a maximum, at least one page and at most the limit.\<close>

theorem memory_check_is_exact:
  "wasm_memory_within_limit (Some wasm) pages = GO () \<longleftrightarrow>
    (\<exists>secs hs body lo hi. g_module wasm secs hs \<and> map_of secs 5 = Some body \<and>
       g_memory body (lo, hi) \<and> 0 < lo \<and> lo \<le> hi \<and> hi \<le> pages)"
  unfolding memory_within_limit_iff memory_ok_def by blast

end
