(* ===== verification/Runtime_Types.thy ===== *)
theory Runtime_Types
  imports Wasm_Scan
begin

text \<open>
  The data of the runtime instance (\<open>runtime.c\<close>, \<open>runtime_internal.h\<close>): limits, result codes,
  timers, the instance and the process-wide variables, and the interface of what is outside
  the repository: the WAMR engine, the allocator and the ESP-IDF timer.

  A guest entry runs in WAMR, which calls back into the instance through the registered host
  functions.  What the engine and the guest do in one entry is a value of \<open>guest_run\<close>: either
  the entry ends, or the engine calls a host function and goes on with its result.  A run is a
  finite tree: the instruction limit that \<open>invoke\<close> sets bounds every entry.  Nothing else is
  assumed of a run; it may call any host function with any arguments and go on after a host
  call has set an exception.

  An \<open>int32_t\<close> is a 32-bit word, read with \<open>sint\<close>; engine handles are numbers, and a pointer
  that may be NULL is an \<open>option\<close>.
\<close>

subsection \<open>Constants and codes\<close>

definition TIMER_CAPACITY :: nat where "TIMER_CAPACITY = 8"
definition TIMER_MAX_INTERVAL_MS :: u32 where "TIMER_MAX_INTERVAL_MS = 86400000"
definition ENTRY_EXPIRED_REASON :: string where
  "ENTRY_EXPIRED_REASON = ''container entry expired''"

datatype runtime_result =
    RUNTIME_OK | RUNTIME_INVALID_INPUT | RUNTIME_BUSY | RUNTIME_INVALID_STATE
  | RUNTIME_BAD_WASM | RUNTIME_BAD_ABI | RUNTIME_NO_MEMORY | RUNTIME_ENGINE_FAILURE
  | RUNTIME_INSTRUCTION_LIMIT | RUNTIME_GUEST_FAILURE | RUNTIME_NO_LOG | RUNTIME_NO_TIMER
  | RUNTIME_NOT_AUTHORIZED | RUNTIME_ENTRY_EXPIRED

datatype runtime_state =
    RUNTIME_LOADED | RUNTIME_RUNNING | RUNTIME_STOPPED | RUNTIME_FAILED

subsection \<open>Structs\<close>

record runtime_limits =
  max_wasm_bytes :: u32
  max_memory_pages :: u32
  stack_size_bytes :: u32
  heap_size_bytes :: u32
  max_event_bytes :: u32
  allowed_capabilities :: u32
  max_log_bytes :: u32
  max_timers :: u32
  init_instruction_budget :: "32 word"
  event_instruction_budget :: "32 word"
  stop_instruction_budget :: "32 word"
  max_entry_duration_ms :: u32

record timer_event =
  te_handle :: u64
  te_skipped_periods :: u32

record container_timer =
  tm_handle :: u64
  tm_deadline_ms :: u64
  tm_period_ms :: u32
  tm_active :: bool

text \<open>
  \<open>struct econtainer_runtime\<close>.  \<open>rt_pending_log\<close> is the buffer, NULL when it is not allocated;
  \<open>rt_native_symbols\<close> lists the names of the registered host functions.
\<close>

record runtime =
  rt_limits :: runtime_limits
  rt_state :: runtime_state
  rt_wasm_copy :: "bytes option"
  rt_module :: "nat option"
  rt_instance :: "nat option"
  rt_environment :: "nat option"
  rt_init_function :: "nat option"
  rt_event_function :: "nat option"
  rt_stop_function :: "nat option"
  rt_native_symbols :: "string list"
  rt_pending_log :: "bytes option"
  rt_pending_log_size :: nat
  rt_call_active :: bool
  rt_guest_active :: bool
  rt_entry_expired :: bool
  rt_entry_deadline_ms :: u64
  rt_stopping :: bool
  rt_natives_registered :: bool
  rt_wamr_initialized :: bool
  rt_timers :: "container_timer list"

text \<open>
  What a call of the interface works on: the instance, the two static variables of the file,
  the exception of each module instance, and the rest of the engine and the platform, \<open>'e\<close>.
  \<open>host_fault\<close> has no counterpart in the program: it is set where the C code would write
  outside a buffer, and the theorems show that it never is.
\<close>

record 'e host_state =
  host_runtime :: runtime
  runtime_claimed :: bool
  next_timer_handle :: u64
  exceptions :: "nat \<Rightarrow> string option"
  platform :: 'e
  host_fault :: bool

subsection \<open>The engine and the platform\<close>

datatype host_call =
    CALL_MONOTONIC_MS
  | CALL_LOG (log_offset: u32) (log_size: u32)
  | CALL_TIMER_START (start_delay: u32) (start_period: u32)
  | CALL_TIMER_CANCEL (cancel_handle: u64)

text \<open>
  A host call comes from an execution environment and sees the linear memory \<open>'m\<close> as it is then;
  its result is handed back as 64 bits.  At the end, the result of \<open>wasm_runtime_call_wasm\<close>,
  \<open>arguments[0]\<close>, and the exception the engine itself has set, if any.
\<close>

datatype 'm guest_run =
    GUEST_END (end_ok: bool) (end_argument: u32) (end_exception: "string option")
  | GUEST_CALL nat 'm host_call "u64 \<Rightarrow> 'm guest_run"

text \<open>An exported item of a loaded module, as \<open>wasm_runtime_get_export_type\<close> describes it.\<close>

datatype valkind = VAL_I32 | VAL_I64 | VAL_F32 | VAL_F64 | VAL_OTHER

datatype export_kind =
    EXPORT_FUNC "(valkind list \<times> valkind list) option"
  | EXPORT_MEMORY "bool option"
  | EXPORT_OTHER

record ('e, 'm) runtime_api =
  esp_timer_get_time :: "'e \<Rightarrow> 64 word \<times> 'e"
  sizeof_runtime :: nat
  heap_alloc :: "nat \<Rightarrow> 'e \<Rightarrow> bool \<times> 'e"
  heap_free :: "'e \<Rightarrow> 'e"
  wamr_init :: "'e \<Rightarrow> bool \<times> 'e"
  wamr_destroy :: "'e \<Rightarrow> 'e"
  wamr_register_natives :: "string list \<Rightarrow> 'e \<Rightarrow> bool \<times> 'e"
  wamr_unregister_natives :: "'e \<Rightarrow> 'e"
  wamr_load :: "bytes \<Rightarrow> 'e \<Rightarrow> nat option \<times> 'e"
  wamr_unload :: "nat \<Rightarrow> 'e \<Rightarrow> 'e"
  wamr_exports :: "nat \<Rightarrow> 'e \<Rightarrow> (string option \<times> export_kind) list"
  wamr_instantiate :: "nat \<Rightarrow> u32 \<Rightarrow> u32 \<Rightarrow> 'e \<Rightarrow> nat option \<times> 'e"
  wamr_deinstantiate :: "nat \<Rightarrow> 'e \<Rightarrow> 'e"
  wamr_create_exec_env :: "nat \<Rightarrow> u32 \<Rightarrow> 'e \<Rightarrow> nat option \<times> 'e"
  wamr_destroy_exec_env :: "nat \<Rightarrow> 'e \<Rightarrow> 'e"
  wamr_lookup_function :: "nat \<Rightarrow> string \<Rightarrow> 'e \<Rightarrow> nat option"
  wamr_function_attachment :: "nat \<Rightarrow> bool"
  wamr_module_inst :: "nat \<Rightarrow> nat"
  wamr_validate_app_addr :: "'m \<Rightarrow> u32 \<Rightarrow> u32 \<Rightarrow> bool"
  wamr_app_to_native :: "'m \<Rightarrow> u32 \<Rightarrow> (nat \<Rightarrow> byte) option"
  wamr_module_malloc :: "nat \<Rightarrow> 'e \<Rightarrow> (u64 \<times> bool) \<times> 'e"
  wamr_module_free :: "u64 \<Rightarrow> 'e \<Rightarrow> 'e"
  guest_write :: "u64 \<Rightarrow> bytes \<Rightarrow> 'e \<Rightarrow> 'e"
  wamr_call_wasm :: "nat option \<Rightarrow> nat option \<Rightarrow> 32 word \<Rightarrow> u32 list \<Rightarrow> 'e \<Rightarrow> 'm guest_run \<times> 'e"

subsection \<open>Access to the state\<close>

abbreviation with_runtime :: "(runtime \<Rightarrow> runtime) \<Rightarrow> 'e host_state \<Rightarrow> 'e host_state" where
  "with_runtime f s \<equiv> s\<lparr>host_runtime := f (host_runtime s)\<rparr>"

abbreviation on_platform :: "('e \<Rightarrow> 'e) \<Rightarrow> 'e host_state \<Rightarrow> 'e host_state" where
  "on_platform f s \<equiv> s\<lparr>platform := f (platform s)\<rparr>"

definition from_platform :: "('e \<Rightarrow> 'a \<times> 'e) \<Rightarrow> 'e host_state \<Rightarrow> 'a \<times> 'e host_state" where
  "from_platform f s = (case f (platform s) of (x, e) \<Rightarrow> (x, s\<lparr>platform := e\<rparr>))"

definition set_exception :: "nat \<Rightarrow> string \<Rightarrow> 'e host_state \<Rightarrow> 'e host_state" where
  "set_exception inst reason s = s\<lparr>exceptions := (exceptions s)(inst := Some reason)\<rparr>"

definition clear_exception :: "nat \<Rightarrow> 'e host_state \<Rightarrow> 'e host_state" where
  "clear_exception inst s = s\<lparr>exceptions := (exceptions s)(inst := None)\<rparr>"

text \<open>The instance handle of the runtime, read only where it is not NULL.\<close>

abbreviation own_instance :: "'e host_state \<Rightarrow> nat" where
  "own_instance s \<equiv> the (rt_instance (host_runtime s))"

subsection \<open>Limits, handles, timers\<close>

definition limits_valid :: "runtime_limits option \<Rightarrow> bool" where
  "limits_valid limits = (case limits of None \<Rightarrow> False | Some l \<Rightarrow>
     max_wasm_bytes l > 0 \<and> max_memory_pages l > 0 \<and> stack_size_bytes l > 0 \<and>
     heap_size_bytes l > 0 \<and> max_event_bytes l > 0 \<and> max_event_bytes l \<le> heap_size_bytes l \<and>
     allowed_capabilities l AND NOT CAP_ALL = 0 \<and>
     (if allowed_capabilities l AND CAP_LOG \<noteq> 0
      then max_log_bytes l > 0 \<and> max_log_bytes l \<le> 256
      else max_log_bytes l = 0) \<and>
     (if allowed_capabilities l AND CAP_TIMER \<noteq> 0
      then max_timers l > 0 \<and> max_timers l \<le> of_nat TIMER_CAPACITY \<and> max_event_bytes l \<ge> 16
      else max_timers l = 0) \<and>
     sint (init_instruction_budget l) > 0 \<and> sint (event_instruction_budget l) > 0 \<and>
     sint (stop_instruction_budget l) > 0 \<and> max_entry_duration_ms l > 0)"

text \<open>The result and the new value of \<open>*next_handle\<close>; 0 is the pointer or the allocator used up.\<close>

definition issue_timer_handle :: "u64 option \<Rightarrow> u64 \<times> u64 option" where
  "issue_timer_handle next_handle = (case next_handle of None \<Rightarrow> (0, None)
     | Some n \<Rightarrow> if n = 0 then (0, Some n) else (n, Some (n + 1)))"

definition zero_timer :: container_timer where
  "zero_timer = \<lparr>tm_handle = 0, tm_deadline_ms = 0, tm_period_ms = 0, tm_active = False\<rparr>"

text \<open>\<open>for (index = 0; index < max_timers; ++index) timers[index].active = false\<close>\<close>

definition cancel_timers :: "nat \<Rightarrow> container_timer list \<Rightarrow> container_timer list" where
  "cancel_timers n timers = fold (\<lambda>index timers. timers[index := (timers ! index)\<lparr>tm_active := False\<rparr>])
     [0..<n] timers"

definition cancel_all :: "'e host_state \<Rightarrow> 'e host_state" where
  "cancel_all s = with_runtime (\<lambda>rt. rt\<lparr>rt_timers :=
     cancel_timers (unat (max_timers (rt_limits rt))) (rt_timers rt)\<rparr>) s"

end
