(* ===== verification/Runtime_Host.thy ===== *)
theory Runtime_Host
  imports Runtime_Types
begin

text \<open>
  The host functions a guest may call (\<open>native_owner\<close>, \<open>native_monotonic_ms\<close>, \<open>native_log\<close>,
  \<open>native_timer_start\<close>, \<open>native_timer_cancel\<close> in \<open>runtime.c\<close>), the run of a guest entry over
  them, and \<open>invoke\<close> with \<open>expire_entry\<close>.
\<close>

subsection \<open>Clock and caller\<close>

text \<open>The \<open>ESP_PLATFORM\<close> branch: microseconds as \<open>int64_t\<close>, milliseconds as \<open>uint64_t\<close>.\<close>

definition monotonic_ms :: "('e, 'm) runtime_api \<Rightarrow> 'e host_state \<Rightarrow> u64 option \<times> 'e host_state" where
  "monotonic_ms api s = (case from_platform (esp_timer_get_time api) s of (now_us, s) \<Rightarrow>
     (if sint now_us < 0 then None else Some (now_us div 1000), s))"

definition native_owner :: "('e, 'm) runtime_api \<Rightarrow> nat \<Rightarrow> 'e host_state \<Rightarrow> bool \<times> 'e host_state" where
  "native_owner api environment s =
    (let rt = host_runtime s in
     if \<not> wamr_function_attachment api environment \<or> \<not> rt_guest_active rt \<or>
        rt_environment rt \<noteq> Some environment \<or>
        rt_instance rt \<noteq> Some (wamr_module_inst api environment) \<or> \<not> rt_call_active rt
     then (False, set_exception (wamr_module_inst api environment)
             ''Exception: invalid container host call owner'' s)
     else case monotonic_ms api s of
       (None, s) \<Rightarrow> (False, set_exception (own_instance s) ''Exception: monotonic clock failed'' s)
     | (Some now_ms, s) \<Rightarrow>
         if now_ms \<ge> rt_entry_deadline_ms rt
         then (False, set_exception (own_instance s) ENTRY_EXPIRED_REASON
                 (with_runtime (\<lambda>rt. rt\<lparr>rt_entry_expired := True\<rparr>) s))
         else (True, s))"

text \<open>
  The start of every host function: the owner check, then the capability of the limits.  With
  \<open>None\<close> the function returns its error value.
\<close>

definition authorized :: "('e, 'm) runtime_api \<Rightarrow> nat \<Rightarrow> u32 \<Rightarrow> string \<Rightarrow> 'e host_state \<Rightarrow>
    bool \<times> 'e host_state" where
  "authorized api environment capability reason s =
    (case native_owner api environment s of
       (False, s) \<Rightarrow> (False, s)
     | (True, s) \<Rightarrow>
         if allowed_capabilities (rt_limits (host_runtime s)) AND capability = 0
         then (False, set_exception (own_instance s) reason s)
         else (True, s))"

subsection \<open>Host functions\<close>

definition native_monotonic_ms :: "('e, 'm) runtime_api \<Rightarrow> nat \<Rightarrow> 'e host_state \<Rightarrow> u64 \<times> 'e host_state" where
  "native_monotonic_ms api environment s =
    (case authorized api environment CAP_MONOTONIC_TIME ''Exception: container clock not authorized'' s of
       (False, s) \<Rightarrow> (0, s)
     | (True, s) \<Rightarrow>
       (case monotonic_ms api s of
          (None, s) \<Rightarrow> (0, set_exception (own_instance s) ''Exception: monotonic clock failed'' s)
        | (Some now_ms, s) \<Rightarrow> (now_ms, s)))"

text \<open>
  \<open>memcpy(runtime->pending_log, source, size)\<close>: a buffer that is NULL or too short is a fault.
\<close>

definition copy_log :: "(nat \<Rightarrow> byte) \<Rightarrow> nat \<Rightarrow> 'e host_state \<Rightarrow> 'e host_state" where
  "copy_log source count s = (case rt_pending_log (host_runtime s) of
     None \<Rightarrow> s\<lparr>host_fault := True\<rparr>
   | Some buffer \<Rightarrow>
       if length buffer < count then s\<lparr>host_fault := True\<rparr>
       else with_runtime (\<lambda>rt. rt\<lparr>rt_pending_log := Some (map source [0..<count] @ drop count buffer)\<rparr>) s)"

definition native_log :: "('e, 'm) runtime_api \<Rightarrow> nat \<Rightarrow> 'm \<Rightarrow> u32 \<Rightarrow> u32 \<Rightarrow> 'e host_state \<Rightarrow>
    32 word \<times> 'e host_state" where
  "native_log api environment memory offset size_bytes s =
    (case authorized api environment CAP_LOG ''Exception: container log not authorized'' s of
       (False, s) \<Rightarrow> (-1, s)
     | (True, s) \<Rightarrow>
       if size_bytes = 0 \<or> size_bytes > max_log_bytes (rt_limits (host_runtime s)) then (-1, s)
       else if rt_pending_log_size (host_runtime s) \<noteq> 0 then (-2, s)
       else if \<not> wamr_validate_app_addr api memory offset size_bytes then (-1, s)
       else case wamr_app_to_native api memory offset of
         None \<Rightarrow> (-1, set_exception (own_instance s) ''Exception: invalid container log buffer'' s)
       | Some source \<Rightarrow>
           (0, with_runtime (\<lambda>rt. rt\<lparr>rt_pending_log_size := unat size_bytes\<rparr>)
                 (copy_log source (unat size_bytes) s)))"

definition free_timer :: "runtime \<Rightarrow> nat option" where
  "free_timer rt = List.find (\<lambda>index. \<not> tm_active (rt_timers rt ! index))
     [0..<unat (max_timers (rt_limits rt))]"

definition native_timer_start :: "('e, 'm) runtime_api \<Rightarrow> nat \<Rightarrow> u32 \<Rightarrow> u32 \<Rightarrow> 'e host_state \<Rightarrow>
    u64 \<times> 'e host_state" where
  "native_timer_start api environment delay_ms period_ms s =
    (case authorized api environment CAP_TIMER ''Exception: container timer not authorized'' s of
       (False, s) \<Rightarrow> (0, s)
     | (True, s) \<Rightarrow>
       let rt = host_runtime s in
       if rt_stopping rt \<or> rt_state rt \<noteq> RUNTIME_LOADED \<and> rt_state rt \<noteq> RUNTIME_RUNNING \<or>
          delay_ms = 0 \<or> delay_ms > TIMER_MAX_INTERVAL_MS \<or> period_ms > TIMER_MAX_INTERVAL_MS \<or>
          next_timer_handle s = 0
       then (0, s)
       else case free_timer rt of
         None \<Rightarrow> (0, s)
       | Some slot \<Rightarrow>
         (case monotonic_ms api s of
            (None, s) \<Rightarrow> (0, set_exception (own_instance s) ''Exception: monotonic clock failed'' s)
          | (Some now_ms, s) \<Rightarrow>
            if now_ms > 0xFFFFFFFFFFFFFFFF - ucast delay_ms then (0, s)
            else case issue_timer_handle (Some (next_timer_handle s)) of (handle, next_handle) \<Rightarrow>
              (handle, with_runtime (\<lambda>rt. rt\<lparr>rt_timers := (rt_timers rt)[slot :=
                   \<lparr>tm_handle = handle, tm_deadline_ms = now_ms + ucast delay_ms,
                    tm_period_ms = period_ms, tm_active = True\<rparr>]\<rparr>)
                 (s\<lparr>next_timer_handle := the next_handle\<rparr>))))"

definition find_timer :: "runtime \<Rightarrow> u64 \<Rightarrow> nat option" where
  "find_timer rt handle = List.find (\<lambda>index. tm_active (rt_timers rt ! index) \<and>
     tm_handle (rt_timers rt ! index) = handle) [0..<unat (max_timers (rt_limits rt))]"

definition native_timer_cancel :: "('e, 'm) runtime_api \<Rightarrow> nat \<Rightarrow> u64 \<Rightarrow> 'e host_state \<Rightarrow>
    32 word \<times> 'e host_state" where
  "native_timer_cancel api environment handle s =
    (case authorized api environment CAP_TIMER ''Exception: container timer not authorized'' s of
       (False, s) \<Rightarrow> (-1, s)
     | (True, s) \<Rightarrow>
       if rt_stopping (host_runtime s) \<or> handle = 0 then (-1, s)
       else case find_timer (host_runtime s) handle of
         None \<Rightarrow> (-1, s)
       | Some index \<Rightarrow> (0, with_runtime (\<lambda>rt. rt\<lparr>rt_timers := (rt_timers rt)[index :=
             (rt_timers rt ! index)\<lparr>tm_active := False\<rparr>]\<rparr>) s))"

subsection \<open>A guest entry\<close>

definition call_host :: "('e, 'm) runtime_api \<Rightarrow> nat \<Rightarrow> 'm \<Rightarrow> host_call \<Rightarrow> 'e host_state \<Rightarrow>
    u64 \<times> 'e host_state" where
  "call_host api environment memory call s = (case call of
     CALL_MONOTONIC_MS \<Rightarrow> native_monotonic_ms api environment s
   | CALL_LOG offset size_bytes \<Rightarrow>
       (case native_log api environment memory offset size_bytes s of (r, s) \<Rightarrow> (ucast r, s))
   | CALL_TIMER_START delay_ms period_ms \<Rightarrow> native_timer_start api environment delay_ms period_ms s
   | CALL_TIMER_CANCEL handle \<Rightarrow>
       (case native_timer_cancel api environment handle s of (r, s) \<Rightarrow> (ucast r, s)))"

primrec run_guest :: "('e, 'm) runtime_api \<Rightarrow> nat \<Rightarrow> 'm guest_run \<Rightarrow> 'e host_state \<Rightarrow>
    (bool \<times> u32) \<times> 'e host_state" where
  "run_guest api inst (GUEST_END ok argument exception) s =
    ((ok, argument), case exception of None \<Rightarrow> s | Some reason \<Rightarrow> set_exception inst reason s)"
| "run_guest api inst (GUEST_CALL environment memory call continue) s =
    (case call_host api environment memory call s of (value, s) \<Rightarrow>
     run_guest api inst (continue value) s)"

definition expire_entry :: "nat \<Rightarrow> 'e host_state \<Rightarrow> 'e host_state" where
  "expire_entry prior_log_size s = cancel_all
     (with_runtime (\<lambda>rt. rt\<lparr>rt_state := RUNTIME_FAILED, rt_pending_log_size := prior_log_size\<rparr>) s)"

definition fail_runtime :: "'e host_state \<Rightarrow> 'e host_state" where
  "fail_runtime = with_runtime (\<lambda>rt. rt\<lparr>rt_state := RUNTIME_FAILED\<rparr>)"

text \<open>\<open>Inr r\<close> is OK with \<open>*result = r\<close>.\<close>

definition invoke :: "('e, 'm) runtime_api \<Rightarrow> nat option \<Rightarrow> 32 word \<Rightarrow> u32 list \<Rightarrow>
    ('e host_state, runtime_result, 32 word) act" where
  "invoke api function budget arguments s =
    (case monotonic_ms api s of
       (None, s) \<Rightarrow> (Inl RUNTIME_ENGINE_FAILURE, fail_runtime s)
     | (Some began_ms, s) \<Rightarrow>
       let limit = ucast (max_entry_duration_ms (rt_limits (host_runtime s))) in
       if began_ms > 0xFFFFFFFFFFFFFFFF - limit
       then (Inl RUNTIME_ENGINE_FAILURE, fail_runtime s)
       else
         let prior_log_size = rt_pending_log_size (host_runtime s);
             inst = own_instance s;
             s = clear_exception inst (with_runtime (\<lambda>rt. rt\<lparr>rt_entry_deadline_ms := began_ms + limit,
                    rt_entry_expired := False, rt_guest_active := True\<rparr>) s) in
         case from_platform (wamr_call_wasm api (rt_environment (host_runtime s)) function budget arguments) s of
           (run, s) \<Rightarrow>
         (case run_guest api inst run s of ((call_ok, argument), s) \<Rightarrow>
          let s = with_runtime (\<lambda>rt. rt\<lparr>rt_guest_active := False\<rparr>) s in
          if rt_entry_expired (host_runtime s)
          then (Inl RUNTIME_ENTRY_EXPIRED, expire_entry prior_log_size s)
          else if \<not> call_ok
          then (Inl (if exceptions s inst = Some ''Exception: instruction limit exceeded''
                     then RUNTIME_INSTRUCTION_LIMIT else RUNTIME_ENGINE_FAILURE), fail_runtime s)
          else if exceptions s inst \<noteq> None then (Inl RUNTIME_ENGINE_FAILURE, fail_runtime s)
          else case monotonic_ms api s of
            (None, s) \<Rightarrow> (Inl RUNTIME_ENGINE_FAILURE, fail_runtime s)
          | (Some ended_ms, s) \<Rightarrow>
              if ended_ms \<ge> rt_entry_deadline_ms (host_runtime s)
              then (Inl RUNTIME_ENTRY_EXPIRED, expire_entry prior_log_size s)
              else (Inr argument, s)))"

end
