(* ===== verification/Runtime_Open.thy ===== *)
theory Runtime_Open
  imports Runtime_Host
begin

text \<open>
  The life of an instance (\<open>runtime.c\<close>): the ABI check of the loaded module, open with all its
  failure exits, release and close.
\<close>

subsection \<open>The ABI of a module\<close>

definition function_type_matches :: "(valkind list \<times> valkind list) option \<Rightarrow> nat \<Rightarrow> bool" where
  "function_type_matches type param_count = (case type of None \<Rightarrow> False
     | Some (params, results) \<Rightarrow>
         length params = param_count \<and> length results = 1 \<and> results ! 0 = VAL_I32 \<and>
         list_all (\<lambda>index. params ! index = VAL_I32) [0..<param_count])"

definition is_entry :: "export_kind \<Rightarrow> nat \<Rightarrow> bool" where
  "is_entry kind param_count = (case kind of
     EXPORT_FUNC type \<Rightarrow> function_type_matches type param_count | _ \<Rightarrow> False)"

definition is_private_memory :: "export_kind \<Rightarrow> bool" where
  "is_private_memory kind = (case kind of EXPORT_MEMORY (Some shared) \<Rightarrow> \<not> shared | _ \<Rightarrow> False)"

record abi_found =
  init_found :: bool
  event_found :: bool
  stop_found :: bool
  memory_found :: bool

text \<open>The loop over the exports; \<open>None\<close> is the early \<open>return false\<close>.\<close>

primrec abi_loop :: "(string option \<times> export_kind) list \<Rightarrow> abi_found \<Rightarrow> abi_found option" where
  "abi_loop [] found = Some found"
| "abi_loop (export # exports) found = (case export of
     (None, _) \<Rightarrow> None
   | (Some name, kind) \<Rightarrow>
       if name = ''econtainer_init'' then
         if init_found found \<or> \<not> is_entry kind 0 then None
         else abi_loop exports (found\<lparr>init_found := True\<rparr>)
       else if name = ''econtainer_on_event'' then
         if event_found found \<or> \<not> is_entry kind 2 then None
         else abi_loop exports (found\<lparr>event_found := True\<rparr>)
       else if name = ''econtainer_stop'' then
         if stop_found found \<or> \<not> is_entry kind 0 then None
         else abi_loop exports (found\<lparr>stop_found := True\<rparr>)
       else if name = ''memory'' then
         if memory_found found \<or> \<not> is_private_memory kind then None
         else abi_loop exports (found\<lparr>memory_found := True\<rparr>)
       else None)"

definition module_abi_matches :: "(string option \<times> export_kind) list \<Rightarrow> bool" where
  "module_abi_matches exports = (if length exports \<noteq> 4 then False
     else case abi_loop exports \<lparr>init_found = False, event_found = False, stop_found = False,
                                 memory_found = False\<rparr> of
       None \<Rightarrow> False
     | Some found \<Rightarrow> init_found found \<and> event_found found \<and> stop_found found \<and> memory_found found)"

subsection \<open>Release and close\<close>

definition if_some :: "('h \<Rightarrow> 'e \<Rightarrow> 'e) \<Rightarrow> 'h option \<Rightarrow> 'e \<Rightarrow> 'e" where
  "if_some f h e = (case h of None \<Rightarrow> e | Some x \<Rightarrow> f x e)"

text \<open>The state of the freed instance is left behind; nothing reads it before the next open.\<close>

definition release_runtime :: "('e, 'm) runtime_api \<Rightarrow> 'e host_state \<Rightarrow> 'e host_state" where
  "release_runtime api s = (let rt = host_runtime s;
       e = if_some (wamr_destroy_exec_env api) (rt_environment rt) (platform s);
       e = if_some (wamr_deinstantiate api) (rt_instance rt) e;
       e = if_some (wamr_unload api) (rt_module rt) e;
       e = (if rt_natives_registered rt then wamr_unregister_natives api e else e);
       e = if_some (\<lambda>_. heap_free api) (rt_pending_log rt) e;
       e = if_some (\<lambda>_. heap_free api) (rt_wasm_copy rt) e;
       e = (if rt_wamr_initialized rt then wamr_destroy api e else e)
     in s\<lparr>platform := heap_free api e, runtime_claimed := False\<rparr>)"

text \<open>\<open>runtime\<close> is \<open>None\<close> for a NULL argument and says otherwise whether \<open>*runtime\<close> is set; the result is
  the same of the pointer after the call.\<close>

definition econtainer_runtime_close :: "('e, 'm) runtime_api \<Rightarrow> bool option \<Rightarrow>
    ('e host_state, runtime_result, bool option) act" where
  "econtainer_runtime_close api runtime s =
    (if runtime \<noteq> Some True then (Inr runtime, s)
     else if rt_call_active (host_runtime s) then (Inl RUNTIME_BUSY, s)
     else (Inr (Some False),
           release_runtime api (with_runtime (\<lambda>rt. rt\<lparr>rt_call_active := True\<rparr>) s)))"

subsection \<open>Open\<close>

text \<open>The result of \<open>calloc\<close>.\<close>

definition zero_limits :: runtime_limits where
  "zero_limits = \<lparr>max_wasm_bytes = 0, max_memory_pages = 0, stack_size_bytes = 0,
     heap_size_bytes = 0, max_event_bytes = 0, allowed_capabilities = 0, max_log_bytes = 0,
     max_timers = 0, init_instruction_budget = 0, event_instruction_budget = 0,
     stop_instruction_budget = 0, max_entry_duration_ms = 0\<rparr>"

definition zero_runtime :: runtime where
  "zero_runtime = \<lparr>rt_limits = zero_limits, rt_state = RUNTIME_LOADED, rt_wasm_copy = None,
     rt_module = None, rt_instance = None, rt_environment = None, rt_init_function = None,
     rt_event_function = None, rt_stop_function = None, rt_native_symbols = [],
     rt_pending_log = None, rt_pending_log_size = 0, rt_call_active = False,
     rt_guest_active = False, rt_entry_expired = False, rt_entry_deadline_ms = 0,
     rt_stopping = False, rt_natives_registered = False, rt_wamr_initialized = False,
     rt_timers = replicate TIMER_CAPACITY zero_timer\<rparr>"

definition abandon :: "('e, 'm) runtime_api \<Rightarrow> runtime_result \<Rightarrow>
    ('e host_state, runtime_result, 'a) act" where
  "abandon api status s = (Inl status, release_runtime api s)"

text \<open>
  A \<open>malloc\<close> with the failure exit.  The bytes of the log buffer are unspecified until a log is
  copied into it; they are zeros here, and no byte of it is read before it is written.
\<close>

definition allocate :: "('e, 'm) runtime_api \<Rightarrow> nat \<Rightarrow> ('e host_state, runtime_result, unit) act" where
  "allocate api n s = (case from_platform (heap_alloc api n) s of
     (ok, s) \<Rightarrow> if ok then (Inr (), s) else abandon api RUNTIME_NO_MEMORY s)"

definition update_runtime :: "(runtime \<Rightarrow> runtime) \<Rightarrow> ('e host_state, runtime_result, unit) act" where
  "update_runtime f s = (Inr (), with_runtime f s)"

definition native_names :: "u32 \<Rightarrow> string list" where
  "native_names required =
     (if required AND CAP_MONOTONIC_TIME \<noteq> 0 then [''monotonic_ms''] else []) @
     (if required AND CAP_LOG \<noteq> 0 then [''log''] else []) @
     (if required AND CAP_TIMER \<noteq> 0 then [''timer_start'', ''timer_cancel''] else [])"

definition open_memory :: "('e, 'm) runtime_api \<Rightarrow> bytes \<Rightarrow> runtime_limits \<Rightarrow> u32 \<Rightarrow>
    ('e host_state, runtime_result, unit) act" where
  "open_memory api wasm limits required =
     bindE (if required AND CAP_LOG \<noteq> 0
            then bindE (allocate api (unat (max_log_bytes limits)))
              (\<lambda>_. update_runtime (\<lambda>rt. rt\<lparr>rt_pending_log := Some (zeros (unat (max_log_bytes limits)))\<rparr>))
            else retE ())
     (\<lambda>_. bindE (allocate api (length wasm))
     (\<lambda>_. update_runtime (\<lambda>rt. rt\<lparr>rt_wasm_copy := Some wasm\<rparr>)))"

definition open_engine :: "('e, 'm) runtime_api \<Rightarrow> u32 \<Rightarrow> ('e host_state, runtime_result, unit) act" where
  "open_engine api required s = (case from_platform (wamr_init api) s of
     (False, s) \<Rightarrow> abandon api RUNTIME_ENGINE_FAILURE s
   | (True, s) \<Rightarrow>
     let s = with_runtime (\<lambda>rt. rt\<lparr>rt_wamr_initialized := True,
               rt_native_symbols := native_names required\<rparr>) s in
     if native_names required = [] then (Inr (), s)
     else case from_platform (wamr_register_natives api (native_names required)) s of
       (False, s) \<Rightarrow> abandon api RUNTIME_ENGINE_FAILURE s
     | (True, s) \<Rightarrow> update_runtime (\<lambda>rt. rt\<lparr>rt_natives_registered := True\<rparr>) s)"

definition open_module :: "('e, 'm) runtime_api \<Rightarrow> bytes \<Rightarrow> ('e host_state, runtime_result, unit) act" where
  "open_module api wasm s = (case from_platform (wamr_load api wasm) s of
     (None, s) \<Rightarrow> abandon api RUNTIME_BAD_WASM s
   | (Some module, s) \<Rightarrow>
     let s = with_runtime (\<lambda>rt. rt\<lparr>rt_module := Some module\<rparr>) s in
     if \<not> module_abi_matches (wamr_exports api module (platform s))
     then abandon api RUNTIME_BAD_ABI s else (Inr (), s))"

definition open_instance :: "('e, 'm) runtime_api \<Rightarrow> runtime_limits \<Rightarrow>
    ('e host_state, runtime_result, unit) act" where
  "open_instance api limits s =
    (case from_platform (wamr_instantiate api (the (rt_module (host_runtime s)))
            (stack_size_bytes limits) (heap_size_bytes limits)) s of
       (None, s) \<Rightarrow> abandon api RUNTIME_ENGINE_FAILURE s
     | (Some inst, s) \<Rightarrow>
       let s = with_runtime (\<lambda>rt. rt\<lparr>rt_instance := Some inst\<rparr>) s in
       case from_platform (wamr_create_exec_env api inst (stack_size_bytes limits)) s of
         (environment, s) \<Rightarrow>
       let e = platform s;
           s = with_runtime (\<lambda>rt. rt\<lparr>rt_environment := environment,
                 rt_init_function := wamr_lookup_function api inst ''econtainer_init'' e,
                 rt_event_function := wamr_lookup_function api inst ''econtainer_on_event'' e,
                 rt_stop_function := wamr_lookup_function api inst ''econtainer_stop'' e\<rparr>) s;
           rt = host_runtime s in
       if rt_environment rt = None \<or> rt_init_function rt = None \<or>
          rt_event_function rt = None \<or> rt_stop_function rt = None
       then abandon api RUNTIME_ENGINE_FAILURE s else (Inr (), s))"

text \<open>
  \<open>out\<close> is \<open>None\<close> for a NULL argument and otherwise true when \<open>*out\<close> is NULL, as it has to be.
\<close>

definition econtainer_runtime_open :: "('e, 'm) runtime_api \<Rightarrow> bytes option \<Rightarrow>
    runtime_limits option \<Rightarrow> bool option \<Rightarrow> ('e host_state, runtime_result, unit) act" where
  "econtainer_runtime_open api wasm limits out s =
    (if out \<noteq> Some True \<or> wasm = None \<or> length (the wasm) = 0 \<or>
        length (the wasm) > 0xFFFFFFFF \<or> \<not> limits_valid limits \<or>
        length (the wasm) > unat (max_wasm_bytes (the limits))
     then (Inl RUNTIME_INVALID_INPUT, s)
     else case wasm_imported_capabilities wasm True of
       GO required \<Rightarrow>
         if required AND NOT (allowed_capabilities (the limits)) \<noteq> 0
         then (Inl RUNTIME_NOT_AUTHORIZED, s)
         else if wasm_memory_within_limit wasm (max_memory_pages (the limits)) \<noteq> GO ()
         then (Inl RUNTIME_BAD_ABI, s)
         else if runtime_claimed s then (Inl RUNTIME_BUSY, s)
         else (case from_platform (heap_alloc api (sizeof_runtime api)) (s\<lparr>runtime_claimed := True\<rparr>) of
           (False, s) \<Rightarrow> (Inl RUNTIME_NO_MEMORY, s\<lparr>runtime_claimed := False\<rparr>)
         | (True, s) \<Rightarrow>
           bindE (open_memory api (the wasm) (the limits) required)
           (\<lambda>_. bindE (open_engine api required)
           (\<lambda>_. bindE (open_module api (the wasm))
           (\<lambda>_. open_instance api (the limits))))
           (s\<lparr>host_runtime := zero_runtime\<lparr>rt_limits := the limits, rt_state := RUNTIME_LOADED\<rparr>\<rparr>))
     | _ \<Rightarrow> (Inl RUNTIME_BAD_WASM, s))"

end
