(* ===== verification/Runtime_Ops.thy ===== *)
theory Runtime_Ops
  imports Runtime_Host
begin

text \<open>
  The calls of the runtime interface on an open instance (\<open>runtime.c\<close>): init, the delivery of
  an event, stop, the pending log, and the timers; and the decoder of timer events that the
  guest SDK provides (\<open>econtainer_guest.h\<close>).

  A call returns \<open>Inl\<close> of a result code other than OK, or \<open>Inr\<close> of what it stores in its
  out-parameters.  A flag such as \<open>runtime\<close> or \<open>guest_result\<close> says that the pointer of that
  name is not NULL.
\<close>

subsection \<open>The claim of a call\<close>

definition claim_call :: "'e host_state \<Rightarrow> bool \<times> 'e host_state" where
  "claim_call s = (if rt_call_active (host_runtime s) then (False, s)
     else (True, with_runtime (\<lambda>rt. rt\<lparr>rt_call_active := True\<rparr>) s))"

definition end_call :: "'e host_state \<Rightarrow> 'e host_state" where
  "end_call = with_runtime (\<lambda>rt. rt\<lparr>rt_call_active := False\<rparr>)"

text \<open>
  Every call claims the instance, or returns BUSY, and gives the claim back on each of its exits.
\<close>

definition with_claim :: "('e host_state, runtime_result, 'a) act \<Rightarrow>
    ('e host_state, runtime_result, 'a) act" where
  "with_claim body s = (case claim_call s of
     (False, s) \<Rightarrow> (Inl RUNTIME_BUSY, s)
   | (True, s) \<Rightarrow> (case body s of (r, s) \<Rightarrow> (r, end_call s)))"

definition set_state :: "runtime_state \<Rightarrow> 'e host_state \<Rightarrow> 'e host_state" where
  "set_state state = with_runtime (\<lambda>rt. rt\<lparr>rt_state := state\<rparr>)"

subsection \<open>Start and stop\<close>

definition init_entry :: "('e, 'm) runtime_api \<Rightarrow> ('e host_state, runtime_result, unit) act" where
  "init_entry api s = (let rt = host_runtime s in
     if rt_state rt \<noteq> RUNTIME_LOADED then (Inl RUNTIME_INVALID_STATE, s)
     else case invoke api (rt_init_function rt) (init_instruction_budget (rt_limits rt)) [] s of
       (Inl status, s) \<Rightarrow> (Inl status, cancel_all s)
     | (Inr result, s) \<Rightarrow>
         if result \<noteq> 0 then (Inl RUNTIME_GUEST_FAILURE, cancel_all (fail_runtime s))
         else (Inr (), set_state RUNTIME_RUNNING s))"

definition econtainer_runtime_init :: "('e, 'm) runtime_api \<Rightarrow> bool \<Rightarrow>
    ('e host_state, runtime_result, unit) act" where
  "econtainer_runtime_init api runtime s =
    (if \<not> runtime then (Inl RUNTIME_INVALID_STATE, s) else with_claim (init_entry api) s)"

definition stop_entry :: "('e, 'm) runtime_api \<Rightarrow> ('e host_state, runtime_result, unit) act" where
  "stop_entry api s = (let rt = host_runtime s in
     if rt_state rt = RUNTIME_STOPPED then (Inr (), s)
     else if rt_state rt \<noteq> RUNTIME_RUNNING then (Inl RUNTIME_INVALID_STATE, s)
     else case invoke api (rt_stop_function rt) (stop_instruction_budget (rt_limits rt)) []
                 (cancel_all (with_runtime (\<lambda>rt. rt\<lparr>rt_stopping := True\<rparr>) s)) of
       (Inl status, s) \<Rightarrow> (Inl status, s)
     | (Inr result, s) \<Rightarrow>
         if result \<noteq> 0 then (Inl RUNTIME_GUEST_FAILURE, fail_runtime s)
         else (Inr (), set_state RUNTIME_STOPPED s))"

definition econtainer_runtime_stop :: "('e, 'm) runtime_api \<Rightarrow> bool \<Rightarrow>
    ('e host_state, runtime_result, unit) act" where
  "econtainer_runtime_stop api runtime s =
    (if \<not> runtime then (Inl RUNTIME_INVALID_STATE, s) else with_claim (stop_entry api) s)"

definition econtainer_runtime_state :: "bool \<Rightarrow> 'e host_state \<Rightarrow> runtime_state" where
  "econtainer_runtime_state runtime s =
    (if runtime then rt_state (host_runtime s) else RUNTIME_FAILED)"

subsection \<open>Events\<close>

text \<open>
  An event that is not NULL is a buffer of \<open>event_size_bytes\<close> bytes.  The buffer in the guest
  is allocated in the engine, \<open>malloc\<close> returning the offset and whether \<open>guest_address\<close> is set;
  it is freed after the entry, whatever its outcome.
\<close>

definition free_event :: "('e, 'm) runtime_api \<Rightarrow> u64 \<Rightarrow> 'e host_state \<Rightarrow> 'e host_state" where
  "free_event api offset s = (if offset \<noteq> 0 then on_platform (wamr_module_free api offset) s else s)"

definition copy_event :: "('e, 'm) runtime_api \<Rightarrow> bytes option \<Rightarrow> nat \<Rightarrow>
    ('e host_state, runtime_result, u64) act" where
  "copy_event api event event_size s =
    (case event of None \<Rightarrow> (Inr 0, s) | Some bytes \<Rightarrow>
     if event_size = 0 then (Inr 0, s)
     else case from_platform (wamr_module_malloc api event_size) s of ((offset, address), s) \<Rightarrow>
       if offset = 0 \<or> offset > 0xFFFFFFFF \<or> \<not> address
       then (Inl RUNTIME_NO_MEMORY, free_event api offset s)
       else (Inr offset, on_platform (guest_write api offset (take event_size bytes)) s))"

definition call_event :: "('e, 'm) runtime_api \<Rightarrow> bytes option \<Rightarrow> nat \<Rightarrow> bool \<Rightarrow>
    ('e host_state, runtime_result, 32 word) act" where
  "call_event api event event_size guest_result s = (let rt = host_runtime s in
     if \<not> guest_result \<or> event_size > unat (max_event_bytes (rt_limits rt)) \<or>
        event_size > 0 \<and> event = None
     then (Inl RUNTIME_INVALID_INPUT, s)
     else case copy_event api event event_size s of
       (Inl status, s) \<Rightarrow> (Inl status, s)
     | (Inr offset, s) \<Rightarrow>
       (case invoke api (rt_event_function rt) (event_instruction_budget (rt_limits rt))
               [ucast offset, of_nat event_size] s of
          (r, s) \<Rightarrow> (r, free_event api offset s)))"

text \<open>A host event may not look like a timer event.\<close>

definition timer_prefixed :: "bytes option \<Rightarrow> nat \<Rightarrow> bool" where
  "timer_prefixed event event_size = (case event of None \<Rightarrow> False
     | Some bytes \<Rightarrow> event_size = 16 \<and> take 4 bytes = [0x45, 0x43, 0x54, 1])"

definition event_entry :: "('e, 'm) runtime_api \<Rightarrow> bytes option \<Rightarrow> nat \<Rightarrow> bool \<Rightarrow>
    ('e host_state, runtime_result, 32 word) act" where
  "event_entry api event event_size guest_result s =
    (if rt_state (host_runtime s) \<noteq> RUNTIME_RUNNING then (Inl RUNTIME_INVALID_STATE, s)
     else if timer_prefixed event event_size then (Inl RUNTIME_INVALID_INPUT, s)
     else call_event api event event_size guest_result s)"

definition econtainer_runtime_on_event :: "('e, 'm) runtime_api \<Rightarrow> bool \<Rightarrow> bytes option \<Rightarrow> nat \<Rightarrow>
    bool \<Rightarrow> ('e host_state, runtime_result, 32 word) act" where
  "econtainer_runtime_on_event api runtime event event_size guest_result s =
    (if \<not> runtime then (Inl RUNTIME_INVALID_STATE, s)
     else with_claim (event_entry api event event_size guest_result) s)"

subsection \<open>The pending log\<close>

text \<open>\<open>output\<close> is the capacity of the buffer, \<open>None\<close> when it is NULL; the result is the log.\<close>

definition log_entry :: "nat option \<Rightarrow> ('e host_state, runtime_result, bytes) act" where
  "log_entry output s = (let rt = host_runtime s in
     if rt_pending_log_size rt = 0 then (Inl RUNTIME_NO_LOG, s)
     else if (case output of None \<Rightarrow> True | Some capacity \<Rightarrow> capacity < rt_pending_log_size rt)
     then (Inl RUNTIME_INVALID_INPUT, s)
     else case rt_pending_log rt of
       None \<Rightarrow> (Inr [], s\<lparr>host_fault := True\<rparr>)
     | Some buffer \<Rightarrow>
         (Inr (take (rt_pending_log_size rt) buffer),
          with_runtime (\<lambda>rt. rt\<lparr>rt_pending_log_size := 0\<rparr>)
            (s\<lparr>host_fault := host_fault s \<or> length buffer < rt_pending_log_size rt\<rparr>)))"

definition econtainer_runtime_take_log :: "bool \<Rightarrow> nat option \<Rightarrow> bool \<Rightarrow>
    ('e host_state, runtime_result, bytes) act" where
  "econtainer_runtime_take_log runtime output log_size_bytes s =
    (if \<not> runtime \<or> \<not> log_size_bytes then (Inl RUNTIME_INVALID_INPUT, s)
     else with_claim (log_entry output) s)"

subsection \<open>Timers\<close>

definition earliest_deadline :: "runtime \<Rightarrow> u64" where
  "earliest_deadline rt = fold (\<lambda>index earliest.
       let timer = rt_timers rt ! index in
       if tm_active timer \<and> tm_deadline_ms timer < earliest then tm_deadline_ms timer else earliest)
     [0..<unat (max_timers (rt_limits rt))] 0xFFFFFFFFFFFFFFFF"

definition deadline_entry :: "('e host_state, runtime_result, u64) act" where
  "deadline_entry s =
    (if rt_state (host_runtime s) \<noteq> RUNTIME_RUNNING then (Inl RUNTIME_INVALID_STATE, s)
     else let earliest = earliest_deadline (host_runtime s) in
       if earliest \<noteq> 0xFFFFFFFFFFFFFFFF then (Inr earliest, s) else (Inl RUNTIME_NO_TIMER, s))"

definition econtainer_runtime_next_timer_deadline :: "bool \<Rightarrow> bool \<Rightarrow>
    ('e host_state, runtime_result, u64) act" where
  "econtainer_runtime_next_timer_deadline runtime deadline_ms s =
    (if \<not> runtime \<or> \<not> deadline_ms then (Inl RUNTIME_INVALID_INPUT, s) else with_claim deadline_entry s)"

text \<open>The timer to deliver: the index and the deadline, \<open>None\<close> for \<open>selected == max_timers\<close>.\<close>

definition due_timer :: "runtime \<Rightarrow> u64 \<Rightarrow> nat option" where
  "due_timer rt now_ms = fst (fold (\<lambda>index (selected, earliest).
       let timer = rt_timers rt ! index in
       if tm_active timer \<and> tm_deadline_ms timer \<le> now_ms \<and> tm_deadline_ms timer < earliest
       then (Some index, tm_deadline_ms timer) else (selected, earliest))
     [0..<unat (max_timers (rt_limits rt))] (None, 0xFFFFFFFFFFFFFFFF))"

text \<open>The timer after its event at \<open>now_ms\<close>, and the periods that were skipped.\<close>

definition advance_timer :: "u64 \<Rightarrow> container_timer \<Rightarrow> container_timer \<times> u32" where
  "advance_timer now_ms timer =
    (if tm_period_ms timer = 0 then (timer\<lparr>tm_active := False\<rparr>, 0)
     else
       let period = ucast (tm_period_ms timer);
           periods_missed = (now_ms - tm_deadline_ms timer) div period;
           skipped = if periods_missed > 0xFFFFFFFF then 0xFFFFFFFF else ucast periods_missed;
           until_next = tm_period_ms timer - ucast ((now_ms - tm_deadline_ms timer) mod period) in
       (if now_ms > 0xFFFFFFFFFFFFFFFF - ucast until_next then timer\<lparr>tm_active := False\<rparr>
        else timer\<lparr>tm_deadline_ms := now_ms + ucast until_next\<rparr>, skipped))"

definition timer_event_bytes :: "u64 \<Rightarrow> u32 \<Rightarrow> bytes" where
  "timer_event_bytes handle skipped = [0x45, 0x43, 0x54, 1] @
     map (\<lambda>index. ucast (drop_bit (index * 8) handle)) [0..<8] @
     map (\<lambda>index. ucast (drop_bit (index * 8) skipped)) [0..<4]"

definition put_timer :: "nat \<Rightarrow> container_timer \<Rightarrow> 'e host_state \<Rightarrow> 'e host_state" where
  "put_timer index timer = with_runtime (\<lambda>rt. rt\<lparr>rt_timers := (rt_timers rt)[index := timer]\<rparr>)"

definition deliver_timer :: "('e, 'm) runtime_api \<Rightarrow> nat \<Rightarrow> u64 \<Rightarrow>
    ('e host_state, runtime_result, timer_event \<times> 32 word) act" where
  "deliver_timer api index now_ms s =
    (let previous = rt_timers (host_runtime s) ! index in
     case advance_timer now_ms previous of (timer, skipped) \<Rightarrow>
     case call_event api (Some (timer_event_bytes (tm_handle previous) skipped)) 16 True
            (put_timer index timer s) of
       (Inr result, s) \<Rightarrow>
         (Inr (\<lparr>te_handle = tm_handle previous, te_skipped_periods = skipped\<rparr>, result), s)
     | (Inl status, s) \<Rightarrow>
         (Inl status, if status = RUNTIME_NO_MEMORY then put_timer index previous s else s))"

definition poll_entry :: "('e, 'm) runtime_api \<Rightarrow>
    ('e host_state, runtime_result, timer_event \<times> 32 word) act" where
  "poll_entry api s =
    (if rt_state (host_runtime s) \<noteq> RUNTIME_RUNNING then (Inl RUNTIME_INVALID_STATE, s)
     else case monotonic_ms api s of
       (None, s) \<Rightarrow> (Inl RUNTIME_ENGINE_FAILURE, s)
     | (Some now_ms, s) \<Rightarrow>
       (case due_timer (host_runtime s) now_ms of
          None \<Rightarrow> (Inl RUNTIME_NO_TIMER, s)
        | Some index \<Rightarrow> deliver_timer api index now_ms s))"

definition econtainer_runtime_poll_timer :: "('e, 'm) runtime_api \<Rightarrow> bool \<Rightarrow> bool \<Rightarrow> bool \<Rightarrow>
    ('e host_state, runtime_result, timer_event \<times> 32 word) act" where
  "econtainer_runtime_poll_timer api runtime event guest_result s =
    (if \<not> runtime \<or> \<not> event \<or> \<not> guest_result then (Inl RUNTIME_INVALID_INPUT, s)
     else with_claim (poll_entry api) s)"

subsection \<open>The guest side of a timer event\<close>

definition econtainer_timer_event_decode :: "bytes option \<Rightarrow> u32 \<Rightarrow> bool \<Rightarrow> bool \<Rightarrow> (u64 \<times> u32) option" where
  "econtainer_timer_event_decode bytes size_bytes handle skipped = (case bytes of None \<Rightarrow> None
     | Some b \<Rightarrow>
       if size_bytes \<noteq> 16 \<or> \<not> handle \<or> \<not> skipped \<or>
          b ! 0 \<noteq> 0x45 \<or> b ! 1 \<noteq> 0x43 \<or> b ! 2 \<noteq> 0x54 \<or> b ! 3 \<noteq> 1 then None
       else
         let h = fold (\<lambda>index h. h OR push_bit (index * 8) (ucast (b ! (4 + index)))) [0..<8] 0;
             k = fold (\<lambda>index k. k OR push_bit (index * 8) (ucast (b ! (12 + index)))) [0..<4] 0 in
         if h \<noteq> 0 then Some (h, k) else None)"

subsection \<open>The interface as one step\<close>

text \<open>
  A call with its arguments, and its result code; the owner issues one call after the other.
\<close>

datatype runtime_call =
    DO_INIT bool
  | DO_EVENT bool "bytes option" nat bool
  | DO_STOP bool
  | DO_TAKE_LOG bool "nat option" bool
  | DO_DEADLINE bool bool
  | DO_POLL bool bool bool

definition code_of :: "runtime_result + 'a \<Rightarrow> runtime_result" where
  "code_of r = (case r of Inl status \<Rightarrow> status | Inr _ \<Rightarrow> RUNTIME_OK)"

fun runtime_step :: "('e, 'm) runtime_api \<Rightarrow> runtime_call \<Rightarrow> 'e host_state \<Rightarrow>
    runtime_result \<times> 'e host_state" where
  "runtime_step api (DO_INIT rt) s = map_prod code_of id (econtainer_runtime_init api rt s)"
| "runtime_step api (DO_EVENT rt event n out) s =
    map_prod code_of id (econtainer_runtime_on_event api rt event n out s)"
| "runtime_step api (DO_STOP rt) s = map_prod code_of id (econtainer_runtime_stop api rt s)"
| "runtime_step api (DO_TAKE_LOG rt output out) s =
    map_prod code_of id (econtainer_runtime_take_log rt output out s)"
| "runtime_step api (DO_DEADLINE rt out) s =
    map_prod code_of id (econtainer_runtime_next_timer_deadline rt out s)"
| "runtime_step api (DO_POLL rt event out) s =
    map_prod code_of id (econtainer_runtime_poll_timer api rt event out s)"

primrec runtime_steps :: "('e, 'm) runtime_api \<Rightarrow> runtime_call list \<Rightarrow> 'e host_state \<Rightarrow>
    runtime_result list \<times> 'e host_state" where
  "runtime_steps api [] s = ([], s)"
| "runtime_steps api (c # cs) s = (case runtime_step api c s of (r, s) \<Rightarrow>
     case runtime_steps api cs s of (rs, s) \<Rightarrow> (r # rs, s))"

end
