(* ===== verification/Runtime_Effects.thy ===== *)
theory Runtime_Effects
  imports Runtime_Ops
begin

text \<open>
  What a guest entry can do to the host.  \<open>host_effect\<close> is the specification of one host call:
  it leaves the instance alone but for the expiry flag, or it stores one log, or starts a timer
  in a free slot, or cancels one.  The host functions implement it, and the locale
  \<open>guest_contract\<close> carries every relation that the effects respect over a whole entry.
\<close>

subsection \<open>Clock\<close>

text \<open>The largest \<open>int64_t\<close> of microseconds, in milliseconds, and a deadline one day later.\<close>

definition CLOCK_MAX_MS :: nat where "CLOCK_MAX_MS = 9223372036854775"
definition DEADLINE_MAX_MS :: nat where "DEADLINE_MAX_MS = CLOCK_MAX_MS + 86400000"

lemma monotonic_ms_bound:
  assumes "monotonic_ms api s = (Some now_ms, s')"
  shows "unat now_ms \<le> CLOCK_MAX_MS"
proof -
  obtain us :: "64 word" where us: "\<not> sint us < 0" "now_ms = us div 1000"
    using assms by (auto simp: monotonic_ms_def split: prod.splits if_splits)
  have "sint us < 2 ^ 63" using sint_lt [of us] by simp
  moreover have "uint us = sint us"
    using us(1) sint_lt [of us] by (simp add: uint_sint take_bit_int_eq_self)
  ultimately have "unat us < 2 ^ 63" by (simp add: unat_eq_nat_uint)
  with us(2) show ?thesis by (simp add: CLOCK_MAX_MS_def unat_div)
qed

subsection \<open>Quiet steps\<close>

text \<open>
  The parts of the state that a failed authorization or a read of the clock may change.
\<close>

definition quiet :: "'e host_state \<Rightarrow> 'e host_state \<Rightarrow> bool" where
  "quiet s s' \<longleftrightarrow> (\<exists>expired ex e. s' = s\<lparr>
     host_runtime := (host_runtime s)\<lparr>rt_entry_expired := expired\<rparr>,
     exceptions := ex, platform := e\<rparr>)"

lemma quietI: "s' = s\<lparr>host_runtime := (host_runtime s)\<lparr>rt_entry_expired := expired\<rparr>,
    exceptions := ex, platform := e\<rparr> \<Longrightarrow> quiet s s'"
  unfolding quiet_def by blast

lemma quiet_refl [simp, intro]: "quiet s s"
  by (rule quietI [where expired = "rt_entry_expired (host_runtime s)" and ex = "exceptions s" and e = "platform s"]) simp

lemma quiet_trans: "quiet s s1 \<Longrightarrow> quiet s1 s2 \<Longrightarrow> quiet s s2"
  unfolding quiet_def by (elim exE) (rule exI, rule exI, rule exI, simp)

lemma quiet_exception [simp]: "quiet s (set_exception inst reason s)"
  by (rule quietI [where expired = "rt_entry_expired (host_runtime s)" and e = "platform s"])
    (simp add: set_exception_def)

lemma quiet_clear [simp]: "quiet s (clear_exception inst s)"
  by (rule quietI [where expired = "rt_entry_expired (host_runtime s)" and e = "platform s"])
    (simp add: clear_exception_def)

lemma quiet_platform [simp]: "quiet s (s\<lparr>platform := e\<rparr>)"
  by (rule quietI [where expired = "rt_entry_expired (host_runtime s)" and ex = "exceptions s"]) simp

lemma quiet_expired [simp]: "quiet s (with_runtime (rt_entry_expired_update (\<lambda>_. b)) s)"
  by (rule quietI [where ex = "exceptions s" and e = "platform s"]) simp

lemma quiet_keeps:
  assumes "quiet s s'"
  shows "rt_limits (host_runtime s') = rt_limits (host_runtime s)"
    "rt_state (host_runtime s') = rt_state (host_runtime s)"
    "rt_timers (host_runtime s') = rt_timers (host_runtime s)"
    "rt_pending_log (host_runtime s') = rt_pending_log (host_runtime s)"
    "rt_pending_log_size (host_runtime s') = rt_pending_log_size (host_runtime s)"
    "rt_native_symbols (host_runtime s') = rt_native_symbols (host_runtime s)"
    "rt_instance (host_runtime s') = rt_instance (host_runtime s)"
    "rt_environment (host_runtime s') = rt_environment (host_runtime s)"
    "rt_call_active (host_runtime s') = rt_call_active (host_runtime s)"
    "rt_guest_active (host_runtime s') = rt_guest_active (host_runtime s)"
    "rt_stopping (host_runtime s') = rt_stopping (host_runtime s)"
    "rt_entry_deadline_ms (host_runtime s') = rt_entry_deadline_ms (host_runtime s)"
    "next_timer_handle s' = next_timer_handle s" "host_fault s' = host_fault s"
    "runtime_claimed s' = runtime_claimed s"
  using assms by (auto simp: quiet_def)

lemma quiet_from_platform: "from_platform f s = (x, s') \<Longrightarrow> quiet s s'"
  by (auto simp: from_platform_def split: prod.splits)

lemma quiet_clock: "monotonic_ms api s = (r, s') \<Longrightarrow> quiet s s'"
  by (auto simp: monotonic_ms_def split: prod.splits dest: quiet_from_platform)

lemma quiet_then_exception: "quiet s s1 \<Longrightarrow> quiet s (set_exception inst reason s1)"
  by (rule quiet_trans [OF _ quiet_exception])

lemma quiet_then_expired: "quiet s s1 \<Longrightarrow> quiet s (with_runtime (rt_entry_expired_update (\<lambda>_. b)) s1)"
  by (rule quiet_trans [OF _ quiet_expired])

lemma quiet_owner: "native_owner api environment s = (b, s') \<Longrightarrow> quiet s s'"
  by (auto simp: native_owner_def Let_def split: if_splits prod.splits option.splits
      dest!: quiet_clock intro: quiet_then_exception quiet_then_expired)

lemma quiet_authorized: "authorized api environment capability reason s = (b, s') \<Longrightarrow> quiet s s'"
  by (auto simp: authorized_def split: if_splits prod.splits bool.splits
      dest!: quiet_owner intro: quiet_then_exception)

lemma authorized_owner:
  assumes "authorized api environment capability reason s = (True, s')"
  shows "rt_guest_active (host_runtime s) \<and> rt_environment (host_runtime s) = Some environment \<and>
    rt_call_active (host_runtime s) \<and>
    allowed_capabilities (rt_limits (host_runtime s)) AND capability \<noteq> 0"
  using assms by (auto simp: authorized_def native_owner_def Let_def quiet_keeps(1) [OF quiet_clock]
      split: if_splits prod.splits option.splits bool.splits)

subsection \<open>Deactivated timers\<close>

lemma cancel_timers_Suc: "cancel_timers (Suc n) timers =
    (cancel_timers n timers)[n := (cancel_timers n timers ! n)\<lparr>tm_active := False\<rparr>]"
  by (simp add: cancel_timers_def)

lemma length_cancel_timers [simp]: "length (cancel_timers n timers) = length timers"
  by (induction n) (simp_all add: cancel_timers_Suc, simp add: cancel_timers_def)

lemma cancel_timers_nth: "n \<le> length timers \<Longrightarrow> i < length timers \<Longrightarrow>
    cancel_timers n timers ! i = (if i < n then (timers ! i)\<lparr>tm_active := False\<rparr> else timers ! i)"
proof (induction n)
  case 0 then show ?case by (simp add: cancel_timers_def)
next
  case (Suc n) then show ?case
    by (auto simp: cancel_timers_Suc nth_list_update less_Suc_eq)
qed

subsection \<open>The effect of one host call\<close>

inductive host_effect :: "host_call \<Rightarrow> 'e host_state \<Rightarrow> 'e host_state \<Rightarrow> bool" where
  nothing: "quiet s s' \<Longrightarrow> host_effect call s s'"
| log_stored: "quiet s s1 \<Longrightarrow> 0 < unat n \<Longrightarrow> unat n \<le> unat (max_log_bytes (rt_limits (host_runtime s1))) \<Longrightarrow>
    rt_pending_log_size (host_runtime s1) = 0 \<Longrightarrow>
    s' = with_runtime (\<lambda>rt. rt\<lparr>rt_pending_log_size := unat n\<rparr>) (copy_log source (unat n) s1) \<Longrightarrow>
    host_effect (CALL_LOG offset n) s s'"
| timer_started: "quiet s s1 \<Longrightarrow> \<not> rt_stopping (host_runtime s1) \<Longrightarrow> next_timer_handle s1 \<noteq> 0 \<Longrightarrow>
    free_timer (host_runtime s1) = Some slot \<Longrightarrow> unat deadline \<le> DEADLINE_MAX_MS \<Longrightarrow>
    period \<le> TIMER_MAX_INTERVAL_MS \<Longrightarrow>
    s' = put_timer slot \<lparr>tm_handle = next_timer_handle s1, tm_deadline_ms = deadline,
           tm_period_ms = period, tm_active = True\<rparr> (s1\<lparr>next_timer_handle := next_timer_handle s1 + 1\<rparr>) \<Longrightarrow>
    host_effect (CALL_TIMER_START delay period) s s'"
| timer_cancelled: "quiet s s1 \<Longrightarrow> find_timer (host_runtime s1) handle = Some index \<Longrightarrow>
    s' = put_timer index ((rt_timers (host_runtime s1) ! index)\<lparr>tm_active := False\<rparr>) s1 \<Longrightarrow>
    host_effect (CALL_TIMER_CANCEL handle) s s'"

inductive_cases host_effect_cases: "host_effect call s s'"

lemma monotonic_effect: "native_monotonic_ms api environment s = (v, s') \<Longrightarrow> quiet s s'"
  by (auto simp: native_monotonic_ms_def split: prod.splits bool.splits option.splits
      dest!: quiet_authorized quiet_clock intro: quiet_trans quiet_then_exception)

lemma log_effect:
  assumes "native_log api environment memory offset n s = (v, s')"
  shows "host_effect (CALL_LOG offset n) s s'"
proof -
  obtain b s1 where a: "authorized api environment CAP_LOG ''Exception: container log not authorized'' s = (b, s1)"
    by fastforce
  note q = quiet_authorized [OF a]
  show ?thesis
    using assms a q
    by (auto simp: native_log_def word_less_nat_alt word_le_nat_alt word_pos_iff
        split: bool.splits if_splits option.splits
        intro: host_effect.nothing quiet_then_exception host_effect.log_stored [OF q])
qed

lemma deadline_in_range:
  assumes "unat (now_ms :: u64) \<le> CLOCK_MAX_MS" "delay \<le> TIMER_MAX_INTERVAL_MS"
  shows "unat (now_ms + ucast delay) = unat now_ms + unat delay"
    and "unat (now_ms + ucast delay) \<le> DEADLINE_MAX_MS"
proof -
  have d: "unat delay \<le> 86400000"
    using assms(2) by (simp add: TIMER_MAX_INTERVAL_MS_def word_le_nat_alt)
  with assms(1) have "unat now_ms + unat delay < 2 ^ 64" by (simp add: CLOCK_MAX_MS_def)
  then show sum: "unat (now_ms + ucast delay) = unat now_ms + unat delay"
    by (simp add: unat_word_ariths)
  show "unat (now_ms + ucast delay) \<le> DEADLINE_MAX_MS"
    unfolding sum using d assms(1) by (simp add: DEADLINE_MAX_MS_def)
qed

lemma timer_start_effect:
  assumes "native_timer_start api environment delay period s = (v, s')"
  shows "host_effect (CALL_TIMER_START delay period) s s'"
proof -
  obtain b s1 where a: "authorized api environment CAP_TIMER ''Exception: container timer not authorized'' s = (b, s1)"
    by fastforce
  note q = quiet_authorized [OF a]
  obtain now s2 where c: "monotonic_ms api s1 = (now, s2)" by fastforce
  note q2 = quiet_trans [OF q quiet_clock [OF c]]
  note same = quiet_keeps [OF quiet_clock [OF c]]
  let ?rt = "host_runtime s1"
  let ?refuse = "rt_stopping ?rt \<or> rt_state ?rt \<noteq> RUNTIME_LOADED \<and> rt_state ?rt \<noteq> RUNTIME_RUNNING \<or>
    delay = 0 \<or> delay > TIMER_MAX_INTERVAL_MS \<or> period > TIMER_MAX_INTERVAL_MS \<or> next_timer_handle s1 = 0"
  note unfolded = native_timer_start_def Let_def a c
  consider "quiet s s'"
    | slot now_ms where "b" "\<not> ?refuse" "free_timer ?rt = Some slot" "now = Some now_ms"
        "\<not> now_ms > 0xFFFFFFFFFFFFFFFF - ucast delay"
  proof (cases "\<not> b \<or> ?refuse \<or> free_timer ?rt = None")
    case True then have "quiet s s'" using assms q by (auto simp: unfolded split: bool.splits if_splits)
    then show ?thesis by (rule that(1))
  next
    case go: False
    show ?thesis
    proof (cases "\<exists>now_ms. now = Some now_ms \<and> \<not> now_ms > 0xFFFFFFFFFFFFFFFF - ucast delay")
      case True then show ?thesis using go that(2) by auto
    next
      case False
      then have "quiet s s'"
        using assms go q2 by (cases now) (auto simp: unfolded intro: quiet_then_exception)
      then show ?thesis by (rule that(1))
    qed
  qed
  then show ?thesis
  proof cases
    case 1 then show ?thesis by (rule host_effect.nothing)
  next
    case 2
    have "unat (now_ms + ucast delay) \<le> DEADLINE_MAX_MS"
      using monotonic_ms_bound [of api s1 now_ms s2] c 2(2,4) by (intro deadline_in_range(2)) auto
    moreover have "free_timer (host_runtime s2) = Some slot"
      using 2(3) by (simp add: free_timer_def same)
    moreover have "s' = put_timer slot \<lparr>tm_handle = next_timer_handle s2, tm_deadline_ms = now_ms + ucast delay,
           tm_period_ms = period, tm_active = True\<rparr> (s2\<lparr>next_timer_handle := next_timer_handle s2 + 1\<rparr>)"
      using assms 2 by (auto simp: unfolded issue_timer_handle_def put_timer_def same)
    ultimately show ?thesis
      using 2(2) by (intro host_effect.timer_started [OF q2]) (simp_all add: same not_less)
  qed
qed

lemma timer_cancel_effect:
  assumes "native_timer_cancel api environment handle s = (v, s')"
  shows "host_effect (CALL_TIMER_CANCEL handle) s s'"
proof -
  obtain b s1 where a: "authorized api environment CAP_TIMER ''Exception: container timer not authorized'' s = (b, s1)"
    by fastforce
  note q = quiet_authorized [OF a]
  show ?thesis
    using assms a q
    by (auto simp: native_timer_cancel_def put_timer_def split: bool.splits if_splits option.splits
        intro: host_effect.nothing host_effect.timer_cancelled [OF q])
qed

lemma call_host_effect:
  "call_host api environment memory call s = (v, s') \<Longrightarrow> host_effect call s s'"
  by (auto simp: call_host_def split: host_call.splits prod.splits
      intro: host_effect.nothing monotonic_effect log_effect timer_start_effect timer_cancel_effect)

subsection \<open>Relations that hold over a whole entry\<close>

text \<open>
  The calls a run may make; the engine can only reach the host functions that were registered.
\<close>

primrec run_calls :: "(host_call \<Rightarrow> bool) \<Rightarrow> 'm guest_run \<Rightarrow> bool" where
  "run_calls P (GUEST_END ok argument exception) = True"
| "run_calls P (GUEST_CALL environment memory call continue) = (P call \<and> (\<forall>v. run_calls P (continue v)))"

lemma run_calls_any: "run_calls (\<lambda>_. True) run"
  by (induction run) simp_all

definition call_symbol :: "host_call \<Rightarrow> string" where
  "call_symbol call = (case call of CALL_MONOTONIC_MS \<Rightarrow> ''monotonic_ms'' | CALL_LOG _ _ \<Rightarrow> ''log''
     | CALL_TIMER_START _ _ \<Rightarrow> ''timer_start'' | CALL_TIMER_CANCEL _ \<Rightarrow> ''timer_cancel'')"

locale guest_contract =
  fixes R :: "'e host_state \<Rightarrow> 'e host_state \<Rightarrow> bool" and allowed :: "host_call \<Rightarrow> bool"
  assumes R_trans: "R s s1 \<Longrightarrow> R s1 s2 \<Longrightarrow> R s s2"
    and R_effect: "host_effect call s s' \<Longrightarrow> allowed call \<Longrightarrow> R s s'"
    and R_quiet: "quiet s s' \<Longrightarrow> R s s'"
begin

lemma run_related:
  "run_calls allowed run \<Longrightarrow> run_guest api inst run s = (r, s') \<Longrightarrow> R s s'"
proof (induction run arbitrary: s)
  case (GUEST_END ok argument exception)
  then show ?case by (auto split: option.splits intro: R_quiet)
next
  case (GUEST_CALL environment memory call continue)
  obtain v s1 where c: "call_host api environment memory call s = (v, s1)" by fastforce
  with GUEST_CALL.prems have "R s s1" "run_guest api inst (continue v) s1 = (r, s')"
      "run_calls allowed (continue v)"
    by (auto intro: R_effect call_host_effect)
  then show ?case using GUEST_CALL.IH [of "continue v" s1] by (blast intro: R_trans)
qed

end

end
