(* ===== verification/Runtime_Invariant.thy ===== *)
theory Runtime_Invariant
  imports Runtime_Effects
begin

text \<open>
  The invariant of an open instance, and its proof over every call of the interface: the limits
  are valid, the eight timer slots hold distinct issued handles with bounded deadlines in the
  slots of the quota, the pending log lies in its buffer, and between calls neither the claim of
  a call nor the guest is active.
\<close>

subsection \<open>The invariant\<close>

definition issued :: "u64 \<Rightarrow> u64 \<Rightarrow> bool" where
  "issued next_handle handle \<longleftrightarrow> handle \<noteq> 0 \<and> (next_handle = 0 \<or> handle < next_handle)"

definition timer_ok :: "u64 \<Rightarrow> container_timer \<Rightarrow> bool" where
  "timer_ok next_handle timer \<longleftrightarrow> (tm_active timer \<longrightarrow> issued next_handle (tm_handle timer) \<and>
     unat (tm_deadline_ms timer) \<le> DEADLINE_MAX_MS \<and> tm_period_ms timer \<le> TIMER_MAX_INTERVAL_MS)"

definition timers_ok :: "u64 \<Rightarrow> nat \<Rightarrow> container_timer list \<Rightarrow> bool" where
  "timers_ok next_handle n timers \<longleftrightarrow> length timers = TIMER_CAPACITY \<and>
     (\<forall>i < TIMER_CAPACITY. timer_ok next_handle (timers ! i) \<and> (tm_active (timers ! i) \<longrightarrow> i < n)) \<and>
     (\<forall>i < TIMER_CAPACITY. \<forall>j < TIMER_CAPACITY. tm_active (timers ! i) \<longrightarrow> tm_active (timers ! j) \<longrightarrow>
        tm_handle (timers ! i) = tm_handle (timers ! j) \<longrightarrow> i = j)"

definition log_ok :: "runtime \<Rightarrow> bool" where
  "log_ok rt \<longleftrightarrow> rt_pending_log_size rt \<le> unat (max_log_bytes (rt_limits rt)) \<and>
     (''log'' \<in> set (rt_native_symbols rt) \<longrightarrow>
        map_option length (rt_pending_log rt) = Some (unat (max_log_bytes (rt_limits rt)))) \<and>
     (rt_pending_log_size rt \<noteq> 0 \<longrightarrow> ''log'' \<in> set (rt_native_symbols rt))"

definition host_ok :: "'e host_state \<Rightarrow> bool" where
  "host_ok s \<longleftrightarrow> (let rt = host_runtime s in
     limits_valid (Some (rt_limits rt)) \<and>
     timers_ok (next_timer_handle s) (unat (max_timers (rt_limits rt))) (rt_timers rt) \<and>
     log_ok rt \<and> rt_instance rt \<noteq> None \<and> rt_environment rt \<noteq> None \<and>
     runtime_claimed s \<and> \<not> host_fault s)"

definition no_timers :: "runtime \<Rightarrow> bool" where
  "no_timers rt \<longleftrightarrow> list_all (\<lambda>timer. \<not> tm_active timer) (rt_timers rt)"

definition settled :: "'e host_state \<Rightarrow> bool" where
  "settled s \<longleftrightarrow> (let rt = host_runtime s in \<not> rt_guest_active rt \<and>
     (rt_state rt = RUNTIME_LOADED \<longrightarrow> no_timers rt \<and> \<not> rt_stopping rt) \<and>
     (rt_state rt = RUNTIME_RUNNING \<longrightarrow> \<not> rt_stopping rt) \<and>
     (rt_state rt = RUNTIME_STOPPED \<longrightarrow> no_timers rt))"

definition idle :: "'e host_state \<Rightarrow> bool" where
  "idle s \<longleftrightarrow> host_ok s \<and> settled s \<and> \<not> rt_call_active (host_runtime s)"

definition registered :: "runtime \<Rightarrow> host_call \<Rightarrow> bool" where
  "registered rt call \<longleftrightarrow> call_symbol call \<in> set (rt_native_symbols rt)"

text \<open>
  What is assumed of the engine: a run calls only host functions that were registered.
\<close>

definition engine_links :: "('e, 'm) runtime_api \<Rightarrow> runtime \<Rightarrow> bool" where
  "engine_links api rt \<longleftrightarrow> (\<forall>environment function budget arguments e.
     run_calls (registered rt) (fst (wamr_call_wasm api environment function budget arguments e)))"

lemma max_timers_bound: "host_ok s \<Longrightarrow> unat (max_timers (rt_limits (host_runtime s))) \<le> TIMER_CAPACITY"
  by (auto simp: host_ok_def Let_def limits_valid_def TIMER_CAPACITY_def word_le_nat_alt split: if_splits)

lemma host_ok_timers: "host_ok s \<Longrightarrow> length (rt_timers (host_runtime s)) = TIMER_CAPACITY"
  by (simp add: host_ok_def timers_ok_def Let_def)

subsection \<open>Timers\<close>

lemma timers_okI:
  assumes "timers_ok h n timers" "i < n"
    and "timer_ok h' timer" "\<And>x. issued h x \<Longrightarrow> issued h' x"
    and "tm_active timer \<Longrightarrow> (\<forall>j < TIMER_CAPACITY. tm_active (timers ! j) \<longrightarrow>
          tm_handle (timers ! j) = tm_handle timer \<longrightarrow> j = i)"
  shows "timers_ok h' n (timers[i := timer])"
  unfolding timers_ok_def
proof (intro conjI allI impI)
  show "length (timers[i := timer]) = TIMER_CAPACITY" using assms(1) by (simp add: timers_ok_def)
next
  fix j assume j: "j < TIMER_CAPACITY"
  with assms(1) have old: "timer_ok h (timers ! j)" by (simp add: timers_ok_def)
  then have "timer_ok h' (timers ! j)" using assms(4) by (simp add: timer_ok_def)
  then show "timer_ok h' (timers[i := timer] ! j)"
    using assms(1,3) j by (cases "i = j") (auto simp: timers_ok_def)
  assume "tm_active (timers[i := timer] ! j)"
  then show "j < n" using assms(1,2) j by (cases "i = j") (auto simp: timers_ok_def)
next
  fix j k assume jk: "j < TIMER_CAPACITY" "k < TIMER_CAPACITY" "tm_active (timers[i := timer] ! j)"
    "tm_active (timers[i := timer] ! k)"
    "tm_handle (timers[i := timer] ! j) = tm_handle (timers[i := timer] ! k)"
  have len: "length timers = TIMER_CAPACITY" using assms(1) by (simp add: timers_ok_def)
  have inj: "tm_active (timers ! j) \<longrightarrow> tm_active (timers ! k) \<longrightarrow>
      tm_handle (timers ! j) = tm_handle (timers ! k) \<longrightarrow> j = k"
    using assms(1) jk(1,2) by (simp add: timers_ok_def)
  have new: "m = i" if "tm_active timer" "m < TIMER_CAPACITY" "tm_active (timers ! m)"
      "tm_handle timer = tm_handle (timers ! m)" for m
    using assms(5) that by simp
  consider "j = i" "k = i" | "j = i" "k \<noteq> i" | "j \<noteq> i" "k = i" | "j \<noteq> i" "k \<noteq> i" by blast
  then show "j = k"
  proof cases
    case 2 then show ?thesis using new [of k] jk len by simp
  next
    case 3 then show ?thesis using new [of j] jk len by simp
  next
    case 4 then show ?thesis using inj jk by simp
  qed simp
qed

lemma timers_ok_deactivate:
  assumes "timers_ok h n timers" "n \<le> TIMER_CAPACITY"
  shows "timers_ok h n (cancel_timers m timers)"
proof (induction m)
  case 0 then show ?case using assms by (simp add: cancel_timers_def)
next
  case (Suc m)
  let ?ts = "cancel_timers m timers"
  show ?case
  proof (cases "m < n")
    case True show ?thesis
      unfolding cancel_timers_Suc by (rule timers_okI [OF Suc True]) (simp_all add: timer_ok_def)
  next
    case False
    have "?ts[m := (?ts ! m)\<lparr>tm_active := False\<rparr>] = ?ts"
    proof (cases "m < length ?ts")
      case True
      then have "\<not> tm_active (?ts ! m)" using Suc False by (auto simp: timers_ok_def)
      then have "(?ts ! m)\<lparr>tm_active := False\<rparr> = ?ts ! m" by simp
      then show ?thesis by simp
    qed (simp add: list_update_beyond)
    with Suc show ?thesis by (simp add: cancel_timers_Suc)
  qed
qed

lemma issued_next: "h \<noteq> 0 \<Longrightarrow> issued (h + 1) h \<and> (issued h x \<longrightarrow> issued (h + 1) x \<and> x \<noteq> h)"
  for h :: u64
proof -
  assume "h \<noteq> 0"
  have "h + 1 = 0 \<or> h < h + 1"
    using unatSuc [of h] by (cases "1 + h = 0") (simp_all add: word_less_nat_alt add.commute)
  then show ?thesis using \<open>h \<noteq> 0\<close> by (auto simp: issued_def)
qed

text \<open>A slot the search for a free or a live timer returns.\<close>

lemma find_index:
  assumes "List.find P [0..<n] = Some i"
  shows "i < n \<and> P i \<and> (\<forall>j < i. \<not> P j)"
  using assms by (auto simp: find_Some_iff)

lemma issued_nonzero: "issued h 0 \<longleftrightarrow> False"
  by (simp add: issued_def)

subsection \<open>What host calls keep\<close>

text \<open>
  Everything of the state but the log, the expiry flag, the timers, the handle counter, the
  exceptions and the platform.
\<close>

definition kept :: "'e host_state \<Rightarrow> runtime \<times> bool" where
  "kept s = ((host_runtime s)\<lparr>rt_pending_log := None, rt_pending_log_size := 0,
     rt_entry_expired := False, rt_timers := []\<rparr>, runtime_claimed s)"

lemma kept_quiet: "quiet s s' \<Longrightarrow> kept s' = kept s"
  by (auto simp: quiet_def kept_def)

lemma kept_copy_log [simp]: "kept (copy_log source n s) = kept s"
  by (simp add: kept_def copy_log_def split: option.split)

lemma kept_effect: "host_effect call s s' \<Longrightarrow> kept s' = kept s"
proof (cases rule: host_effect.cases, assumption, goal_cases)
  case (2 s1)
  then show ?case using kept_quiet [of s s1] by (auto simp: kept_def copy_log_def split: option.splits)
qed (auto simp: kept_def put_timer_def dest!: kept_quiet)

lemma kept_fields:
  assumes "kept s' = kept s"
  shows "rt_limits (host_runtime s') = rt_limits (host_runtime s)"
    "rt_state (host_runtime s') = rt_state (host_runtime s)"
    "rt_native_symbols (host_runtime s') = rt_native_symbols (host_runtime s)"
    "rt_instance (host_runtime s') = rt_instance (host_runtime s)"
    "rt_environment (host_runtime s') = rt_environment (host_runtime s)"
    "rt_call_active (host_runtime s') = rt_call_active (host_runtime s)"
    "rt_guest_active (host_runtime s') = rt_guest_active (host_runtime s)"
    "rt_stopping (host_runtime s') = rt_stopping (host_runtime s)"
    "rt_entry_deadline_ms (host_runtime s') = rt_entry_deadline_ms (host_runtime s)"
    "runtime_claimed s' = runtime_claimed s"
  using assms by (auto simp: kept_def dest: arg_cong [where f = rt_limits] arg_cong [where f = rt_state]
    arg_cong [where f = rt_native_symbols] arg_cong [where f = rt_instance]
    arg_cong [where f = rt_environment] arg_cong [where f = rt_call_active]
    arg_cong [where f = rt_guest_active] arg_cong [where f = rt_stopping]
    arg_cong [where f = rt_entry_deadline_ms])

interpretation keeping: guest_contract "\<lambda>s s'. kept s' = kept s" "\<lambda>_. True"
  by unfold_locales (auto dest: kept_effect kept_quiet)

subsection \<open>The invariant over host calls\<close>

lemma host_ok_quiet: "quiet s s' \<Longrightarrow> host_ok s \<Longrightarrow> host_ok s'"
  by (auto simp: host_ok_def log_ok_def Let_def quiet_keeps)

lemma host_ok_put:
  assumes ok: "host_ok s" and i: "i < unat (max_timers (rt_limits (host_runtime s)))"
    and timer: "timer_ok h timer" "\<And>x. issued (next_timer_handle s) x \<Longrightarrow> issued h x"
    and new: "tm_active timer \<Longrightarrow> \<forall>j < TIMER_CAPACITY. tm_active (rt_timers (host_runtime s) ! j) \<longrightarrow>
          tm_handle (rt_timers (host_runtime s) ! j) = tm_handle timer \<longrightarrow> j = i"
  shows "host_ok (put_timer i timer (s\<lparr>next_timer_handle := h\<rparr>))"
proof -
  have "timers_ok h (unat (max_timers (rt_limits (host_runtime s)))) ((rt_timers (host_runtime s))[i := timer])"
    using ok by (intro timers_okI [OF _ i timer new]) (simp_all add: host_ok_def Let_def)
  with ok show ?thesis by (simp add: host_ok_def put_timer_def log_ok_def Let_def)
qed

lemma host_ok_log:
  assumes "host_ok s" "0 < n" "n \<le> unat (max_log_bytes (rt_limits (host_runtime s)))"
    and "''log'' \<in> set (rt_native_symbols (host_runtime s))"
  shows "host_ok (with_runtime (rt_pending_log_size_update (\<lambda>_. n)) (copy_log source n s))"
  using assms by (auto simp: host_ok_def copy_log_def log_ok_def Let_def split: option.splits)

lemma host_ok_effect:
  assumes "host_effect call s s'" "host_ok s" "registered (host_runtime s) call"
  shows "host_ok s'"
  using assms(1)
proof (cases rule: host_effect.cases)
  case nothing then show ?thesis using assms(2) host_ok_quiet by blast
next
  case (log_stored s1 n source)
  have "host_ok s1" using log_stored assms(2) host_ok_quiet by blast
  moreover have "''log'' \<in> set (rt_native_symbols (host_runtime s1))"
    using assms(3) log_stored by (simp add: registered_def call_symbol_def quiet_keeps)
  ultimately show ?thesis
    unfolding log_stored(6) by (rule host_ok_log [OF _ log_stored(3,4)])
next
  case (timer_started s1 slot deadline period delay)
  have ok: "host_ok s1" using timer_started assms(2) host_ok_quiet by blast
  have slot: "slot < unat (max_timers (rt_limits (host_runtime s1)))"
    using timer_started by (auto simp: free_timer_def dest: find_index)
  note h = issued_next [OF timer_started(4)]
  have old: "issued (next_timer_handle s1) (tm_handle (rt_timers (host_runtime s1) ! j))"
    if "j < TIMER_CAPACITY" "tm_active (rt_timers (host_runtime s1) ! j)" for j
    using ok that by (auto simp: host_ok_def timers_ok_def timer_ok_def Let_def)
  show ?thesis
    unfolding timer_started(8)
    by (rule host_ok_put [OF ok slot]) (use h old timer_started(6,7) in \<open>auto simp: timer_ok_def\<close>)
next
  case (timer_cancelled s1 handle index)
  have ok: "host_ok s1" using timer_cancelled assms(2) host_ok_quiet by blast
  have slot: "index < unat (max_timers (rt_limits (host_runtime s1)))"
    using timer_cancelled by (auto simp: find_timer_def dest: find_index)
  have "host_ok (put_timer index ((rt_timers (host_runtime s1) ! index)\<lparr>tm_active := False\<rparr>)
      (s1\<lparr>next_timer_handle := next_timer_handle s1\<rparr>))"
    by (rule host_ok_put [OF ok slot]) (simp_all add: timer_ok_def)
  then show ?thesis unfolding timer_cancelled by simp
qed

interpretation sound: guest_contract
  "\<lambda>s s'. rt_native_symbols (host_runtime s') = rt_native_symbols (host_runtime s) \<and>
     (rt_native_symbols (host_runtime s) = symbols \<and> host_ok s \<longrightarrow> host_ok s')"
  "\<lambda>call. call_symbol call \<in> set symbols" for symbols
proof unfold_locales
  fix call and s s' :: "'a host_state"
  assume "host_effect call s s'" "call_symbol call \<in> set symbols"
  then show "rt_native_symbols (host_runtime s') = rt_native_symbols (host_runtime s) \<and>
     (rt_native_symbols (host_runtime s) = symbols \<and> host_ok s \<longrightarrow> host_ok s')"
    using host_ok_effect [of call s s'] by (auto simp: registered_def dest: kept_fields(3) [OF kept_effect])
qed (auto simp: quiet_keeps intro: host_ok_quiet)

subsection \<open>Handles, the stopping flag and the pending log over host calls\<close>

definition live_handle :: "'e host_state \<Rightarrow> u64 \<Rightarrow> bool" where
  "live_handle s h \<longleftrightarrow> list_ex (\<lambda>timer. tm_active timer \<and> tm_handle timer = h) (rt_timers (host_runtime s))"

definition retired :: "u64 \<Rightarrow> 'e host_state \<Rightarrow> bool" where
  "retired h s \<longleftrightarrow> issued (next_timer_handle s) h \<and> \<not> live_handle s h"

lemma live_handle_put:
  assumes "live_handle (put_timer i timer s) h"
  shows "tm_active timer \<and> tm_handle timer = h \<or> live_handle s h"
  using assms set_update_subset_insert [of "rt_timers (host_runtime s)" i timer]
  by (auto simp: live_handle_def list_ex_iff put_timer_def)

lemma live_handle_counter [simp]: "live_handle (s\<lparr>next_timer_handle := n\<rparr>) h = live_handle s h"
  by (simp add: live_handle_def)

lemma next_handle_put [simp]: "next_timer_handle (put_timer i timer s) = next_timer_handle s"
  by (simp add: put_timer_def)

lemma retired_quiet: "quiet s s' \<Longrightarrow> retired h s' = retired h s"
  by (simp add: retired_def live_handle_def quiet_keeps)

lemma retired_effect:
  assumes "host_effect call s s'" "retired h s"
  shows "retired h s'"
  using assms(1)
proof (cases rule: host_effect.cases)
  case nothing then show ?thesis using assms(2) retired_quiet by blast
next
  case (log_stored s1 n source)
  then have "retired h s1" using assms(2) retired_quiet by blast
  then show ?thesis unfolding log_stored(6)
    by (auto simp: retired_def live_handle_def copy_log_def split: option.split)
next
  case (timer_started s1 slot deadline period delay)
  then have "retired h s1" using assms(2) retired_quiet by blast
  with issued_next [OF timer_started(4), of h] show ?thesis
    unfolding timer_started(8) by (auto simp: retired_def dest: live_handle_put)
next
  case (timer_cancelled s1 handle index)
  then have "retired h s1" using assms(2) retired_quiet by blast
  then show ?thesis unfolding timer_cancelled by (auto simp: retired_def dest: live_handle_put)
qed

interpretation retiring: guest_contract "\<lambda>s s'. retired h s \<longrightarrow> retired h s'" "\<lambda>_. True" for h
  by unfold_locales (auto simp: retired_quiet dest: retired_effect)

definition quiesced :: "'e host_state \<Rightarrow> bool" where
  "quiesced s \<longleftrightarrow> rt_stopping (host_runtime s) \<and> no_timers (host_runtime s)"

lemma no_timers_put: "no_timers (host_runtime s) \<Longrightarrow> \<not> tm_active timer \<Longrightarrow>
    no_timers (host_runtime (put_timer i timer s))"
  using set_update_subset_insert [of "rt_timers (host_runtime s)" i timer]
  by (auto simp: no_timers_def list_all_iff put_timer_def)

lemma quiesced_effect:
  assumes "host_effect call s s'" "quiesced s"
  shows "quiesced s'"
  using assms(1)
proof (cases rule: host_effect.cases)
  case nothing then show ?thesis using assms(2) by (simp add: quiesced_def no_timers_def quiet_keeps)
next
  case (log_stored s1 n source)
  then have "quiesced s1" using assms(2) by (simp add: quiesced_def no_timers_def quiet_keeps)
  then show ?thesis unfolding log_stored(6)
    by (auto simp: quiesced_def no_timers_def copy_log_def split: option.split)
next
  case (timer_started s1 slot deadline period delay)
  then show ?thesis using assms(2) by (simp add: quiesced_def quiet_keeps)
next
  case (timer_cancelled s1 handle index)
  then have "quiesced s1" using assms(2) by (simp add: quiesced_def no_timers_def quiet_keeps)
  then have "no_timers (host_runtime s1)" "rt_stopping (host_runtime s1)" by (simp_all add: quiesced_def)
  then have "no_timers (host_runtime s')" "rt_stopping (host_runtime s')"
    unfolding timer_cancelled by (auto intro!: no_timers_put) (simp add: put_timer_def)
  then show ?thesis by (simp add: quiesced_def)
qed

interpretation quiescing: guest_contract "\<lambda>s s'. quiesced s \<longrightarrow> quiesced s'" "\<lambda>_. True"
  by unfold_locales (auto simp: quiesced_def no_timers_def quiet_keeps dest: quiesced_effect)

definition same_log :: "'e host_state \<Rightarrow> 'e host_state \<Rightarrow> bool" where
  "same_log s s' \<longleftrightarrow> rt_pending_log_size (host_runtime s') = rt_pending_log_size (host_runtime s) \<and>
     rt_pending_log (host_runtime s') = rt_pending_log (host_runtime s)"

lemma same_log_effect:
  assumes "host_effect call s s'" "rt_pending_log_size (host_runtime s) \<noteq> 0"
  shows "same_log s s'"
  using assms by (cases rule: host_effect.cases) (auto simp: same_log_def put_timer_def quiet_keeps)

interpretation logging: guest_contract
  "\<lambda>s s'. rt_pending_log_size (host_runtime s) \<noteq> 0 \<longrightarrow> same_log s s'" "\<lambda>_. True"
  by unfold_locales (auto simp: same_log_def quiet_keeps dest: same_log_effect)

subsection \<open>One entry\<close>

definition enter_guest :: "u64 \<Rightarrow> 'e host_state \<Rightarrow> 'e host_state" where
  "enter_guest deadline s = with_runtime (\<lambda>rt. rt\<lparr>rt_entry_deadline_ms := deadline,
     rt_entry_expired := False, rt_guest_active := True\<rparr>) s"

definition leave_guest :: "'e host_state \<Rightarrow> 'e host_state" where
  "leave_guest = with_runtime (\<lambda>rt. rt\<lparr>rt_guest_active := False\<rparr>)"

definition entry_deadline :: "u64 \<Rightarrow> 'e host_state \<Rightarrow> u64" where
  "entry_deadline began_ms s = began_ms + ucast (max_entry_duration_ms (rt_limits (host_runtime s)))"

text \<open>The guest has run: the entry began at \<open>began_ms\<close> and its run left the state \<open>s1\<close>.\<close>

definition guest_ran :: "('e, 'm) runtime_api \<Rightarrow> 'e host_state \<Rightarrow> u64 \<Rightarrow> bool \<Rightarrow> u32 \<Rightarrow> 'e host_state \<Rightarrow> bool" where
  "guest_ran api s began_ms ok argument s1 \<longleftrightarrow> (\<exists>sc s0 environment function budget arguments e.
     monotonic_ms api s = (Some began_ms, sc) \<and>
     began_ms \<le> 0xFFFFFFFFFFFFFFFF - ucast (max_entry_duration_ms (rt_limits (host_runtime s))) \<and>
     quiet (enter_guest (entry_deadline began_ms s) sc) s0 \<and>
     run_guest api (own_instance s) (fst (wamr_call_wasm api environment function budget arguments e)) s0 =
       ((ok, argument), s1))"

text \<open>
  The course of \<open>invoke\<close>: the clock fails before the entry, or the guest runs and the entry ends
  in one of three ways.
\<close>

inductive invoked :: "('e, 'm) runtime_api \<Rightarrow> 'e host_state \<Rightarrow> runtime_result + 32 word \<Rightarrow>
    'e host_state \<Rightarrow> bool" for api s where
  no_clock: "quiet s sc \<Longrightarrow> invoked api s (Inl RUNTIME_ENGINE_FAILURE) (fail_runtime sc)"
| expired: "guest_ran api s began_ms ok argument s1 \<Longrightarrow> quiet (leave_guest s1) s2 \<Longrightarrow>
    invoked api s (Inl RUNTIME_ENTRY_EXPIRED) (expire_entry (rt_pending_log_size (host_runtime s)) s2)"
| failed: "guest_ran api s began_ms ok argument s1 \<Longrightarrow> quiet (leave_guest s1) s2 \<Longrightarrow>
    status \<in> {RUNTIME_INSTRUCTION_LIMIT, RUNTIME_ENGINE_FAILURE} \<Longrightarrow>
    invoked api s (Inl status) (fail_runtime s2)"
| returned: "guest_ran api s began_ms True argument s1 \<Longrightarrow>
    \<not> rt_entry_expired (host_runtime s1) \<Longrightarrow> exceptions s1 (own_instance s) = None \<Longrightarrow>
    monotonic_ms api (leave_guest s1) = (Some ended_ms, s2) \<Longrightarrow>
    ended_ms < rt_entry_deadline_ms (host_runtime s1) \<Longrightarrow>
    invoked api s (Inr argument) s2"

inductive_cases invoked_OK: "invoked api s (Inr result) s'"
inductive_cases invoked_error: "invoked api s (Inl status) s'"

lemma invoke_invoked:
  assumes "invoke api function budget arguments s = (r, s')"
  shows "invoked api s r s'"
proof -
  obtain now sc where c: "monotonic_ms api s = (now, sc)" by fastforce
  note same = quiet_keeps [OF quiet_clock [OF c]]
  let ?limit = "ucast (max_entry_duration_ms (rt_limits (host_runtime s))) :: u64"
  show ?thesis
  proof (cases "\<exists>began_ms. now = Some began_ms \<and> \<not> began_ms > 0xFFFFFFFFFFFFFFFF - ?limit")
    case False
    then have "r = Inl RUNTIME_ENGINE_FAILURE" "s' = fail_runtime sc"
      using assms c by (auto simp: invoke_def same split: option.splits if_splits)
    then show ?thesis using invoked.no_clock [OF quiet_clock [OF c]] by simp
  next
    case True
    then obtain began_ms where b: "now = Some began_ms" "\<not> began_ms > 0xFFFFFFFFFFFFFFFF - ?limit" by blast
    let ?e = "clear_exception (own_instance s) (enter_guest (entry_deadline began_ms s) sc)"
    let ?call = "wamr_call_wasm api (rt_environment (host_runtime ?e)) function budget arguments"
    obtain run s0 where run: "from_platform ?call ?e = (run, s0)" by fastforce
    have q0: "quiet (enter_guest (entry_deadline began_ms s) sc) s0"
      by (rule quiet_trans [OF quiet_clear quiet_from_platform [OF run]])
    have fst_run: "run = fst (?call (platform ?e))"
      using run by (auto simp: from_platform_def split: prod.splits)
    obtain ok argument s1 where s1: "run_guest api (own_instance s) run s0 = ((ok, argument), s1)"
      by (metis prod.exhaust)
    have ran: "guest_ran api s began_ms ok argument s1"
      using c [unfolded b(1)] b(2) [unfolded not_less] q0 s1 [unfolded fst_run]
      unfolding guest_ran_def by blast
    obtain ended s2 where e: "monotonic_ms api (leave_guest s1) = (ended, s2)" by fastforce
    note q2 = quiet_clock [OF e]
    have body: "(r, s') =
        (if rt_entry_expired (host_runtime s1)
         then (Inl RUNTIME_ENTRY_EXPIRED, expire_entry (rt_pending_log_size (host_runtime s)) (leave_guest s1))
         else if \<not> ok
         then (Inl (if exceptions s1 (own_instance s) = Some ''Exception: instruction limit exceeded''
                    then RUNTIME_INSTRUCTION_LIMIT else RUNTIME_ENGINE_FAILURE), fail_runtime (leave_guest s1))
         else if exceptions s1 (own_instance s) \<noteq> None
         then (Inl RUNTIME_ENGINE_FAILURE, fail_runtime (leave_guest s1))
         else case ended of None \<Rightarrow> (Inl RUNTIME_ENGINE_FAILURE, fail_runtime s2)
         | Some ended_ms \<Rightarrow> if ended_ms \<ge> rt_entry_deadline_ms (host_runtime s1)
             then (Inl RUNTIME_ENTRY_EXPIRED, expire_entry (rt_pending_log_size (host_runtime s)) s2)
             else (Inr argument, s2))"
      using assms c b run s1 e
      by (simp add: invoke_def Let_def same enter_guest_def entry_deadline_def leave_guest_def
          quiet_keeps(12) [OF q2, unfolded leave_guest_def] cong: if_cong option.case_cong)
    then show ?thesis
      using invoked.expired [OF ran quiet_refl] invoked.expired [OF ran q2]
        invoked.failed [OF ran quiet_refl] invoked.failed [OF ran q2]
        invoked.returned [of api s began_ms argument s1 _ s2] ran e
      by (auto split: if_splits option.splits)
  qed
qed

end
