(* ===== verification/Runtime_Calls.thy ===== *)
theory Runtime_Calls
  imports Runtime_Invariant
begin

text \<open>
  The invariant, the retired handles and the lifecycle over every call of the interface, from the
  facts about host calls that the locale \<open>guest_contract\<close> carries over an entry.
\<close>

subsection \<open>One entry\<close>

definition config :: "'e host_state \<Rightarrow> runtime_limits \<times> string list \<times> nat option \<times> nat option \<times> bool \<times> bool" where
  "config s = (let rt = host_runtime s in (rt_limits rt, rt_native_symbols rt, rt_instance rt,
     rt_environment rt, rt_stopping rt, runtime_claimed s))"

lemma config_kept: "kept s' = kept s \<Longrightarrow> config s' = config s"
  unfolding config_def Let_def by (simp add: kept_fields [of s' s])

lemma config_quiet: "quiet s s' \<Longrightarrow> config s' = config s"
  by (rule config_kept [OF kept_quiet])

lemma config_simps [simp]:
  "config (fail_runtime s) = config s" "config (leave_guest s) = config s"
  "config (enter_guest d s) = config s" "config (cancel_all s) = config s"
  "config (expire_entry n s) = config s" "config (set_state q s) = config s"
  "config (put_timer i timer s) = config s" "config (end_call s) = config s"
  "config (s\<lparr>platform := e\<rparr>) = config s"
  by (simp_all add: config_def Let_def fail_runtime_def leave_guest_def enter_guest_def cancel_all_def
      expire_entry_def set_state_def put_timer_def end_call_def)

lemma config_fields:
  assumes "config s' = config s"
  shows "rt_limits (host_runtime s') = rt_limits (host_runtime s)"
    "rt_native_symbols (host_runtime s') = rt_native_symbols (host_runtime s)"
    "rt_instance (host_runtime s') = rt_instance (host_runtime s)"
    "rt_environment (host_runtime s') = rt_environment (host_runtime s)"
    "rt_stopping (host_runtime s') = rt_stopping (host_runtime s)"
    "runtime_claimed s' = runtime_claimed s"
  using assms by (simp_all add: config_def Let_def)

lemma registered_symbols: "registered rt = (\<lambda>call. call_symbol call \<in> set (rt_native_symbols rt))"
  by (rule ext) (simp add: registered_def)

lemma engine_links_config: "config s' = config s \<Longrightarrow> engine_links api (host_runtime s') = engine_links api (host_runtime s)"
  unfolding engine_links_def registered_symbols by (simp add: config_fields [of s' s])

text \<open>The state of the timers, of the log and of the handles that the boundary of an entry leaves alone.\<close>

lemma boundary_simps [simp]:
  "host_ok (leave_guest s) = host_ok s" "host_ok (enter_guest d s) = host_ok s"
  "host_ok (fail_runtime s) = host_ok s" "host_ok (set_state q s) = host_ok s"
  "host_ok (end_call s) = host_ok s" "host_ok (s\<lparr>platform := e\<rparr>) = host_ok s"
  "retired h (leave_guest s) = retired h s" "retired h (enter_guest d s) = retired h s"
  "retired h (fail_runtime s) = retired h s" "retired h (set_state q s) = retired h s"
  "retired h (end_call s) = retired h s" "retired h (s\<lparr>platform := e\<rparr>) = retired h s"
  "quiesced (leave_guest s) = quiesced s" "quiesced (enter_guest d s) = quiesced s"
  "quiesced (fail_runtime s) = quiesced s" "quiesced (set_state q s) = quiesced s"
  "quiesced (s\<lparr>platform := e\<rparr>) = quiesced s"
  by (simp_all add: host_ok_def log_ok_def retired_def live_handle_def quiesced_def no_timers_def Let_def
      leave_guest_def enter_guest_def fail_runtime_def set_state_def end_call_def)

lemma host_ok_claim [simp]: "host_ok (with_runtime (rt_call_active_update (\<lambda>_. b)) s) = host_ok s"
  "host_ok (with_runtime (rt_stopping_update (\<lambda>_. b)) s) = host_ok s"
  by (simp_all add: host_ok_def log_ok_def Let_def)

lemma retired_claim [simp]: "retired h (with_runtime (rt_call_active_update (\<lambda>_. b)) s) = retired h s"
  "retired h (with_runtime (rt_stopping_update (\<lambda>_. b)) s) = retired h s"
  "retired h (with_runtime (rt_pending_log_size_update (\<lambda>_. n)) s) = retired h s"
  by (simp_all add: retired_def live_handle_def)

lemma host_ok_cancel: "host_ok s \<Longrightarrow> host_ok (cancel_all s)"
  using max_timers_bound [of s]
  by (simp add: host_ok_def cancel_all_def log_ok_def Let_def timers_ok_deactivate)

lemma host_ok_log_size:
  "host_ok s \<Longrightarrow> n = 0 \<or> n \<le> unat (max_log_bytes (rt_limits (host_runtime s))) \<and>
     ''log'' \<in> set (rt_native_symbols (host_runtime s)) \<Longrightarrow>
   host_ok (with_runtime (rt_pending_log_size_update (\<lambda>_. n)) s)"
  by (auto simp: host_ok_def log_ok_def Let_def)

lemma cancelled_timer:
  assumes "n \<le> length timers" "timer \<in> set (cancel_timers n timers)" "tm_active timer"
  shows "timer \<in> set timers"
proof -
  obtain i where "i < length timers" "timer = cancel_timers n timers ! i"
    using assms(2) by (auto simp: in_set_conv_nth)
  with assms(1,3) show ?thesis by (auto simp: cancel_timers_nth split: if_splits)
qed

lemma retired_cancel: "host_ok s \<Longrightarrow> retired h s \<Longrightarrow> retired h (cancel_all s)"
  using max_timers_bound [of s] host_ok_timers [of s]
    cancelled_timer [of "unat (max_timers (rt_limits (host_runtime s)))" "rt_timers (host_runtime s)"]
  by (auto simp: retired_def live_handle_def cancel_all_def list_ex_iff)

lemma no_timers_cancel: "host_ok s \<Longrightarrow> no_timers (host_runtime (cancel_all s))"
proof -
  assume ok: "host_ok s"
  let ?rt = "host_runtime s" and ?n = "unat (max_timers (rt_limits (host_runtime s)))"
  have "\<not> tm_active (cancel_timers ?n (rt_timers ?rt) ! i)" if "i < TIMER_CAPACITY" for i
    using ok that max_timers_bound [OF ok]
    by (auto simp: cancel_timers_nth host_ok_def timers_ok_def Let_def)
  then show ?thesis using ok
    by (simp add: no_timers_def cancel_all_def list_all_length host_ok_timers)
qed

lemma guest_ran_facts:
  assumes "guest_ran api s began_ms ok argument s1"
  shows "kept s1 = kept (enter_guest (entry_deadline began_ms s) s)"
    and "retired h s \<Longrightarrow> retired h s1" and "quiesced s \<Longrightarrow> quiesced s1"
    and "rt_pending_log_size (host_runtime s) \<noteq> 0 \<Longrightarrow> same_log s s1"
    and "host_ok s \<Longrightarrow> engine_links api (host_runtime s) \<Longrightarrow> host_ok s1"
proof -
  obtain sc s0 environment fn budget arguments e where
    c: "monotonic_ms api s = (Some began_ms, sc)" and
    q: "quiet (enter_guest (entry_deadline began_ms s) sc) s0" and
    run: "run_guest api (own_instance s) (fst (wamr_call_wasm api environment fn budget arguments e)) s0 =
       ((ok, argument), s1)"
    using assms unfolding guest_ran_def by blast
  note qc = quiet_clock [OF c]
  note any = run_calls_any [of "fst (wamr_call_wasm api environment fn budget arguments e)"]
  have k0: "kept s0 = kept (enter_guest (entry_deadline began_ms s) s)"
    using kept_quiet [OF q] qc by (auto simp: quiet_def kept_def enter_guest_def)
  with keeping.run_related [OF any run]
  show k1: "kept s1 = kept (enter_guest (entry_deadline began_ms s) s)" by simp
  show "retired h s \<Longrightarrow> retired h s1"
    using retiring.run_related [OF any run] retired_quiet [OF q] retired_quiet [OF qc] by auto
  show "quiesced s \<Longrightarrow> quiesced s1"
    using quiescing.run_related [OF any run] quiescing.R_quiet [OF q] quiescing.R_quiet [OF qc] by auto
  have same0: "same_log s s0"
    using quiet_keeps [OF q] quiet_keeps [OF qc] by (simp add: same_log_def enter_guest_def)
  show "rt_pending_log_size (host_runtime s) \<noteq> 0 \<Longrightarrow> same_log s s1"
    using logging.run_related [OF any run] same0 by (simp add: same_log_def)
  assume ok: "host_ok s" and links: "engine_links api (host_runtime s)"
  have symbols: "rt_native_symbols (host_runtime s0) = rt_native_symbols (host_runtime s)"
    using quiet_keeps(6) [OF q] quiet_keeps(6) [OF qc] by (simp add: enter_guest_def)
  have "host_ok s0" using ok host_ok_quiet [OF qc] host_ok_quiet [OF q] by simp
  moreover have "run_calls (\<lambda>call. call_symbol call \<in> set (rt_native_symbols (host_runtime s)))
      (fst (wamr_call_wasm api environment fn budget arguments e))"
    using links by (simp add: engine_links_def registered_symbols)
  ultimately show "host_ok s1" using sound.run_related [OF _ run] symbols by metis
qed

lemma guest_ran_config: "guest_ran api s began_ms ok argument s1 \<Longrightarrow> config s1 = config s"
  using config_kept [OF guest_ran_facts(1)] by simp

lemma invoked_config: "invoked api s r s' \<Longrightarrow> config s' = config s"
  by (cases rule: invoked.cases) (auto dest!: guest_ran_config config_quiet quiet_clock)

lemma invoked_call_active:
  "invoked api s r s' \<Longrightarrow> rt_call_active (host_runtime s') = rt_call_active (host_runtime s)"
  by (cases rule: invoked.cases)
    (auto dest!: kept_fields(6) [OF guest_ran_facts(1)] quiet_keeps(9) [OF quiet_clock] quiet_keeps(9)
      simp: fail_runtime_def expire_entry_def cancel_all_def leave_guest_def enter_guest_def)

lemma invoked_guest_active:
  "invoked api s r s' \<Longrightarrow> \<not> rt_guest_active (host_runtime s) \<Longrightarrow> \<not> rt_guest_active (host_runtime s')"
  by (cases rule: invoked.cases)
    (auto dest!: quiet_keeps(10) [OF quiet_clock] quiet_keeps(10)
      simp: fail_runtime_def expire_entry_def cancel_all_def leave_guest_def enter_guest_def)

lemma invoked_state:
  "invoked api s r s' \<Longrightarrow> rt_state (host_runtime s') =
     (case r of Inl _ \<Rightarrow> RUNTIME_FAILED | Inr _ \<Rightarrow> rt_state (host_runtime s))"
  by (cases rule: invoked.cases)
    (auto dest!: kept_fields(2) [OF guest_ran_facts(1)] quiet_keeps(2) [OF quiet_clock]
      simp: fail_runtime_def expire_entry_def cancel_all_def leave_guest_def enter_guest_def)

lemma invoked_status:
  "invoked api s (Inl status) s' \<Longrightarrow>
     status \<in> {RUNTIME_ENGINE_FAILURE, RUNTIME_INSTRUCTION_LIMIT, RUNTIME_ENTRY_EXPIRED}"
  by (erule invoked_error) auto

lemma invoked_host_ok:
  assumes "invoked api s r s'" "host_ok s" "engine_links api (host_runtime s)"
  shows "host_ok s'"
  using assms(1)
proof (cases rule: invoked.cases)
  case (no_clock sc) then show ?thesis using assms(2) host_ok_quiet by auto
next
  case (expired began_ms ok argument s1 s2)
  have ok2: "host_ok s2"
    using guest_ran_facts(5) [OF expired(3)] assms(2,3) host_ok_quiet [OF expired(4)] by simp
  have "config s2 = config s"
    using guest_ran_config [OF expired(3)] config_quiet [OF expired(4)] by simp
  then have "host_ok (with_runtime (rt_pending_log_size_update (\<lambda>_. rt_pending_log_size (host_runtime s))) s2)"
    using assms(2) by (intro host_ok_log_size [OF ok2])
      (auto simp: host_ok_def log_ok_def Let_def config_fields [of s2 s])
  then have "host_ok (with_runtime (\<lambda>rt. rt\<lparr>rt_state := RUNTIME_FAILED,
      rt_pending_log_size := rt_pending_log_size (host_runtime s)\<rparr>) s2)"
    by (simp add: host_ok_def log_ok_def Let_def)
  then show ?thesis unfolding expired expire_entry_def by (rule host_ok_cancel)
next
  case (failed began_ms ok argument s1 s2 status)
  then show ?thesis
    using guest_ran_facts(5) [OF failed(3)] assms(2,3) host_ok_quiet [OF failed(4)] by simp
next
  case (returned began_ms argument s1 ended_ms)
  then show ?thesis
    using guest_ran_facts(5) [OF returned(2)] assms(2,3) host_ok_quiet [OF quiet_clock [OF returned(5)]]
    by simp
qed

lemma retired_expire: "host_ok s \<Longrightarrow> retired h s \<Longrightarrow> retired h (expire_entry n s)"
  using max_timers_bound [of s] host_ok_timers [of s]
    cancelled_timer [of "unat (max_timers (rt_limits (host_runtime s)))" "rt_timers (host_runtime s)"]
  by (auto simp: retired_def live_handle_def expire_entry_def cancel_all_def list_ex_iff)

lemma invoked_retired:
  assumes "invoked api s r s'" "host_ok s" "engine_links api (host_runtime s)" "retired h s"
  shows "retired h s'"
  using assms(1)
proof (cases rule: invoked.cases)
  case (no_clock sc) then show ?thesis using assms(4) retired_quiet by auto
next
  case (expired began_ms ok argument s1 s2)
  have "host_ok s2"
    using guest_ran_facts(5) [OF expired(3)] assms(2,3) host_ok_quiet [OF expired(4)] by simp
  moreover have "retired h s2"
    using guest_ran_facts(2) [OF expired(3) assms(4)] retired_quiet [OF expired(4)] by simp
  ultimately show ?thesis unfolding expired by (rule retired_expire)
next
  case (failed began_ms ok argument s1 s2 status)
  then show ?thesis
    using guest_ran_facts(2) [OF failed(3) assms(4)] retired_quiet [OF failed(4)] by simp
next
  case (returned began_ms argument s1 ended_ms)
  then show ?thesis
    using guest_ran_facts(2) [OF returned(2) assms(4)] retired_quiet [OF quiet_clock [OF returned(5)]] by simp
qed

lemma invoked_quiesced:
  assumes "invoked api s (Inr v) s'" "quiesced s"
  shows "quiesced s'"
proof -
  obtain began_ms s1 ended_ms where "guest_ran api s began_ms True v s1"
      "monotonic_ms api (leave_guest s1) = (Some ended_ms, s')"
    using assms(1) by (auto elim: invoked_OK)
  then show ?thesis
    using guest_ran_facts(3) [of api s began_ms True v s1] assms(2)
      quiescing.R_quiet [OF quiet_clock [of api "leave_guest s1"]] by auto
qed

subsection \<open>The course of a call\<close>

text \<open>
  What a claimed call does, in terms of entries: it is refused with no more than a quiet step, it
  answers from the state, or it runs one entry.
\<close>

definition no_entry :: "runtime_call \<Rightarrow> runtime_result \<Rightarrow> bool" where
  "no_entry c r \<longleftrightarrow> r \<in> {RUNTIME_INVALID_INPUT, RUNTIME_INVALID_STATE, RUNTIME_BUSY,
     RUNTIME_NO_MEMORY, RUNTIME_NO_LOG, RUNTIME_NO_TIMER} \<or>
     r = RUNTIME_ENGINE_FAILURE \<and> (case c of DO_POLL _ _ _ \<Rightarrow> True | _ \<Rightarrow> False)"

inductive call_course :: "('e, 'm) runtime_api \<Rightarrow> runtime_call \<Rightarrow> 'e host_state \<Rightarrow> runtime_result \<Rightarrow>
    'e host_state \<Rightarrow> bool" for api where
  refused: "quiet s s' \<Longrightarrow> no_entry c r \<Longrightarrow> call_course api c s r s'"
| started: "rt_state (host_runtime s) = RUNTIME_LOADED \<Longrightarrow> invoked api s (Inr 0) s1 \<Longrightarrow>
    call_course api (DO_INIT True) s RUNTIME_OK (set_state RUNTIME_RUNNING s1)"
| start_failed: "rt_state (host_runtime s) = RUNTIME_LOADED \<Longrightarrow> invoked api s q s1 \<Longrightarrow>
    q = Inl r \<or> (\<exists>v. q = Inr v \<and> v \<noteq> 0 \<and> r = RUNTIME_GUEST_FAILURE) \<Longrightarrow>
    call_course api (DO_INIT True) s r (cancel_all (fail_runtime s1))"
| event: "rt_state (host_runtime s) = RUNTIME_RUNNING \<Longrightarrow> quiet s sa \<Longrightarrow> invoked api sa q s1 \<Longrightarrow> quiet s1 s' \<Longrightarrow>
    call_course api (DO_EVENT True ev n True) s (code_of q) s'"
| stopped: "rt_state (host_runtime s) = RUNTIME_RUNNING \<Longrightarrow>
    invoked api (cancel_all (with_runtime (\<lambda>rt. rt\<lparr>rt_stopping := True\<rparr>) s)) (Inr 0) s1 \<Longrightarrow>
    call_course api (DO_STOP True) s RUNTIME_OK (set_state RUNTIME_STOPPED s1)"
| stop_failed: "rt_state (host_runtime s) = RUNTIME_RUNNING \<Longrightarrow>
    invoked api (cancel_all (with_runtime (\<lambda>rt. rt\<lparr>rt_stopping := True\<rparr>) s)) q s1 \<Longrightarrow>
    q = Inl r \<or> (\<exists>v. q = Inr v \<and> v \<noteq> 0 \<and> r = RUNTIME_GUEST_FAILURE) \<Longrightarrow>
    call_course api (DO_STOP True) s r (fail_runtime s1)"
| already_stopped: "rt_state (host_runtime s) = RUNTIME_STOPPED \<Longrightarrow>
    call_course api (DO_STOP True) s RUNTIME_OK s"
| log_taken: "rt_pending_log_size (host_runtime s) \<noteq> 0 \<Longrightarrow>
    s' = with_runtime (rt_pending_log_size_update (\<lambda>_. 0)) s \<Longrightarrow>
    call_course api (DO_TAKE_LOG True output True) s RUNTIME_OK s'"
| deadline: "rt_state (host_runtime s) = RUNTIME_RUNNING \<Longrightarrow>
    call_course api (DO_DEADLINE True True) s RUNTIME_OK s"
| timer: "rt_state (host_runtime s) = RUNTIME_RUNNING \<Longrightarrow> monotonic_ms api s = (Some now_ms, sc) \<Longrightarrow>
    due_timer (host_runtime sc) now_ms = Some index \<Longrightarrow>
    quiet (put_timer index (fst (advance_timer now_ms (rt_timers (host_runtime sc) ! index))) sc) sa \<Longrightarrow>
    invoked api sa q s1 \<Longrightarrow> quiet s1 s' \<Longrightarrow>
    call_course api (DO_POLL True True True) s (code_of q) s'"

definition claimed_call :: "'e host_state \<Rightarrow> 'e host_state" where
  "claimed_call = with_runtime (\<lambda>rt. rt\<lparr>rt_call_active := True\<rparr>)"

lemma with_claim_cases:
  assumes "with_claim body s = (r, s')"
  obtains (busy) "rt_call_active (host_runtime s)" "r = Inl RUNTIME_BUSY" "s' = s"
    | (claimed) s1 where "\<not> rt_call_active (host_runtime s)" "body (claimed_call s) = (r, s1)" "s' = end_call s1"
  using assms by (auto simp: with_claim_def claim_call_def claimed_call_def split: if_splits prod.splits)

lemma free_event_quiet: "quiet s (free_event api offset s)"
  by (simp add: free_event_def)

lemma copy_event_quiet: "copy_event api ev n s = (r, s') \<Longrightarrow>
    quiet s s' \<and> (case r of Inl status \<Rightarrow> status = RUNTIME_NO_MEMORY \<and> (\<exists>e. s' = s\<lparr>platform := e\<rparr>) | Inr _ \<Rightarrow> True)"
  by (auto simp: copy_event_def from_platform_def free_event_def split: option.splits if_splits prod.splits)

lemma call_event_cases:
  assumes "call_event api ev n out s = (r, s')"
  obtains (refused) status e where "r = Inl status" "status = RUNTIME_INVALID_INPUT \<or> status = RUNTIME_NO_MEMORY"
      "s' = s\<lparr>platform := e\<rparr>"
    | (entered) sa s1 where "out" "quiet s sa" "invoked api sa r s1" "quiet s1 s'"
proof (cases "\<not> out \<or> n > unat (max_event_bytes (rt_limits (host_runtime s))) \<or> n > 0 \<and> ev = None")
  case True
  then have "r = Inl RUNTIME_INVALID_INPUT" "s' = s\<lparr>platform := platform s\<rparr>"
    using assms by (auto simp: call_event_def Let_def)
  then show ?thesis using refused by blast
next
  case False
  obtain q sa where copy: "copy_event api ev n s = (q, sa)" by fastforce
  show ?thesis
  proof (cases q)
    case (Inl status)
    with copy_event_quiet [OF copy] False assms copy show ?thesis
      using refused by (auto simp: call_event_def Let_def)
  next
    case (Inr offset)
    obtain fn budget args where "(case invoke api fn budget args sa of (r, s) \<Rightarrow> (r, free_event api offset s)) = (r, s')"
      using assms False copy Inr by (auto simp: call_event_def Let_def)
    then obtain s1 where "invoke api fn budget args sa = (r, s1)" "s' = free_event api offset s1"
      by (auto split: prod.splits)
    then show ?thesis
      using entered copy_event_quiet [OF copy] False invoke_invoked free_event_quiet by blast
  qed
qed

lemma no_entry_simps [simp]: "no_entry c RUNTIME_INVALID_INPUT" "no_entry c RUNTIME_INVALID_STATE"
  "no_entry c RUNTIME_BUSY" "no_entry c RUNTIME_NO_MEMORY" "no_entry c RUNTIME_NO_LOG"
  "no_entry c RUNTIME_NO_TIMER" "no_entry (DO_POLL a b d) RUNTIME_ENGINE_FAILURE" "\<not> no_entry c RUNTIME_OK"
  by (simp_all add: no_entry_def)

lemma refused_course: "no_entry c r \<Longrightarrow> call_course api c s r s"
  by (rule call_course.refused [OF quiet_refl])

lemma code_of_simps [simp]: "code_of (Inl status) = status" "code_of (Inr x) = RUNTIME_OK"
  by (simp_all add: code_of_def)

lemma invoked_code:
  "invoked api s q s1 \<Longrightarrow> code_of q \<in> {RUNTIME_OK, RUNTIME_ENGINE_FAILURE, RUNTIME_INSTRUCTION_LIMIT, RUNTIME_ENTRY_EXPIRED}"
  by (cases q) (auto dest: invoked_status)

lemma invoked_failed_state: "invoked api s (Inl status) s1 \<Longrightarrow> fail_runtime s1 = s1"
  by (drule invoked_state) (simp add: fail_runtime_def)

lemma init_course:
  assumes "init_entry api s = (r, s')"
  shows "call_course api (DO_INIT True) s (code_of r) s'"
proof (cases "rt_state (host_runtime s) = RUNTIME_LOADED")
  case False then show ?thesis using assms by (auto simp: init_entry_def Let_def intro: refused_course)
next
  case True
  obtain q s1 where q: "invoke api (rt_init_function (host_runtime s))
      (init_instruction_budget (rt_limits (host_runtime s))) [] s = (q, s1)" by fastforce
  note i = invoke_invoked [OF q]
  show ?thesis
  proof (cases q)
    case (Inl status)
    then show ?thesis
      using assms True q call_course.start_failed [OF True i, of status] invoked_failed_state [of api s status s1] i
      by (auto simp: init_entry_def)
  next
    case (Inr v)
    then show ?thesis
      using assms True q i call_course.start_failed [OF True i, of RUNTIME_GUEST_FAILURE]
        call_course.started [OF True, of api s1]
      by (auto simp: init_entry_def split: if_splits)
  qed
qed

lemma stop_course:
  assumes "stop_entry api s = (r, s')"
  shows "call_course api (DO_STOP True) s (code_of r) s'"
proof (cases "rt_state (host_runtime s) = RUNTIME_RUNNING")
  case False
  then show ?thesis
    using assms by (auto simp: stop_entry_def Let_def split: if_splits intro: refused_course call_course.already_stopped)
next
  case True
  let ?s = "cancel_all (with_runtime (\<lambda>rt. rt\<lparr>rt_stopping := True\<rparr>) s)"
  obtain q s1 where q: "invoke api (rt_stop_function (host_runtime s))
      (stop_instruction_budget (rt_limits (host_runtime s))) [] ?s = (q, s1)" by fastforce
  note i = invoke_invoked [OF q]
  show ?thesis
  proof (cases q)
    case (Inl status)
    then show ?thesis
      using assms True q call_course.stop_failed [OF True i, of status] invoked_failed_state [of api ?s status s1] i
      by (auto simp: stop_entry_def)
  next
    case (Inr v)
    then show ?thesis
      using assms True q i call_course.stop_failed [OF True i, of RUNTIME_GUEST_FAILURE]
        call_course.stopped [OF True, of api s1]
      by (auto simp: stop_entry_def split: if_splits)
  qed
qed

lemma event_course:
  assumes "event_entry api ev n out s = (r, s')"
  shows "call_course api (DO_EVENT True ev n out) s (code_of r) s'"
proof (cases "rt_state (host_runtime s) = RUNTIME_RUNNING \<and> \<not> timer_prefixed ev n")
  case False
  then show ?thesis using assms by (auto simp: event_entry_def split: if_splits intro: refused_course)
next
  case True
  then have "call_event api ev n out s = (r, s')" using assms by (simp add: event_entry_def)
  then show ?thesis
  proof (cases rule: call_event_cases)
    case (refused status e)
    then show ?thesis by (auto intro!: call_course.refused)
  next
    case (entered sa s1)
    then show ?thesis using True call_course.event [of s sa api r s1 s' ev n] by simp
  qed
qed

lemma log_course:
  assumes "log_entry output s = (r, s')" and ok: "host_ok s"
  shows "call_course api (DO_TAKE_LOG True output True) s (code_of r) s'"
proof (cases r)
  case (Inl status)
  then show ?thesis
    using assms by (auto simp: log_entry_def Let_def split: if_splits option.splits intro: refused_course)
next
  case (Inr log)
  have size: "rt_pending_log_size (host_runtime s) \<noteq> 0"
    using assms Inr by (auto simp: log_entry_def Let_def split: if_splits)
  have "''log'' \<in> set (rt_native_symbols (host_runtime s))" using ok size by (simp add: host_ok_def log_ok_def Let_def)
  then obtain buffer where "rt_pending_log (host_runtime s) = Some buffer"
      "rt_pending_log_size (host_runtime s) \<le> length buffer" "\<not> host_fault s"
    using ok by (auto simp: host_ok_def log_ok_def Let_def)
  then have "s' = with_runtime (rt_pending_log_size_update (\<lambda>_. 0)) s"
    using assms Inr by (auto simp: log_entry_def Let_def split: if_splits option.splits)
  then show ?thesis using Inr call_course.log_taken [OF size] by simp
qed

lemma deadline_course:
  "deadline_entry s = (r, s') \<Longrightarrow> call_course api (DO_DEADLINE True True) s (code_of r) s'"
  by (auto simp: deadline_entry_def Let_def split: if_splits intro: refused_course call_course.deadline)

lemma due_fold:
  fixes timers :: "container_timer list" and now_ms :: u64
  defines "due \<equiv> \<lambda>i. tm_active (timers ! i) \<and> tm_deadline_ms (timers ! i) \<le> now_ms \<and>
    tm_deadline_ms (timers ! i) < 0xFFFFFFFFFFFFFFFF"
  shows "case fold (\<lambda>index (selected, earliest).
       let timer = timers ! index in
       if tm_active timer \<and> tm_deadline_ms timer \<le> now_ms \<and> tm_deadline_ms timer < earliest
       then (Some index, tm_deadline_ms timer) else (selected, earliest)) [0..<n] (None, 0xFFFFFFFFFFFFFFFF)
    of (None, earliest) \<Rightarrow> earliest = 0xFFFFFFFFFFFFFFFF \<and> (\<forall>i < n. \<not> due i)
     | (Some k, earliest) \<Rightarrow> k < n \<and> due k \<and> earliest = tm_deadline_ms (timers ! k) \<and>
         (\<forall>i < n. due i \<longrightarrow> earliest \<le> tm_deadline_ms (timers ! i)) \<and>
         (\<forall>i < k. due i \<longrightarrow> earliest < tm_deadline_ms (timers ! i))"
proof (induction n)
  case 0 then show ?case by simp
next
  case (Suc n)
  then show ?case
    by (auto simp: due_def Let_def less_Suc_eq not_less split: prod.splits option.splits if_splits)
qed

lemma due_timer_Some:
  assumes "due_timer rt now_ms = Some k"
  shows "k < unat (max_timers (rt_limits rt)) \<and> tm_active (rt_timers rt ! k) \<and>
    tm_deadline_ms (rt_timers rt ! k) \<le> now_ms"
  using due_fold [where timers = "rt_timers rt" and now_ms = now_ms and n = "unat (max_timers (rt_limits rt))"] assms
  by (auto simp: due_timer_def split: prod.splits option.splits)

lemma timer_event_fits:
  assumes "host_ok s" "i < unat (max_timers (rt_limits (host_runtime s)))"
  shows "16 \<le> unat (max_event_bytes (rt_limits (host_runtime s)))"
  using assms by (auto simp: host_ok_def limits_valid_def Let_def word_le_nat_alt split: if_splits)

lemma call_event_fits:
  "n \<le> unat (max_event_bytes (rt_limits (host_runtime s))) \<Longrightarrow>
   call_event api (Some b) n True s \<noteq> (Inl RUNTIME_INVALID_INPUT, s')"
proof
  assume n: "n \<le> unat (max_event_bytes (rt_limits (host_runtime s)))"
    and r: "call_event api (Some b) n True s = (Inl RUNTIME_INVALID_INPUT, s')"
  then have no: "\<not> (n > unat (max_event_bytes (rt_limits (host_runtime s))))" by simp
  obtain q sa where copy: "copy_event api (Some b) n s = (q, sa)" by fastforce
  show False
  proof (cases q)
    case (Inl status) then show ?thesis using copy_event_quiet [OF copy] r no copy by (auto simp: call_event_def Let_def)
  next
    case (Inr offset)
    then show ?thesis using r no copy
      by (auto simp: call_event_def Let_def split: prod.splits dest!: invoke_invoked invoked_status)
  qed
qed

lemma poll_course:
  assumes "poll_entry api s = (r, s')" and ok: "host_ok s"
  shows "call_course api (DO_POLL True True True) s (code_of r) s'"
proof -
  obtain now sc where c: "monotonic_ms api s = (now, sc)" by fastforce
  note qc = quiet_clock [OF c]
  show ?thesis
  proof (cases "rt_state (host_runtime s) = RUNTIME_RUNNING \<and>
      (\<exists>now_ms index. now = Some now_ms \<and> due_timer (host_runtime sc) now_ms = Some index)")
    case False
    then show ?thesis
      using assms c qc
      by (auto simp: poll_entry_def split: if_splits option.splits
          intro: refused_course call_course.refused)
  next
    case True
    then obtain now_ms index where d: "rt_state (host_runtime s) = RUNTIME_RUNNING" "now = Some now_ms"
        "due_timer (host_runtime sc) now_ms = Some index" by blast
    let ?previous = "rt_timers (host_runtime sc) ! index"
    obtain timer skipped where a: "advance_timer now_ms ?previous = (timer, skipped)" by fastforce
    let ?put = "put_timer index timer sc"
    obtain q s1 where call: "call_event api (Some (timer_event_bytes (tm_handle ?previous) skipped)) 16 True ?put = (q, s1)"
      by fastforce
    have body: "code_of r = code_of q"
        "s' = (if q = Inl RUNTIME_NO_MEMORY then put_timer index ?previous s1 else s1)"
      using assms c d a call by (auto simp: poll_entry_def deliver_timer_def Let_def split: sum.splits)
    from call show ?thesis
    proof (cases rule: call_event_cases)
      case (refused status e)
      have "index < unat (max_timers (rt_limits (host_runtime sc)))" using due_timer_Some [OF d(3)] by simp
      from timer_event_fits [OF host_ok_quiet [OF qc ok] this]
      have "16 \<le> unat (max_event_bytes (rt_limits (host_runtime ?put)))" by (simp add: put_timer_def)
      from call_event_fits [OF this] call have "q \<noteq> Inl RUNTIME_INVALID_INPUT" by metis
      with refused have q: "q = Inl RUNTIME_NO_MEMORY" by auto
      then have "s' = sc\<lparr>platform := e\<rparr>" using body refused by (simp add: put_timer_def)
      then have "quiet s s'" using quiet_trans [OF qc quiet_platform] by simp
      then show ?thesis using body q by (auto intro: call_course.refused)
    next
      case (entered sa s2)
      have "q \<noteq> Inl RUNTIME_NO_MEMORY" using invoked_code [OF entered(3)] by auto
      then show ?thesis
        using body call_course.timer [OF d(1) c [unfolded d(2)] d(3), of sa q s2 s1] entered a by simp
    qed
  qed
qed

lemma claimed_call_simps [simp]: "host_ok (claimed_call s) = host_ok s" "config (claimed_call s) = config s"
  "retired h (claimed_call s) = retired h s"
  "rt_state (host_runtime (claimed_call s)) = rt_state (host_runtime s)"
  by (simp_all add: claimed_call_def config_def Let_def)

text \<open>Every call of the interface is refused before the claim, or follows the course of a claimed call.\<close>

theorem runtime_step_course:
  assumes "runtime_step api c s = (r, s')" and ok: "host_ok s"
  obtains (refused) "no_entry c r" "s' = s" "r \<in> {RUNTIME_INVALID_INPUT, RUNTIME_INVALID_STATE, RUNTIME_BUSY}"
    | (claimed) s1 where "\<not> rt_call_active (host_runtime s)" "call_course api c (claimed_call s) r s1" "s' = end_call s1"
proof -
  have gate: thesis if "with_claim body s = (q, s')" "code_of q = r"
      "\<And>r' s1. body (claimed_call s) = (r', s1) \<Longrightarrow> call_course api c (claimed_call s) (code_of r') s1"
    for body :: "('a host_state, runtime_result, 'c) act" and q
    using that(1) by (cases rule: with_claim_cases) (use that(2,3) refused claimed in auto)
  have ok': "host_ok (claimed_call s)" using ok by simp
  show thesis
  proof (cases c)
    case (DO_INIT rt)
    show ?thesis
    proof (cases rt)
      case False then show ?thesis using assms(1) refused DO_INIT by (auto simp: econtainer_runtime_init_def)
    next
      case True
      then show ?thesis using assms(1) DO_INIT gate [of "init_entry api"] init_course
        by (auto simp: econtainer_runtime_init_def map_prod_def split: prod.splits)
    qed
  next
    case (DO_EVENT rt ev n out)
    show ?thesis
    proof (cases rt)
      case False then show ?thesis using assms(1) refused DO_EVENT by (auto simp: econtainer_runtime_on_event_def)
    next
      case True
      then show ?thesis using assms(1) DO_EVENT gate [of "event_entry api ev n out"] event_course [of api ev n out "claimed_call s"]
        by (auto simp: econtainer_runtime_on_event_def map_prod_def split: prod.splits)
    qed
  next
    case (DO_STOP rt)
    show ?thesis
    proof (cases rt)
      case False then show ?thesis using assms(1) refused DO_STOP by (auto simp: econtainer_runtime_stop_def)
    next
      case True
      then show ?thesis using assms(1) DO_STOP gate [of "stop_entry api"] stop_course
        by (auto simp: econtainer_runtime_stop_def map_prod_def split: prod.splits)
    qed
  next
    case (DO_TAKE_LOG rt dest out)
    show ?thesis
    proof (cases "rt \<and> out")
      case False then show ?thesis using assms(1) refused DO_TAKE_LOG by (auto simp: econtainer_runtime_take_log_def)
    next
      case True
      then show ?thesis using assms(1) DO_TAKE_LOG gate [of "log_entry dest"] log_course [of dest "claimed_call s"] ok'
        by (auto simp: econtainer_runtime_take_log_def map_prod_def split: prod.splits)
    qed
  next
    case (DO_DEADLINE rt out)
    show ?thesis
    proof (cases "rt \<and> out")
      case False
      then show ?thesis using assms(1) refused DO_DEADLINE by (auto simp: econtainer_runtime_next_timer_deadline_def)
    next
      case True
      then show ?thesis using assms(1) DO_DEADLINE gate [of deadline_entry] deadline_course [of "claimed_call s"]
        by (auto simp: econtainer_runtime_next_timer_deadline_def map_prod_def split: prod.splits)
    qed
  next
    case (DO_POLL rt ev out)
    show ?thesis
    proof (cases "rt \<and> ev \<and> out")
      case False then show ?thesis using assms(1) refused DO_POLL by (auto simp: econtainer_runtime_poll_timer_def)
    next
      case True
      then show ?thesis using assms(1) DO_POLL gate [of "poll_entry api"] poll_course [of api "claimed_call s"] ok'
        by (auto simp: econtainer_runtime_poll_timer_def map_prod_def split: prod.splits)
    qed
  qed
qed

end
