(* ===== verification/Runtime_Steps.thy ===== *)
theory Runtime_Steps
  imports Runtime_Calls
begin

text \<open>
  The invariant \<open>idle\<close> over every call and every sequence of calls, whatever the guest does; the
  arithmetic of periodic timers; and the lifecycle of an instance as an abstract automaton that
  the calls refine.
\<close>

subsection \<open>Periodic timers\<close>

lemma advance_handle [simp]: "tm_handle (fst (advance_timer now_ms timer)) = tm_handle timer"
  by (simp add: advance_timer_def Let_def)

lemma advance_period [simp]: "tm_period_ms (fst (advance_timer now_ms timer)) = tm_period_ms timer"
  by (simp add: advance_timer_def Let_def)

lemma advance_once: "tm_period_ms timer = 0 \<Longrightarrow> advance_timer now_ms timer = (timer\<lparr>tm_active := False\<rparr>, 0)"
  by (simp add: advance_timer_def)

lemma next_period:
  fixes p d n :: nat
  assumes "0 < p" "d \<le> n"
  shows "n + (p - (n - d) mod p) = d + ((n - d) div p + 1) * p"
proof -
  have "(n - d) mod p < p" "n - d = (n - d) div p * p + (n - d) mod p"
    using assms(1) by (simp_all only: mod_less_divisor div_mult_mod_eq)
  then show ?thesis using assms(2) unfolding add_mult_distrib nat_mult_1 by linarith
qed

lemma advance_periodic:
  assumes due: "tm_deadline_ms timer \<le> now_ms" "unat now_ms \<le> CLOCK_MAX_MS"
    and period: "tm_period_ms timer \<noteq> 0"
  defines "missed \<equiv> (unat now_ms - unat (tm_deadline_ms timer)) div unat (tm_period_ms timer)"
  shows "\<exists>next_ms. advance_timer now_ms timer = (timer\<lparr>tm_deadline_ms := next_ms\<rparr>,
      of_nat (min missed 4294967295)) \<and>
    unat next_ms = unat (tm_deadline_ms timer) + (missed + 1) * unat (tm_period_ms timer)"
proof -
  let ?d = "unat (tm_deadline_ms timer)" and ?n = "unat now_ms" and ?p = "unat (tm_period_ms timer)"
  let ?late = "now_ms - tm_deadline_ms timer" and ?P = "ucast (tm_period_ms timer) :: u64"
  let ?until = "tm_period_ms timer - ucast (?late mod ?P)"
  have p: "0 < ?p" "?p < 4294967296" using period unat_u32_lt by (simp_all add: unat_gt_0)
  have dn: "?d \<le> ?n" using due(1) by (simp add: word_le_nat_alt)
  have late: "unat ?late = ?n - ?d" by (rule unat_sub [OF due(1)])
  have m: "unat (?late mod ?P) = (?n - ?d) mod ?p" by (simp add: unat_mod_distrib late)
  have q: "unat (?late div ?P) = missed" by (simp add: unat_div_distrib late missed_def)
  have mp: "(?n - ?d) mod ?p < ?p" using p(1) by simp
  then have um: "unat (ucast (?late mod ?P) :: u32) = (?n - ?d) mod ?p"
    using p(2) m by (simp add: unsigned_ucast_eq take_bit_nat_eq_self)
  have until: "unat ?until = ?p - (?n - ?d) mod ?p"
    using um mp by (subst unat_sub) (auto simp: word_le_nat_alt)
  have no_wrap: "?n + unat ?until < 2 ^ 64"
    using due(2) until p(2) by (simp add: CLOCK_MAX_MS_def)
  have sum: "unat (now_ms + ucast ?until) = ?n + unat ?until"
    using no_wrap by (simp add: unat_word_ariths)
  have "?n + unat ?until = ?d + (missed + 1) * ?p"
    unfolding until missed_def by (rule next_period [OF p(1) dn])
  with sum have next_ms: "unat (now_ms + ucast ?until) = ?d + (missed + 1) * ?p" by simp
  have fits: "\<not> now_ms > 0xFFFFFFFFFFFFFFFF - ucast ?until"
  proof -
    have "unat (0xFFFFFFFFFFFFFFFF - ucast ?until :: u64) = 18446744073709551615 - unat ?until"
      using unat_u32_lt [of ?until] by (subst unat_sub) (auto simp: word_le_nat_alt)
    then show ?thesis using no_wrap by (simp add: word_less_nat_alt)
  qed
  have skipped: "(if ?late div ?P > 0xFFFFFFFF then 0xFFFFFFFF else ucast (?late div ?P)) =
      (of_nat (min missed 4294967295) :: u32)"
  proof (cases "missed > 4294967295")
    case True then show ?thesis using q by (simp add: word_less_nat_alt min_def)
  next
    case False
    then have "ucast (?late div ?P) = (of_nat missed :: u32)"
      by (simp add: word_unat_eq_iff unsigned_ucast_eq q unat_of_nat take_bit_eq_mod)
    then show ?thesis using False q by (simp add: word_less_nat_alt min_def)
  qed
  show ?thesis
    using period fits skipped next_ms
    by (intro exI [of _ "now_ms + ucast ?until"]) (simp add: advance_timer_def Let_def)
qed

lemma advance_ok:
  assumes "timer_ok h timer" "tm_active timer" "tm_deadline_ms timer \<le> now_ms" "unat now_ms \<le> CLOCK_MAX_MS"
  shows "timer_ok h (fst (advance_timer now_ms timer))"
proof (cases "tm_period_ms timer = 0")
  case True then show ?thesis by (simp add: advance_once timer_ok_def)
next
  case False
  let ?p = "unat (tm_period_ms timer)" and ?late = "unat now_ms - unat (tm_deadline_ms timer)"
  obtain next_ms skipped where a: "advance_timer now_ms timer = (timer\<lparr>tm_deadline_ms := next_ms\<rparr>, skipped)"
      "unat next_ms = unat (tm_deadline_ms timer) + (?late div ?p + 1) * ?p"
    using advance_periodic [OF assms(3,4) False] by blast
  have "0 < ?p" "unat (tm_deadline_ms timer) \<le> unat now_ms"
    using False assms(3) by (simp_all add: unat_gt_0 word_le_nat_alt)
  from next_period [OF this] have "unat next_ms \<le> unat now_ms + ?p" using a(2) by linarith
  moreover have "?p \<le> 86400000" "tm_period_ms timer \<le> TIMER_MAX_INTERVAL_MS"
    using assms(1,2) by (auto simp: timer_ok_def TIMER_MAX_INTERVAL_MS_def word_le_nat_alt)
  ultimately show ?thesis
    using assms(1,2,4) a(1) by (simp add: timer_ok_def DEADLINE_MAX_MS_def)
qed

lemma due_timer_put:
  assumes ok: "host_ok s" and due: "due_timer (host_runtime s) now_ms = Some i"
    and clock: "unat now_ms \<le> CLOCK_MAX_MS"
  defines "timer \<equiv> fst (advance_timer now_ms (rt_timers (host_runtime s) ! i))"
  shows "host_ok (put_timer i timer s)" and "retired h s \<Longrightarrow> retired h (put_timer i timer s)"
proof -
  let ?old = "rt_timers (host_runtime s) ! i"
  have d: "i < unat (max_timers (rt_limits (host_runtime s)))" "tm_active ?old" "tm_deadline_ms ?old \<le> now_ms"
    using due_timer_Some [OF due] by auto
  have i: "i < TIMER_CAPACITY" using d(1) max_timers_bound [OF ok] by simp
  have "timer_ok (next_timer_handle s) ?old"
    using ok i by (simp add: host_ok_def timers_ok_def Let_def)
  from advance_ok [OF this d(2,3) clock] have t: "timer_ok (next_timer_handle s) timer" by (simp add: timer_def)
  have handle: "tm_handle timer = tm_handle ?old" by (simp add: timer_def)
  have unique: "\<forall>j < TIMER_CAPACITY. tm_active (rt_timers (host_runtime s) ! j) \<longrightarrow>
      tm_handle (rt_timers (host_runtime s) ! j) = tm_handle timer \<longrightarrow> j = i"
    unfolding handle using ok i d(2) by (auto simp: host_ok_def timers_ok_def Let_def)
  have "host_ok (put_timer i timer (s\<lparr>next_timer_handle := next_timer_handle s\<rparr>))"
    by (rule host_ok_put [OF ok d(1) t]) (use unique in auto)
  then show "host_ok (put_timer i timer s)" by simp
  have "live_handle s (tm_handle ?old)"
    using d(2) i host_ok_timers [OF ok] by (auto simp: live_handle_def list_ex_iff)
  then show "retired h s \<Longrightarrow> retired h (put_timer i timer s)"
    using handle by (auto simp: retired_def dest!: live_handle_put)
qed

subsection \<open>The invariant\<close>

lemma engine_links_symbols: "rt_native_symbols rt' = rt_native_symbols rt \<Longrightarrow> engine_links api rt' = engine_links api rt"
  by (simp add: engine_links_def registered_symbols)

lemma links_simps [simp]:
  "engine_links api (host_runtime (set_state q s)) = engine_links api (host_runtime s)"
  "engine_links api (host_runtime (fail_runtime s)) = engine_links api (host_runtime s)"
  "engine_links api (host_runtime (cancel_all s)) = engine_links api (host_runtime s)"
  "engine_links api (host_runtime (put_timer i timer s)) = engine_links api (host_runtime s)"
  "engine_links api (host_runtime (end_call s)) = engine_links api (host_runtime s)"
  "engine_links api (host_runtime (claimed_call s)) = engine_links api (host_runtime s)"
  "engine_links api (rt_stopping_update g rt) = engine_links api rt"
  "engine_links api (rt_pending_log_size_update f rt) = engine_links api rt"
  by (rule engine_links_symbols, simp add: set_state_def fail_runtime_def cancel_all_def put_timer_def
      end_call_def claimed_call_def)+

lemma links_quiet: "quiet s s' \<Longrightarrow> engine_links api (host_runtime s') = engine_links api (host_runtime s)"
  by (rule engine_links_symbols [OF quiet_keeps(6)])

text \<open>What a sound state is for the engine: the invariant, and the assumption on its links.\<close>

definition sound_host :: "('e, 'm) runtime_api \<Rightarrow> 'e host_state \<Rightarrow> bool" where
  "sound_host api s \<longleftrightarrow> host_ok s \<and> engine_links api (host_runtime s)"

lemma sound_invoked: "invoked api s r s' \<Longrightarrow> sound_host api s \<Longrightarrow> sound_host api s'"
  by (simp add: sound_host_def invoked_host_ok engine_links_config [OF invoked_config])

lemma sound_entry: "invoked api s r s' \<Longrightarrow> sound_host api s \<Longrightarrow>
    sound_host api s' \<and> (retired h s \<longrightarrow> retired h s')"
  using sound_invoked invoked_retired by (auto simp: sound_host_def)

lemma sound_quiet: "quiet s s' \<Longrightarrow> sound_host api s \<Longrightarrow> sound_host api s'"
  by (simp add: sound_host_def host_ok_quiet links_quiet)

lemma sound_simps [simp]:
  "sound_host api (set_state q s) = sound_host api s" "sound_host api (fail_runtime s) = sound_host api s"
  "sound_host api (end_call s) = sound_host api s" "sound_host api (claimed_call s) = sound_host api s"
  by (simp_all add: sound_host_def)

lemma sound_stop:
  assumes "invoked api (cancel_all (with_runtime (\<lambda>rt. rt\<lparr>rt_stopping := True\<rparr>) s)) r s'" "sound_host api s"
  shows "sound_host api s' \<and> (retired h s \<longrightarrow> retired h s')"
proof -
  let ?s = "cancel_all (with_runtime (\<lambda>rt. rt\<lparr>rt_stopping := True\<rparr>) s)"
  have "sound_host api ?s" using assms(2) by (simp add: sound_host_def host_ok_cancel)
  moreover have "retired h s \<longrightarrow> retired h ?s"
    using assms(2) retired_cancel [of "with_runtime (\<lambda>rt. rt\<lparr>rt_stopping := True\<rparr>) s" h] by (simp add: sound_host_def)
  ultimately show ?thesis using sound_entry [OF assms(1), of h] by blast
qed

lemma sound_cancel: "sound_host api s \<Longrightarrow> sound_host api (cancel_all s)"
  by (simp add: sound_host_def host_ok_cancel)

lemma course_sound:
  assumes "call_course api c s r s'" "sound_host api s"
  shows "sound_host api s' \<and> (retired h s \<longrightarrow> retired h s')"
  using assms(1)
proof (cases rule: call_course.cases)
  case refused then show ?thesis using assms(2) sound_quiet by (auto simp: retired_quiet)
next
  case (started s1)
  then show ?thesis using assms(2) sound_invoked by (auto simp: sound_host_def intro: invoked_retired)
next
  case (start_failed q s1)
  then have "sound_host api s1" "retired h s \<longrightarrow> retired h s1"
    using assms(2) sound_invoked by (auto simp: sound_host_def intro: invoked_retired)
  then show ?thesis using start_failed by (auto simp: sound_host_def intro: host_ok_cancel retired_cancel)
next
  case (event sa q s1)
  then have "sound_host api sa" using assms(2) sound_quiet by blast
  with event have "sound_host api s1" "retired h s \<longrightarrow> retired h s1"
    using sound_invoked by (auto simp: sound_host_def retired_quiet intro: invoked_retired)
  then show ?thesis using event sound_quiet by (auto simp: retired_quiet)
next
  case (stopped s1)
  then show ?thesis using sound_stop [OF stopped(5) assms(2), of h] by simp
next
  case (stop_failed q s1)
  then show ?thesis using sound_stop [OF stop_failed(4) assms(2), of h] by simp
next
  case log_taken
  then show ?thesis using assms(2) host_ok_log_size [of s 0] by (simp add: sound_host_def)
next
  case (timer now_ms sc index sa q s1)
  let ?put = "put_timer index (fst (advance_timer now_ms (rt_timers (host_runtime sc) ! index))) sc"
  have sc: "sound_host api sc" using sound_quiet [OF quiet_clock [OF timer(4)] assms(2)] .
  note put = due_timer_put [OF _ timer(5) monotonic_ms_bound [OF timer(4)]]
  have "sound_host api ?put" "retired h s \<longrightarrow> retired h ?put"
    using sc put retired_quiet [OF quiet_clock [OF timer(4)], of h] by (auto simp: sound_host_def)
  then have "sound_host api sa" "retired h s \<longrightarrow> retired h sa"
    using sound_quiet [OF timer(6)] retired_quiet [OF timer(6)] by auto
  with timer(7) have "sound_host api s1" "retired h s \<longrightarrow> retired h s1"
    using sound_invoked by (auto simp: sound_host_def intro: invoked_retired)
  then show ?thesis using timer sound_quiet by (auto simp: retired_quiet)
qed (use assms in simp_all)

lemma settled_quiet: "quiet s s' \<Longrightarrow> settled s' = settled s"
  by (simp add: settled_def no_timers_def Let_def quiet_keeps)

lemma settled_simps [simp]: "settled (end_call s) = settled s" "settled (claimed_call s) = settled s"
  by (simp_all add: settled_def no_timers_def Let_def end_call_def claimed_call_def)

lemma settled_failed: "\<not> rt_guest_active (host_runtime s) \<Longrightarrow> rt_state (host_runtime s) = RUNTIME_FAILED \<Longrightarrow> settled s"
  by (simp add: settled_def Let_def)

lemma flags_simps [simp]:
  "rt_guest_active (host_runtime (cancel_all s)) = rt_guest_active (host_runtime s)"
  "rt_guest_active (host_runtime (fail_runtime s)) = rt_guest_active (host_runtime s)"
  "rt_guest_active (host_runtime (set_state q s)) = rt_guest_active (host_runtime s)"
  "rt_guest_active (host_runtime (put_timer i timer s)) = rt_guest_active (host_runtime s)"
  "rt_state (host_runtime (cancel_all s)) = rt_state (host_runtime s)"
  "rt_state (host_runtime (fail_runtime s)) = RUNTIME_FAILED"
  "rt_state (host_runtime (set_state q s)) = q"
  "rt_state (host_runtime (put_timer i timer s)) = rt_state (host_runtime s)"
  "rt_state (host_runtime (end_call s)) = rt_state (host_runtime s)"
  "rt_stopping (host_runtime (cancel_all s)) = rt_stopping (host_runtime s)"
  "rt_stopping (host_runtime (set_state q s)) = rt_stopping (host_runtime s)"
  "rt_stopping (host_runtime (put_timer i timer s)) = rt_stopping (host_runtime s)"
  by (simp_all add: cancel_all_def fail_runtime_def set_state_def put_timer_def end_call_def)

lemma invoked_running:
  assumes "invoked api s r s'" "rt_state (host_runtime s) = RUNTIME_RUNNING" "\<not> rt_stopping (host_runtime s)"
    "\<not> rt_guest_active (host_runtime s)"
  shows "settled s'"
proof (cases r)
  case (Inl status)
  then show ?thesis
    using invoked_state [OF assms(1)] invoked_guest_active [OF assms(1,4)] by (simp add: settled_failed)
next
  case (Inr v)
  then show ?thesis
    using invoked_state [OF assms(1)] invoked_guest_active [OF assms(1,4)] assms(2,3)
      config_fields(5) [OF invoked_config [OF assms(1)]] by (simp add: settled_def Let_def)
qed

lemma course_settled:
  assumes "call_course api c s r s'" "host_ok s" "settled s"
  shows "settled s'"
  using assms(1)
proof (cases rule: call_course.cases)
  case refused then show ?thesis using assms(3) settled_quiet by blast
next
  case (started s1)
  then show ?thesis
    using assms(3) invoked_guest_active [OF started(5)] config_fields(5) [OF invoked_config [OF started(5)]]
    by (simp add: settled_def Let_def)
next
  case (start_failed q s1)
  then show ?thesis
    using assms(3) invoked_guest_active [OF start_failed(4)] by (simp add: settled_def Let_def)
next
  case (event sa q s1)
  then have "settled s1"
    using invoked_running [OF event(5)] assms(3) quiet_keeps [OF event(4)] by (simp add: settled_def Let_def)
  then show ?thesis using event settled_quiet by blast
next
  case (stopped s1)
  let ?s = "cancel_all (with_runtime (\<lambda>rt. rt\<lparr>rt_stopping := True\<rparr>) s)"
  have "quiesced ?s"
    using no_timers_cancel [of "with_runtime (\<lambda>rt. rt\<lparr>rt_stopping := True\<rparr>) s"] assms(2)
    by (simp add: quiesced_def)
  then have "quiesced s1" by (rule invoked_quiesced [OF stopped(5)])
  then show ?thesis
    using assms(3) invoked_guest_active [OF stopped(5)] stopped
    by (simp add: settled_def quiesced_def no_timers_def Let_def set_state_def)
next
  case (stop_failed q s1)
  then show ?thesis
    using assms(3) invoked_guest_active [OF stop_failed(4)] by (simp add: settled_def Let_def)
next
  case log_taken then show ?thesis using assms(3) by (simp add: settled_def no_timers_def Let_def)
next
  case (timer now_ms sc index sa q s1)
  have "settled s1"
    using invoked_running [OF timer(7)] assms(3) timer(3) quiet_keeps [OF quiet_clock [OF timer(4)]]
      quiet_keeps [OF timer(6)] by (simp add: settled_def Let_def)
  then show ?thesis using timer settled_quiet by blast
qed (use assms in simp_all)

theorem step_idle:
  assumes "runtime_step api c s = (r, s')" "idle s" "engine_links api (host_runtime s)"
  shows "idle s' \<and> engine_links api (host_runtime s') \<and> (retired h s \<longrightarrow> retired h s')"
proof -
  have ok: "host_ok s" using assms(2) by (simp add: idle_def)
  from assms(1) ok show ?thesis
  proof (cases rule: runtime_step_course)
    case refused then show ?thesis using assms by simp
  next
    case (claimed s1)
    have "sound_host api s1 \<and> (retired h (claimed_call s) \<longrightarrow> retired h s1)"
      using course_sound [OF claimed(2)] ok assms(3) by (simp add: sound_host_def)
    moreover have "settled s1" using course_settled [OF claimed(2)] ok assms(2) by (simp add: idle_def)
    ultimately show ?thesis
      unfolding claimed(3) by (simp add: idle_def sound_host_def) (simp add: end_call_def)
  qed
qed

theorem steps_idle:
  "runtime_steps api cs s = (rs, s') \<Longrightarrow> idle s \<Longrightarrow> engine_links api (host_runtime s) \<Longrightarrow>
   idle s' \<and> engine_links api (host_runtime s') \<and> (retired h s \<longrightarrow> retired h s')"
proof (induction cs arbitrary: s rs)
  case (Cons c cs)
  obtain r s1 where "runtime_step api c s = (r, s1)" by fastforce
  moreover obtain rs1 s2 where "runtime_steps api cs s1 = (rs1, s2)" by fastforce
  ultimately show ?case using Cons step_idle [of api c s r s1 h] by auto
qed simp

subsection \<open>The lifecycle\<close>

text \<open>
  The states of an instance as its owner sees them: which calls succeed in which state, and where
  a failed entry leads.
\<close>

inductive lifecycle :: "runtime_state \<Rightarrow> runtime_call \<Rightarrow> runtime_result \<Rightarrow> runtime_state \<Rightarrow> bool" where
  refused: "no_entry c r \<Longrightarrow> lifecycle q c r q"
| init_ok: "lifecycle RUNTIME_LOADED (DO_INIT True) RUNTIME_OK RUNTIME_RUNNING"
| init_failed: "r \<in> {RUNTIME_ENGINE_FAILURE, RUNTIME_INSTRUCTION_LIMIT, RUNTIME_ENTRY_EXPIRED, RUNTIME_GUEST_FAILURE} \<Longrightarrow>
    lifecycle RUNTIME_LOADED (DO_INIT True) r RUNTIME_FAILED"
| event_ok: "c = DO_EVENT True ev n True \<or> c = DO_POLL True True True \<Longrightarrow>
    lifecycle RUNTIME_RUNNING c RUNTIME_OK RUNTIME_RUNNING"
| event_failed: "c = DO_EVENT True ev n True \<or> c = DO_POLL True True True \<Longrightarrow>
    r \<in> {RUNTIME_ENGINE_FAILURE, RUNTIME_INSTRUCTION_LIMIT, RUNTIME_ENTRY_EXPIRED} \<Longrightarrow>
    lifecycle RUNTIME_RUNNING c r RUNTIME_FAILED"
| stop_ok: "lifecycle RUNTIME_RUNNING (DO_STOP True) RUNTIME_OK RUNTIME_STOPPED"
| stop_failed: "r \<in> {RUNTIME_ENGINE_FAILURE, RUNTIME_INSTRUCTION_LIMIT, RUNTIME_ENTRY_EXPIRED, RUNTIME_GUEST_FAILURE} \<Longrightarrow>
    lifecycle RUNTIME_RUNNING (DO_STOP True) r RUNTIME_FAILED"
| stop_again: "lifecycle RUNTIME_STOPPED (DO_STOP True) RUNTIME_OK RUNTIME_STOPPED"
| log_taken: "lifecycle q (DO_TAKE_LOG True output True) RUNTIME_OK q"
| deadline_told: "lifecycle RUNTIME_RUNNING (DO_DEADLINE True True) RUNTIME_OK RUNTIME_RUNNING"

inductive_cases lifecycle_from_failed: "lifecycle RUNTIME_FAILED c r q"
inductive_cases lifecycle_from_stopped: "lifecycle RUNTIME_STOPPED c r q"

primrec lifecycle_run :: "runtime_state \<Rightarrow> runtime_call list \<Rightarrow> runtime_result list \<Rightarrow> runtime_state \<Rightarrow> bool" where
  "lifecycle_run q [] rs q' \<longleftrightarrow> rs = [] \<and> q' = q"
| "lifecycle_run q (c # cs) rs q' \<longleftrightarrow> (\<exists>r rs' q1. rs = r # rs' \<and> lifecycle q c r q1 \<and> lifecycle_run q1 cs rs' q')"

lemma course_lifecycle:
  assumes "call_course api c s r s'"
  shows "lifecycle (rt_state (host_runtime s)) c r (rt_state (host_runtime s'))"
  using assms
proof (cases rule: call_course.cases)
  case refused then show ?thesis using quiet_keeps(2) lifecycle.refused by metis
next
  case (started s1) then show ?thesis by (simp add: lifecycle.init_ok)
next
  case (start_failed q s1)
  then have "r \<in> {RUNTIME_ENGINE_FAILURE, RUNTIME_INSTRUCTION_LIMIT, RUNTIME_ENTRY_EXPIRED, RUNTIME_GUEST_FAILURE}"
    by (auto dest: invoked_status)
  then show ?thesis using start_failed lifecycle.init_failed by simp
next
  case (event sa q s1)
  have q: "rt_state (host_runtime s') = (case q of Inl _ \<Rightarrow> RUNTIME_FAILED | Inr _ \<Rightarrow> RUNTIME_RUNNING)"
    using invoked_state [OF event(5)] event(3) quiet_keeps(2) [OF event(4)] quiet_keeps(2) [OF event(6)]
    by (simp split: sum.split)
  then show ?thesis using event invoked_status [of api sa _ s1]
    by (cases q) (auto intro: lifecycle.event_ok lifecycle.event_failed)
next
  case (stopped s1) then show ?thesis by (simp add: lifecycle.stop_ok)
next
  case (stop_failed q s1)
  then have "r \<in> {RUNTIME_ENGINE_FAILURE, RUNTIME_INSTRUCTION_LIMIT, RUNTIME_ENTRY_EXPIRED, RUNTIME_GUEST_FAILURE}"
    by (auto dest: invoked_status)
  then show ?thesis using stop_failed lifecycle.stop_failed by simp
next
  case (timer now_ms sc index sa q s1)
  have q: "rt_state (host_runtime s') = (case q of Inl _ \<Rightarrow> RUNTIME_FAILED | Inr _ \<Rightarrow> RUNTIME_RUNNING)"
    using invoked_state [OF timer(7)] timer(3) quiet_keeps(2) [OF quiet_clock [OF timer(4)]]
      quiet_keeps(2) [OF timer(6)] quiet_keeps(2) [OF timer(8)]
    by (simp split: sum.split)
  then show ?thesis using timer invoked_status [of api sa _ s1]
    by (cases q) (auto intro: lifecycle.event_ok lifecycle.event_failed)
qed (auto intro: lifecycle.stop_again lifecycle.log_taken lifecycle.deadline_told)

lemma step_lifecycle:
  assumes "runtime_step api c s = (r, s')" "host_ok s"
  shows "lifecycle (rt_state (host_runtime s)) c r (rt_state (host_runtime s'))"
  using assms
proof (cases rule: runtime_step_course)
  case refused then show ?thesis by (simp add: lifecycle.refused)
next
  case (claimed s1) then show ?thesis using course_lifecycle [OF claimed(2)] by simp
qed

lemma steps_lifecycle:
  "runtime_steps api cs s = (rs, s') \<Longrightarrow> idle s \<Longrightarrow> engine_links api (host_runtime s) \<Longrightarrow>
   lifecycle_run (rt_state (host_runtime s)) cs rs (rt_state (host_runtime s'))"
proof (induction cs arbitrary: s rs)
  case (Cons c cs)
  obtain r s1 where r: "runtime_step api c s = (r, s1)" by fastforce
  obtain rs1 where rs: "runtime_steps api cs s1 = (rs1, s')" "rs = r # rs1"
    using Cons.prems(1) r by (auto split: prod.splits)
  have "lifecycle (rt_state (host_runtime s)) c r (rt_state (host_runtime s1))"
    using step_lifecycle [OF r] Cons.prems(2) by (simp add: idle_def)
  moreover have "idle s1" "engine_links api (host_runtime s1)"
    using step_idle [OF r Cons.prems(2,3)] by blast+
  ultimately show ?case using Cons.IH [OF rs(1)] rs(2) by auto
qed simp

end
