(* ===== verification/Runtime_Admission.thy ===== *)
theory Runtime_Admission
  imports Runtime_Open Runtime_Steps Wasm_Grammar
begin

text \<open>
  What open establishes: the instance it returns satisfies the invariant, its module is one of
  the grammar with the granted capabilities and the bounded memory, and every import of it is
  bound to a registered host function.
\<close>

subsection \<open>The opened instance\<close>

text \<open>A successful stage changes the instance as \<open>f\<close> says, and the platform.\<close>

definition updates :: "(runtime \<Rightarrow> runtime) \<Rightarrow> 'e host_state \<Rightarrow> 'e host_state \<Rightarrow> bool" where
  "updates f s s' \<longleftrightarrow> (\<exists>e. s' = s\<lparr>host_runtime := f (host_runtime s), platform := e\<rparr>)"

lemma updates_platform: "from_platform g s = (x, s1) \<Longrightarrow> updates (\<lambda>rt. rt) s s1"
  by (auto simp: updates_def from_platform_def split: prod.splits)

lemma updates_trans: "updates f s s1 \<Longrightarrow> updates g s1 s2 \<Longrightarrow> updates (\<lambda>rt. g (f rt)) s s2"
  by (auto simp: updates_def)

lemma updates_with: "updates f s (with_runtime f s)"
  unfolding updates_def by (rule exI [of _ "platform s"]) simp

lemma updates_cong: "updates f s s' \<Longrightarrow> f (host_runtime s) = g (host_runtime s) \<Longrightarrow> updates g s s'"
  by (simp add: updates_def)

lemma allocate_OK: "allocate api n s = (Inr (), s') \<Longrightarrow> updates (\<lambda>rt. rt) s s'"
  by (auto simp: allocate_def abandon_def split: prod.splits if_splits dest: updates_platform)

lemma update_runtime_OK: "update_runtime f s = (Inr (), s') \<Longrightarrow> updates f s s'"
  by (auto simp: update_runtime_def updates_with)

definition log_buffer :: "u32 \<Rightarrow> runtime_limits \<Rightarrow> bytes option" where
  "log_buffer required limits =
     (if required AND CAP_LOG \<noteq> 0 then Some (zeros (unat (max_log_bytes limits))) else None)"

lemma open_memory_OK:
  assumes "open_memory api wasm limits required s = (Inr (), s')" "rt_pending_log (host_runtime s) = None"
  shows "updates (\<lambda>rt. rt\<lparr>rt_pending_log := log_buffer required limits, rt_wasm_copy := Some wasm\<rparr>) s s'"
proof -
  obtain s1 s2 where log: "(if required AND CAP_LOG \<noteq> 0
            then bindE (allocate api (unat (max_log_bytes limits)))
              (\<lambda>_. update_runtime (\<lambda>rt. rt\<lparr>rt_pending_log := Some (zeros (unat (max_log_bytes limits)))\<rparr>))
            else retE ()) s = (Inr (), s1)"
    and copy: "allocate api (length wasm) s1 = (Inr (), s2)"
      "update_runtime (\<lambda>rt. rt\<lparr>rt_wasm_copy := Some wasm\<rparr>) s2 = (Inr (), s')"
    using assms(1) by (auto simp: open_memory_def bindE_OK)
  have "updates (\<lambda>rt. rt\<lparr>rt_pending_log := log_buffer required limits\<rparr>) s s1"
  proof (cases "required AND CAP_LOG = 0")
    case True
    then have "s1 = s" using log by simp
    moreover have "(host_runtime s)\<lparr>rt_pending_log := None\<rparr> = host_runtime s"
      using assms(2) by (cases "host_runtime s") simp
    ultimately show ?thesis using True updates_with [of "\<lambda>rt. rt\<lparr>rt_pending_log := None\<rparr>" s]
      by (simp add: log_buffer_def)
  next
    case False
    then obtain s0 where "allocate api (unat (max_log_bytes limits)) s = (Inr (), s0)"
        "update_runtime (\<lambda>rt. rt\<lparr>rt_pending_log := log_buffer required limits\<rparr>) s0 = (Inr (), s1)"
      using log by (auto simp: bindE_OK log_buffer_def)
    then show ?thesis by (rule updates_trans [OF allocate_OK update_runtime_OK])
  qed
  from updates_trans [OF this updates_trans [OF allocate_OK [OF copy(1)] update_runtime_OK [OF copy(2)]]]
  show ?thesis by simp
qed

lemma open_engine_OK:
  assumes "open_engine api required s = (Inr (), s')"
  shows "updates (\<lambda>rt. rt\<lparr>rt_wamr_initialized := True, rt_native_symbols := native_names required,
    rt_natives_registered := (native_names required \<noteq> []) \<or> rt_natives_registered rt\<rparr>) s s'"
proof -
  obtain s1 where i: "from_platform (wamr_init api) s = (True, s1)"
    using assms by (auto simp: open_engine_def abandon_def split: prod.splits bool.splits)
  let ?s2 = "with_runtime (\<lambda>rt. rt\<lparr>rt_wamr_initialized := True, rt_native_symbols := native_names required\<rparr>) s1"
  have u: "updates (\<lambda>rt. rt\<lparr>rt_wamr_initialized := True, rt_native_symbols := native_names required\<rparr>) s ?s2"
    using updates_trans [OF updates_platform [OF i] updates_with] .
  show ?thesis
  proof (cases "native_names required = []")
    case True
    then have "s' = ?s2" using assms i by (simp add: open_engine_def)
    with u have "updates (\<lambda>rt. rt\<lparr>rt_wamr_initialized := True, rt_native_symbols := native_names required\<rparr>) s s'"
      by simp
    then show ?thesis using True by (rule_tac updates_cong) simp_all
  next
    case False
    obtain s3 where "from_platform (wamr_register_natives api (native_names required)) ?s2 = (True, s3)"
        "s' = with_runtime (\<lambda>rt. rt\<lparr>rt_natives_registered := True\<rparr>) s3"
      using assms i False
      by (auto simp: open_engine_def Let_def abandon_def update_runtime_def split: prod.splits bool.splits)
    then have "updates (\<lambda>rt. rt\<lparr>rt_wamr_initialized := True, rt_native_symbols := native_names required,
        rt_natives_registered := True\<rparr>) s s'"
      using updates_trans [OF u updates_trans [OF updates_platform updates_with]] by simp
    then show ?thesis using False by simp
  qed
qed

lemma open_module_OK:
  assumes "open_module api wasm s = (Inr (), s')"
  shows "\<exists>m. updates (\<lambda>rt. rt\<lparr>rt_module := Some m\<rparr>) s s' \<and> module_abi_matches (wamr_exports api m (platform s'))"
proof -
  obtain m s1 where l: "from_platform (wamr_load api wasm) s = (Some m, s1)"
    using assms by (cases "from_platform (wamr_load api wasm) s")
      (auto simp: open_module_def abandon_def split: option.splits)
  then have "s' = with_runtime (\<lambda>rt. rt\<lparr>rt_module := Some m\<rparr>) s1"
      "module_abi_matches (wamr_exports api m (platform s'))"
    using assms by (auto simp: open_module_def Let_def abandon_def split: if_splits)
  then show ?thesis using updates_trans [OF updates_platform [OF l] updates_with] by blast
qed

lemma open_instance_OK:
  assumes "open_instance api limits s = (Inr (), s')"
  shows "\<exists>inst environment i e p. updates (\<lambda>rt. rt\<lparr>rt_instance := Some inst, rt_environment := Some environment,
    rt_init_function := Some i, rt_event_function := Some e, rt_stop_function := Some p\<rparr>) s s'"
proof -
  let ?f = "wamr_instantiate api (the (rt_module (host_runtime s))) (stack_size_bytes limits) (heap_size_bytes limits)"
  obtain inst s1 where l: "from_platform ?f s = (Some inst, s1)"
    using assms by (cases "from_platform ?f s") (auto simp: open_instance_def abandon_def split: option.splits)
  let ?s2 = "with_runtime (\<lambda>rt. rt\<lparr>rt_instance := Some inst\<rparr>) s1"
  let ?g = "wamr_create_exec_env api inst (stack_size_bytes limits)"
  obtain x s3 where n: "from_platform ?g ?s2 = (x, s3)" by fastforce
  let ?fn = "\<lambda>name. wamr_lookup_function api inst name (platform s3)"
  have all: "x \<noteq> None" "?fn ''econtainer_init'' \<noteq> None" "?fn ''econtainer_on_event'' \<noteq> None"
      "?fn ''econtainer_stop'' \<noteq> None"
    "s' = with_runtime (\<lambda>rt. rt\<lparr>rt_environment := x, rt_init_function := ?fn ''econtainer_init'',
       rt_event_function := ?fn ''econtainer_on_event'', rt_stop_function := ?fn ''econtainer_stop''\<rparr>) s3"
    using assms l n by (simp_all add: open_instance_def Let_def abandon_def split: if_splits)
  have "updates (\<lambda>rt. rt\<lparr>rt_instance := Some inst, rt_environment := x,
      rt_init_function := ?fn ''econtainer_init'', rt_event_function := ?fn ''econtainer_on_event'',
      rt_stop_function := ?fn ''econtainer_stop''\<rparr>) s s'"
  proof -
    have "updates (\<lambda>rt. rt\<lparr>rt_instance := Some inst\<rparr>) s ?s2"
      using updates_trans [OF updates_platform [OF l] updates_with] .
    from updates_trans [OF this updates_platform [OF n]]
    have u: "updates (\<lambda>rt. rt\<lparr>rt_instance := Some inst\<rparr>) s s3" .
    have "updates (\<lambda>rt. rt\<lparr>rt_environment := x, rt_init_function := ?fn ''econtainer_init'',
        rt_event_function := ?fn ''econtainer_on_event'', rt_stop_function := ?fn ''econtainer_stop''\<rparr>) s3 s'"
      unfolding all(5) by (rule updates_with)
    from updates_trans [OF u this] show ?thesis by simp
  qed
  then show ?thesis using all(1-4) by (metis option.exhaust)
qed

text \<open>The state that open leaves, and what it has checked.\<close>

definition opened :: "('e, 'm) runtime_api \<Rightarrow> bytes \<Rightarrow> runtime_limits \<Rightarrow> u32 \<Rightarrow> 'e host_state \<Rightarrow>
    'e host_state \<Rightarrow> bool" where
  "opened api wasm limits required s s' \<longleftrightarrow>
     (\<exists>m e inst environment i ev p registered_natives. module_abi_matches (wamr_exports api m e) \<and>
       updates (\<lambda>_. zero_runtime\<lparr>rt_limits := limits, rt_pending_log := log_buffer required limits,
         rt_wasm_copy := Some wasm, rt_wamr_initialized := True, rt_native_symbols := native_names required,
         rt_natives_registered := registered_natives, rt_module := Some m, rt_instance := Some inst,
         rt_environment := Some environment, rt_init_function := Some i, rt_event_function := Some ev,
         rt_stop_function := Some p\<rparr>) (s\<lparr>runtime_claimed := True\<rparr>) s')"

lemma open_OK:
  assumes "econtainer_runtime_open api wasm limits out s = (Inr (), s')"
  obtains b l required where "wasm = Some b" "limits = Some l" "limits_valid limits" "out = Some True"
    "length b \<le> unat (max_wasm_bytes l)" "wasm_imported_capabilities wasm True = GO required"
    "required AND NOT (allowed_capabilities l) = 0"
    "wasm_memory_within_limit wasm (max_memory_pages l) = GO ()" "\<not> runtime_claimed s"
    "opened api b l required s s'"
proof -
  obtain required where c: "out = Some True" "wasm \<noteq> None" "limits_valid limits"
    "length (the wasm) \<le> unat (max_wasm_bytes (the limits))"
    "wasm_imported_capabilities wasm True = GO required"
    "required AND NOT (allowed_capabilities (the limits)) = 0"
    "wasm_memory_within_limit wasm (max_memory_pages (the limits)) = GO ()" "\<not> runtime_claimed s"
    using assms by (auto simp: econtainer_runtime_open_def split: if_splits scan.splits)
  obtain b l where bl: "wasm = Some b" "limits = Some l"
    using c(2,3) by (cases limits) (auto simp: limits_valid_def)
  obtain s1 where h: "from_platform (heap_alloc api (sizeof_runtime api)) (s\<lparr>runtime_claimed := True\<rparr>) = (True, s1)"
    using assms c by (auto simp: econtainer_runtime_open_def split: if_splits bool.splits prod.splits)
  let ?s2 = "s1\<lparr>host_runtime := zero_runtime\<lparr>rt_limits := l, rt_state := RUNTIME_LOADED\<rparr>\<rparr>"
  have "bindE (open_memory api b l required) (\<lambda>_. bindE (open_engine api required)
      (\<lambda>_. bindE (open_module api b) (\<lambda>_. open_instance api l))) ?s2 = (Inr (), s')"
    using assms c h bl by (simp add: econtainer_runtime_open_def split: if_splits)
  then obtain s3 s4 s5 where st: "open_memory api b l required ?s2 = (Inr (), s3)"
      "open_engine api required s3 = (Inr (), s4)" "open_module api b s4 = (Inr (), s5)"
      "open_instance api l s5 = (Inr (), s')"
    by (auto simp: bindE_OK)
  have u0: "updates (\<lambda>_. zero_runtime\<lparr>rt_limits := l, rt_state := RUNTIME_LOADED\<rparr>) (s\<lparr>runtime_claimed := True\<rparr>) ?s2"
  proof -
    obtain e where "s1 = s\<lparr>runtime_claimed := True, platform := e\<rparr>"
      using updates_platform [OF h] by (auto simp: updates_def)
    then have "?s2 = s\<lparr>runtime_claimed := True,
        host_runtime := zero_runtime\<lparr>rt_limits := l, rt_state := RUNTIME_LOADED\<rparr>, platform := e\<rparr>" by simp
    then show ?thesis unfolding updates_def by blast
  qed
  have u1: "updates (\<lambda>rt. rt\<lparr>rt_pending_log := log_buffer required l, rt_wasm_copy := Some b\<rparr>) ?s2 s3"
    by (rule open_memory_OK [OF st(1)]) (simp add: zero_runtime_def)
  note u2 = open_engine_OK [OF st(2)]
  obtain m where u3: "updates (\<lambda>rt. rt\<lparr>rt_module := Some m\<rparr>) s4 s5" "module_abi_matches (wamr_exports api m (platform s5))"
    using open_module_OK [OF st(3)] by blast
  obtain inst environment i ev p where u4: "updates (\<lambda>rt. rt\<lparr>rt_instance := Some inst, rt_environment := Some environment,
    rt_init_function := Some i, rt_event_function := Some ev, rt_stop_function := Some p\<rparr>) s5 s'"
    using open_instance_OK [OF st(4)] by blast
  note all = updates_trans [OF u0 updates_trans [OF u1 updates_trans [OF u2 updates_trans [OF u3(1) u4]]]]
  have "updates (\<lambda>_. zero_runtime\<lparr>rt_limits := l, rt_pending_log := log_buffer required l,
         rt_wasm_copy := Some b, rt_wamr_initialized := True, rt_native_symbols := native_names required,
         rt_natives_registered := native_names required \<noteq> [], rt_module := Some m, rt_instance := Some inst,
         rt_environment := Some environment, rt_init_function := Some i, rt_event_function := Some ev,
         rt_stop_function := Some p\<rparr>) (s\<lparr>runtime_claimed := True\<rparr>) s'"
    by (rule updates_cong [OF all]) (simp add: zero_runtime_def)
  with u3(2) have "opened api b l required s s'" unfolding opened_def by blast
  with c bl show ?thesis using that by simp
qed

lemma log_named: "''log'' \<in> set (native_names required) \<longleftrightarrow> required AND CAP_LOG \<noteq> 0"
  by (simp add: native_names_def)

lemma opened_fields:
  assumes "opened api wasm limits required s s'"
  shows "rt_limits (host_runtime s') = limits" "rt_state (host_runtime s') = RUNTIME_LOADED"
    "rt_native_symbols (host_runtime s') = native_names required"
    "rt_wasm_copy (host_runtime s') = Some wasm"
    "next_timer_handle s' = next_timer_handle s" "runtime_claimed s'" "host_fault s' = host_fault s"
    "no_timers (host_runtime s')" "rt_timers (host_runtime s') = replicate TIMER_CAPACITY zero_timer"
    "rt_pending_log (host_runtime s') = log_buffer required limits" "rt_pending_log_size (host_runtime s') = 0"
    "rt_instance (host_runtime s') \<noteq> None" "rt_environment (host_runtime s') \<noteq> None"
    "\<not> rt_call_active (host_runtime s')" "\<not> rt_guest_active (host_runtime s')" "\<not> rt_stopping (host_runtime s')"
  using assms by (auto simp: opened_def updates_def zero_runtime_def no_timers_def zero_timer_def list_all_iff)

lemma opened_idle:
  assumes "opened api wasm limits required s s'" "limits_valid (Some limits)" "\<not> host_fault s"
  shows "idle s'"
proof -
  have "timers_ok h n (replicate TIMER_CAPACITY zero_timer)" for h n
    by (simp add: timers_ok_def timer_ok_def zero_timer_def)
  then show ?thesis
    using assms(2,3) opened_fields [OF assms(1)]
    by (simp add: idle_def host_ok_def settled_def log_ok_def log_named log_buffer_def Let_def)
qed

text \<open>Every import of the module is bound to a registered host function.\<close>

lemma mask_has: "h \<in> set hs \<Longrightarrow> capability_mask hs AND host_capability h = host_capability h"
proof (induction hs rule: rev_induct)
  case (snoc k hs)
  have mask: "capability_mask (hs @ [k]) = capability_mask hs OR host_capability k"
    by (simp add: capability_mask_def)
  show ?case
  proof (cases "h = k")
    case True then show ?thesis unfolding mask by (simp add: word_ao_dist word_ao_absorbs)
  next
    case False
    then have "capability_mask hs AND host_capability h = host_capability h" using snoc by simp
    then show ?thesis unfolding mask by (simp add: word_ao_dist)
  qed
qed simp

lemma imports_bound:
  assumes "h \<in> set hs"
  shows "host_name h \<in> set (native_names (capability_mask hs))"
  using mask_has [OF assms] by (cases h) (auto simp: native_names_def cap_defs)

end
