(* ===== verification/Runtime_Accounts.thy ===== *)
theory Runtime_Accounts
  imports Runtime_Open
begin

text \<open>
  Resource accounting of open (\<open>runtime.c\<close>): every stage keeps the balance of what the engine and
  the allocator hand out, and every failed open gives back what it acquired.
\<close>

subsection \<open>Resources\<close>

text \<open>
  The documented pairing of the engine and the allocator, as a count of what is held: a
  successful acquisition counts one, its release takes one away.
\<close>

definition acquires :: "('e \<Rightarrow> int) \<Rightarrow> ('e \<Rightarrow> 'a \<times> 'e) \<Rightarrow> ('a \<Rightarrow> bool) \<Rightarrow> bool" where
  "acquires live f got \<longleftrightarrow> (\<forall>e. case f e of (x, e') \<Rightarrow> live e' = live e + (if got x then 1 else 0))"

definition releases :: "('e \<Rightarrow> int) \<Rightarrow> ('e \<Rightarrow> 'e) \<Rightarrow> bool" where
  "releases live f \<longleftrightarrow> (\<forall>e. live (f e) = live e - 1)"

definition accounts :: "('e, 'm) runtime_api \<Rightarrow> ('e \<Rightarrow> int) \<Rightarrow> bool" where
  "accounts api live \<longleftrightarrow>
     (\<forall>n. acquires live (heap_alloc api n) id) \<and> releases live (heap_free api) \<and>
     acquires live (wamr_init api) id \<and> releases live (wamr_destroy api) \<and>
     (\<forall>names. acquires live (wamr_register_natives api names) id) \<and> releases live (wamr_unregister_natives api) \<and>
     (\<forall>wasm. acquires live (wamr_load api wasm) (\<lambda>m. m \<noteq> None)) \<and> (\<forall>m. releases live (wamr_unload api m)) \<and>
     (\<forall>m stack heap. acquires live (wamr_instantiate api m stack heap) (\<lambda>i. i \<noteq> None)) \<and>
     (\<forall>i. releases live (wamr_deinstantiate api i)) \<and>
     (\<forall>i stack. acquires live (wamr_create_exec_env api i stack) (\<lambda>x. x \<noteq> None)) \<and>
     (\<forall>x. releases live (wamr_destroy_exec_env api x))"

text \<open>What an instance holds, its own struct included.\<close>

definition held :: "runtime \<Rightarrow> int" where
  "held rt = 1 + of_bool (rt_environment rt \<noteq> None) + of_bool (rt_instance rt \<noteq> None) +
     of_bool (rt_module rt \<noteq> None) + of_bool (rt_natives_registered rt) +
     of_bool (rt_pending_log rt \<noteq> None) + of_bool (rt_wasm_copy rt \<noteq> None) +
     of_bool (rt_wamr_initialized rt)"

definition balance :: "('e \<Rightarrow> int) \<Rightarrow> 'e host_state \<Rightarrow> int" where
  "balance live s = live (platform s) - held (host_runtime s)"

lemma if_some_release:
  "(\<And>x. releases live (f x)) \<Longrightarrow> live (if_some f h e) = live e - of_bool (h \<noteq> None)"
  by (cases h) (simp_all add: if_some_def releases_def)

lemma release_balance:
  assumes "accounts api live"
  shows "live (platform (release_runtime api s)) = balance live s"
proof -
  note r = assms [unfolded accounts_def]
  have free: "live (heap_free api e) = live e - 1" "live (wamr_destroy api e) = live e - 1"
    "live (wamr_unregister_natives api e) = live e - 1" for e
    using r by (simp_all add: releases_def)
  have "\<And>x. releases live (wamr_destroy_exec_env api x)" "\<And>x. releases live (wamr_deinstantiate api x)"
    "\<And>x. releases live (wamr_unload api x)" "\<And>x::bytes. releases live (heap_free api)"
    using r by simp_all
  note steps = this [THEN if_some_release]
  show ?thesis
    by (simp add: release_runtime_def Let_def balance_def held_def free steps)
qed

lemma from_platform_acquires:
  assumes "acquires live f got" "from_platform f s = (x, s')"
  shows "host_runtime s' = host_runtime s \<and> runtime_claimed s' = runtime_claimed s \<and>
    live (platform s') = live (platform s) + of_bool (got x)"
  using assms by (auto simp: acquires_def from_platform_def split: prod.splits)

text \<open>
  A stage of open keeps the balance when it succeeds, and leaves through \<open>release_runtime\<close> with
  the balance kept when it fails.  \<open>P\<close> and \<open>Q\<close> say what is held before and after.
\<close>

definition exits :: "('e, 'm) runtime_api \<Rightarrow> ('e \<Rightarrow> int) \<Rightarrow> int \<Rightarrow> (runtime \<Rightarrow> bool) \<Rightarrow>
    (runtime_result + unit) \<times> 'e host_state \<Rightarrow> bool" where
  "exits api live b Q out \<longleftrightarrow> (case out of
     (Inl _, s') \<Rightarrow> \<exists>s1. s' = release_runtime api s1 \<and> balance live s1 = b
   | (Inr _, s') \<Rightarrow> balance live s' = b \<and> Q (host_runtime s'))"

lemma exits_abandon: "balance live s = b \<Longrightarrow> exits api live b Q (abandon api e s)"
  by (auto simp: exits_def abandon_def)

lemma exits_OK: "exits api live b Q (Inr u, s) \<longleftrightarrow> balance live s = b \<and> Q (host_runtime s)"
  by (simp add: exits_def)

lemma exits_bind:
  assumes "exits api live b Q (f s)"
    and "\<And>u s'. f s = (Inr u, s') \<Longrightarrow> balance live s' = b \<Longrightarrow> Q (host_runtime s') \<Longrightarrow> exits api live b R (g u s')"
  shows "exits api live b R (bindE f g s)"
  using assms by (auto simp: exits_def bindE_def split: prod.splits sum.splits)

definition stage :: "('e, 'm) runtime_api \<Rightarrow> ('e \<Rightarrow> int) \<Rightarrow> (runtime \<Rightarrow> bool) \<Rightarrow>
    ('e host_state, runtime_result, unit) act \<Rightarrow> (runtime \<Rightarrow> bool) \<Rightarrow> bool" where
  "stage api live P f Q \<longleftrightarrow> (\<forall>s. P (host_runtime s) \<longrightarrow> exits api live (balance live s) Q (f s))"

lemma stageI: "(\<And>s. P (host_runtime s) \<Longrightarrow> exits api live (balance live s) Q (f s)) \<Longrightarrow> stage api live P f Q"
  by (simp add: stage_def)

lemma stageD: "stage api live P f Q \<Longrightarrow> P (host_runtime s) \<Longrightarrow> exits api live (balance live s) Q (f s)"
  by (simp add: stage_def)

lemma stage_bind:
  assumes f: "stage api live P f Q" and g: "stage api live Q g R"
  shows "stage api live P (bindE f (\<lambda>_. g)) R"
proof (rule stageI)
  fix s :: "'a host_state" assume "P (host_runtime s)"
  from stageD [OF f this] show "exits api live (balance live s) R (bindE f (\<lambda>_. g) s)"
  proof (rule exits_bind)
    fix s' :: "'a host_state" assume b: "balance live s' = balance live s" and "Q (host_runtime s')"
    from stageD [OF g this(2)] show "exits api live (balance live s) R (g s')" by (simp add: b)
  qed
qed

lemma stage_if:
  "(b \<Longrightarrow> stage api live P f Q) \<Longrightarrow> (\<not> b \<Longrightarrow> stage api live P g Q) \<Longrightarrow>
   stage api live P (if b then f else g) Q"
  by simp

lemma stage_skip: "(\<And>rt. P rt \<Longrightarrow> Q rt) \<Longrightarrow> stage api live P (retE ()) Q"
  by (simp add: stage_def retE_def exits_OK)

definition holds_struct :: "runtime \<Rightarrow> bool" where
  "holds_struct rt \<longleftrightarrow> rt_environment rt = None \<and> rt_instance rt = None \<and> rt_module rt = None \<and>
     \<not> rt_natives_registered rt \<and> \<not> rt_wamr_initialized rt \<and> rt_wasm_copy rt = None"

definition holds_memory :: "runtime \<Rightarrow> bool" where
  "holds_memory rt \<longleftrightarrow> rt_environment rt = None \<and> rt_instance rt = None \<and> rt_module rt = None \<and>
     \<not> rt_natives_registered rt \<and> \<not> rt_wamr_initialized rt"

definition holds_engine :: "runtime \<Rightarrow> bool" where
  "holds_engine rt \<longleftrightarrow> rt_environment rt = None \<and> rt_instance rt = None \<and> rt_module rt = None"

definition holds_module :: "runtime \<Rightarrow> bool" where
  "holds_module rt \<longleftrightarrow> rt_environment rt = None \<and> rt_instance rt = None"

text \<open>An allocation and the pointer that keeps it.\<close>

lemma stage_allocate:
  assumes "accounts api live"
    and "\<And>rt. P rt \<Longrightarrow> held (f rt) = held rt + 1 \<and> Q (f rt)"
  shows "stage api live P (bindE (allocate api n) (\<lambda>_. update_runtime f)) Q"
proof (rule stageI)
  fix s :: "'a host_state" assume P: "P (host_runtime s)"
  have "acquires live (heap_alloc api n) id" using assms(1) by (simp add: accounts_def)
  obtain ok s1 where h: "from_platform (heap_alloc api n) s = (ok, s1)" by fastforce
  from from_platform_acquires [OF \<open>acquires live (heap_alloc api n) id\<close> h]
  have s1: "host_runtime s1 = host_runtime s" "live (platform s1) = live (platform s) + of_bool ok"
    by simp_all
  show "exits api live (balance live s) Q (bindE (allocate api n) (\<lambda>_. update_runtime f) s)"
    using h s1 assms(2) [OF P]
    by (auto simp: bindE_def allocate_def abandon_def update_runtime_def balance_def exits_def)
qed

lemma stage_memory:
  "accounts api live \<Longrightarrow> stage api live (\<lambda>rt. holds_struct rt \<and> rt_pending_log rt = None)
     (open_memory api wasm limits required) holds_memory"
  unfolding open_memory_def
  by (intro stage_bind [where Q = holds_struct] stage_if stage_allocate stage_skip)
    (auto simp: holds_struct_def holds_memory_def held_def)

lemma stage_engine:
  assumes "accounts api live"
  shows "stage api live holds_memory (open_engine api required) holds_engine"
proof (rule stageI)
  fix s :: "'a host_state" assume P: "holds_memory (host_runtime s)"
  obtain ok s1 where i: "from_platform (wamr_init api) s = (ok, s1)" by fastforce
  have "acquires live (wamr_init api) id" using assms by (simp add: accounts_def)
  note a1 = from_platform_acquires [OF this i]
  let ?s2 = "with_runtime (\<lambda>rt. rt\<lparr>rt_wamr_initialized := True, rt_native_symbols := native_names required\<rparr>) s1"
  obtain ok2 s3 where n: "from_platform (wamr_register_natives api (native_names required)) ?s2 = (ok2, s3)" by fastforce
  have "acquires live (wamr_register_natives api (native_names required)) id" using assms by (simp add: accounts_def)
  note a2 = from_platform_acquires [OF this n]
  show "exits api live (balance live s) holds_engine (open_engine api required s)"
    using P i n a1 a2
    by (auto simp: open_engine_def Let_def update_runtime_def balance_def held_def
        holds_memory_def holds_engine_def exits_OK split: bool.splits intro!: exits_abandon)
qed

lemma stage_module:
  assumes "accounts api live"
  shows "stage api live holds_engine (open_module api wasm) holds_module"
proof (rule stageI)
  fix s :: "'a host_state" assume P: "holds_engine (host_runtime s)"
  obtain m s1 where l: "from_platform (wamr_load api wasm) s = (m, s1)" by fastforce
  have "acquires live (wamr_load api wasm) (\<lambda>m. m \<noteq> None)" using assms by (simp add: accounts_def)
  note a = from_platform_acquires [OF this l]
  show "exits api live (balance live s) holds_module (open_module api wasm s)"
    using P l a
    by (auto simp: open_module_def Let_def balance_def held_def
        holds_engine_def holds_module_def exits_OK split: option.splits intro!: exits_abandon)
qed

lemma stage_instance:
  assumes "accounts api live"
  shows "stage api live holds_module (open_instance api limits) (\<lambda>_. True)"
proof (rule stageI)
  fix s :: "'a host_state" assume P: "holds_module (host_runtime s)"
  let ?f = "wamr_instantiate api (the (rt_module (host_runtime s))) (stack_size_bytes limits) (heap_size_bytes limits)"
  obtain i s1 where l: "from_platform ?f s = (i, s1)" by fastforce
  have "acquires live ?f (\<lambda>i. i \<noteq> None)" using assms by (simp add: accounts_def)
  note a = from_platform_acquires [OF this l]
  show "exits api live (balance live s) (\<lambda>_. True) (open_instance api limits s)"
  proof (cases i)
    case None
    then show ?thesis using P l a by (auto simp: open_instance_def balance_def intro!: exits_abandon)
  next
    case (Some inst)
    let ?s2 = "with_runtime (\<lambda>rt. rt\<lparr>rt_instance := Some inst\<rparr>) s1"
    let ?g = "wamr_create_exec_env api inst (stack_size_bytes limits)"
    obtain x s3 where n: "from_platform ?g ?s2 = (x, s3)" by fastforce
    have "acquires live ?g (\<lambda>x. x \<noteq> None)" using assms by (simp add: accounts_def)
    note a2 = from_platform_acquires [OF this n]
      let ?fn = "\<lambda>name. wamr_lookup_function api inst name (platform s3)"
    let ?s4 = "with_runtime (\<lambda>rt. rt\<lparr>rt_environment := x, rt_init_function := ?fn ''econtainer_init'',
       rt_event_function := ?fn ''econtainer_on_event'', rt_stop_function := ?fn ''econtainer_stop''\<rparr>) s3"
    have run: "open_instance api limits s =
      (if x = None \<or> ?fn ''econtainer_init'' = None \<or> ?fn ''econtainer_on_event'' = None \<or>
          ?fn ''econtainer_stop'' = None
       then abandon api RUNTIME_ENGINE_FAILURE ?s4 else (Inr (), ?s4))"
      using l n Some by (simp add: open_instance_def Let_def)
    have "balance live ?s4 = balance live s"
      using P a a2 Some by (simp add: balance_def held_def holds_module_def)
    then show ?thesis unfolding run by (simp add: exits_OK exits_abandon)
  qed
qed

lemma failed_open_balance:
  assumes acc: "accounts api live" and "econtainer_runtime_open api wasm limits out s = (r, s')"
  shows "case r of Inl _ \<Rightarrow> live (platform s') = live (platform s) \<and> runtime_claimed s' = runtime_claimed s
     | Inr _ \<Rightarrow> balance live s' = live (platform s)"
proof (cases "s' = s \<and> (\<exists>e. r = Inl e)")
  case False
  let ?l = "the limits"
  obtain required where req: "wasm_imported_capabilities wasm True = GO required" "\<not> runtime_claimed s"
    using assms(2) False by (auto simp: econtainer_runtime_open_def split: if_splits scan.splits)
  obtain ok s1 where h: "from_platform (heap_alloc api (sizeof_runtime api)) (s\<lparr>runtime_claimed := True\<rparr>) = (ok, s1)"
    by fastforce
  have "acquires live (heap_alloc api (sizeof_runtime api)) id" using acc by (simp add: accounts_def)
  note a = from_platform_acquires [OF this h]
  let ?s2 = "s1\<lparr>host_runtime := zero_runtime\<lparr>rt_limits := ?l, rt_state := RUNTIME_LOADED\<rparr>\<rparr>"
  let ?stages = "bindE (open_memory api (the wasm) ?l required) (\<lambda>_. bindE (open_engine api required)
      (\<lambda>_. bindE (open_module api (the wasm)) (\<lambda>_. open_instance api ?l)))"
  have body: "(r, s') = (if ok then ?stages ?s2 else (Inl RUNTIME_NO_MEMORY, s1\<lparr>runtime_claimed := False\<rparr>))"
    using assms(2) False req h
    by (auto simp: econtainer_runtime_open_def split: if_splits)
  show ?thesis
  proof (cases ok)
    case no: False
    then have "runtime_claimed s' = runtime_claimed s" "live (platform s') = live (platform s)"
      using body a req(2) by simp_all
    then show ?thesis using body no by simp
  next
    case yes: True
    have "stage api live (\<lambda>rt. holds_struct rt \<and> rt_pending_log rt = None) ?stages (\<lambda>_. True)"
      by (intro stage_bind [OF stage_memory] stage_bind [OF stage_engine] stage_bind [OF stage_module]
          stage_instance acc)
    moreover have "holds_struct (host_runtime ?s2) \<and> rt_pending_log (host_runtime ?s2) = None"
      by (simp add: holds_struct_def zero_runtime_def)
    moreover have "balance live ?s2 = live (platform s)"
      using a yes by (simp add: balance_def held_def zero_runtime_def)
    moreover have "runtime_claimed (release_runtime api s3) = runtime_claimed s" for s3 :: "'a host_state"
      using req(2) by (simp add: release_runtime_def Let_def)
    ultimately show ?thesis
      using body yes release_balance [OF acc]
      by (cases "?stages ?s2") (auto simp: exits_def dest!: stageD [where s = ?s2] split: sum.splits)
  qed
qed auto

end
