(* ===== verification/Runtime_Timers.thy ===== *)
theory Runtime_Timers
  imports Runtime_Steps
begin

text \<open>
  The bytes of a timer event, as the runtime writes them and the guest SDK reads them; and the
  selection of the timer to deliver.
\<close>

subsection \<open>Little-endian fields\<close>

definition le_fold :: "(nat \<Rightarrow> byte) \<Rightarrow> nat \<Rightarrow> 'a::len word" where
  "le_fold f n = fold (\<lambda>index v. v OR push_bit (index * 8) (ucast (f index))) [0..<n] 0"

lemma bit_byte_at: "bit (push_bit (n * 8) (ucast (b :: byte)) :: 'a::len word) m \<longleftrightarrow>
    m div 8 = n \<and> m < LENGTH('a) \<and> bit b (m mod 8)"
proof -
  have "n * 8 \<le> m \<and> bit b (m - n * 8) \<longleftrightarrow> m div 8 = n \<and> bit b (m mod 8)"
  proof
    assume a: "n * 8 \<le> m \<and> bit b (m - n * 8)"
    then have "m - n * 8 < 8" using bit_imp_le_length [of b "m - n * 8"] by auto
    with a have "m div 8 = n" by (simp add: div_nat_eqI)
    then have "m mod 8 = m - n * 8" using minus_div_mult_eq_mod [of m 8] by simp
    with a \<open>m div 8 = n\<close> show "m div 8 = n \<and> bit b (m mod 8)" by simp
  next
    assume a: "m div 8 = n \<and> bit b (m mod 8)"
    then have "n * 8 \<le> m" "m mod 8 = m - n * 8"
      using div_times_less_eq_dividend [of m 8] minus_div_mult_eq_mod [of m 8] by auto
    with a show "n * 8 \<le> m \<and> bit b (m - n * 8)" by simp
  qed
  then show ?thesis
    by (auto simp: bit_push_bit_iff bit_ucast_iff dest: bit_imp_le_length)
qed

lemma bit_le_fold: "bit (le_fold f n :: 'a::len word) m \<longleftrightarrow>
    m div 8 < n \<and> m < LENGTH('a) \<and> bit (f (m div 8)) (m mod 8)"
proof (induction n)
  case 0 then show ?case by (simp add: le_fold_def)
next
  case (Suc n)
  have "le_fold f (Suc n) = (le_fold f n OR push_bit (n * 8) (ucast (f n)) :: 'a word)"
    by (simp add: le_fold_def)
  then show ?case using Suc by (auto simp: bit_or_iff bit_byte_at less_Suc_eq)
qed

lemma le_fold_encode:
  assumes "LENGTH('a) = 8 * n"
  shows "(le_fold (\<lambda>i. ucast (drop_bit (i * 8) v)) n :: 'a::len word) = v"
proof (rule bit_word_eqI)
  fix m assume m: "m < LENGTH('a)"
  then have "m div 8 < n" using assms by (simp add: less_mult_imp_div_less mult.commute)
  with m show "bit (le_fold (\<lambda>i. ucast (drop_bit (i * 8) v)) n :: 'a word) m \<longleftrightarrow> bit v m"
    by (simp add: bit_le_fold bit_ucast_iff bit_drop_bit_eq mult.commute)
qed

lemma encode_le_fold:
  assumes "LENGTH('a) = 8 * n" "i < n"
  shows "ucast (drop_bit (i * 8) (le_fold f n :: 'a::len word)) = f i"
proof (rule bit_word_eqI)
  fix m assume "m < LENGTH(8)"
  moreover from this have "i * 8 + m < LENGTH('a)" using assms by simp
  ultimately show "bit (ucast (drop_bit (i * 8) (le_fold f n :: 'a word)) :: byte) m \<longleftrightarrow> bit (f i) m"
    using assms(2) by (simp add: bit_ucast_iff bit_drop_bit_eq bit_le_fold)
qed

subsection \<open>The timer event\<close>

lemma decode_event: "econtainer_timer_event_decode (Some b) 16 True True =
    (if take 4 b = [0x45, 0x43, 0x54, 1] \<and> le_fold (\<lambda>i. b ! (4 + i)) 8 \<noteq> (0 :: u64)
     then Some (le_fold (\<lambda>i. b ! (4 + i)) 8, le_fold (\<lambda>i. b ! (12 + i)) 4) else None)"
  if "length b = 16"
proof -
  have "take 4 b = map ((!) b) [0, 1, 2, 3]"
    using that by (intro nth_equalityI) (auto simp: less_Suc_eq numeral_eq_Suc)
  then show ?thesis by (auto simp: econtainer_timer_event_decode_def le_fold_def Let_def)
qed

lemma event_layout: "length (timer_event_bytes h k) = 16"
  "take 4 (timer_event_bytes h k) = [0x45, 0x43, 0x54, 1]"
  "i < 8 \<Longrightarrow> timer_event_bytes h k ! (4 + i) = ucast (drop_bit (i * 8) h)"
  "i < 4 \<Longrightarrow> timer_event_bytes h k ! (12 + i) = ucast (drop_bit (i * 8) k)"
  by (simp_all add: timer_event_bytes_def nth_append)

lemma le_fold_cong: "(\<And>i. i < n \<Longrightarrow> f i = g i) \<Longrightarrow> le_fold f n = le_fold g n"
  unfolding le_fold_def by (rule fold_cong) auto

lemma decode_timer_event: "econtainer_timer_event_decode (Some (timer_event_bytes h k)) 16 True True =
    (if h = 0 then None else Some (h, k))"
proof -
  have "(le_fold (\<lambda>i. timer_event_bytes h k ! (4 + i)) 8 :: u64) = le_fold (\<lambda>i. ucast (drop_bit (i * 8) h)) 8"
    by (rule le_fold_cong) (simp add: event_layout)
  then have h: "(le_fold (\<lambda>i. timer_event_bytes h k ! (4 + i)) 8 :: u64) = h" by (simp add: le_fold_encode)
  have "(le_fold (\<lambda>i. timer_event_bytes h k ! (12 + i)) 4 :: u32) = le_fold (\<lambda>i. ucast (drop_bit (i * 8) k)) 4"
    by (rule le_fold_cong) (simp add: event_layout)
  then have k: "(le_fold (\<lambda>i. timer_event_bytes h k ! (12 + i)) 4 :: u32) = k" by (simp add: le_fold_encode)
  show ?thesis by (simp add: decode_event event_layout h k)
qed

lemma timer_event_shape:
  assumes "length b = 16" "take 4 b = [0x45, 0x43, 0x54, 1]"
  shows "b = timer_event_bytes (le_fold (\<lambda>i. b ! (4 + i)) 8) (le_fold (\<lambda>i. b ! (12 + i)) 4)"
proof (rule nth_equalityI)
  let ?e = "timer_event_bytes (le_fold (\<lambda>i. b ! (4 + i)) 8) (le_fold (\<lambda>i. b ! (12 + i)) 4)"
  show "length b = length ?e" using assms(1) by (simp add: event_layout)
  fix i assume i: "i < length b"
  consider "i < 4" | j where "j < 8" "i = 4 + j" | j where "j < 4" "i = 12 + j"
    using i assms(1) by (metis add_diff_inverse_nat add_less_cancel_left less_diff_conv2 linorder_not_less
        numeral_plus_numeral semiring_norm(2-8) nat_less_le not_le)
  then show "b ! i = ?e ! i"
  proof cases
    case 1
    then have "b ! i = take 4 b ! i" "?e ! i = take 4 ?e ! i" by simp_all
    then show ?thesis by (simp add: assms(2) event_layout(2))
  qed (simp_all add: event_layout encode_le_fold)
qed

lemma host_event_refused:
  "length b = n \<Longrightarrow> timer_prefixed (Some b) n \<longleftrightarrow> (\<exists>h k. b = timer_event_bytes h k)"
  using timer_event_shape [of b] event_layout(1,2) by (auto simp: timer_prefixed_def)

subsection \<open>The timer to deliver\<close>

text \<open>
  What the next firing of a timer is: a one-shot timer is done; a periodic one fires next at the
  first point of its grid behind the clock, and the points between count as skipped.
\<close>

definition next_firing :: "u64 \<Rightarrow> container_timer \<Rightarrow> container_timer \<Rightarrow> u32 \<Rightarrow> bool" where
  "next_firing now_ms timer timer' skipped \<longleftrightarrow>
     (if tm_period_ms timer = 0 then timer' = timer\<lparr>tm_active := False\<rparr> \<and> skipped = 0
      else \<exists>next_ms missed. timer' = timer\<lparr>tm_deadline_ms := next_ms\<rparr> \<and>
        unat next_ms = unat (tm_deadline_ms timer) + (missed + 1) * unat (tm_period_ms timer) \<and>
        unat now_ms < unat next_ms \<and> unat next_ms \<le> unat now_ms + unat (tm_period_ms timer) \<and>
        unat skipped = min missed 4294967295)"

lemma advance_fires:
  assumes "tm_deadline_ms timer \<le> now_ms" "unat now_ms \<le> CLOCK_MAX_MS"
    "advance_timer now_ms timer = (timer', skipped)"
  shows "next_firing now_ms timer timer' skipped"
proof (cases "tm_period_ms timer = 0")
  case True then show ?thesis using assms(3) by (simp add: next_firing_def advance_once)
next
  case False
  let ?p = "unat (tm_period_ms timer)" and ?late = "unat now_ms - unat (tm_deadline_ms timer)"
  obtain next_ms where a: "timer' = timer\<lparr>tm_deadline_ms := next_ms\<rparr>" "skipped = of_nat (min (?late div ?p) 4294967295)"
      "unat next_ms = unat (tm_deadline_ms timer) + (?late div ?p + 1) * ?p"
    using advance_periodic [OF assms(1,2) False] assms(3) by auto
  have p: "0 < ?p" "unat (tm_deadline_ms timer) \<le> unat now_ms"
    using False assms(1) by (simp_all add: unat_gt_0 word_le_nat_alt)
  have "unat now_ms < unat next_ms \<and> unat next_ms \<le> unat now_ms + ?p"
    using next_period [OF p] a(3) mod_less_divisor [OF p(1), of ?late] by linarith
  moreover have "unat skipped = min (?late div ?p) 4294967295"
    unfolding a(2) by (simp add: unat_of_nat take_bit_nat_eq_self min_def)
  ultimately show ?thesis using False a(1,3) by (auto simp: next_firing_def)
qed

lemma timer_deadline_bound:
  assumes "host_ok s" "i < TIMER_CAPACITY" "tm_active (rt_timers (host_runtime s) ! i)"
  shows "tm_deadline_ms (rt_timers (host_runtime s) ! i) < 0xFFFFFFFFFFFFFFFF"
    and "i < unat (max_timers (rt_limits (host_runtime s)))"
proof -
  have "unat (tm_deadline_ms (rt_timers (host_runtime s) ! i)) \<le> DEADLINE_MAX_MS"
    using assms by (auto simp: host_ok_def timers_ok_def timer_ok_def Let_def)
  then show "tm_deadline_ms (rt_timers (host_runtime s) ! i) < 0xFFFFFFFFFFFFFFFF"
    by (simp add: word_less_nat_alt DEADLINE_MAX_MS_def CLOCK_MAX_MS_def)
  show "i < unat (max_timers (rt_limits (host_runtime s)))"
    using assms by (auto simp: host_ok_def timers_ok_def Let_def)
qed

lemma due_timer_earliest:
  assumes ok: "host_ok s" and due: "due_timer (host_runtime s) now_ms = Some k"
    and j: "j < TIMER_CAPACITY" "tm_active (rt_timers (host_runtime s) ! j)"
  shows "tm_deadline_ms (rt_timers (host_runtime s) ! k) \<le> tm_deadline_ms (rt_timers (host_runtime s) ! j)"
proof (cases "tm_deadline_ms (rt_timers (host_runtime s) ! j) \<le> now_ms")
  case True
  then show ?thesis
    using due_fold [where timers = "rt_timers (host_runtime s)" and now_ms = now_ms
        and n = "unat (max_timers (rt_limits (host_runtime s)))"] due timer_deadline_bound [OF ok j] j
    by (auto simp: due_timer_def split: prod.splits option.splits)
next
  case False then show ?thesis using due_timer_Some [OF due] by (meson linear order_trans)
qed

lemma due_timer_None:
  assumes ok: "host_ok s" and due: "due_timer (host_runtime s) now_ms = None"
    and j: "j < TIMER_CAPACITY" "tm_active (rt_timers (host_runtime s) ! j)"
  shows "now_ms < tm_deadline_ms (rt_timers (host_runtime s) ! j)"
  using due_fold [where timers = "rt_timers (host_runtime s)" and now_ms = now_ms
      and n = "unat (max_timers (rt_limits (host_runtime s)))"] due timer_deadline_bound [OF ok j] j
  by (auto simp: due_timer_def not_le split: prod.splits option.splits)

lemma poll_delivers:
  assumes "econtainer_runtime_poll_timer api True True True s = (Inr (ev, v), s')" "idle s"
  obtains now_ms sc k timer timer' s1 where
    "monotonic_ms api (claimed_call s) = (Some now_ms, sc)"
    "k < unat (max_timers (rt_limits (host_runtime s)))" "rt_timers (host_runtime s) ! k = timer"
    "tm_active timer" "tm_deadline_ms timer \<le> now_ms"
    "\<forall>j < TIMER_CAPACITY. tm_active (rt_timers (host_runtime s) ! j) \<longrightarrow>
       tm_deadline_ms timer \<le> tm_deadline_ms (rt_timers (host_runtime s) ! j)"
    "next_firing now_ms timer timer' (te_skipped_periods ev)" "te_handle ev = tm_handle timer"
    "call_event api (Some (timer_event_bytes (te_handle ev) (te_skipped_periods ev))) 16 True
       (put_timer k timer' sc) = (Inr v, s1)" "s' = end_call s1"
proof -
  obtain s2 where p: "poll_entry api (claimed_call s) = (Inr (ev, v), s2)" "s' = end_call s2"
    using assms(1) by (auto simp: econtainer_runtime_poll_timer_def elim: with_claim_cases)
  obtain now_ms sc k where c: "monotonic_ms api (claimed_call s) = (Some now_ms, sc)"
      and d: "due_timer (host_runtime sc) now_ms = Some k"
      and e: "deliver_timer api k now_ms sc = (Inr (ev, v), s2)"
    using p(1) by (auto simp: poll_entry_def split: if_splits prod.splits option.splits)
  have q: "rt_timers (host_runtime sc) = rt_timers (host_runtime s)" "rt_limits (host_runtime sc) = rt_limits (host_runtime s)"
    using quiet_keeps [OF quiet_clock [OF c]] by (simp_all add: claimed_call_def)
  have ok: "host_ok sc" using host_ok_quiet [OF quiet_clock [OF c]] assms(2) by (simp add: idle_def)
  let ?timer = "rt_timers (host_runtime sc) ! k"
  obtain timer' skipped where a: "advance_timer now_ms ?timer = (timer', skipped)" by fastforce
  have ev: "ev = \<lparr>te_handle = tm_handle ?timer, te_skipped_periods = skipped\<rparr>"
      "call_event api (Some (timer_event_bytes (tm_handle ?timer) skipped)) 16 True (put_timer k timer' sc) = (Inr v, s2)"
    using e a by (auto simp: deliver_timer_def Let_def split: prod.splits sum.splits)
  note due = due_timer_Some [OF d]
  have fires: "next_firing now_ms ?timer timer' skipped"
    using advance_fires [OF _ monotonic_ms_bound [OF c] a] due by simp
  show thesis
    by (rule that [OF c, of k ?timer timer' s2])
      (use due due_timer_earliest [OF ok d] fires ev p(2) q in auto)
qed

lemma poll_nothing_due:
  assumes "econtainer_runtime_poll_timer api True True True s = (Inl RUNTIME_NO_TIMER, s')" "idle s"
  shows "\<exists>now_ms sc. monotonic_ms api (claimed_call s) = (Some now_ms, sc) \<and>
    (\<forall>j < TIMER_CAPACITY. tm_active (rt_timers (host_runtime s) ! j) \<longrightarrow>
       now_ms < tm_deadline_ms (rt_timers (host_runtime s) ! j))"
proof -
  obtain s2 where p: "poll_entry api (claimed_call s) = (Inl RUNTIME_NO_TIMER, s2)" "s' = end_call s2"
    using assms by (auto simp: econtainer_runtime_poll_timer_def elim: with_claim_cases)
  have not_call: "call_event api ev n out sx \<noteq> (Inl RUNTIME_NO_TIMER, sy)" for ev n out sx sy
    by (auto elim!: call_event_cases dest: invoked_status)
  obtain now_ms sc where c: "monotonic_ms api (claimed_call s) = (Some now_ms, sc)"
      and d: "due_timer (host_runtime sc) now_ms = None"
    using p(1) not_call
    by (auto simp: poll_entry_def deliver_timer_def Let_def split: if_splits prod.splits option.splits sum.splits)
  have q: "rt_timers (host_runtime sc) = rt_timers (host_runtime s)"
    using quiet_keeps [OF quiet_clock [OF c]] by (simp add: claimed_call_def)
  have ok: "host_ok sc" using host_ok_quiet [OF quiet_clock [OF c]] assms(2) by (simp add: idle_def)
  show ?thesis using c due_timer_None [OF ok d] q by auto
qed

subsection \<open>The next deadline\<close>

lemma earliest_fold:
  fixes timers :: "container_timer list"
  defines "live \<equiv> \<lambda>i. tm_active (timers ! i) \<and> tm_deadline_ms (timers ! i) < 0xFFFFFFFFFFFFFFFF"
  shows "let earliest = fold (\<lambda>index earliest. let timer = timers ! index in
       if tm_active timer \<and> tm_deadline_ms timer < earliest then tm_deadline_ms timer else earliest)
       [0..<n] 0xFFFFFFFFFFFFFFFF in
    (\<forall>i < n. live i \<longrightarrow> earliest \<le> tm_deadline_ms (timers ! i)) \<and>
    (earliest \<noteq> 0xFFFFFFFFFFFFFFFF \<longrightarrow> (\<exists>i < n. live i \<and> earliest = tm_deadline_ms (timers ! i)))"
proof (induction n)
  case (Suc n)
  then show ?case
    by (auto simp: live_def Let_def less_Suc_eq not_less split: if_splits)
qed simp

lemma earliest_is_least:
  assumes ok: "host_ok s"
  shows "(\<forall>j < TIMER_CAPACITY. tm_active (rt_timers (host_runtime s) ! j) \<longrightarrow>
      earliest_deadline (host_runtime s) \<le> tm_deadline_ms (rt_timers (host_runtime s) ! j)) \<and>
    (if earliest_deadline (host_runtime s) = 0xFFFFFFFFFFFFFFFF then no_timers (host_runtime s)
     else \<exists>j < TIMER_CAPACITY. tm_active (rt_timers (host_runtime s) ! j) \<and>
       earliest_deadline (host_runtime s) = tm_deadline_ms (rt_timers (host_runtime s) ! j))"
proof -
  let ?n = "unat (max_timers (rt_limits (host_runtime s)))"
  note fold = earliest_fold [where timers = "rt_timers (host_runtime s)" and n = ?n]
  have least: "\<forall>j < TIMER_CAPACITY. tm_active (rt_timers (host_runtime s) ! j) \<longrightarrow>
      earliest_deadline (host_runtime s) \<le> tm_deadline_ms (rt_timers (host_runtime s) ! j)"
    using fold timer_deadline_bound [OF ok] by (simp add: earliest_deadline_def Let_def)
  have "no_timers (host_runtime s)" if "earliest_deadline (host_runtime s) = 0xFFFFFFFFFFFFFFFF"
    using least timer_deadline_bound(1) [OF ok] that host_ok_timers [OF ok]
    by (force simp: no_timers_def list_all_length)
  moreover have "\<exists>j < TIMER_CAPACITY. tm_active (rt_timers (host_runtime s) ! j) \<and>
       earliest_deadline (host_runtime s) = tm_deadline_ms (rt_timers (host_runtime s) ! j)"
    if "earliest_deadline (host_runtime s) \<noteq> 0xFFFFFFFFFFFFFFFF"
    using fold that max_timers_bound [OF ok] unfolding earliest_deadline_def Let_def
    by (meson order_less_le_trans)
  ultimately show ?thesis using least by simp
qed

lemma next_deadline_told:
  assumes "econtainer_runtime_next_timer_deadline True True s = (r, s')" "idle s"
    "rt_state (host_runtime s) = RUNTIME_RUNNING"
  shows "case r of
     Inr deadline \<Rightarrow> (\<exists>j < TIMER_CAPACITY. tm_active (rt_timers (host_runtime s) ! j) \<and>
         deadline = tm_deadline_ms (rt_timers (host_runtime s) ! j)) \<and>
       (\<forall>j < TIMER_CAPACITY. tm_active (rt_timers (host_runtime s) ! j) \<longrightarrow>
         deadline \<le> tm_deadline_ms (rt_timers (host_runtime s) ! j))
   | Inl status \<Rightarrow> status = RUNTIME_NO_TIMER \<and> no_timers (host_runtime s)"
proof -
  have ok: "host_ok (claimed_call s)" and idle: "\<not> rt_call_active (host_runtime s)"
    using assms(2) by (simp_all add: idle_def)
  have same: "rt_timers (host_runtime (claimed_call s)) = rt_timers (host_runtime s)"
      "no_timers (host_runtime (claimed_call s)) = no_timers (host_runtime s)"
    by (simp_all add: claimed_call_def no_timers_def)
  obtain s1 where "deadline_entry (claimed_call s) = (r, s1)"
    using assms(1) idle by (auto simp: econtainer_runtime_next_timer_deadline_def elim: with_claim_cases)
  then show ?thesis
    using earliest_is_least [OF ok] assms(3) same
    by (auto simp: deadline_entry_def Let_def split: if_splits)
qed

end
