(* ===== verification/Runtime_Demo.thy ===== *)
theory Runtime_Demo
  imports Runtime_Admission Runtime_Accounts Runtime_Timers
begin

text \<open>
  A small engine and module at which the properties of the runtime are exercised: the module
  imports \<open>timer_start\<close> and \<open>log\<close> and declares one page of memory; its init starts a periodic timer and
  stores a log; the engine grants everything and its clock advances by six milliseconds per read.
\<close>

record demo_engine =
  demo_clock :: "64 word"
  demo_live :: int

definition demo_wasm :: bytes where
  "demo_wasm = wasm_header @
     [1, 0x0d, 2, 0x60, 2, 0x7f, 0x7f, 1, 0x7e, 0x60, 2, 0x7f, 0x7f, 1, 0x7f] @
     [2, 0x2b, 2] @ [10] @ str_bytes ''econtainer'' @ [11] @ str_bytes ''timer_start'' @ [0, 0] @
     [10] @ str_bytes ''econtainer'' @ [3] @ str_bytes ''log'' @ [0, 1] @
     [5, 4, 1, 1, 1, 1]"

definition demo_limits :: runtime_limits where
  "demo_limits = \<lparr>max_wasm_bytes = 1000, max_memory_pages = 1, stack_size_bytes = 256,
     heap_size_bytes = 1024, max_event_bytes = 64, allowed_capabilities = 7, max_log_bytes = 16,
     max_timers = 2, init_instruction_budget = 100, event_instruction_budget = 100,
     stop_instruction_budget = 100, max_entry_duration_ms = 1000\<rparr>"

definition demo_exports :: "(string option \<times> export_kind) list" where
  "demo_exports = [(Some ''memory'', EXPORT_MEMORY (Some False)),
     (Some ''econtainer_init'', EXPORT_FUNC (Some ([], [VAL_I32]))),
     (Some ''econtainer_on_event'', EXPORT_FUNC (Some ([VAL_I32, VAL_I32], [VAL_I32]))),
     (Some ''econtainer_stop'', EXPORT_FUNC (Some ([], [VAL_I32])))]"

definition demo_run :: "nat option \<Rightarrow> bytes guest_run" where
  "demo_run fn = (if fn = Some 1
     then GUEST_CALL 9 [0x68, 0x69] (CALL_TIMER_START 5 10) (\<lambda>_.
          GUEST_CALL 9 [0x68, 0x69] (CALL_LOG 0 2) (\<lambda>_. GUEST_END True 0 None))
     else if fn = Some 2 then GUEST_END True 7 None
     else GUEST_END True 0 None)"

definition take_one :: "'a \<Rightarrow> demo_engine \<Rightarrow> 'a \<times> demo_engine" where
  "take_one x e = (x, e\<lparr>demo_live := demo_live e + 1\<rparr>)"

definition give_one :: "demo_engine \<Rightarrow> demo_engine" where
  "give_one e = e\<lparr>demo_live := demo_live e - 1\<rparr>"

definition demo_api :: "(demo_engine, bytes) runtime_api" where
  "demo_api = \<lparr>
     esp_timer_get_time = \<lambda>e. (demo_clock e, e\<lparr>demo_clock := demo_clock e + 6000\<rparr>),
     sizeof_runtime = 400,
     heap_alloc = \<lambda>_. take_one True,
     heap_free = give_one,
     wamr_init = take_one True,
     wamr_destroy = give_one,
     wamr_register_natives = \<lambda>_. take_one True,
     wamr_unregister_natives = give_one,
     wamr_load = \<lambda>_. take_one (Some 3),
     wamr_unload = \<lambda>_. give_one,
     wamr_exports = \<lambda>_ _. demo_exports,
     wamr_instantiate = \<lambda>_ _ _. take_one (Some 5),
     wamr_deinstantiate = \<lambda>_. give_one,
     wamr_create_exec_env = \<lambda>_ _. take_one (Some 9),
     wamr_destroy_exec_env = \<lambda>_. give_one,
     wamr_lookup_function = \<lambda>_ name _. if name = ''econtainer_init'' then Some 1
        else if name = ''econtainer_on_event'' then Some 2 else Some 4,
     wamr_function_attachment = \<lambda>_. True,
     wamr_module_inst = \<lambda>_. 5,
     wamr_validate_app_addr = \<lambda>memory offset n. unat offset + unat n \<le> length memory,
     wamr_app_to_native = \<lambda>memory offset. Some (\<lambda>i. memory ! (unat offset + i)),
     wamr_module_malloc = \<lambda>_ e. ((64, True), e),
     wamr_module_free = \<lambda>_ e. e,
     guest_write = \<lambda>_ _ e. e,
     wamr_call_wasm = \<lambda>_ fn _ _ e. (demo_run fn, e)\<rparr>"

definition demo_host :: "demo_engine host_state" where
  "demo_host = \<lparr>host_runtime = zero_runtime, runtime_claimed = False, next_timer_handle = 1,
     exceptions = \<lambda>_. None, platform = \<lparr>demo_clock = 1000000, demo_live = 0\<rparr>, host_fault = False\<rparr>"

text \<open>The state that open leaves.\<close>

definition demo_opened :: "demo_engine host_state" where
  "demo_opened = demo_host\<lparr>runtime_claimed := True, platform := \<lparr>demo_clock = 1000000, demo_live = 8\<rparr>,
     host_runtime := zero_runtime\<lparr>rt_limits := demo_limits, rt_pending_log := Some (zeros 16),
       rt_wasm_copy := Some demo_wasm, rt_wamr_initialized := True,
       rt_native_symbols := [''log'', ''timer_start'', ''timer_cancel''], rt_natives_registered := True,
       rt_module := Some 3, rt_instance := Some 5, rt_environment := Some 9, rt_init_function := Some 1,
       rt_event_function := Some 2, rt_stop_function := Some 4\<rparr>\<rparr>"

lemma demo_scan: "wasm_imported_capabilities (Some demo_wasm) True = GO 6"
  by code_simp

lemma demo_memory: "wasm_memory_within_limit (Some demo_wasm) 1 = GO ()"
  by code_simp

lemma demo_size: "length demo_wasm = 74"
  by (simp add: demo_wasm_def wasm_header_def)

lemma demo_limits_valid: "limits_valid (Some demo_limits)"
  by code_simp

lemma demo_abi: "module_abi_matches demo_exports"
  by code_simp

lemma demo_names: "native_names 6 = [''log'', ''timer_start'', ''timer_cancel'']"
  by code_simp

lemma demo_open: "econtainer_runtime_open demo_api (Some demo_wasm) (Some demo_limits) (Some True) demo_host =
    (Inr (), demo_opened)"
proof -
  have limits: "max_wasm_bytes demo_limits = 1000" "allowed_capabilities demo_limits = 7"
      "max_memory_pages demo_limits = 1" "max_log_bytes demo_limits = 16"
    by (simp_all add: demo_limits_def)
  have log: "(6 :: u32) AND CAP_LOG \<noteq> 0" by code_simp
  show ?thesis
    by (simp add: econtainer_runtime_open_def demo_scan demo_memory demo_size demo_limits_valid limits log
        open_memory_def open_engine_def open_module_def open_instance_def allocate_def update_runtime_def
        bindE_def from_platform_def demo_api_def take_one_def demo_abi demo_names demo_host_def
        demo_opened_def Let_def) (simp add: zero_runtime_def)
qed

lemma demo_links: "engine_links demo_api (host_runtime demo_opened)"
  by (simp add: engine_links_def registered_symbols demo_opened_def demo_api_def demo_run_def call_symbol_def)

lemma demo_accounts: "accounts demo_api demo_live"
  by (simp add: accounts_def acquires_def releases_def demo_api_def take_one_def give_one_def)

lemma demo_idle: "idle demo_opened"
proof -
  obtain required where "opened demo_api demo_wasm demo_limits required demo_host demo_opened"
    using demo_open by (auto elim: open_OK)
  then show ?thesis by (rule opened_idle) (simp_all add: demo_host_def demo_limits_valid)
qed

definition demo_calls :: "runtime_call list" where
  "demo_calls = [DO_INIT True, DO_DEADLINE True True, DO_POLL True True True,
     DO_TAKE_LOG True (Some 16) True, DO_EVENT True (Some [1, 2]) 2 True, DO_STOP True, DO_STOP True, DO_INIT True]"

lemma demo_results: "fst (runtime_steps demo_api demo_calls demo_opened) =
    [RUNTIME_OK, RUNTIME_OK, RUNTIME_OK, RUNTIME_OK, RUNTIME_OK, RUNTIME_OK, RUNTIME_OK, RUNTIME_INVALID_STATE]"
  by code_simp

text \<open>After init; the timer it started is due at the next poll.\<close>

definition demo_started :: "demo_engine host_state" where
  "demo_started = snd (runtime_step demo_api (DO_INIT True) demo_opened)"

lemma demo_started_idle: "idle demo_started"
  using step_idle [OF _ demo_idle demo_links, of "DO_INIT True"]
  by (metis demo_started_def prod.collapse)

lemma demo_started_links: "engine_links demo_api (host_runtime demo_started)"
  using step_idle [OF _ demo_idle demo_links, of "DO_INIT True"]
  by (metis demo_started_def prod.collapse)

lemma demo_poll: "fst (econtainer_runtime_poll_timer demo_api True True True demo_started) =
    Inr (\<lparr>te_handle = 1, te_skipped_periods = 1\<rparr>, 7)"
  by code_simp

lemma demo_started_timers: "map tm_deadline_ms (rt_timers (host_runtime demo_started)) ! 0 = 1017"
  by code_simp

end
