(* ===== verification/Runtime_Entries.thy ===== *)
theory Runtime_Entries
  imports Runtime_Steps
begin

text \<open>
  What the outcome of an entry says: a result is accepted only when the entry was over before its
  deadline and no host call had failed, and an expired entry leaves a failed instance without
  timers and with the log as it was.
\<close>

lemma guest_ran_deadline:
  assumes "guest_ran api s began_ms ok argument s1"
  shows "unat (rt_entry_deadline_ms (host_runtime s1)) =
    unat began_ms + unat (max_entry_duration_ms (rt_limits (host_runtime s)))"
proof -
  let ?limit = "max_entry_duration_ms (rt_limits (host_runtime s))"
  have "rt_entry_deadline_ms (host_runtime s1) = began_ms + ucast ?limit"
    using kept_fields(9) [OF guest_ran_facts(1) [OF assms]] by (simp add: enter_guest_def entry_deadline_def)
  moreover have "began_ms \<le> 0xFFFFFFFFFFFFFFFF - ucast ?limit"
    using assms unfolding guest_ran_def by blast
  then have "unat began_ms + unat ?limit < 2 ^ 64"
    using unat_sub [of "ucast ?limit" "0xFFFFFFFFFFFFFFFF :: u64"] unat_u32_lt [of ?limit]
    by (simp add: word_le_nat_alt)
  ultimately show ?thesis by (simp add: unat_word_ariths)
qed

lemma accepted_in_time:
  assumes "invoked api s (Inr result) s'"
  obtains began_ms ended_ms sc s1 where "monotonic_ms api s = (Some began_ms, sc)"
    "monotonic_ms api s1 = (Some ended_ms, s')"
    "unat ended_ms < unat began_ms + unat (max_entry_duration_ms (rt_limits (host_runtime s)))"
    "\<not> rt_entry_expired (host_runtime s1)" "exceptions s1 (own_instance s) = None"
proof -
  obtain began_ms s1 ended_ms where r: "guest_ran api s began_ms True result s1"
      "\<not> rt_entry_expired (host_runtime s1)" "exceptions s1 (own_instance s) = None"
      "monotonic_ms api (leave_guest s1) = (Some ended_ms, s')" "ended_ms < rt_entry_deadline_ms (host_runtime s1)"
    using assms by (auto elim: invoked_OK)
  obtain sc where "monotonic_ms api s = (Some began_ms, sc)"
    using r(1) unfolding guest_ran_def by blast
  then show thesis
    using that [of began_ms sc "leave_guest s1" ended_ms] r guest_ran_deadline [OF r(1)]
    by (simp add: leave_guest_def word_less_nat_alt)
qed

lemma expired_rolls_back:
  assumes "invoked api s (Inl RUNTIME_ENTRY_EXPIRED) s'" "host_ok s" "engine_links api (host_runtime s)"
  shows "rt_state (host_runtime s') = RUNTIME_FAILED \<and> no_timers (host_runtime s') \<and>
    rt_pending_log_size (host_runtime s') = rt_pending_log_size (host_runtime s) \<and>
    (rt_pending_log_size (host_runtime s) \<noteq> 0 \<longrightarrow> rt_pending_log (host_runtime s') = rt_pending_log (host_runtime s))"
proof -
  obtain began_ms ok argument s1 s2 where r: "guest_ran api s began_ms ok argument s1"
      "quiet (leave_guest s1) s2" "s' = expire_entry (rt_pending_log_size (host_runtime s)) s2"
    using assms(1) by (auto elim: invoked_error)
  have ok: "host_ok s2" using guest_ran_facts(5) [OF r(1)] assms(2,3) host_ok_quiet [OF r(2)] by simp
  have "no_timers (host_runtime s')"
    using no_timers_cancel [OF ok] unfolding r(3)
    by (simp add: expire_entry_def cancel_all_def no_timers_def)
  moreover have "rt_pending_log (host_runtime s2) = rt_pending_log (host_runtime s1)"
    using quiet_keeps(4) [OF r(2)] by (simp add: leave_guest_def)
  ultimately show ?thesis
    using guest_ran_facts(4) [OF r(1)] unfolding r(3)
    by (auto simp: expire_entry_def cancel_all_def same_log_def)
qed

lemma refused_is_final:
  assumes "lifecycle_run q cs rs q'" "q = RUNTIME_STOPPED \<or> q = RUNTIME_FAILED"
  shows "q' = q \<and> length rs = length cs \<and> (\<forall>i < length cs. rs ! i = RUNTIME_OK \<longrightarrow>
    (\<exists>output. cs ! i = DO_TAKE_LOG True output True) \<or> q = RUNTIME_STOPPED \<and> cs ! i = DO_STOP True)"
  using assms
proof (induction cs arbitrary: rs)
  case (Cons c cs)
  then obtain r rs' q1 where r: "rs = r # rs'" "lifecycle q c r q1" "lifecycle_run q1 cs rs' q'" by auto
  have "q1 = q \<and> (r = RUNTIME_OK \<longrightarrow> (\<exists>output. c = DO_TAKE_LOG True output True) \<or>
      q = RUNTIME_STOPPED \<and> c = DO_STOP True)"
    using r(2) Cons.prems(2) by (auto elim: lifecycle_from_failed lifecycle_from_stopped)
  then show ?case using Cons.IH [of rs'] r Cons.prems(2) by (auto simp: nth_Cons less_Suc_eq_0_disj)
qed simp

end
