(* ===== verification/Runtime_Properties.thy ===== *)
theory Runtime_Properties
  imports Runtime_Demo Runtime_Entries
begin

text \<open>The properties of the runtime instance, each with its witness at the engine of \<open>Runtime_Demo\<close>.\<close>

text \<open>C33: A successful open has admitted a module of the grammar whose imports are all authorized by the
  limits and bound to registered host functions, whose declared memory is within the limit and
  whose exports are the four of the ABI.\<close>

theorem open_admits_only_checked_modules:
  assumes "econtainer_runtime_open api wasm limits out s = (Inr (), s')"
  shows "\<exists>b l secs hs body lo hi m e. wasm = Some b \<and> limits = Some l \<and> limits_valid limits \<and>
    length b \<le> unat (max_wasm_bytes l) \<and> g_module b secs hs \<and>
    capability_mask hs AND NOT (allowed_capabilities l) = 0 \<and>
    (\<forall>h \<in> set hs. host_name h \<in> set (rt_native_symbols (host_runtime s'))) \<and>
    map_of secs 5 = Some body \<and> g_memory body (lo, hi) \<and> 0 < lo \<and> lo \<le> hi \<and> hi \<le> max_memory_pages l \<and>
    module_abi_matches (wamr_exports api m e) \<and> rt_module (host_runtime s') = Some m \<and>
    rt_limits (host_runtime s') = l \<and> \<not> runtime_claimed s \<and> runtime_claimed s'"
proof -
  from assms obtain b l required where o: "wasm = Some b" "limits = Some l" "limits_valid limits"
    "length b \<le> unat (max_wasm_bytes l)" "wasm_imported_capabilities wasm True = GO required"
    "required AND NOT (allowed_capabilities l) = 0"
    "wasm_memory_within_limit wasm (max_memory_pages l) = GO ()" "\<not> runtime_claimed s"
    "opened api b l required s s'" by (rule open_OK)
  obtain secs hs where g: "g_module b secs hs" "required = capability_mask hs"
    using o(5) unfolding o(1) by (auto simp: wasm_imported_capabilities_def scan_simps scan_module_iff)
  obtain secs' hs' body lo hi where m: "g_module b secs' hs'" "map_of secs' 5 = Some body"
      "g_memory body (lo, hi)" "0 < lo" "lo \<le> hi" "hi \<le> max_memory_pages l"
    using o(7) unfolding o(1) memory_within_limit_iff memory_ok_def by blast
  have "capability_mask hs' = required"
    using m(1) o(5) unfolding o(1) wasm_imported_capabilities_def
    by (auto simp: scan_simps dest!: scan_module_iff [THEN iffD2, OF exI, OF exI, OF conjI])
  moreover obtain m e where "module_abi_matches (wamr_exports api m e)" "rt_module (host_runtime s') = Some m"
    using o(9) by (auto simp: opened_def updates_def)
  ultimately show ?thesis
    using o m imports_bound [of _ hs'] opened_fields [OF o(9)] by metis
qed

theorem open_admits_only_checked_modules_witness:
  "\<exists>secs hs. g_module demo_wasm secs hs \<and> capability_mask hs AND NOT 7 = 0 \<and>
     (\<forall>h \<in> set hs. host_name h \<in> {''log'', ''timer_start'', ''timer_cancel''})"
  using open_admits_only_checked_modules [OF demo_open]
  by (auto simp: demo_opened_def demo_limits_def)

text \<open>C34: After a successful open every call and every sequence of calls keeps the invariant of the instance,
  whatever the guest does in its entries: valid limits, at most eight timers with distinct issued
  handles and bounded deadlines, the pending log inside its buffer, no access outside a buffer, no
  claim left behind, and no timer in an instance that is not running or failed.\<close>

theorem calls_keep_the_invariant:
  assumes "econtainer_runtime_open api wasm limits out s = (Inr (), s1)" "\<not> host_fault s"
    and "engine_links api (host_runtime s1)" "runtime_steps api cs s1 = (rs, s2)"
  shows "idle s2 \<and> \<not> host_fault s2"
proof -
  from assms(1) obtain b l required where "limits = Some l" "limits_valid limits" "opened api b l required s s1"
    by (rule open_OK) auto
  with assms(2) have "idle s1" by (auto intro: opened_idle)
  with steps_idle [OF assms(4)] assms(3) show ?thesis by (simp add: idle_def host_ok_def Let_def)
qed

theorem calls_keep_the_invariant_witness:
  "fst (runtime_steps demo_api demo_calls demo_opened) = [RUNTIME_OK, RUNTIME_OK, RUNTIME_OK, RUNTIME_OK,
     RUNTIME_OK, RUNTIME_OK, RUNTIME_OK, RUNTIME_INVALID_STATE] \<and>
   idle (snd (runtime_steps demo_api demo_calls demo_opened))"
  using calls_keep_the_invariant [OF demo_open _ demo_links, of demo_calls] demo_results
  by (simp add: demo_host_def prod_eq_iff)

text \<open>C35: The calls refine the lifecycle: init leads from loaded to running, a failed entry leads to failed, stop
  to stopped; once stopped or failed, the only calls that can still succeed are taking the log and,
  when stopped, stop again.\<close>

theorem calls_follow_the_lifecycle:
  assumes "idle s" "engine_links api (host_runtime s)" "runtime_steps api cs s = (rs, s')"
  shows "lifecycle_run (rt_state (host_runtime s)) cs rs (rt_state (host_runtime s')) \<and>
    (rt_state (host_runtime s) \<in> {RUNTIME_STOPPED, RUNTIME_FAILED} \<longrightarrow>
      rt_state (host_runtime s') = rt_state (host_runtime s) \<and>
      (\<forall>i < length cs. rs ! i = RUNTIME_OK \<longrightarrow> (\<exists>output. cs ! i = DO_TAKE_LOG True output True) \<or>
         rt_state (host_runtime s) = RUNTIME_STOPPED \<and> cs ! i = DO_STOP True))"
  using steps_lifecycle [OF assms(3,1,2)] refused_is_final [OF steps_lifecycle [OF assms(3,1,2)]] by auto

theorem calls_follow_the_lifecycle_witness:
  "lifecycle_run RUNTIME_LOADED demo_calls (fst (runtime_steps demo_api demo_calls demo_opened))
     (rt_state (host_runtime (snd (runtime_steps demo_api demo_calls demo_opened))))"
  using calls_follow_the_lifecycle [OF demo_idle demo_links, of demo_calls]
  by (simp add: demo_opened_def zero_runtime_def prod_eq_iff)

text \<open>C36: A handle that has been issued and is no longer that of an active timer, because the timer fired, was
  cancelled or went down with a stop or a failure, is never that of an active timer again.\<close>

theorem retired_handles_never_return:
  assumes "idle s" "engine_links api (host_runtime s)"
    and "issued (next_timer_handle s) h" "\<not> live_handle s h"
    and "runtime_steps api cs s = (rs, s')"
  shows "issued (next_timer_handle s') h \<and> \<not> live_handle s' h"
  using steps_idle [OF assms(5,1,2), of h] assms(3,4) by (simp add: retired_def)

definition demo_stopped :: "demo_engine host_state" where
  "demo_stopped = snd (runtime_steps demo_api [DO_STOP True] demo_started)"

theorem retired_handles_never_return_witness:
  "live_handle demo_started 1 \<and>
   \<not> live_handle (snd (runtime_steps demo_api [DO_POLL True True True] demo_stopped)) 1"
proof -
  have "idle demo_stopped \<and> engine_links demo_api (host_runtime demo_stopped)"
    using steps_idle [OF _ demo_started_idle demo_started_links, of "[DO_STOP True]"]
    by (metis demo_stopped_def prod.collapse)
  moreover have "issued (next_timer_handle demo_stopped) 1 \<and> \<not> live_handle demo_stopped 1" by code_simp
  moreover have "live_handle demo_started 1" by code_simp
  ultimately show ?thesis
    using retired_handles_never_return [of demo_stopped demo_api 1 "[DO_POLL True True True]"]
    by (simp add: prod_eq_iff)
qed

text \<open>C37: An entry is accepted only when it ended strictly before the deadline set at its begin, with no expired
  host call and no exception; every other outcome fails the instance, and an expired entry also
  cancels all timers and leaves the pending log as it was before the entry.\<close>

theorem entries_are_accepted_only_in_time:
  assumes "invoke api fn budget arguments s = (r, s')" "host_ok s" "engine_links api (host_runtime s)"
  shows "case r of
      Inr result \<Rightarrow> \<exists>began_ms ended_ms sc s1. monotonic_ms api s = (Some began_ms, sc) \<and>
        monotonic_ms api s1 = (Some ended_ms, s') \<and>
        unat ended_ms < unat began_ms + unat (max_entry_duration_ms (rt_limits (host_runtime s))) \<and>
        \<not> rt_entry_expired (host_runtime s1) \<and> exceptions s1 (own_instance s) = None \<and>
        rt_state (host_runtime s') = rt_state (host_runtime s)
    | Inl status \<Rightarrow> rt_state (host_runtime s') = RUNTIME_FAILED \<and>
        (status = RUNTIME_ENTRY_EXPIRED \<longrightarrow> no_timers (host_runtime s') \<and>
          rt_pending_log_size (host_runtime s') = rt_pending_log_size (host_runtime s) \<and>
          (rt_pending_log_size (host_runtime s) \<noteq> 0 \<longrightarrow>
             rt_pending_log (host_runtime s') = rt_pending_log (host_runtime s)))"
proof -
  note i = invoke_invoked [OF assms(1)]
  note state = invoked_state [OF i]
  show ?thesis
  proof (cases r)
    case (Inl status)
    then show ?thesis using state expired_rolls_back [of api s s'] i assms(2,3) by auto
  next
    case (Inr result)
    then show ?thesis using state accepted_in_time [of api s result s'] i by (simp, metis)
  qed
qed

definition demo_slow :: "demo_engine host_state" where
  "demo_slow = demo_opened\<lparr>host_runtime := (host_runtime demo_opened)\<lparr>
     rt_limits := demo_limits\<lparr>max_entry_duration_ms := 18\<rparr>, rt_call_active := True\<rparr>\<rparr>"

theorem entries_are_accepted_only_in_time_witness:
  "fst (invoke demo_api (Some 1) 100 [] demo_slow) = Inl RUNTIME_ENTRY_EXPIRED \<and>
   rt_state (host_runtime (snd (invoke demo_api (Some 1) 100 [] demo_slow))) = RUNTIME_FAILED \<and>
   no_timers (host_runtime (snd (invoke demo_api (Some 1) 100 [] demo_slow)))"
proof -
  have "fst (invoke demo_api (Some 1) 100 [] demo_slow) = Inl RUNTIME_ENTRY_EXPIRED" by code_simp
  moreover have "host_ok demo_slow"
  proof -
    have "limits_valid (Some (rt_limits (host_runtime demo_slow)))" by code_simp
    then show ?thesis using demo_idle
      by (simp add: idle_def host_ok_def log_ok_def Let_def demo_slow_def demo_opened_def)
  qed
  moreover have "engine_links demo_api (host_runtime demo_slow)"
    using demo_links by (simp add: demo_slow_def engine_links_def registered_symbols)
  ultimately show ?thesis
    using entries_are_accepted_only_in_time [of demo_api "Some 1" 100 "[]" demo_slow]
    by (cases "invoke demo_api (Some 1) 100 [] demo_slow") auto
qed

text \<open>C38: A poll delivers the active timer with the least deadline, only when that deadline has come, and sets its
  next firing to the first point of its grid behind the clock, with the exact count of the points
  skipped, before the guest runs; when it finds no timer, none is due; and the deadline told to the
  owner is the least one, or there is no active timer.\<close>

theorem timers_are_delivered_in_order:
  assumes "idle s" "rt_state (host_runtime s) = RUNTIME_RUNNING"
    "econtainer_runtime_poll_timer api True True True s = (r, s')"
    "econtainer_runtime_next_timer_deadline True True s = (told, s'')"
  defines "live \<equiv> \<lambda>timer. timer \<in> set (rt_timers (host_runtime s)) \<and> tm_active timer"
  shows "(\<forall>ev v. r = Inr (ev, v) \<longrightarrow> (\<exists>now_ms sc k timer timer' s1.
      monotonic_ms api (claimed_call s) = (Some now_ms, sc) \<and>
      k < TIMER_CAPACITY \<and> rt_timers (host_runtime s) ! k = timer \<and> live timer \<and>
      tm_deadline_ms timer \<le> now_ms \<and>
      (\<forall>other. live other \<longrightarrow> tm_deadline_ms timer \<le> tm_deadline_ms other) \<and>
      te_handle ev = tm_handle timer \<and> next_firing now_ms timer timer' (te_skipped_periods ev) \<and>
      call_event api (Some (timer_event_bytes (te_handle ev) (te_skipped_periods ev))) 16 True
        (put_timer k timer' sc) = (Inr v, s1) \<and> s' = end_call s1)) \<and>
    (r = Inl RUNTIME_NO_TIMER \<longrightarrow> (\<exists>now_ms sc. monotonic_ms api (claimed_call s) = (Some now_ms, sc) \<and>
      (\<forall>timer. live timer \<longrightarrow> now_ms < tm_deadline_ms timer))) \<and>
    (case told of
       Inr deadline \<Rightarrow> (\<exists>timer. live timer \<and> deadline = tm_deadline_ms timer) \<and>
         (\<forall>timer. live timer \<longrightarrow> deadline \<le> tm_deadline_ms timer)
     | Inl status \<Rightarrow> status = RUNTIME_NO_TIMER \<and> (\<forall>timer. \<not> live timer))"
proof -
  have ok: "host_ok s" using assms(1) by (simp add: idle_def)
  note len = host_ok_timers [OF ok]
  have live: "live timer \<longleftrightarrow> (\<exists>j < TIMER_CAPACITY. rt_timers (host_runtime s) ! j = timer \<and> tm_active timer)" for timer
    by (auto simp: live_def in_set_conv_nth len)
  have delivered: "\<exists>now_ms sc k timer timer' s1.
      monotonic_ms api (claimed_call s) = (Some now_ms, sc) \<and>
      k < TIMER_CAPACITY \<and> rt_timers (host_runtime s) ! k = timer \<and> live timer \<and>
      tm_deadline_ms timer \<le> now_ms \<and>
      (\<forall>other. live other \<longrightarrow> tm_deadline_ms timer \<le> tm_deadline_ms other) \<and>
      te_handle ev = tm_handle timer \<and> next_firing now_ms timer timer' (te_skipped_periods ev) \<and>
      call_event api (Some (timer_event_bytes (te_handle ev) (te_skipped_periods ev))) 16 True
        (put_timer k timer' sc) = (Inr v, s1) \<and> s' = end_call s1" if r: "r = Inr (ev, v)" for ev v
  proof -
    obtain now_ms sc k timer timer' s1 where d: "monotonic_ms api (claimed_call s) = (Some now_ms, sc)"
      "k < unat (max_timers (rt_limits (host_runtime s)))" "rt_timers (host_runtime s) ! k = timer"
      "tm_active timer" "tm_deadline_ms timer \<le> now_ms"
      "\<forall>j < TIMER_CAPACITY. tm_active (rt_timers (host_runtime s) ! j) \<longrightarrow>
         tm_deadline_ms timer \<le> tm_deadline_ms (rt_timers (host_runtime s) ! j)"
      "next_firing now_ms timer timer' (te_skipped_periods ev)" "te_handle ev = tm_handle timer"
      "call_event api (Some (timer_event_bytes (te_handle ev) (te_skipped_periods ev))) 16 True
         (put_timer k timer' sc) = (Inr v, s1)" "s' = end_call s1"
      using poll_delivers [OF assms(3) [unfolded r] assms(1)] by metis
    moreover have k: "k < TIMER_CAPACITY" using d(2) max_timers_bound [OF ok] by simp
    moreover have "live timer" using d(3,4) k by (auto simp: live)
    moreover have "\<forall>other. live other \<longrightarrow> tm_deadline_ms timer \<le> tm_deadline_ms other"
      using d(6) by (auto simp: live)
    ultimately show ?thesis by blast
  qed
  moreover have "\<exists>now_ms sc. monotonic_ms api (claimed_call s) = (Some now_ms, sc) \<and>
      (\<forall>timer. live timer \<longrightarrow> now_ms < tm_deadline_ms timer)" if "r = Inl RUNTIME_NO_TIMER"
    using poll_nothing_due [OF assms(3) [unfolded that] assms(1)] live by metis
  moreover have "case told of
       Inr deadline \<Rightarrow> (\<exists>timer. live timer \<and> deadline = tm_deadline_ms timer) \<and>
         (\<forall>timer. live timer \<longrightarrow> deadline \<le> tm_deadline_ms timer)
     | Inl status \<Rightarrow> status = RUNTIME_NO_TIMER \<and> (\<forall>timer. \<not> live timer)"
    using next_deadline_told [OF assms(4,1,2)] live
    by (cases told) (auto simp: live_def no_timers_def list_all_iff)
  ultimately show ?thesis by blast
qed

theorem timers_are_delivered_in_order_witness:
  "fst (econtainer_runtime_next_timer_deadline True True demo_started) = Inr 1017 \<and>
   (\<exists>now_ms sc timer timer'. monotonic_ms demo_api (claimed_call demo_started) = (Some now_ms, sc) \<and>
      tm_deadline_ms timer \<le> now_ms \<and> next_firing now_ms timer timer' 1)"
proof -
  obtain r s' where r: "econtainer_runtime_poll_timer demo_api True True True demo_started = (r, s')" by fastforce
  obtain told s'' where told: "econtainer_runtime_next_timer_deadline True True demo_started = (told, s'')" by fastforce
  have running: "rt_state (host_runtime demo_started) = RUNTIME_RUNNING" by code_simp
  have "r = Inr (\<lparr>te_handle = 1, te_skipped_periods = 1\<rparr>, 7)" using demo_poll r by simp
  from timers_are_delivered_in_order [OF demo_started_idle running r told, THEN conjunct1, THEN spec,
      THEN spec, THEN mp, OF this]
  have "\<exists>now_ms sc timer timer'. monotonic_ms demo_api (claimed_call demo_started) = (Some now_ms, sc) \<and>
      tm_deadline_ms timer \<le> now_ms \<and> next_firing now_ms timer timer' 1"
    by (metis timer_event.select_convs(2))
  moreover have "fst (econtainer_runtime_next_timer_deadline True True demo_started) = Inr 1017" by code_simp
  ultimately show ?thesis by simp
qed


text \<open>C40: A failed open gives back everything that it acquired from the engine and the allocator and leaves the
  process-wide claim as it was; after a successful open, a release gives back everything.\<close>

theorem open_leaks_nothing:
  assumes "accounts api live" "econtainer_runtime_open api wasm limits out s = (r, s')"
  shows "case r of
      Inl _ \<Rightarrow> live (platform s') = live (platform s) \<and> runtime_claimed s' = runtime_claimed s
    | Inr _ \<Rightarrow> live (platform (release_runtime api s')) = live (platform s) \<and>
        \<not> runtime_claimed (release_runtime api s')"
  using failed_open_balance [OF assms] release_balance [OF assms(1), of s']
  by (auto simp: release_runtime_def Let_def split: sum.splits)

theorem open_leaks_nothing_witness:
  "demo_live (platform demo_opened) = 8 \<and>
   demo_live (platform (release_runtime demo_api demo_opened)) = demo_live (platform demo_host)"
  using open_leaks_nothing [OF demo_accounts demo_open] by (simp add: demo_opened_def)

end
