(* ===== verification/Spec2Isabelle.thy ===== *)
theory Spec2Isabelle
  imports Slots_Properties Package_Properties Package_Findings Wasm_Properties Runtime_Properties
begin

text \<open>
  A verification development for \<^verbatim>\<open>esp_container\<close>, the ESP-IDF component that stores signed Wasm
  packages in three Flash slots, installs them as a product update that survives a power cut, and
  runs one of them in a WAMR instance with timers, a log and a clock.  File names below are those
  of \<^verbatim>\<open>src/components/esp_container/\<close>.

  \<^bold>\<open>Parts of the program and the theories that model them\<close>

  \<^item> Shared vocabulary: \<^verbatim>\<open>Container_Prelude\<close> (machine types, effects with error codes, frames,
    word and list lemmas).

  \<^item> The slot store (\<^verbatim>\<open>src/slots.c\<close>, \<^verbatim>\<open>include/esp_container_slots.h\<close>).  \<^verbatim>\<open>Slots_Types\<close> has the
    structs as records and the validity predicates; \<^verbatim>\<open>Slots_Codec\<close> the 288-byte record with its
    CRC-32; \<^verbatim>\<open>Slots_Io\<close> the callbacks (\<^verbatim>\<open>econtainer_slots_io_t\<close> as a record of functions on an
    abstract device), hashing, reading and persisting; \<^verbatim>\<open>Slots_Ops\<close> the nine public operations,
    each as the C function has it, lock included.
  \<^item> What the slot store promises: \<^verbatim>\<open>Slots_Machine\<close> is the abstract machine of the record,
    \<^verbatim>\<open>Slots_Refine\<close> shows that every operation takes one of its steps, \<^verbatim>\<open>Slots_Durable\<close> what a
    result code says of the committed record, \<^verbatim>\<open>Slots_Safety\<close> and \<^verbatim>\<open>Slots_Reach\<close> carry this over
    whole runs with reboots and arbitrary callers, \<^verbatim>\<open>Slots_Api\<close> gives the result codes and what an
    OK certifies, \<^verbatim>\<open>Slots_Live\<close> and \<^verbatim>\<open>Slots_Write\<close> that an update can be completed.
  \<^item> The ESP-IDF provider of the callbacks (\<^verbatim>\<open>src/slots_idf.c\<close>, \<^verbatim>\<open>include/esp_container_slots_idf.h\<close>):
    \<^verbatim>\<open>Slots_Idf\<close>, over a record of the partition, NVS and semaphore calls.  \<^verbatim>\<open>Sim_Platform\<close> and
    \<^verbatim>\<open>Sim_Reliable\<close> are a simulated platform with faults at which the contracts are instantiated.
  \<^item> Digests and signatures (\<^verbatim>\<open>src/package_crypto.c\<close>): \<^verbatim>\<open>Package_Crypto\<close> is the \<^verbatim>\<open>ESP_PLATFORM\<close>
    branch, over records of the PSA hash and key calls, which the packages below use;
    \<^verbatim>\<open>Package_Openssl\<close> is the branch of the host build, over a record of the EVP calls.
  \<^item> The signed package (\<^verbatim>\<open>src/package_stream.c\<close>, \<^verbatim>\<open>include/esp_container_package.h\<close>):
    \<^verbatim>\<open>Package_Types\<close> has the data, \<^verbatim>\<open>Package_Manifest\<close> the reader of \<^verbatim>\<open>manifest.json\<close>,
    \<^verbatim>\<open>Package_Archive\<close> the ustar headers, the stream that digests what it reads, and
    \<^verbatim>\<open>econtainer_package_verify\<close> with its clean-up.
  \<^item> The Wasm payload of a stored package (\<^verbatim>\<open>src/package_wasm.c\<close>): \<^verbatim>\<open>Package_Wasm\<close> has the reader that
    caches one block, the scans of the sections, imports, exports, functions, memory and code, the
    digest pass and the authorization.
  \<^item> The validator of a slot candidate (\<^verbatim>\<open>src/package_slot.c\<close>,
    \<^verbatim>\<open>include/esp_container_package_slot.h\<close>): \<^verbatim>\<open>Package_Slot\<close>.
  \<^item> What packages promise: \<^verbatim>\<open>Package_Reader\<close> (a scan of the stored payload sees the payload),
    \<^verbatim>\<open>Package_Sections\<close>, \<^verbatim>\<open>Package_Scans\<close> and \<^verbatim>\<open>Package_Refine\<close> (a payload that passes is accepted by
    the scan of the runtime), \<^verbatim>\<open>Package_Frame\<close> (where it reads), \<^verbatim>\<open>Package_Contents\<close> (a verified package
    is a canonical archive of trusted parts), \<^verbatim>\<open>Package_Tar\<close> and \<^verbatim>\<open>Package_Live\<close> (every such archive
    is verified when nothing fails), \<^verbatim>\<open>Package_Memory\<close> (the check of the payload as a function of its
    bytes), \<^verbatim>\<open>Package_Render\<close> and \<^verbatim>\<open>Package_Parse\<close> (the canonical text of a manifest and the texts
    that parse), \<^verbatim>\<open>Package_Work\<close> (how many reads a verification makes), \<^verbatim>\<open>Package_Install\<close> and
    \<^verbatim>\<open>Package_Accept\<close> (the validator inside the slot store), \<^verbatim>\<open>Package_Demo\<close> (a signed package at which
    the theorems are applied), \<^verbatim>\<open>Package_Findings\<close> (inputs at which code and documents differ).
  \<^item> The scan of a Wasm module (\<^verbatim>\<open>src/wasm_scan.c\<close>): \<^verbatim>\<open>Wasm_Cursor\<close> has reads that can be out of
    bounds and LEB128 numbers, \<^verbatim>\<open>Wasm_Scan\<close> the whole file, \<^verbatim>\<open>Wasm_Grammar\<close> a grammar of modules over
    byte lists and the proof that the scan decides it.
  \<^item> The runtime instance (\<^verbatim>\<open>src/runtime.c\<close>, \<^verbatim>\<open>src/runtime_internal.h\<close>): \<^verbatim>\<open>Runtime_Types\<close> the
    structs and the engine as a parameter record; \<^verbatim>\<open>Runtime_Host\<close> the host functions a guest may
    call and \<^verbatim>\<open>invoke\<close>; \<^verbatim>\<open>Runtime_Ops\<close> init, events, stop, log, timers and the guest SDK's decoder of
    timer events (\<^verbatim>\<open>src/guest-sdk/include/econtainer_guest.h\<close>); \<^verbatim>\<open>Runtime_Open\<close> the ABI check, open,
    release and close.
  \<^item> What the runtime promises: \<^verbatim>\<open>Runtime_Effects\<close> (the effect of one host call),
    \<^verbatim>\<open>Runtime_Invariant\<close> (the invariant of an instance and the course of \<^verbatim>\<open>invoke\<close>),
    \<^verbatim>\<open>Runtime_Calls\<close> (the course of a call), \<^verbatim>\<open>Runtime_Steps\<close> (invariant and lifecycle over sequences of
    calls, the arithmetic of periods), \<^verbatim>\<open>Runtime_Timers\<close> (selection of the timer, event bytes),
    \<^verbatim>\<open>Runtime_Entries\<close> (what an accepted and an expired entry say), \<^verbatim>\<open>Runtime_Accounts\<close> and
    \<^verbatim>\<open>Runtime_Admission\<close> (what open acquires, gives back and has checked), \<^verbatim>\<open>Runtime_Demo\<close> (an engine
    and a module at which the theorems are applied).

  \<^bold>\<open>How the parts meet\<close>

  The provider gives the slot store its callbacks: the locales \<^verbatim>\<open>slot_device\<close> and \<^verbatim>\<open>slot_env\<close> are the
  contract the slot store relies on, \<^verbatim>\<open>esp_platform\<close> and \<^verbatim>\<open>provider_env\<close> the documented behaviour of
  ESP-IDF, and \<^verbatim>\<open>sublocale\<close> shows that the provider's functions meet the contract;
  \<^verbatim>\<open>digest_engine\<close> is the contract of the PSA hash and \<^verbatim>\<open>signature_engine\<close> that of the PSA keys;
  \<^verbatim>\<open>live_engine\<close>, \<^verbatim>\<open>live_signature\<close> and \<^verbatim>\<open>reliable_env\<close> add that nothing fails.  A package is read
  through a callback: \<^verbatim>\<open>package_source\<close> says that its reads deliver one snapshot, \<^verbatim>\<open>package_env\<close>
  and \<^verbatim>\<open>package_trust\<close> join it with the digests and the keys, \<^verbatim>\<open>package_live\<close> with a device that does
  not fail, \<^verbatim>\<open>counted_reads\<close> counts the reads.  In the slot store the callback is the bounded
  reader of the candidate: \<^verbatim>\<open>slot_trust\<close> and \<^verbatim>\<open>slot_live\<close> join the contracts of both, and
  \<^verbatim>\<open>sublocale\<close> gives the package contracts for that reader, so the validator of \<^verbatim>\<open>package_slot.c\<close>
  runs inside \<^verbatim>\<open>slots_write_and_prepare\<close> as the code has it.  All of them are interpreted on the
  simulated platform with a signed package in Flash.  What the validator has admitted passes the
  scan of the runtime, by the refinement between the two scans.  \<^verbatim>\<open>evp_contract\<close> is the documented
  behaviour of the EVP calls and, by \<^verbatim>\<open>sublocale\<close>, a \<^verbatim>\<open>digest_engine\<close>; \<^verbatim>\<open>evp_live\<close> adds that no call
  fails.  The runtime calls the scan before it claims the engine; what the scan has accepted is
  stated in terms of the grammar.  \<^verbatim>\<open>guest_contract\<close> is the interface between the host functions and
  the entries: a relation that every effect of a host call respects holds over a whole entry; it is
  interpreted for the fields that no host call touches, for the invariant, for the handles, for
  stopping and for the pending log.

  \<^bold>\<open>Properties\<close>

  \<^item> Slot store (\<^verbatim>\<open>Slots_Properties\<close>): C1 to C3 hold in every run, with power cuts and failing
    callbacks: confirmed packages stay intact, the record is never lost or rolled back, Flash is
    written only in the reserved slot.  C4 says that an update can be completed.  C5 to C9 are
    the refinement of the operations, C10 to C16 what their results certify, C17 and C18 the record,
    C19 and C20 the provider.
  \<^item> Packages (\<^verbatim>\<open>Package_Properties\<close>): C21 says what a prepared slot holds, C22 which packages are
    verified, C23 which candidates the validator accepts, C24 that such a package is installed by
    the calls of the slot store, C25 what the runtime's scan says of a checked payload, C26 which
    manifests are read, C27 where the package is read, C28 how often, C29 that the two branches of
    the crypto file agree.
  \<^item> Scan (\<^verbatim>\<open>Wasm_Properties\<close>): C30 no read outside the module, C31 and C32 equivalence with the
    grammar.
  \<^item> Runtime (\<^verbatim>\<open>Runtime_Properties\<close>): C33 and C40 are about open, C34 is the invariant, C35 the
    lifecycle, C36 the handles, C37 entries, C38 timers, C39 timer events.

  \<^bold>\<open>How the model corresponds to the code\<close>

  \<^item> Machine integers are words of their width and wrap; \<^verbatim>\<open>int32_t\<close> is read with \<open>sint\<close>.  A
    \<^verbatim>\<open>size_t\<close> is a \<open>nat\<close>: the sources guard every subtraction on one.  A pointer that may be NULL is
    an \<open>option\<close>, or a flag where only its being NULL matters.
  \<^item> A call returns \<open>Inl\<close> of the error code or \<open>Inr\<close> of its out-parameters, and the new state.
  \<^item> Power cuts: a run of the slot store is a sequence of calls and of arbitrary steps that keep
    Flash and the record; a callback may have done part of its work when it fails.  What has been
    committed is what the non-volatile blob holds, so a cut inside an operation is a prefix whose
    committed record is the old or the new one.
  \<^item> \<^verbatim>\<open>memcmp\<close> of two structs in \<^verbatim>\<open>slots.c\<close> compares the fields; the structs have no padding that is
    not zeroed first.
  \<^item> WAMR, ESP-IDF and PSA are parameters: records of functions.  A guest entry is a finite tree of
    host calls (\<open>guest_run\<close>), chosen by the engine; the guest may make any call with any argument in
    any order.  The only assumption is that it calls host functions that were registered
    (\<open>engine_links\<close>).  The resource theorem assumes that acquisitions and releases are paired as the
    documentation of the engine says (\<open>accounts\<close>).
  \<^item> \<open>host_fault\<close> and \<open>OUT_OF_BOUNDS\<close> have no counterpart in the program: they mark a write or read
    outside a buffer, and the theorems show that they do not occur.
  \<^item> A parser of the manifest returns \<open>None\<close> for false; a scan of the payload is an action of the
    reader with \<open>Inl ()\<close> for false; a step of the stream returns \<open>Inl\<close> of a result other than OK.
    RSA-PSS and SHA-256 are predicates and functions given by the contracts; C21 to C23 say that
    they were applied to the right bytes, not that they are hard to forge.
  \<^item> Loops are recursion on a measure, or \<open>fold\<close> over the indices where the bound is fixed; every
    definition is total, so no theorem depends on fuel.  The chunk loop of writing a candidate and
    the section loops terminate because each round advances the cursor.
  \<^item> The clock is the \<^verbatim>\<open>ESP_PLATFORM\<close> one: with microseconds in an \<^verbatim>\<open>int64_t\<close>, a deadline stays below
    \<open>2 ^ 54\<close> milliseconds, which is why the value \<^verbatim>\<open>UINT64_MAX\<close> that \<^verbatim>\<open>next_timer_deadline\<close> and
    \<^verbatim>\<open>poll_timer\<close> use for \<^emph>\<open>none\<close> never meets a real deadline.

  \<^bold>\<open>Not modelled\<close>

  \<^item> The POSIX branches of the runtime, which serve its host build.
  \<^item> Concurrency beyond the two atomic flags: the header of the runtime requires one owner thread;
    the claim of a call is modelled, preemption inside a call is not.
  \<^item> The guest example, board glue, Python tools and tests.
\<close>

end
